(* ===== verification/Prelude.thy ===== *)
theory Prelude
  imports Complex_Main "HOL-Library.Word" "HOL-Library.AList"
begin

text \<open>
  The vocabulary the other theories share: Python's values as HOL types, the exceptions of the
  package, byte codecs, insertion-ordered dictionaries, rounding, and the facts about them that
  the component proofs rest on.

  \<^item> A Python \<open>int\<close> is \<open>int\<close> (no overflow), a \<open>bytes\<close> object is a list of
    \<open>8 word\<close>, a \<open>str\<close> is \<open>string\<close> (ASCII). A \<open>float\<close> is a rational: every finite
    double is one, and rounding to 53 bits is not modelled.
  \<^item> A clock read (\<open>time.perf_counter()\<close>) is an argument of the operation that reads it.
  \<^item> An operation that may raise returns \<open>exn + 'a\<close>, \<open>Inl\<close> being the exception; one
    that also changes state returns the new state beside that sum, so that what it wrote before
    raising is kept.
  \<^item> A \<open>dict\<close> whose iteration order matters is an association list; \<open>AList.update\<close>
    overwrites in place or appends, which is the order Python's \<open>dict\<close> has.
\<close>

unbundle bit_operations_syntax

type_synonym byte = "8 word"
type_synonym bytes = "byte list"
type_synonym pyfloat = rat

datatype exn =
    TypeError | ValueError | RuntimeError | AttributeError | IndexError | KeyError
  | StructError | OSError | OverflowError | SubprocessError | ClientException | QueueFull | QueueEmpty | RecursionError
  | DaveError string \<comment> \<open>raised by the DAVE session; \<open>str(exc)\<close> is inspected\<close>
  | NativeError \<comment> \<open>raised by the native module\<close>

type_synonym 'a res = "exn + 'a"

named_theorems py_simps "unfolding of the shared Python vocabulary"

fun is_ok :: "'a res \<Rightarrow> bool" where
  "is_ok (Inr _) = True"
| "is_ok (Inl _) = False"

lemma is_ok_iff [py_simps]: "is_ok r \<longleftrightarrow> (\<exists>v. r = Inr v)"
  by (cases r) auto

text \<open>
  Sequencing of operations that may raise: the state reached so far is kept either way.
\<close>

fun bind_res :: "'a res \<times> 's \<Rightarrow> ('a \<Rightarrow> 's \<Rightarrow> 'b res \<times> 's) \<Rightarrow> 'b res \<times> 's" where
  "bind_res (Inl e, s) f = (Inl e, s)"
| "bind_res (Inr v, s) f = f v s"

lemma bind_res_invI:
  assumes "m = (r, s)" "I s" "\<And>v r s'. f v s = (r, s') \<Longrightarrow> I s'" "bind_res m f = (r', s')"
  shows "I s'"
  using assms by (cases r) auto

text \<open>What a sequence of operations keeps: a projection \<open>f\<close> of the state, or an invariant.\<close>

lemma bind_res_keeps:
  assumes "\<And>v s. f (snd (k v s)) = f s"
  shows "f (snd (bind_res m k)) = f (snd m)"
  by (cases m; cases "fst m") (auto simp: assms)

lemma bind_res_inv:
  assumes "I (snd m)" "\<And>v s. fst m = Inr v \<Longrightarrow> s = snd m \<Longrightarrow> I s \<Longrightarrow> I (snd (k v s))"
  shows "I (snd (bind_res m k))"
  using assms by (cases m; cases "fst m") auto

lemma bind_res_Inr:
  "bind_res m k = (Inr v, s) \<longleftrightarrow> (\<exists>x s'. m = (Inr x, s') \<and> k x s' = (Inr v, s))"
  by (cases m; cases "fst m") auto

text \<open>The same for operations without state, and a list of them run in order.\<close>

fun and_then :: "'a res \<Rightarrow> ('a \<Rightarrow> 'b res) \<Rightarrow> 'b res" where
  "and_then (Inl e) f = Inl e"
| "and_then (Inr v) f = f v"

lemma and_then_Inr: "and_then m f = Inr v \<longleftrightarrow> (\<exists>x. m = Inr x \<and> f x = Inr v)"
  by (cases m) auto

definition map_res :: "('a \<Rightarrow> 'b) \<Rightarrow> 'a res \<Rightarrow> 'b res" where
  "map_res f r = (case r of Inl e \<Rightarrow> Inl e | Inr v \<Rightarrow> Inr (f v))"

lemma map_res_simps [simp]: "map_res f (Inl e) = Inl e" "map_res f (Inr v) = Inr (f v)"
  by (simp_all add: map_res_def)

lemma map_res_Inr: "map_res f m = Inr v \<longleftrightarrow> (\<exists>x. m = Inr x \<and> v = f x)"
  by (cases m) auto

fun sequence_res :: "'a res list \<Rightarrow> 'a list res" where
  "sequence_res [] = Inr []"
| "sequence_res (Inl e # rs) = Inl e"
| "sequence_res (Inr v # rs) = map_res (Cons v) (sequence_res rs)"

text \<open>\<open>needle in hay\<close> and \<open>sep.join(xs)\<close> on strings.\<close>

definition str_contains :: "string \<Rightarrow> string \<Rightarrow> bool" where
  "str_contains needle hay = list_ex (\<lambda>i. take (length needle) (drop i hay) = needle) [0..<length hay + 1]"

fun join :: "string \<Rightarrow> string list \<Rightarrow> string" where
  "join sep [] = []"
| "join sep [x] = x"
| "join sep (x # y # zs) = x @ sep @ join sep (y # zs)"

lemma str_containsI: "str_contains needle (pre @ needle @ post)"
  unfolding str_contains_def list_ex_iff by (intro bexI [of _ "length pre"]) auto


section \<open>Masks on Python integers\<close>

text \<open>The masks of the source are \<open>AND\<close> with \<open>2 ^ n - 1\<close>, that is, remainders.\<close>

lemma and_mask_mod: "(x :: int) AND (2 ^ n - 1) = x mod 2 ^ n"
  by (metis mask_eq_exp_minus_1 take_bit_eq_mask take_bit_eq_mod)

lemma and_1 [simp]: "(x :: int) AND 1 = x mod 2"
  using and_mask_mod [of x 1] by simp

lemma and_1F [simp]: "(x :: int) AND 31 = x mod 32"
  using and_mask_mod [of x 5] by simp

lemma and_3F [simp]: "(x :: int) AND 63 = x mod 64"
  using and_mask_mod [of x 6] by simp

lemma and_7F [simp]: "(x :: int) AND 127 = x mod 128"
  using and_mask_mod [of x 7] by simp

lemma and_FF [simp]: "(x :: int) AND 255 = x mod 256"
  using and_mask_mod [of x 8] by simp

lemma and_FFFF [simp]: "(x :: int) AND 65535 = x mod 65536"
  using and_mask_mod [of x 16] by simp

lemma and_FFFFFF [simp]: "(x :: int) AND 16777215 = x mod 16777216"
  using and_mask_mod [of x 24] by simp

lemma and_FFFFFFFF [simp]: "(x :: int) AND 4294967295 = x mod 4294967296"
  using and_mask_mod [of x 32] by simp

lemma mod_add_diff [py_simps]: "(r + (s - r) mod m) mod m = (s :: int) mod m"
  by (metis add.commute diff_add_cancel mod_add_right_eq)

lemma mod_diff_eq_iff:
  fixes x b d m :: int
  assumes "0 \<le> d" "d < m"
  shows "(x - b) mod m = d \<longleftrightarrow> (b + d) mod m = x mod m"
proof
  assume "(x - b) mod m = d"
  then show "(b + d) mod m = x mod m" using mod_add_diff [of b x m] by simp
next
  assume "(b + d) mod m = x mod m"
  then have "(x - b) mod m = ((b + d) - b) mod m" by (metis mod_diff_left_eq)
  with assms show "(x - b) mod m = d" by simp
qed


section \<open>Byte codecs\<close>

text \<open>
  \<open>int.to_bytes\<close>/\<open>struct.pack\<close> with a fixed width, little and big endian. \<open>struct.pack\<close>
  raises outside the field's range: \<open>in_u\<close> is the check the callers make.
\<close>

fun le_bytes :: "nat \<Rightarrow> int \<Rightarrow> bytes" where
  "le_bytes 0 x = []"
| "le_bytes (Suc n) x = word_of_int x # le_bytes n (x div 256)"

definition be_bytes :: "nat \<Rightarrow> int \<Rightarrow> bytes" where
  "be_bytes n x = rev (le_bytes n x)"

fun from_le :: "bytes \<Rightarrow> int" where
  "from_le [] = 0"
| "from_le (b # bs) = uint b + 256 * from_le bs"

definition from_be :: "bytes \<Rightarrow> int" where
  "from_be bs = from_le (rev bs)"

definition in_u :: "nat \<Rightarrow> int \<Rightarrow> bool" where
  "in_u bits x \<longleftrightarrow> 0 \<le> x \<and> x < 2 ^ bits"

lemma uint_word_of_int_byte [simp]: "uint (word_of_int x :: byte) = x mod 256"
  by (simp add: uint_word_of_int)

lemma uint_byte_bounds: "0 \<le> uint (b :: byte)" "uint (b :: byte) < 256"
  using uint_lt2p [of b] by simp_all

lemma length_le_bytes [simp]: "length (le_bytes n x) = n"
  by (induction n arbitrary: x) auto

lemma length_be_bytes [simp]: "length (be_bytes n x) = n"
  by (simp add: be_bytes_def)

lemma from_le_le_bytes: "from_le (le_bytes n x) = x mod 256 ^ n"
proof (induction n arbitrary: x)
  case 0
  then show ?case by simp
next
  case (Suc n)
  have "x mod 256 ^ Suc n = x mod 256 + 256 * (x div 256 mod 256 ^ n)"
    by (simp add: mod_mult2_eq' zmod_zmult2_eq)
  with Suc show ?case by simp
qed

lemma from_le_le_bytes_id [simp]: "0 \<le> x \<Longrightarrow> x < 256 ^ n \<Longrightarrow> from_le (le_bytes n x) = x"
  by (simp add: from_le_le_bytes)

lemma from_be_be_bytes: "from_be (be_bytes n x) = x mod 256 ^ n"
  by (simp add: from_be_def be_bytes_def from_le_le_bytes)

lemma from_be_be_bytes_id [simp]: "0 \<le> x \<Longrightarrow> x < 256 ^ n \<Longrightarrow> from_be (be_bytes n x) = x"
  by (simp add: from_be_be_bytes)

lemma from_le_bounds: "0 \<le> from_le bs \<and> from_le bs < 256 ^ length bs"
proof (induction bs)
  case Nil
  then show ?case by simp
next
  case (Cons b bs)
  then show ?case using uint_byte_bounds [of b] by auto
qed

lemma from_be_bounds: "0 \<le> from_be bs" "from_be bs < 256 ^ length bs"
  using from_le_bounds [of "rev bs"] by (simp_all add: from_be_def)

lemma word_of_uint_plus: "word_of_int (uint (b :: byte) + 256 * x) = b"
proof -
  have "uint (word_of_int (uint b + 256 * x) :: byte) = uint b"
    using uint_byte_bounds [of b] by (simp only: uint_word_of_int_byte mod_mult_self2 mod_pos_pos_trivial)
  then show ?thesis by (simp only: word_uint_eq_iff)
qed

lemma le_bytes_from_le: "length bs = n \<Longrightarrow> le_bytes n (from_le bs) = bs"
proof (induction bs arbitrary: n)
  case Nil
  then show ?case by simp
next
  case (Cons b bs)
  then obtain m where "n = Suc m" "length bs = m" by (cases n) auto
  moreover have "(uint b + 256 * from_le bs) div 256 = from_le bs"
    using uint_byte_bounds [of b] by (simp add: div_add1_eq)
  moreover have "word_of_int (uint b + 256 * from_le bs) = b"
    by (rule word_of_uint_plus)
  ultimately show ?case using Cons.IH by simp
qed

text \<open>\<open>struct.unpack_from\<close> of one big-endian field at a byte offset.\<close>

definition u16_at :: "bytes \<Rightarrow> nat \<Rightarrow> int" where
  "u16_at bs off = from_be (take 2 (drop off bs))"

definition u32_at :: "bytes \<Rightarrow> nat \<Rightarrow> int" where
  "u32_at bs off = from_be (take 4 (drop off bs))"

lemma u16_at_append [simp]:
  "u16_at (xs @ ys) n = u16_at ys (n - length xs)" if "length xs \<le> n"
  using that by (simp add: u16_at_def)

lemma u32_at_append [simp]:
  "u32_at (xs @ ys) n = u32_at ys (n - length xs)" if "length xs \<le> n"
  using that by (simp add: u32_at_def)

lemma u16_at_be [simp]: "u16_at (be_bytes 2 x @ ys) 0 = x mod 65536"
  by (simp add: u16_at_def from_be_be_bytes)

lemma u32_at_be [simp]: "u32_at (be_bytes 4 x @ ys) 0 = x mod 4294967296"
  by (simp add: u32_at_def from_be_be_bytes)

lemma u32_at_be0 [simp]: "u32_at (be_bytes 4 x) 0 = x mod 4294967296"
  using u32_at_be [of x "[]"] by simp


section \<open>Rounding\<close>

text \<open>Python's \<open>round\<close> to an integer: nearest, ties to even. \<open>int(x)\<close> truncates.\<close>

definition py_round :: "pyfloat \<Rightarrow> int" where
  "py_round x =
     (let f = \<lfloor>x\<rfloor>; d = x - of_int f
      in if d < 1 / 2 then f else if d > 1 / 2 then f + 1 else if even f then f else f + 1)"

definition py_trunc :: "pyfloat \<Rightarrow> int" where
  "py_trunc x = (if x < 0 then \<lceil>x\<rceil> else \<lfloor>x\<rfloor>)"

lemma py_round_of_int [simp]: "py_round (of_int n) = n"
  by (simp add: py_round_def)

lemma py_round_near: "\<bar>of_int (py_round x) - x\<bar> \<le> 1 / 2"
proof -
  have "of_int \<lfloor>x\<rfloor> \<le> x" "x < of_int \<lfloor>x\<rfloor> + 1" by linarith+
  then show ?thesis by (auto simp: py_round_def Let_def abs_le_iff)
qed

lemma py_round_nonneg: "0 \<le> x \<Longrightarrow> 0 \<le> py_round x"
  by (auto simp: py_round_def Let_def)


section \<open>Insertion-ordered dictionaries\<close>

type_synonym ('k, 'v) odict = "('k \<times> 'v) list"

definition keys :: "('k, 'v) odict \<Rightarrow> 'k list" where
  "keys d = map fst d"

definition odict_ok :: "('k, 'v) odict \<Rightarrow> bool" where
  "odict_ok d \<longleftrightarrow> distinct (keys d)"

definition setdefault :: "'k \<Rightarrow> 'v \<Rightarrow> ('k, 'v) odict \<Rightarrow> ('k, 'v) odict" where
  "setdefault k v d = (case map_of d k of None \<Rightarrow> AList.update k v d | Some _ \<Rightarrow> d)"

definition vals :: "('k, 'v) odict \<Rightarrow> 'v list" where
  "vals d = map snd d"

lemma vals_Nil [simp]: "vals [] = []" and vals_Cons [simp]: "vals (p # d) = snd p # vals d"
  by (simp_all add: vals_def)

lemma vals_update_subset: "set (vals (AList.update k v d)) \<subseteq> insert v (set (vals d))"
  by (induction d) auto

lemma vals_delete_subset: "set (vals (AList.delete k d)) \<subseteq> set (vals d)"
  by (auto simp: vals_def AList.delete_eq)

lemma vals_filter_subset: "set (vals (filter P d)) \<subseteq> set (vals d)"
  by (auto simp: vals_def)

lemma map_of_Some_vals: "map_of d k = Some v \<Longrightarrow> v \<in> set (vals d)"
  by (force simp: vals_def dest: map_of_SomeD)

lemma keys_Nil [simp]: "keys [] = []" and keys_Cons [simp]: "keys (p # d) = fst p # keys d"
  by (simp_all add: keys_def)

lemma keys_append [simp]: "keys (d @ e) = keys d @ keys e"
  by (simp add: keys_def)

lemma length_keys [simp]: "length (keys d) = length d"
  by (simp add: keys_def)

lemma odict_ok_Nil [simp]: "odict_ok []"
  by (simp add: odict_ok_def)

lemma odict_ok_update [simp, intro]: "odict_ok d \<Longrightarrow> odict_ok (AList.update k v d)"
  by (simp add: odict_ok_def keys_def distinct_update)

lemma odict_ok_delete [simp, intro]: "odict_ok d \<Longrightarrow> odict_ok (AList.delete k d)"
  by (simp add: odict_ok_def keys_def distinct_delete)

lemma odict_ok_filter [simp, intro]: "odict_ok d \<Longrightarrow> odict_ok (filter P d)"
  by (auto simp: odict_ok_def keys_def distinct_map_filter)

lemma map_of_None_keys: "map_of d k = None \<longleftrightarrow> k \<notin> set (keys d)"
  by (simp add: keys_def map_of_eq_None_iff)

lemma map_of_Some_keys: "map_of d k = Some v \<Longrightarrow> k \<in> set (keys d)"
  by (metis map_of_None_keys option.distinct(1))

lemma keys_filter_subset: "set (keys (filter P d)) \<subseteq> set (keys d)"
  by (auto simp: keys_def)

lemma in_keysI: "(k, v) \<in> set d \<Longrightarrow> k \<in> set (keys d)"
  by (force simp: keys_def)

lemma keys_update: "keys (AList.update k v d) = (if k \<in> set (keys d) then keys d else keys d @ [k])"
  by (simp add: keys_def update_keys)

lemma set_keys_update [simp]: "set (keys (AList.update k v d)) = insert k (set (keys d))"
  by (auto simp: keys_update)

lemma set_keys_delete [simp]: "set (keys (AList.delete k d)) = set (keys d) - {k}"
  by (simp add: keys_def delete_keys)

lemma length_update: "length (AList.update k v d) = (if k \<in> set (keys d) then length d else Suc (length d))"
proof -
  have "length (keys (AList.update k v d)) = length (if k \<in> set (keys d) then keys d else keys d @ [k])"
    by (simp only: keys_update)
  then show ?thesis by simp
qed

lemma update_absent: "k \<notin> set (keys d) \<Longrightarrow> AList.update k v d = d @ [(k, v)]"
  by (induction d) auto

lemma delete_length_less: "k \<in> set (keys d) \<Longrightarrow> length (AList.delete k d) < length d"
proof -
  assume "k \<in> set (keys d)"
  then obtain p where "p \<in> set d" "fst p = k" by (auto simp: keys_def)
  then show ?thesis unfolding AList.delete_eq by (intro length_filter_less [of p]) auto
qed

lemma odict_ok_setdefault [simp, intro]: "odict_ok d \<Longrightarrow> odict_ok (setdefault k v d)"
  by (simp add: setdefault_def split: option.splits)

lemma keys_setdefault: "keys (setdefault k v d) = (if k \<in> set (keys d) then keys d else keys d @ [k])"
  by (auto simp: setdefault_def keys_update map_of_None_keys [symmetric] split: option.splits)

lemma set_setdefault: "set (setdefault k v d) \<subseteq> insert (k, v) (set d)"
  by (auto simp: setdefault_def map_of_None_keys update_absent split: option.splits)

lemma length_setdefault:
  "length (setdefault k v d) = (if k \<in> set (keys d) then length d else Suc (length d))"
  by (auto simp: setdefault_def map_of_None_keys length_update map_of_Some_keys split: option.splits)

lemma update_same: "map_of d k = Some v \<Longrightarrow> AList.update k v d = d"
  by (induction d) auto

lemma update_twice [simp]: "AList.update k v (AList.update k w d) = AList.update k v d"
  by (induction d) auto

lemma delete_update [simp]: "AList.delete k (AList.update k v d) = AList.delete k d"
  by (induction d) auto

lemma map_of_update_eq: "map_of (AList.update k v d) x = (if x = k then Some v else map_of d x)"
  by (simp add: update_conv')

lemma map_entry_map:
  "odict_ok d \<Longrightarrow> AList.map_entry k f d = map (\<lambda>(x, v). (x, if x = k then f v else v)) d"
proof (induction d)
  case (Cons p d)
  have "map (\<lambda>(x, v). (x, if x = fst p then f v else v)) d = d" if "k = fst p"
    using Cons.prems by (intro map_idI) (auto simp: odict_ok_def dest: in_keysI)
  then show ?case using Cons by (cases p) (auto simp: odict_ok_def)
qed simp

lemma keys_map_vals [simp]: "keys (map (\<lambda>(x, v). (x, f x v)) d) = keys d"
  by (induction d) auto

lemma odict_ok_map_vals [simp]: "odict_ok (map (\<lambda>(x, v). (x, f x v)) d) = odict_ok d"
  by (simp add: odict_ok_def)

text \<open>\<open>dict.fromkeys(xs)\<close> as a list: the elements without repetition, first occurrences kept.\<close>

fun unique_order :: "'a list \<Rightarrow> 'a list" where
  "unique_order [] = []"
| "unique_order (x # xs) = x # filter (\<lambda>y. y \<noteq> x) (unique_order xs)"

lemma set_unique_order [simp]: "set (unique_order xs) = set xs"
  by (induction xs) auto

lemma distinct_unique_order [simp]: "distinct (unique_order xs)"
  by (induction xs) auto

lemma unique_order_id: "distinct xs \<Longrightarrow> unique_order xs = xs"
  by (induction xs) (auto simp: filter_id_conv)

text \<open>Slices \<open>xs[i : i + n]\<close> for \<open>i\<close> in \<open>range(0, len(xs), n)\<close>.\<close>

function chunks :: "nat \<Rightarrow> 'a list \<Rightarrow> 'a list list" where
  "chunks n xs = (if n = 0 \<or> xs = [] then [] else take n xs # chunks n (drop n xs))"
  by pat_completeness auto
termination by (relation "measure (\<lambda>(n, xs). length xs)") auto

declare chunks.simps [simp del]

lemma concat_chunks: "0 < n \<Longrightarrow> concat (chunks n xs) = xs"
  by (induction n xs rule: chunks.induct) (subst chunks.simps, auto)

lemma chunks_nonempty: "c \<in> set (chunks n xs) \<Longrightarrow> c \<noteq> [] \<and> length c \<le> n \<and> set c \<subseteq> set xs"
proof (induction n xs rule: chunks.induct)
  case (1 n xs)
  then show ?case
    by (subst (asm) (2) chunks.simps) (auto split: if_splits dest: in_set_takeD in_set_dropD)
qed


section \<open>ASCII case\<close>

definition lower_char :: "char \<Rightarrow> char" where
  "lower_char c = (let n = of_char c :: nat in if 65 \<le> n \<and> n \<le> 90 then char_of (n + 32) else c)"

definition upper_char :: "char \<Rightarrow> char" where
  "upper_char c = (let n = of_char c :: nat in if 97 \<le> n \<and> n \<le> 122 then char_of (n - 32) else c)"

definition lower :: "string \<Rightarrow> string" where
  "lower = map lower_char"

definition upper :: "string \<Rightarrow> string" where
  "upper = map upper_char"

text \<open>Decimal text of an integer: \<open>str(n)\<close>.\<close>

fun digits_of :: "nat \<Rightarrow> string" where
  "digits_of n =
     (if n < 10 then [char_of (48 + n)] else digits_of (n div 10) @ [char_of (48 + n mod 10)])"

declare digits_of.simps [simp del]

definition str_of_int :: "int \<Rightarrow> string" where
  "str_of_int x = (if x < 0 then ''-'' @ digits_of (nat (- x)) else digits_of (nat x))"

end
