(* ===== verification/Rtp.thy ===== *)
theory Rtp
  imports Prelude
begin

text \<open>
  \<open>rtp.py\<close>: the receive-side packet records, sequence-number and timestamp arithmetic, and
  the reorder buffer that sits between RTP decryption and the video depacketizers.
\<close>

section \<open>Packet records\<close>

record RTPExtension =
  ext_id :: int
  ext_data :: bytes

record RTCPReceiverReport =
  rr_sender_ssrc :: int
  rr_source_ssrc :: int
  rr_fraction_lost :: int
  rr_cumulative_lost :: int
  rr_extended_high_sequence :: int
  rr_jitter :: int
  rr_last_sender_report :: int
  rr_delay_since_last_sender_report :: int
  rr_received_at :: pyfloat

record RTPSendStats =
  ss_ssrc :: int
  ss_sequence :: int
  ss_transport_sequence :: "int option"
  ss_updated_at :: pyfloat

record AudioSendStats =
  as_ssrc :: int
  as_packets_sent :: int
  as_octets_sent :: int
  as_last_sequence :: "int option"
  as_updated_at :: "pyfloat option"

record DecodedRTPPacket =
  d_payload_type :: int
  d_marker :: bool
  d_padded :: bool
  d_sequence :: int
  d_timestamp :: int
  d_ssrc :: int
  d_extended :: bool
  d_extension_payload :: bytes
  d_rtp_extensions :: "RTPExtension list"
  d_payload :: bytes

record RTPPacket =
  rp_media_type :: string
  rp_codec :: string
  rp_payload :: bytes
  rp_payload_type :: int
  rp_marker :: bool
  rp_sequence :: int
  rp_timestamp :: int
  rp_ssrc :: int
  rp_user_id :: "int option"
  rp_raw :: bytes
  rp_extension_payload :: bytes
  rp_rtp_extended :: bool
  rp_rtp_extensions :: "RTPExtension list"
  rp_rtx :: bool
  rp_rtx_ssrc :: "int option"
  rp_rtx_payload_type :: "int option"
  rp_audio_level :: "int option"
  rp_audio_voice_activity :: "bool option"

record PendingVideoNack =
  sent_at :: pyfloat
  retries :: int

record ReceivedVideoPacket =
  rv_decoded :: DecodedRTPPacket
  rv_codec :: string
  rv_ssrc :: int
  rv_user_id :: "int option"
  rv_raw :: bytes
  rv_rtp_packet :: RTPPacket
  rv_received_at :: pyfloat

definition received_sequence :: "ReceivedVideoPacket \<Rightarrow> int" where
  "received_sequence p = d_sequence (rv_decoded p) AND 0xFFFF"


section \<open>Constants\<close>

abbreviation (input) "RTCP_RTP_FEEDBACK \<equiv> (205 :: int)"
abbreviation (input) "RTCP_PAYLOAD_FEEDBACK \<equiv> (206 :: int)"
abbreviation (input) "RTCP_SENDER_REPORT \<equiv> (200 :: int)"
abbreviation (input) "RTCP_RECEIVER_REPORT \<equiv> (201 :: int)"
abbreviation (input) "RTCP_GENERIC_NACK \<equiv> (1 :: int)"
abbreviation (input) "RTCP_PICTURE_LOSS_INDICATION \<equiv> (1 :: int)"
abbreviation (input) "RTCP_NACK_MAX_SEQUENCES \<equiv> (0xFD :: nat)"
abbreviation (input) "RTP_TIMESTAMP_MASK \<equiv> (0xFFFFFFFF :: int)"
abbreviation (input) "RTP_TIMESTAMP_HALF_RANGE \<equiv> (2147483648 :: int)"
abbreviation (input) "VIDEO_NACK_MAX_OUTSTANDING \<equiv> (1000 :: nat)"
abbreviation (input) "VIDEO_NACK_MAX_RETRIES \<equiv> (100 :: int)"
abbreviation (input) "VIDEO_NACK_RETRY_INTERVAL \<equiv> (1 / 10 :: pyfloat)"
abbreviation (input) "RTP_EXT_AUDIO_LEVEL \<equiv> (1 :: int)"
abbreviation (input) "RTP_EXT_ABSOLUTE_SEND_TIME \<equiv> (3 :: int)"
abbreviation (input) "RTP_EXT_DISCORD_SPEAKING \<equiv> (9 :: int)"


section \<open>Sequence numbers and timestamps\<close>

definition sequence_delta :: "int \<Rightarrow> int \<Rightarrow> int" where
  "sequence_delta s previous = (s - previous) AND 0xFFFF"

definition unwrap_sequence :: "int \<Rightarrow> int \<Rightarrow> int" where
  "unwrap_sequence s reference =
     (let delta = (s - (reference AND 0xFFFF)) AND 0xFFFF;
          delta = (if delta > 0x7FFF then delta - 0x10000 else delta)
      in reference + delta)"

definition rtp_timestamp_delta :: "int \<Rightarrow> int \<Rightarrow> int option" where
  "rtp_timestamp_delta timestamp base =
     (let delta = (timestamp - base) AND RTP_TIMESTAMP_MASK
      in if delta \<ge> RTP_TIMESTAMP_HALF_RANGE then None else Some delta)"

lemma unwrap_sequence_eq:
  "unwrap_sequence s r =
     (if (s - r) mod 65536 > 32767 then r + (s - r) mod 65536 - 65536 else r + (s - r) mod 65536)"
  by (simp add: unwrap_sequence_def Let_def mod_simps)

lemma unwrap_sequence_mod: "unwrap_sequence s r mod 65536 = s mod 65536"
proof -
  have "(r + (s - r) mod 65536 - 65536) mod 65536 = s mod 65536"
    using mod_add_diff [of r s 65536] by (simp only: minus_mod_self2)
  then show ?thesis by (auto simp only: unwrap_sequence_eq mod_add_diff split: if_split)
qed

lemma unwrap_sequence_near: "- 32768 \<le> unwrap_sequence s r - r" "unwrap_sequence s r - r < 32768"
proof -
  have "0 \<le> (s - r) mod 65536" "(s - r) mod 65536 < 65536"
    by (rule pos_mod_sign pos_mod_bound, simp)+
  then show "- 32768 \<le> unwrap_sequence s r - r" "unwrap_sequence s r - r < 32768"
    unfolding unwrap_sequence_eq by (simp_all only: split: if_split) linarith+
qed

lemma near_unique:
  fixes u v r :: int
  assumes "u mod 65536 = v mod 65536"
    and "- 32768 \<le> u - r" "u - r < 32768" "- 32768 \<le> v - r" "v - r < 32768"
  shows "u = v"
proof -
  have "65536 dvd u - v" using assms(1) by (simp add: mod_eq_dvd_iff)
  moreover have "\<bar>u - v\<bar> < 65536" using assms(2-5) by linarith
  ultimately show ?thesis using zdvd_not_zless [of "\<bar>u - v\<bar>" 65536] by (cases "u = v") auto
qed

text \<open>
  Extending a 16-bit sequence number against a reference picks the one number that has
  those low 16 bits and lies in the window \<open>[reference - 32768, reference + 32768)\<close>.
\<close>

theorem unwrap_sequence_spec:
  "unwrap_sequence s r = u \<longleftrightarrow> u mod 65536 = s mod 65536 \<and> r - 32768 \<le> u \<and> u < r + 32768"
  using near_unique [of u "unwrap_sequence s r" r] unwrap_sequence_mod [of s r]
    unwrap_sequence_near [of s r] by (auto simp: algebra_simps)

lemma unwrap_sequence_id: "0 \<le> s \<Longrightarrow> s < 65536 \<Longrightarrow> unwrap_sequence s s = s"
  by (simp add: unwrap_sequence_def)

lemma sequence_delta_bounds: "0 \<le> sequence_delta s p" "sequence_delta s p < 65536"
  by (simp_all add: sequence_delta_def)

lemma sequence_delta_add: "(p + sequence_delta s p) mod 65536 = s mod 65536"
  by (simp add: sequence_delta_def mod_simps)

text \<open>
  The timestamp delta is defined exactly for timestamps up to half the 32-bit range ahead of
  the base, and is then the number of ticks that leads from the base to the timestamp.
\<close>

theorem rtp_timestamp_delta_spec:
  "rtp_timestamp_delta ts base = Some d \<longleftrightarrow>
     0 \<le> d \<and> d < 2 ^ 31 \<and> (base + d) mod 2 ^ 32 = ts mod 2 ^ 32"
proof -
  have "rtp_timestamp_delta ts base = Some d \<longleftrightarrow>
      (ts - base) mod 4294967296 = d \<and> 0 \<le> d \<and> d < 2147483648"
    using pos_mod_sign [of 4294967296 "ts - base"]
    by (auto simp: rtp_timestamp_delta_def Let_def)
  also have "\<dots> \<longleftrightarrow> 0 \<le> d \<and> d < 2147483648 \<and> (base + d) mod 4294967296 = ts mod 4294967296"
    using mod_diff_eq_iff [of d 4294967296 ts base] by auto
  finally show ?thesis by simp
qed


section \<open>The reorder buffer\<close>

text \<open>
  \<open>_VideoReceiveReorderBuffer\<close>: packets keyed by extended sequence number, released in order
  from \<open>expected_sequence\<close> on; a gap is waited for until too many packets are held or the
  oldest wait is \<open>max_delay\<close> old, and then skipped. The counters move only with
  \<open>debug_stats\<close> on.
\<close>

record reorder_buffer =
  rb_max_packets :: int
  rb_max_delay :: pyfloat
  rb_debug_stats :: bool
  rb_expected :: "int option"
  rb_blocked_at :: "pyfloat option"
  rb_packets :: "(int, ReceivedVideoPacket) odict"
  rb_packets_pushed :: int
  rb_duplicate_packets :: int
  rb_old_packets :: int
  rb_waits :: int
  rb_flushes :: int
  rb_skipped_packets :: int
  rb_ready_packets :: int
  rb_max_buffered :: int

definition new_reorder_buffer :: "int \<Rightarrow> pyfloat \<Rightarrow> bool \<Rightarrow> reorder_buffer" where
  "new_reorder_buffer max_packets max_delay debug_stats =
     \<lparr>rb_max_packets = max_packets, rb_max_delay = max_delay, rb_debug_stats = debug_stats,
      rb_expected = None, rb_blocked_at = None, rb_packets = [], rb_packets_pushed = 0,
      rb_duplicate_packets = 0, rb_old_packets = 0, rb_waits = 0, rb_flushes = 0,
      rb_skipped_packets = 0, rb_ready_packets = 0, rb_max_buffered = 0\<rparr>"

definition rb_count :: "(reorder_buffer \<Rightarrow> reorder_buffer) \<Rightarrow> reorder_buffer \<Rightarrow> reorder_buffer" where
  "rb_count f b = (if rb_debug_stats b then f b else b)"

text \<open>The loop of \<open>_pop_ready\<close>: each round takes one packet out of the dictionary.\<close>

function drain ::
  "int \<Rightarrow> (int, 'p) odict \<Rightarrow> 'p list \<times> int \<times> (int, 'p) odict" where
  "drain expected d =
     (case map_of d expected of
        None \<Rightarrow> ([], expected, d)
      | Some p \<Rightarrow>
          (let (ready, e, d') = drain (expected + 1) (AList.delete expected d)
           in (p # ready, e, d')))"
  by pat_completeness auto
termination
  by (relation "measure (\<lambda>(e, d). length d)")
     (auto intro!: delete_length_less dest: map_of_Some_keys)

declare drain.simps [simp del]

definition pop_ready :: "reorder_buffer \<Rightarrow> ReceivedVideoPacket list \<times> reorder_buffer" where
  "pop_ready b =
     (case rb_expected b of
        None \<Rightarrow> ([], b)
      | Some e \<Rightarrow>
          (let (ready, e', d) = drain e (rb_packets b)
           in (ready, b\<lparr>rb_packets := d, rb_expected := Some e'\<rparr>)))"

definition reorder_flush :: "int \<Rightarrow> reorder_buffer \<Rightarrow> ReceivedVideoPacket list \<times> reorder_buffer" where
  "reorder_flush previous_expected b =
     (let e = Min (set (keys (rb_packets b)));
          b = b\<lparr>rb_expected := Some e\<rparr>;
          b = rb_count (\<lambda>b. b\<lparr>rb_skipped_packets := rb_skipped_packets b + (e - previous_expected)\<rparr>) b;
          b = b\<lparr>rb_blocked_at := None\<rparr>;
          b = rb_count (\<lambda>b. b\<lparr>rb_flushes := rb_flushes b + 1\<rparr>) b;
          (ready, b) = pop_ready b
      in (ready, rb_count (\<lambda>b. b\<lparr>rb_ready_packets := rb_ready_packets b + int (length ready)\<rparr>) b))"

text \<open>\<open>push\<close> after an insertion that released nothing: wait for the gap, or skip it.\<close>

definition reorder_blocked ::
  "pyfloat \<Rightarrow> int \<Rightarrow> reorder_buffer \<Rightarrow> ReceivedVideoPacket list \<times> reorder_buffer"
where
  "reorder_blocked now expected b =
     (let blocked = (case rb_blocked_at b of None \<Rightarrow> now | Some t \<Rightarrow> t);
          b = b\<lparr>rb_blocked_at := Some blocked\<rparr>
      in if int (length (rb_packets b)) \<le> rb_max_packets b \<and> now - blocked < rb_max_delay b
         then ([], rb_count (\<lambda>b. b\<lparr>rb_waits := rb_waits b + 1\<rparr>) b)
         else reorder_flush expected b)"

text \<open>\<open>push\<close> from the insertion of a packet that is not too old.\<close>

definition reorder_store ::
  "int \<Rightarrow> ReceivedVideoPacket \<Rightarrow> reorder_buffer \<Rightarrow> reorder_buffer"
where
  "reorder_store u packet b =
     (let b = (if u \<in> set (keys (rb_packets b))
               then rb_count (\<lambda>b. b\<lparr>rb_duplicate_packets := rb_duplicate_packets b + 1\<rparr>) b
               else b);
          b = b\<lparr>rb_packets := setdefault u packet (rb_packets b)\<rparr>
      in rb_count (\<lambda>b. b\<lparr>rb_max_buffered :=
                         max (rb_max_buffered b) (int (length (rb_packets b)))\<rparr>) b)"

definition reorder_insert ::
  "pyfloat \<Rightarrow> int \<Rightarrow> int \<Rightarrow> ReceivedVideoPacket \<Rightarrow> reorder_buffer
     \<Rightarrow> ReceivedVideoPacket list \<times> reorder_buffer"
where
  "reorder_insert now expected u packet b =
     (let (ready, b) = pop_ready (reorder_store u packet b)
      in if ready \<noteq> []
         then (ready, rb_count (\<lambda>b. b\<lparr>rb_ready_packets := rb_ready_packets b + int (length ready)\<rparr>)
                        (b\<lparr>rb_blocked_at := None\<rparr>))
         else reorder_blocked now expected b)"

definition reorder_push ::
  "pyfloat \<Rightarrow> ReceivedVideoPacket \<Rightarrow> reorder_buffer \<Rightarrow> ReceivedVideoPacket list \<times> reorder_buffer"
where
  "reorder_push now packet b =
     (let s = received_sequence packet;
          b = rb_count (\<lambda>b. b\<lparr>rb_packets_pushed := rb_packets_pushed b + 1\<rparr>) b;
          (expected, u) = (case rb_expected b of None \<Rightarrow> (s, s) | Some e \<Rightarrow> (e, unwrap_sequence s e));
          b = b\<lparr>rb_expected := Some expected\<rparr>
      in if u < expected
         then ([], rb_count (\<lambda>b. b\<lparr>rb_old_packets := rb_old_packets b + 1\<rparr>) b)
         else reorder_insert now expected u packet b)"

fun reorder_push_all ::
  "(pyfloat \<times> ReceivedVideoPacket) list \<Rightarrow> reorder_buffer \<Rightarrow> ReceivedVideoPacket list \<times> reorder_buffer"
where
  "reorder_push_all [] b = ([], b)"
| "reorder_push_all ((now, p) # ps) b =
     (let (r, b) = reorder_push now p b; (rs, b) = reorder_push_all ps b in (r @ rs, b))"

subsection \<open>Draining\<close>

lemma drain_spec:
  assumes "drain e d = (r, e', d')" "odict_ok d" "\<forall>k \<in> set (keys d). e \<le> k"
  shows "e' = e + int (length r) \<and> d' = filter (\<lambda>p. e' \<le> fst p) d
    \<and> e' \<notin> set (keys d') \<and> map Some r = map (map_of d) [e..e' - 1]"
  using assms
proof (induction e d arbitrary: r e' d' rule: drain.induct)
  case (1 e d)
  show ?case
  proof (cases "map_of d e")
    case None
    with "1.prems" have "r = []" "e' = e" "d' = d" by (simp_all add: drain.simps)
    with None "1.prems"(3) show ?thesis
      by (auto simp: map_of_None_keys keys_def intro!: filter_True [symmetric])
  next
    case (Some p)
    then obtain r1 where dr: "drain (e + 1) (AList.delete e d) = (r1, e', d')" and r: "r = p # r1"
      using "1.prems"(1) by (auto simp: drain.simps [of e d] split: prod.splits)
    have "\<forall>k \<in> set (keys (AList.delete e d)). e + 1 \<le> k" using "1.prems"(3) by auto
    with "1.IH" [OF Some dr] "1.prems"(2) have IH: "e' = e + 1 + int (length r1)"
      "d' = filter (\<lambda>p. e' \<le> fst p) (AList.delete e d)" "e' \<notin> set (keys d')"
      "map Some r1 = map (map_of (AList.delete e d)) [e + 1..e' - 1]" by auto
    have "filter (\<lambda>p. e' \<le> fst p) (AList.delete e d) = filter (\<lambda>p. e' \<le> fst p) d"
      using IH(1) unfolding AList.delete_eq filter_filter by (intro filter_cong) auto
    moreover have "map (map_of (AList.delete e d)) [e + 1..e' - 1] = map (map_of d) [e + 1..e' - 1]"
      by (intro map_cong) (auto simp: delete_conv)
    moreover have "[e..e' - 1] = e # [e + 1..e' - 1]" using IH(1) by (subst upto_rec1) auto
    ultimately show ?thesis using IH Some r by simp
  qed
qed


subsection \<open>Invariant and delivery\<close>

definition tagged :: "(int, ReceivedVideoPacket) odict \<Rightarrow> bool" where
  "tagged d \<longleftrightarrow> odict_ok d \<and> (\<forall>(k, p) \<in> set d. received_sequence p = k mod 65536)"

definition beyond :: "int \<Rightarrow> (int, 'p) odict \<Rightarrow> bool" where
  "beyond e d \<longleftrightarrow> (\<forall>k \<in> set (keys d). e < k)"

definition rb_inv :: "reorder_buffer \<Rightarrow> bool" where
  "rb_inv b \<longleftrightarrow>
     tagged (rb_packets b)
     \<and> (case rb_expected b of None \<Rightarrow> rb_packets b = [] | Some e \<Rightarrow> beyond e (rb_packets b))
     \<and> 0 \<le> rb_max_packets b \<and> int (length (rb_packets b)) \<le> rb_max_packets b"

lemma tagged_filter [simp, intro]: "tagged d \<Longrightarrow> tagged (filter P d)"
  by (auto simp: tagged_def)

lemma tagged_setdefault [intro]:
  "tagged d \<Longrightarrow> received_sequence p = u mod 65536 \<Longrightarrow> tagged (setdefault u p d)"
  using set_setdefault [of u p d] by (fastforce simp: tagged_def)

lemma rb_count_frame [simp]:
  "(rb_packets (f b) = rb_packets b) \<Longrightarrow> rb_packets (rb_count f b) = rb_packets b"
  "(rb_expected (f b) = rb_expected b) \<Longrightarrow> rb_expected (rb_count f b) = rb_expected b"
  "(rb_blocked_at (f b) = rb_blocked_at b) \<Longrightarrow> rb_blocked_at (rb_count f b) = rb_blocked_at b"
  "(rb_max_packets (f b) = rb_max_packets b) \<Longrightarrow> rb_max_packets (rb_count f b) = rb_max_packets b"
  "(rb_max_delay (f b) = rb_max_delay b) \<Longrightarrow> rb_max_delay (rb_count f b) = rb_max_delay b"
  by (simp_all add: rb_count_def)

lemma map_tagged:
  assumes "map Some r = map (map_of d) ks" "\<forall>(k, p) \<in> set d. f p = g k"
  shows "map f r = map g ks \<and> set r \<subseteq> snd ` set d"
proof -
  have len: "length r = length ks" using assms(1) map_eq_imp_length_eq by blast
  have el: "(ks ! i, r ! i) \<in> set d" if "i < length r" for i
  proof -
    have "map Some r ! i = map (map_of d) ks ! i" by (simp only: assms(1))
    then have "map_of d (ks ! i) = Some (r ! i)" using that len by simp
    then show ?thesis by (rule map_of_SomeD)
  qed
  then have "map f r = map g ks" using assms(2) len by (intro nth_equalityI) auto
  moreover have "set r \<subseteq> snd ` set d" using el by (force simp: set_conv_nth)
  ultimately show ?thesis ..
qed

text \<open>
  What one of the operations does to a buffer: the extended numbers of what it returns are
  consecutive and start at \<open>lo\<close>, and everything it keeps lies beyond them.
\<close>

definition releases ::
  "int \<Rightarrow> reorder_buffer \<Rightarrow> ReceivedVideoPacket list \<Rightarrow> reorder_buffer \<Rightarrow> bool"
where
  "releases lo b r b' \<longleftrightarrow>
     map received_sequence r = map (\<lambda>u. u mod 65536) [lo..lo + int (length r) - 1]
     \<and> rb_expected b' = Some (lo + int (length r)) \<and> beyond (lo + int (length r)) (rb_packets b')
     \<and> rb_max_packets b' = rb_max_packets b \<and> rb_max_delay b' = rb_max_delay b
     \<and> rb_packets b' = filter (\<lambda>p. lo + int (length r) \<le> fst p) (rb_packets b)
     \<and> set r \<subseteq> snd ` set (rb_packets b)"

lemma releases_length:
  assumes "releases lo b r b'" "lo \<in> set (keys (rb_packets b))"
  shows "r \<noteq> []" "length (rb_packets b') < length (rb_packets b)"
proof -
  show "r \<noteq> []"
  proof
    assume "r = []"
    then have *: "rb_packets b' = filter (\<lambda>p. lo \<le> fst p) (rb_packets b)" "beyond lo (rb_packets b')"
      using assms(1) by (auto simp: releases_def)
    have "lo \<in> set (keys (rb_packets b'))" using assms(2) by (auto simp: *(1) keys_def)
    with *(2) show False by (auto simp: beyond_def)
  qed
  then have "lo < lo + int (length r)" by (cases r) auto
  then have "\<exists>x \<in> set (rb_packets b). \<not> lo + int (length r) \<le> fst x"
    using assms(2) by (force simp: keys_def)
  then show "length (rb_packets b') < length (rb_packets b)"
    using assms(1) by (auto simp: releases_def intro!: length_filter_less)
qed

lemma pop_ready_spec:
  assumes "pop_ready b = (r, b')" "rb_expected b = Some e" "tagged (rb_packets b)"
    and "\<forall>k \<in> set (keys (rb_packets b)). e \<le> k"
  shows "releases e b r b'" and "rb_blocked_at b' = rb_blocked_at b"
proof -
  obtain e' d' where dr: "drain e (rb_packets b) = (r, e', d')"
    and b': "b' = b\<lparr>rb_packets := d', rb_expected := Some e'\<rparr>"
    using assms(1,2) by (auto simp: pop_ready_def split: prod.splits)
  have ok: "odict_ok (rb_packets b)" using assms(3) by (simp add: tagged_def)
  note sp = drain_spec [OF dr ok assms(4)]
  have "beyond e' d'" unfolding beyond_def
  proof
    fix k assume k: "k \<in> set (keys d')"
    then have "e' \<le> k" using sp by (auto simp: keys_def)
    with k sp show "e' < k" by (cases "k = e'") auto
  qed
  moreover have "map received_sequence r = map (\<lambda>u. u mod 65536) [e..e' - 1]
      \<and> set r \<subseteq> snd ` set (rb_packets b)"
    using sp assms(3) by (intro map_tagged) (auto simp: tagged_def)
  ultimately show "releases e b r b'" "rb_blocked_at b' = rb_blocked_at b"
    using sp b' by (simp_all add: releases_def)
qed

lemma reorder_flush_spec:
  assumes "reorder_flush pe b = (r, b')" "tagged (rb_packets b)" "rb_packets b \<noteq> []"
  shows "releases (Min (set (keys (rb_packets b)))) b r b'" and "rb_blocked_at b' = None"
proof -
  let ?lo = "Min (set (keys (rb_packets b)))"
  define b1 where "b1 = rb_count (\<lambda>b. b\<lparr>rb_flushes := rb_flushes b + 1\<rparr>)
    (rb_count (\<lambda>b. b\<lparr>rb_skipped_packets := rb_skipped_packets b + (?lo - pe)\<rparr>)
       (b\<lparr>rb_expected := Some ?lo\<rparr>)\<lparr>rb_blocked_at := None\<rparr>)"
  obtain b2 where pr: "pop_ready b1 = (r, b2)"
    and b': "b' = rb_count (\<lambda>b. b\<lparr>rb_ready_packets := rb_ready_packets b + int (length r)\<rparr>) b2"
    using assms(1) by (auto simp: reorder_flush_def Let_def b1_def split: prod.splits)
  have f: "rb_packets b1 = rb_packets b" "rb_expected b1 = Some ?lo" "rb_blocked_at b1 = None"
    "rb_max_packets b1 = rb_max_packets b" "rb_max_delay b1 = rb_max_delay b" by (simp_all add: b1_def)
  have "releases ?lo b1 r b2" "rb_blocked_at b2 = None"
    using pop_ready_spec [OF pr f(2)] f assms(2) by auto
  then show "releases ?lo b r b'" "rb_blocked_at b' = None" by (auto simp: b' releases_def f)
qed

lemma Min_keys:
  assumes "d \<noteq> []"
  shows "Min (set (keys d)) \<in> set (keys d)" "k \<in> set (keys d) \<Longrightarrow> Min (set (keys d)) \<le> k"
proof -
  have "set (keys d) \<noteq> {}" using assms by (cases d) auto
  then show "Min (set (keys d)) \<in> set (keys d)" "k \<in> set (keys d) \<Longrightarrow> Min (set (keys d)) \<le> k"
    by auto
qed

text \<open>The contract of one push; \<open>e\<close> is the number expected before it.\<close>

definition push_ok ::
  "int \<Rightarrow> ReceivedVideoPacket set \<Rightarrow> reorder_buffer \<Rightarrow> ReceivedVideoPacket list \<Rightarrow> reorder_buffer \<Rightarrow> bool"
where
  "push_ok e P b r b' \<longleftrightarrow> rb_inv b' \<and> set r \<union> snd ` set (rb_packets b') \<subseteq> P
     \<and> rb_max_packets b' = rb_max_packets b \<and> rb_max_delay b' = rb_max_delay b
     \<and> (\<exists>lo. e \<le> lo \<and> rb_expected b' = Some (lo + int (length r))
           \<and> map received_sequence r = map (\<lambda>u. u mod 65536) [lo..lo + int (length r) - 1])"

lemma push_ok_weaken:
  assumes "push_ok e P b1 r b2" "P \<subseteq> Q"
    and "rb_max_packets b1 = rb_max_packets b" "rb_max_delay b1 = rb_max_delay b"
    and "rb_packets b3 = rb_packets b2" "rb_expected b3 = rb_expected b2"
    and "rb_max_packets b3 = rb_max_packets b2" "rb_max_delay b3 = rb_max_delay b2"
  shows "push_ok e Q b r b3"
proof -
  have "rb_inv b3 = rb_inv b2" using assms(5-) by (auto simp: rb_inv_def split: option.splits)
  then show ?thesis using assms(1,3-) subset_trans [OF _ assms(2)] by (simp add: push_ok_def)
qed

lemma releases_push_ok:
  assumes "releases lo b r b'" "tagged (rb_packets b)" "lo \<in> set (keys (rb_packets b))"
    and "e \<le> lo" "0 \<le> rb_max_packets b" "int (length (rb_packets b)) \<le> rb_max_packets b + 1"
  shows "push_ok e (snd ` set (rb_packets b)) b r b'"
proof -
  have "int (length (rb_packets b')) \<le> rb_max_packets b"
    using releases_length(2) [OF assms(1,3)] assms(6) by linarith
  with assms show ?thesis unfolding push_ok_def rb_inv_def releases_def
    by (intro conjI exI [of _ lo]) auto
qed

lemma reorder_blocked_ok:
  assumes "reorder_blocked now e b = (r, b')" "tagged (rb_packets b)" "rb_packets b \<noteq> []"
    and "rb_expected b = Some e" "beyond e (rb_packets b)"
    and "0 \<le> rb_max_packets b" "int (length (rb_packets b)) \<le> rb_max_packets b + 1"
  shows "push_ok e (snd ` set (rb_packets b)) b r b'"
proof -
  define t where "t = (case rb_blocked_at b of None \<Rightarrow> now | Some t \<Rightarrow> t)"
  define b1 where "b1 = b\<lparr>rb_blocked_at := Some t\<rparr>"
  show ?thesis
  proof (cases "int (length (rb_packets b)) \<le> rb_max_packets b \<and> now - t < rb_max_delay b")
    case True
    then have "r = []" "b' = rb_count (\<lambda>b. b\<lparr>rb_waits := rb_waits b + 1\<rparr>) b1"
      using assms(1) by (auto simp: reorder_blocked_def Let_def t_def b1_def split: option.splits)
    then show ?thesis using assms True
      by (auto simp: push_ok_def rb_inv_def b1_def intro!: exI [of _ e])
  next
    case False
    then have fl: "reorder_flush e b1 = (r, b')"
      using assms(1) by (auto simp: reorder_blocked_def Let_def t_def b1_def split: option.splits)
    let ?lo = "Min (set (keys (rb_packets b)))"
    have "releases ?lo b1 r b'"
      using reorder_flush_spec(1) [OF fl] assms(2,3) by (simp add: b1_def)
    then have "push_ok e (snd ` set (rb_packets b1)) b1 r b'"
      using Min_keys(1) [OF assms(3)] assms by (intro releases_push_ok) (auto simp: b1_def beyond_def)
    then show ?thesis by (simp add: push_ok_def b1_def)
  qed
qed

lemma reorder_store_simps [simp]:
  "rb_packets (reorder_store u p b) = setdefault u p (rb_packets b)"
  "rb_expected (reorder_store u p b) = rb_expected b"
  "rb_blocked_at (reorder_store u p b) = rb_blocked_at b"
  "rb_max_packets (reorder_store u p b) = rb_max_packets b"
  "rb_max_delay (reorder_store u p b) = rb_max_delay b"
  by (simp_all add: reorder_store_def Let_def)

lemma reorder_insert_ok:
  assumes ri: "reorder_insert now e u p b = (r, b')" and tag: "tagged (rb_packets b)"
    and exp: "rb_expected b = Some e" and abv: "beyond e (rb_packets b)"
    and u: "e \<le> u" "received_sequence p = u mod 65536"
    and len: "0 \<le> rb_max_packets b" "int (length (rb_packets b)) \<le> rb_max_packets b"
  shows "push_ok e (insert p (snd ` set (rb_packets b))) b r b'"
proof -
  let ?b = "reorder_store u p b"
  obtain r1 b1 where pr: "pop_ready ?b = (r1, b1)" by (cases "pop_ready ?b")
  have tag1: "tagged (rb_packets ?b)" using tag u by auto
  have sub: "snd ` set (rb_packets ?b) \<subseteq> insert p (snd ` set (rb_packets b))"
    using set_setdefault [of u p "rb_packets b"] by force
  have keys1: "\<forall>k \<in> set (keys (rb_packets ?b)). e \<le> k"
    using abv u by (auto simp: beyond_def keys_setdefault)
  have len1: "int (length (rb_packets ?b)) \<le> rb_max_packets ?b + 1"
    using len by (simp add: length_setdefault)
  have ne: "rb_packets ?b \<noteq> []"
    using length_setdefault [of u p "rb_packets b"] by (auto split: if_splits)
  note rel = pop_ready_spec [OF pr _ tag1 keys1, unfolded reorder_store_simps, OF exp]
  show ?thesis
  proof (cases "r1 = []")
    case False
    then have r: "r = r1" and b': "b' = rb_count
        (\<lambda>b. b\<lparr>rb_ready_packets := rb_ready_packets b + int (length r1)\<rparr>) (b1\<lparr>rb_blocked_at := None\<rparr>)"
      using ri pr by (auto simp: reorder_insert_def)
    have "e \<in> set (keys (rb_packets ?b))"
    proof (rule ccontr)
      assume "e \<notin> set (keys (rb_packets ?b))"
      then have "drain e (rb_packets ?b) = ([], e, rb_packets ?b)"
        by (simp add: drain.simps map_of_None_keys [symmetric])
      with pr exp False show False by (simp add: pop_ready_def)
    qed
    then have "push_ok e (snd ` set (rb_packets ?b)) ?b r1 b1"
      using rel tag1 len1 len by (intro releases_push_ok) (auto simp: releases_def)
    then show ?thesis unfolding r b' by (rule push_ok_weaken) (use sub in simp_all)
  next
    case True
    then have bl: "reorder_blocked now e b1 = (r, b')" using ri pr by (simp add: reorder_insert_def)
    have "rb_packets b1 = rb_packets ?b" using rel True keys1
      by (auto simp: releases_def keys_def intro!: filter_True)
    moreover have "rb_expected b1 = Some e" "beyond e (rb_packets b1)"
      "rb_max_packets b1 = rb_max_packets b" "rb_max_delay b1 = rb_max_delay b"
      using rel(1) True by (auto simp: releases_def)
    ultimately have "push_ok e (snd ` set (rb_packets b1)) b1 r b'" "rb_packets b1 = rb_packets ?b"
      using reorder_blocked_ok [OF bl] tag1 ne len1 len(1) by simp_all
    then show ?thesis
      by (elim push_ok_weaken) (use sub rel(1) in \<open>simp_all add: releases_def\<close>)
  qed
qed

lemma reorder_push_ok:
  assumes inv: "rb_inv b" and p: "reorder_push now p b = (r, b')"
    and e: "e = (case rb_expected b of None \<Rightarrow> received_sequence p | Some e \<Rightarrow> e)"
  shows "push_ok e (insert p (snd ` set (rb_packets b))) b r b'"
proof -
  let ?s = "received_sequence p"
  define u where "u = (case rb_expected b of None \<Rightarrow> ?s | Some e \<Rightarrow> unwrap_sequence ?s e)"
  define b1 where "b1 = (rb_count (\<lambda>b. b\<lparr>rb_packets_pushed := rb_packets_pushed b + 1\<rparr>) b)
    \<lparr>rb_expected := Some e\<rparr>"
  have "?s mod 65536 = ?s" by (simp add: received_sequence_def)
  then have u_mod: "?s = u mod 65536" by (simp add: u_def unwrap_sequence_mod split: option.splits)
  have f1: "rb_packets b1 = rb_packets b" "rb_max_packets b1 = rb_max_packets b"
    "rb_max_delay b1 = rb_max_delay b" "rb_expected b1 = Some e" by (simp_all add: b1_def)
  have i: "tagged (rb_packets b)" "beyond e (rb_packets b)" "0 \<le> rb_max_packets b"
    "int (length (rb_packets b)) \<le> rb_max_packets b"
    using inv e by (auto simp: rb_inv_def beyond_def split: option.splits)
  have push: "reorder_push now p b =
      (if u < e then ([], rb_count (\<lambda>b. b\<lparr>rb_old_packets := rb_old_packets b + 1\<rparr>) b1)
       else reorder_insert now e u p b1)"
    by (simp add: reorder_push_def e u_def b1_def Let_def split: option.splits)
  show ?thesis
  proof (cases "u < e")
    case True
    then have "r = []" "b' = rb_count (\<lambda>b. b\<lparr>rb_old_packets := rb_old_packets b + 1\<rparr>) b1"
      using p push by simp_all
    then show ?thesis using f1 i by (auto simp: push_ok_def rb_inv_def intro!: exI [of _ e])
  next
    case False
    then have "push_ok e (insert p (snd ` set (rb_packets b1))) b1 r b'"
      using p push f1 i u_mod by (intro reorder_insert_ok) auto
    then show ?thesis by (simp add: push_ok_def f1)
  qed
qed


lemma new_reorder_buffer_inv: "0 \<le> m \<Longrightarrow> rb_inv (new_reorder_buffer m d dbg)"
  by (simp add: rb_inv_def new_reorder_buffer_def tagged_def)

lemma reorder_push_inv: "rb_inv b \<Longrightarrow> reorder_push now p b = (r, b') \<Longrightarrow> rb_inv b'"
  using reorder_push_ok by (auto simp: push_ok_def)

lemma sorted_upto_append:
  assumes "sorted_wrt (<) us" "\<forall>u \<in> set us. hi \<le> u" "lo + int n \<le> hi"
  shows "sorted_wrt (<) ([lo..lo + int n - 1] @ us)"
  using assms by (auto simp: sorted_wrt_append intro: sorted_wrt_upto)

lemma push_all_ordered:
  assumes "rb_inv b" "reorder_push_all ps b = (r, b')"
  shows "rb_inv b' \<and> rb_max_packets b' = rb_max_packets b
    \<and> set r \<union> snd ` set (rb_packets b') \<subseteq> snd ` set ps \<union> snd ` set (rb_packets b)
    \<and> (\<exists>us. sorted_wrt (<) us \<and> map received_sequence r = map (\<lambda>u. u mod 65536) us
          \<and> (\<forall>e. rb_expected b = Some e \<longrightarrow> (\<forall>u \<in> set us. e \<le> u)))"
  using assms
proof (induction ps arbitrary: b r)
  case Nil
  then show ?case by auto
next
  case (Cons q ps)
  obtain now p where q: "q = (now, p)" by (cases q)
  obtain r1 b1 where push: "reorder_push now p b = (r1, b1)" by (cases "reorder_push now p b")
  obtain r2 where rest: "reorder_push_all ps b1 = (r2, b')" and r: "r = r1 @ r2"
    using Cons.prems(2) push q by (auto split: prod.splits)
  define e where "e = (case rb_expected b of None \<Rightarrow> received_sequence p | Some e \<Rightarrow> e)"
  have ok: "push_ok e (insert p (snd ` set (rb_packets b))) b r1 b1"
    using reorder_push_ok [OF Cons.prems(1) push] e_def by simp
  then obtain lo where lo: "e \<le> lo" "rb_expected b1 = Some (lo + int (length r1))"
    "map received_sequence r1 = map (\<lambda>u. u mod 65536) [lo..lo + int (length r1) - 1]"
    by (auto simp: push_ok_def)
  have inv1: "rb_inv b1" using ok by (simp add: push_ok_def)
  from Cons.IH [OF inv1 rest] obtain us where us: "sorted_wrt (<) us"
    "map received_sequence r2 = map (\<lambda>u. u mod 65536) us" "\<forall>u \<in> set us. lo + int (length r1) \<le> u"
    and IH: "rb_inv b'" "rb_max_packets b' = rb_max_packets b1"
    "set r2 \<union> snd ` set (rb_packets b') \<subseteq> snd ` set ps \<union> snd ` set (rb_packets b1)"
    using lo(2) by auto
  let ?us = "[lo..lo + int (length r1) - 1] @ us"
  have "sorted_wrt (<) ?us" using us by (intro sorted_upto_append) auto
  moreover have "map received_sequence r = map (\<lambda>u. u mod 65536) ?us" by (simp add: r lo us)
  moreover have "\<forall>e0. rb_expected b = Some e0 \<longrightarrow> (\<forall>u \<in> set ?us. e0 \<le> u)"
    using lo(1) us(3) by (auto simp: e_def)
  moreover have "set r \<union> snd ` set (rb_packets b') \<subseteq> snd ` set (q # ps) \<union> snd ` set (rb_packets b)"
  proof -
    have "set r1 \<union> snd ` set (rb_packets b1) \<subseteq> insert p (snd ` set (rb_packets b))"
      using ok by (simp add: push_ok_def)
    with IH(3) show ?thesis unfolding r q by (simp only: set_append list.set image_insert snd_conv) blast
  qed
  ultimately show ?case using IH ok by (auto simp: push_ok_def intro!: exI [of _ ?us])
qed

text \<open>Packets for the concrete runs below: only the sequence number matters.\<close>

definition sample_decoded :: "int \<Rightarrow> DecodedRTPPacket" where
  "sample_decoded s =
     \<lparr>d_payload_type = 101, d_marker = False, d_padded = False, d_sequence = s, d_timestamp = 0,
      d_ssrc = 1, d_extended = False, d_extension_payload = [], d_rtp_extensions = [], d_payload = []\<rparr>"

definition sample_rtp :: "int \<Rightarrow> RTPPacket" where
  "sample_rtp s =
     \<lparr>rp_media_type = ''video'', rp_codec = ''H264'', rp_payload = [], rp_payload_type = 101,
      rp_marker = False, rp_sequence = s, rp_timestamp = 0, rp_ssrc = 1, rp_user_id = None, rp_raw = [],
      rp_extension_payload = [], rp_rtp_extended = False, rp_rtp_extensions = [], rp_rtx = False,
      rp_rtx_ssrc = None, rp_rtx_payload_type = None, rp_audio_level = None,
      rp_audio_voice_activity = None\<rparr>"

definition sample_packet :: "int \<Rightarrow> ReceivedVideoPacket" where
  "sample_packet s =
     \<lparr>rv_decoded = sample_decoded s, rv_codec = ''H264'', rv_ssrc = 1, rv_user_id = None,
      rv_raw = [], rv_rtp_packet = sample_rtp s, rv_received_at = 0\<rparr>"

definition sample_arrivals :: "(pyfloat \<times> ReceivedVideoPacket) list" where
  "sample_arrivals = map (\<lambda>s. (0, sample_packet s)) [65534, 0, 65535, 0, 2, 1]"

lemma sample_arrivals_run:
  "map received_sequence (fst (reorder_push_all sample_arrivals (new_reorder_buffer 8 (1 / 10) True)))
     = [65534, 65535, 0, 1, 2]"
  by code_simp



text \<open>
  The buffer never keeps more than \<open>max_packets\<close> packets, and none it has already passed:
  everything it holds lies beyond the number it waits for.
\<close>

theorem reorder_buffer_bounded:
  assumes "0 \<le> max_packets"
    and "reorder_push_all arrivals (new_reorder_buffer max_packets max_delay dbg) = (delivered, b)"
  shows "int (length (rb_packets b)) \<le> max_packets
    \<and> (\<forall>e. rb_expected b = Some e \<longrightarrow> (\<forall>k \<in> set (keys (rb_packets b)). e < k))"
  using push_all_ordered [OF new_reorder_buffer_inv [OF assms(1)] assms(2)]
  by (auto simp: new_reorder_buffer_def rb_inv_def beyond_def)


theorem reorder_buffer_bounded_witness:
  "int (length (rb_packets (snd (reorder_push_all sample_arrivals (new_reorder_buffer 2 (1 / 10) True))))) \<le> 2"
  using reorder_buffer_bounded
    [of 2 sample_arrivals "1 / 10" True, OF _ prod.collapse [symmetric]] by simp

end
