(* ===== verification/Rtcp.thy ===== *)
theory Rtcp
  imports Rtp
begin

text \<open>
  The RTCP half of \<open>VoiceClient\<close> in \<open>client.py\<close>: the packets it builds (generic NACK, picture
  loss indication, sender and receiver reports), the handlers that read the same packets, the
  receive-report state, and the sender-report clock used to date media packets.

  A packet is the pair of header and body that the code hands to \<open>encrypt_rtcp\<close> and then to the
  socket; encryption belongs to the native module. \<open>struct.pack\<close> raises when a field that the
  code does not mask is out of range, which is \<open>Inl StructError\<close> here.
\<close>

type_synonym rtcp_msg = "bytes \<times> bytes"

definition rtcp_header :: "int \<Rightarrow> int \<Rightarrow> int \<Rightarrow> int \<Rightarrow> bytes res" where
  "rtcp_header b0 b1 len ssrc =
     (if in_u 8 b0 \<and> in_u 8 b1 \<and> in_u 16 len \<and> in_u 32 ssrc
      then Inr (be_bytes 1 b0 @ be_bytes 1 b1 @ be_bytes 2 len @ be_bytes 4 ssrc)
      else Inl StructError)"

lemma length_rtcp_header: "rtcp_header a b c d = Inr h \<Longrightarrow> length h = 8"
  by (auto simp: rtcp_header_def split: if_splits)

section \<open>Generic NACK\<close>

text \<open>The inner loop of \<open>_send_rtcp_nack\<close>: fold what lies within 16 of \<open>pid\<close> into the mask.\<close>

fun nack_gather :: "int \<Rightarrow> int \<Rightarrow> int list \<Rightarrow> int list \<Rightarrow> int \<times> int list" where
  "nack_gather pid blp remaining [] = (blp, remaining)"
| "nack_gather pid blp remaining (s # ss) =
     (let distance = (s - pid) AND 0xFFFF
      in if 1 \<le> distance \<and> distance \<le> 16
         then nack_gather pid (blp OR push_bit (nat (distance - 1)) 1) remaining ss
         else nack_gather pid blp (remaining @ [s]) ss)"

definition nack_near :: "int \<Rightarrow> int \<Rightarrow> bool" where
  "nack_near pid s \<longleftrightarrow> 1 \<le> (s - pid) mod 65536 \<and> (s - pid) mod 65536 \<le> 16"

lemma nat_pred_iff: "1 \<le> d \<Longrightarrow> i = nat (d - 1) \<longleftrightarrow> int i + 1 = d"
  by auto

lemma bit_push_bit_1: "1 \<le> d \<Longrightarrow> bit (push_bit (nat (d - 1)) (1 :: int)) i \<longleftrightarrow> int i + 1 = d"
  by (subst nat_pred_iff [symmetric]) (auto simp: bit_exp_iff)

lemma nack_gather_spec:
  "nack_gather pid blp remaining ss = (blp', rest) \<Longrightarrow>
     rest = remaining @ filter (\<lambda>s. \<not> nack_near pid s) ss
     \<and> (\<forall>i. bit blp' i \<longleftrightarrow> bit blp i \<or> (\<exists>s \<in> set ss. nack_near pid s \<and> int i + 1 = (s - pid) mod 65536))"
proof (induction pid blp remaining ss rule: nack_gather.induct)
  case (1 pid blp remaining)
  then show ?case by simp
next
  case (2 pid blp remaining s ss)
  show ?case
  proof (cases "nack_near pid s")
    case True
    then have "nack_gather pid (blp OR push_bit (nat ((s - pid) mod 65536 - 1)) 1) remaining ss = (blp', rest)"
      using "2.prems" by (simp add: nack_near_def Let_def)
    with "2.IH"(1) True have IH: "rest = remaining @ filter (\<lambda>s. \<not> nack_near pid s) ss"
      "\<forall>i. bit blp' i \<longleftrightarrow> bit (blp OR push_bit (nat ((s - pid) mod 65536 - 1)) 1) i
         \<or> (\<exists>s \<in> set ss. nack_near pid s \<and> int i + 1 = (s - pid) mod 65536)"
      by (auto simp: nack_near_def Let_def)
    have "bit (push_bit (nat ((s - pid) mod 65536 - 1)) (1 :: int)) i \<longleftrightarrow> int i + 1 = (s - pid) mod 65536" for i
      using True by (intro bit_push_bit_1) (simp add: nack_near_def)
    then show ?thesis using IH True unfolding bit_or_iff by auto
  next
    case False
    then have "nack_gather pid blp (remaining @ [s]) ss = (blp', rest)"
      using "2.prems" by (auto simp: nack_near_def Let_def split: if_splits)
    with "2.IH"(2) False show ?thesis by (auto simp: nack_near_def Let_def)
  qed
qed

lemma nack_gather_length: "nack_gather pid blp remaining ss = (blp', rest) \<Longrightarrow> length rest \<le> length remaining + length ss"
  using nack_gather_spec by fastforce

function nack_blocks :: "int list \<Rightarrow> (int \<times> int) list" where
  "nack_blocks [] = []"
| "nack_blocks (pid # ss) =
     (let (blp, rest) = nack_gather pid 0 [] ss in (pid, blp) # nack_blocks rest)"
  by pat_completeness auto
termination
  by (relation "measure length") (auto dest!: nack_gather_length [OF sym])

definition nack_body :: "int \<Rightarrow> (int \<times> int) list \<Rightarrow> bytes" where
  "nack_body media_ssrc blocks =
     be_bytes 4 (media_ssrc AND 0xFFFFFFFF)
     @ concat (map (\<lambda>(pid, blp). be_bytes 2 pid @ be_bytes 2 blp) blocks)"

definition send_rtcp_nack :: "int \<Rightarrow> int \<Rightarrow> int list \<Rightarrow> rtcp_msg option res" where
  "send_rtcp_nack sender_ssrc media_ssrc sequences =
     (let blocks = nack_blocks (unique_order (map (\<lambda>s. s AND 0xFFFF) sequences))
      in if blocks = [] then Inr None
         else case rtcp_header (0x80 OR RTCP_GENERIC_NACK) RTCP_RTP_FEEDBACK
                     (2 + int (length blocks)) sender_ssrc of
                Inl e \<Rightarrow> Inl e
              | Inr header \<Rightarrow> Inr (Some (header, nack_body media_ssrc blocks)))"

text \<open>
  What a feedback block means (RFC 4585, and the native retransmission side): the packet
  \<open>pid\<close> and, for each bit \<open>i\<close> of the mask, the packet \<open>pid + i + 1\<close>.
\<close>

definition block_sequences :: "int \<times> int \<Rightarrow> int list" where
  "block_sequences b =
     (case b of (pid, blp) \<Rightarrow> pid # map (\<lambda>i. (pid + int i + 1) mod 65536) (filter (bit blp) [0..<16]))"

lemma nack_near_add: "nack_near pid s \<Longrightarrow> 0 \<le> s \<Longrightarrow> s < 65536 \<Longrightarrow> (pid + (s - pid) mod 65536) mod 65536 = s"
  by (simp add: mod_add_diff)

lemma block_sequences_gather:
  assumes "nack_gather pid 0 [] ss = (blp, rest)" "0 \<le> pid" "pid < 65536"
    and "\<forall>s \<in> set ss. 0 \<le> s \<and> s < 65536"
  shows "set (block_sequences (pid, blp)) = insert pid {s \<in> set ss. nack_near pid s}"
    and "distinct (block_sequences (pid, blp))" and "0 \<le> blp" and "blp < 65536"
proof -
  have bits: "bit blp i \<longleftrightarrow> (\<exists>s \<in> set ss. nack_near pid s \<and> int i + 1 = (s - pid) mod 65536)" for i
    using nack_gather_spec [OF assms(1)] by simp
  have small: "i < 16" if "bit blp i" for i
  proof -
    have "\<exists>s \<in> set ss. nack_near pid s \<and> int i + 1 = (s - pid) mod 65536" using that bits by simp
    then have "int i + 1 \<le> 16" by (auto simp only: nack_near_def)
    then show ?thesis by linarith
  qed
  have "(pid + int i + 1) mod 65536 \<in> {s \<in> set ss. nack_near pid s}" if b: "bit blp i" for i
  proof -
    obtain s where s: "s \<in> set ss" "nack_near pid s" "int i + 1 = (s - pid) mod 65536"
      using bits [THEN iffD1, OF b] by (elim bexE conjE)
    then have "(pid + int i + 1) mod 65536 = s"
      using nack_near_add [of pid s] assms(4) by (simp add: add.assoc)
    with s show ?thesis by simp
  qed
  moreover have "s \<in> (\<lambda>i. (pid + int i + 1) mod 65536) ` {i \<in> {0..<16}. bit blp i}"
    if "s \<in> set ss" "nack_near pid s" for s
  proof -
    let ?i = "nat ((s - pid) mod 65536 - 1)"
    have i: "int ?i + 1 = (s - pid) mod 65536" using that by (simp add: nack_near_def)
    then have "bit blp ?i" using that by (intro bits [THEN iffD2] bexI [of _ s] conjI)
    moreover have "(pid + int ?i + 1) mod 65536 = s"
      using i that nack_near_add [of pid s] assms(4) by (simp add: add.assoc)
    ultimately show ?thesis using small by (intro image_eqI [of _ _ ?i]) auto
  qed
  ultimately show "set (block_sequences (pid, blp)) = insert pid {s \<in> set ss. nack_near pid s}"
    by (auto simp: block_sequences_def)
  have inj: "i = j" if "(pid + int i + 1) mod 65536 = (pid + int j + 1) mod 65536" "i < 16" "j < 16" for i j
  proof -
    have "((pid + int i + 1) - (pid + int j + 1)) mod 65536 = 0" using that(1) by (metis mod_diff_cong diff_self mod_0)
    then have "65536 dvd int i - int j" by (simp add: mod_eq_0_iff_dvd)
    then show ?thesis using that(2,3) zdvd_not_zless [of "\<bar>int i - int j\<bar>" 65536] by (cases "i = j") auto
  qed
  have "pid \<noteq> (pid + int i + 1) mod 65536" if "i < 16" for i
  proof
    assume "pid = (pid + int i + 1) mod 65536"
    then have "((pid + int i + 1) - pid) mod 65536 = 0"
      using assms(2,3) by (metis mod_diff_cong diff_self mod_0 mod_pos_pos_trivial)
    then have "(int i + 1) mod 65536 = 0" by (simp add: algebra_simps)
    moreover have "(int i + 1) mod 65536 = int i + 1" using that by (intro mod_pos_pos_trivial) auto
    ultimately show False by linarith
  qed
  then show "distinct (block_sequences (pid, blp))"
    by (auto simp: block_sequences_def distinct_map intro!: inj_onI intro: inj)
  have "blp = take_bit 16 blp" by (rule bit_eqI) (auto simp: bit_take_bit_iff dest: small)
  then have "blp = blp mod 65536" by (simp add: take_bit_eq_mod)
  then show "0 \<le> blp" "blp < 65536"
    by (metis pos_mod_sign zero_less_numeral, metis pos_mod_bound zero_less_numeral)
qed


lemma nack_blocks_lossless:
  assumes "distinct ss" "\<forall>s \<in> set ss. 0 \<le> s \<and> s < 65536"
  shows "set (concat (map block_sequences (nack_blocks ss))) = set ss
    \<and> distinct (concat (map block_sequences (nack_blocks ss)))
    \<and> (\<forall>(pid, blp) \<in> set (nack_blocks ss). 0 \<le> pid \<and> pid < 65536 \<and> 0 \<le> blp \<and> blp < 65536)"
  using assms
proof (induction ss rule: nack_blocks.induct)
  case 1
  then show ?case by simp
next
  case (2 pid ss)
  obtain blp rest where g: "nack_gather pid 0 [] ss = (blp, rest)" by (cases "nack_gather pid 0 [] ss")
  have rest: "rest = filter (\<lambda>s. \<not> nack_near pid s) ss" using nack_gather_spec [OF g] by simp
  have IH: "set (concat (map block_sequences (nack_blocks rest))) = set rest"
    "distinct (concat (map block_sequences (nack_blocks rest)))"
    "\<forall>(pid, blp) \<in> set (nack_blocks rest). 0 \<le> pid \<and> pid < 65536 \<and> 0 \<le> blp \<and> blp < 65536"
    using "2.IH" [OF g [symmetric] refl] "2.prems" rest by auto
  have blk: "set (block_sequences (pid, blp)) = insert pid {s \<in> set ss. nack_near pid s}"
    "distinct (block_sequences (pid, blp))" "0 \<le> blp" "blp < 65536"
    using block_sequences_gather [OF g] "2.prems"(2) by simp_all
  have split: "nack_blocks (pid # ss) = (pid, blp) # nack_blocks rest" by (simp add: g)
  show ?case
    unfolding split using IH blk "2.prems" rest by auto
qed

text \<open>
  \<open>_handle_rtcp_nack\<close> reads the blocks back and counts \<open>1 + blp.bit_count()\<close> sequence
  numbers for each; \<open>range(4, len(payload) - 3, 4)\<close> stops at an incomplete block.
\<close>

definition bit_count :: "int \<Rightarrow> int" where
  "bit_count blp = int (length (filter (bit blp) [0..<16]))"

fun nack_parse :: "bytes \<Rightarrow> (int \<times> int) list" where
  "nack_parse (a # b # c # d # rest) = (from_be [a, b], from_be [c, d]) # nack_parse rest"
| "nack_parse _ = []"

definition nack_sequence_count :: "bytes \<Rightarrow> int" where
  "nack_sequence_count payload = sum_list (map (\<lambda>(pid, blp). 1 + bit_count blp) (nack_parse (drop 4 payload)))"

lemma length_two: "length xs = 2 \<Longrightarrow> \<exists>a b. xs = [a, b]"
  by (auto simp: length_Suc_conv numeral_2_eq_2)

lemma nack_parse_block:
  "in_u 16 pid \<Longrightarrow> in_u 16 blp \<Longrightarrow>
     nack_parse (be_bytes 2 pid @ be_bytes 2 blp @ rest) = (pid, blp) # nack_parse rest"
proof -
  assume r: "in_u 16 pid" "in_u 16 blp"
  obtain a b where pid: "be_bytes 2 pid = [a, b]" using length_two [OF length_be_bytes] by blast
  obtain c d where blp: "be_bytes 2 blp = [c, d]" using length_two [OF length_be_bytes] by blast
  have "from_be [a, b] = pid" "from_be [c, d] = blp"
    unfolding pid [symmetric] blp [symmetric] using r by (simp_all add: in_u_def)
  then show ?thesis by (simp add: pid blp)
qed

lemma nack_parse_body:
  "\<forall>(pid, blp) \<in> set bs. in_u 16 pid \<and> in_u 16 blp \<Longrightarrow>
     nack_parse (concat (map (\<lambda>(pid, blp). be_bytes 2 pid @ be_bytes 2 blp) bs)) = bs"
  by (induction bs) (auto simp: nack_parse_block)

lemma length_block_sequences: "int (length (block_sequences b)) = (case b of (pid, blp) \<Rightarrow> 1 + bit_count blp)"
  by (auto simp: block_sequences_def bit_count_def split: prod.splits)

lemma length_nack_body: "int (length (nack_body m bs)) = 4 * (1 + int (length bs))"
proof -
  have "length (concat (map (\<lambda>(pid, blp). be_bytes 2 pid @ be_bytes 2 blp) bs)) = 4 * length bs"
    by (induction bs) auto
  then show ?thesis by (simp add: nack_body_def)
qed

text \<open>
  C5. A generic NACK is lossless: the blocks read back from the packet name every requested
  sequence number (modulo 2^16) once and nothing else, the receiver's count of them is the number
  of distinct requests, and the header's length field is the packet's length in words minus one.
\<close>

theorem nack_roundtrip:
  assumes "send_rtcp_nack sender media sequences = Inr (Some (header, body))"
  shows "set (concat (map block_sequences (nack_parse (drop 4 body)))) = (\<lambda>s. s mod 65536) ` set sequences
    \<and> distinct (concat (map block_sequences (nack_parse (drop 4 body))))
    \<and> nack_sequence_count body = int (card ((\<lambda>s. s mod 65536) ` set sequences))
    \<and> u32_at body 0 = media mod 2 ^ 32
    \<and> 4 * (u16_at header 2 + 1) = int (length (header @ body))"
proof -
  let ?ss = "unique_order (map (\<lambda>s. s AND 0xFFFF) sequences)"
  let ?bs = "nack_blocks ?ss"
  let ?seqs = "concat (map block_sequences ?bs)"
  have set_ss: "set ?ss = (\<lambda>s. s mod 65536) ` set sequences" by simp
  have ll: "set ?seqs = set ?ss" "distinct ?seqs" "\<forall>(pid, blp) \<in> set ?bs. in_u 16 pid \<and> in_u 16 blp"
    unfolding in_u_def
  proof -
    have "\<forall>s \<in> set ?ss. 0 \<le> s \<and> s < 65536" unfolding set_ss by auto
    note l = nack_blocks_lossless [OF distinct_unique_order this]
    show "set ?seqs = set ?ss" "distinct ?seqs" using l by blast+
    show "\<forall>(pid, blp) \<in> set ?bs. (0 \<le> pid \<and> pid < 2 ^ 16) \<and> 0 \<le> blp \<and> blp < 2 ^ 16"
      using l by auto
  qed
  have h: "rtcp_header (0x80 OR 1) 205 (2 + int (length ?bs)) sender = Inr header" and b: "body = nack_body media ?bs"
    using assms by (auto simp: send_rtcp_nack_def Let_def split: if_splits sum.splits)
  have parse: "nack_parse (drop 4 body) = ?bs" using nack_parse_body [OF ll(3)] by (simp add: b nack_body_def)
  have "nack_sequence_count body = sum_list (map (\<lambda>b. int (length (block_sequences b))) ?bs)"
    by (simp add: nack_sequence_count_def parse length_block_sequences)
  also have "\<dots> = int (length ?seqs)" by (simp only: length_concat map_map comp_def sum_list_of_nat [symmetric])
  also have "\<dots> = int (card (set ?ss))" using ll(1,2) by (metis distinct_card)
  finally have count: "nack_sequence_count body = int (card (set ?ss))" .
  have "u16_at header 2 = 2 + int (length ?bs)" and "length header = 8"
    using h length_rtcp_header [OF h] by (auto simp: rtcp_header_def in_u_def split: if_splits)
  then have len: "4 * (u16_at header 2 + 1) = int (length (header @ body))"
    using length_nack_body [of media ?bs] by (simp add: b)
  have "u32_at body 0 = media mod 2 ^ 32" by (simp add: b nack_body_def)
  with parse ll count len show ?thesis by simp
qed


lemma sample_nack_sent:
  "send_rtcp_nack 7 9 [65535, 3, 3, 100] =
     Inr (Some ([129, 205, 0, 4, 0, 0, 0, 7], [0, 0, 0, 9, 255, 255, 0, 8, 0, 100, 0, 0]))"
  by code_simp

theorem nack_roundtrip_witness:
  "nack_sequence_count [0, 0, 0, 9, 255, 255, 0, 8, 0, 100, 0, 0] = int (card {65535, 3, 100 :: int})"
  using nack_roundtrip [OF sample_nack_sent] by simp


section \<open>Picture loss indication\<close>

definition send_video_pli :: "int \<Rightarrow> int \<Rightarrow> rtcp_msg res" where
  "send_video_pli sender_ssrc ssrc =
     (case rtcp_header (0x80 OR RTCP_PICTURE_LOSS_INDICATION) RTCP_PAYLOAD_FEEDBACK 2 sender_ssrc of
        Inl e \<Rightarrow> Inl e
      | Inr header \<Rightarrow> Inr (header, be_bytes 4 (ssrc AND 0xFFFFFFFF)))"

text \<open>\<open>_handle_rtcp_pli\<close>: a stream of ours asks for a keyframe; the requests are a set.\<close>

definition handle_rtcp_pli :: "(int \<Rightarrow> bool) \<Rightarrow> bytes \<Rightarrow> int set \<Rightarrow> int set" where
  "handle_rtcp_pli has_stream payload requests =
     (if length payload < 4 then requests
      else let media_ssrc = u32_at payload 0
           in if \<not> has_stream media_ssrc then requests else insert media_ssrc requests)"


section \<open>Sender reports and the time of a packet\<close>

record rtcp_state =
  rc_sender_reports :: "(int, pyfloat \<times> int \<times> int) odict"
  rc_sender_report_lsr :: "(int, int \<times> pyfloat) odict"
  rc_receiver_reports :: "(int \<times> int, RTCPReceiverReport) odict"
  rc_receiver_report_ttl :: pyfloat

abbreviation (input) "NTP_EPOCH \<equiv> (2208988800 :: int)"

definition pack_u32s :: "int list \<Rightarrow> bytes res" where
  "pack_u32s xs = (if list_all (in_u 32) xs then Inr (concat (map (be_bytes 4) xs)) else Inl StructError)"

definition send_rtcp_sender_report :: "pyfloat \<Rightarrow> int \<Rightarrow> int \<Rightarrow> int \<Rightarrow> int \<Rightarrow> rtcp_msg res" where
  "send_rtcp_sender_report time ssrc rtp_timestamp packet_count octet_count =
     (let ntp = time + of_int NTP_EPOCH;
          ntp_seconds = py_trunc ntp;
          ntp_fraction = py_trunc ((ntp - of_int ntp_seconds) * 4294967296)
      in case rtcp_header 0x80 RTCP_SENDER_REPORT 6 ssrc of
           Inl e \<Rightarrow> Inl e
         | Inr header \<Rightarrow>
             (case pack_u32s [ntp_seconds, ntp_fraction, rtp_timestamp,
                              packet_count AND 0xFFFFFFFF, octet_count AND 0xFFFFFFFF] of
                Inl e \<Rightarrow> Inl e
              | Inr body \<Rightarrow> Inr (header, body)))"

definition rtp_clock_rate_for_ssrc :: "int set \<Rightarrow> int \<Rightarrow> int" where
  "rtp_clock_rate_for_ssrc video_ssrcs ssrc = (if ssrc \<in> video_ssrcs then 90000 else 48000)"

definition handle_rtcp_sender_report ::
  "int set \<Rightarrow> pyfloat \<Rightarrow> int \<Rightarrow> bytes \<Rightarrow> rtcp_state \<Rightarrow> rtcp_state"
where
  "handle_rtcp_sender_report video_ssrcs now sender_ssrc payload st =
     (if length payload < 20 then st
      else let ntp_seconds = u32_at payload 0;
               ntp_fraction = u32_at payload 4;
               rtp_timestamp = u32_at payload 8;
               ntp_time = of_int (ntp_seconds - NTP_EPOCH) + of_int ntp_fraction / 4294967296;
               st = st\<lparr>rc_sender_reports := AList.update sender_ssrc
                        (ntp_time, rtp_timestamp, rtp_clock_rate_for_ssrc video_ssrcs sender_ssrc)
                        (rc_sender_reports st)\<rparr>
           in st\<lparr>rc_sender_report_lsr := AList.update sender_ssrc
                   (push_bit 16 (ntp_seconds AND 0xFFFF) OR drop_bit 16 ntp_fraction, now)
                   (rc_sender_report_lsr st)\<rparr>)"

text \<open>\<open>time\<close> is the wall clock of \<open>_absolute_send_time_from_extensions\<close>; \<open>%\<close> is floored.\<close>

definition fmod64 :: "pyfloat \<Rightarrow> pyfloat" where
  "fmod64 x = x - 64 * of_int \<lfloor>x / 64\<rfloor>"

fun absolute_send_time_from_extensions :: "pyfloat \<Rightarrow> RTPExtension list \<Rightarrow> pyfloat option" where
  "absolute_send_time_from_extensions now [] = None"
| "absolute_send_time_from_extensions now (e # es) =
     (if ext_id e \<noteq> RTP_EXT_ABSOLUTE_SEND_TIME \<or> length (ext_data e) \<noteq> 3
      then absolute_send_time_from_extensions now es
      else let send_time_mod_64 = of_int (from_be (ext_data e)) / 262144;
               send_time = now - fmod64 now + send_time_mod_64
           in Some (if send_time - now > 32 then send_time - 64
                    else if now - send_time > 32 then send_time + 64
                    else send_time))"

definition rtcp_time_for_packet ::
  "pyfloat \<Rightarrow> rtcp_state \<Rightarrow> int \<Rightarrow> int \<Rightarrow> RTPExtension list \<Rightarrow> pyfloat option"
where
  "rtcp_time_for_packet now st ssrc timestamp extensions =
     (case map_of (rc_sender_reports st) ssrc of
        None \<Rightarrow> absolute_send_time_from_extensions now extensions
      | Some (ntp_time, report_timestamp, clock_rate) \<Rightarrow>
          (case rtp_timestamp_delta timestamp report_timestamp of
             None \<Rightarrow> absolute_send_time_from_extensions now extensions
           | Some delta \<Rightarrow> Some (ntp_time + of_int delta / of_int clock_rate)))"

lemma map_of_update_self [simp]: "map_of (AList.update k v d) k = Some v"
  by (simp add: update_conv)

lemma py_trunc_nonneg: "0 \<le> x \<Longrightarrow> py_trunc x = \<lfloor>x\<rfloor>"
  by (simp add: py_trunc_def)


definition sample_rtcp_state :: rtcp_state where
  "sample_rtcp_state =
     \<lparr>rc_sender_reports = [], rc_sender_report_lsr = [], rc_receiver_reports = [],
      rc_receiver_report_ttl = 60\<rparr>"

lemma sample_sender_report:
  "send_rtcp_sender_report (1 / 2) 7 4294967290 3 4 =
     Inr ([128, 200, 0, 6, 0, 0, 0, 7],
          [131, 170, 126, 128, 128, 0, 0, 0, 255, 255, 255, 250, 0, 0, 0, 3, 0, 0, 0, 4])"
  by code_simp


text \<open>
  The absolute send time is the instant nearest to the receiver's clock that has the 18-bit
  fixed-point seconds of the extension modulo 64.
\<close>

theorem absolute_send_time_nearest:
  assumes "absolute_send_time_from_extensions now exts = Some t"
  shows "\<bar>t - now\<bar> \<le> 32
    \<and> (\<exists>e \<in> set exts. ext_id e = 3 \<and> length (ext_data e) = 3
        \<and> (\<exists>k. t = of_int (from_be (ext_data e)) / 2 ^ 18 + 64 * of_int k))"
  using assms
proof (induction exts)
  case Nil
  then show ?case by simp
next
  case (Cons e es)
  show ?case
  proof (cases "ext_id e \<noteq> 3 \<or> length (ext_data e) \<noteq> 3")
    case True
    with Cons show ?thesis by auto
  next
    case False
    define v where "v = (of_int (from_be (ext_data e)) / 262144 :: rat)"
    have "0 \<le> from_be (ext_data e)" "from_be (ext_data e) < 16777216"
      using from_be_bounds [of "ext_data e"] False by simp_all
    then have v: "0 \<le> v" "v < 64" by (simp_all add: v_def field_simps flip: of_int_mult)
    have n: "0 \<le> fmod64 now" "fmod64 now < 64"
      unfolding fmod64_def by linarith+
    have k: "now - fmod64 now = 64 * of_int \<lfloor>now / 64\<rfloor>" by (simp add: fmod64_def)
    have t: "t = (if now - fmod64 now + v - now > 32 then now - fmod64 now + v - 64
                  else if now - (now - fmod64 now + v) > 32 then now - fmod64 now + v + 64
                  else now - fmod64 now + v)"
      using Cons.prems False by (auto simp: Let_def v_def split: if_splits)
    have near: "\<bar>t - now\<bar> \<le> 32" unfolding t abs_le_iff using v n by (simp split: if_splits)
    have "t = v + 64 * of_int (\<lfloor>now / 64\<rfloor> - 1) \<or> t = v + 64 * of_int (\<lfloor>now / 64\<rfloor> + 1)
        \<or> t = v + 64 * of_int \<lfloor>now / 64\<rfloor>"
      unfolding t k by simp
    then have "\<exists>k. t = v + 64 * of_int k" by blast
    with near False show ?thesis by (auto simp: v_def)
  qed
qed


theorem absolute_send_time_nearest_witness:
  "\<bar>65 - (100 :: rat)\<bar> \<le> 32 \<or> \<bar>129 - (100 :: rat)\<bar> \<le> 32"
proof -
  have "absolute_send_time_from_extensions 100 [\<lparr>ext_id = 3, ext_data = [4, 0, 0]\<rparr>] = Some 129"
    by code_simp
  from absolute_send_time_nearest [OF this] show ?thesis by simp
qed


section \<open>Receiver reports\<close>

record RTCPReceiveReportState =
  rs_base_extended_sequence :: int
  rs_max_extended_sequence :: int
  rs_packets_received :: int
  rs_expected_prior :: int
  rs_received_prior :: int
  rs_jitter :: pyfloat
  rs_transit :: "int option"
  rs_last_report_at :: pyfloat

definition loss_fraction :: "int \<Rightarrow> int \<Rightarrow> int" where
  "loss_fraction expected_interval received_interval =
     (let lost_interval = expected_interval - received_interval
      in if expected_interval > 0 \<and> lost_interval > 0
         then min 255 (push_bit 8 lost_interval div expected_interval)
         else 0)"

definition loss_word :: "int \<Rightarrow> int \<Rightarrow> int" where
  "loss_word fraction_lost lost =
     (let cumulative_lost = max (- 8388608) (min 8388607 lost);
          cumulative_lost = (if cumulative_lost < 0 then cumulative_lost + 16777216 else cumulative_lost)
      in push_bit 24 (fraction_lost AND 0xFF) OR (cumulative_lost AND 0xFFFFFF))"

definition rtcp_receiver_report_block ::
  "pyfloat \<Rightarrow> rtcp_state \<Rightarrow> int \<Rightarrow> RTCPReceiveReportState \<Rightarrow> bytes res \<times> RTCPReceiveReportState"
where
  "rtcp_receiver_report_block now st ssrc state =
     (let expected = rs_max_extended_sequence state - rs_base_extended_sequence state + 1;
          lost = expected - rs_packets_received state;
          expected_interval = expected - rs_expected_prior state;
          received_interval = rs_packets_received state - rs_received_prior state;
          fraction_lost = loss_fraction expected_interval received_interval;
          state = state\<lparr>rs_expected_prior := expected, rs_received_prior := rs_packets_received state\<rparr>;
          loss = loss_word fraction_lost lost;
          (lsr, delay) = (case map_of (rc_sender_report_lsr st) ssrc of
              None \<Rightarrow> (0, 0)
            | Some (lsr, received) \<Rightarrow> (lsr, max 0 (min 0xFFFFFFFF (py_round ((now - received) * 65536)))))
      in (pack_u32s [ssrc AND 0xFFFFFFFF, loss, rs_max_extended_sequence state AND 0xFFFFFFFF,
                     py_round (rs_jitter state) AND 0xFFFFFFFF, lsr AND 0xFFFFFFFF, delay],
          state))"

definition send_rtcp_receiver_report :: "int \<Rightarrow> bytes list \<Rightarrow> rtcp_msg res" where
  "send_rtcp_receiver_report ssrc reports =
     (let reports = take 31 reports
      in case rtcp_header (0x80 OR int (length reports)) RTCP_RECEIVER_REPORT
                (1 + int (length reports) * 6) (ssrc AND 0xFFFFFFFF) of
           Inl e \<Rightarrow> Inl e
         | Inr header \<Rightarrow> Inr (header, concat reports))"

text \<open>\<open>_maybe_send_video_rtcp_receiver_report\<close>: the state of one source, then the report.\<close>

definition receive_state_update ::
  "int \<Rightarrow> int \<Rightarrow> pyfloat \<Rightarrow> RTCPReceiveReportState option \<Rightarrow> RTCPReceiveReportState"
where
  "receive_state_update s timestamp received_at existing =
     (let s = s AND 0xFFFF;
          state = (case existing of
              None \<Rightarrow> \<lparr>rs_base_extended_sequence = s, rs_max_extended_sequence = s,
                       rs_packets_received = 1, rs_expected_prior = 0, rs_received_prior = 0,
                       rs_jitter = 0, rs_transit = None, rs_last_report_at = 0\<rparr>
            | Some state \<Rightarrow>
                (let extended = unwrap_sequence s (rs_max_extended_sequence state);
                     state = (if extended > rs_max_extended_sequence state
                              then state\<lparr>rs_max_extended_sequence := extended\<rparr> else state)
                 in state\<lparr>rs_packets_received := rs_packets_received state + 1\<rparr>));
          transit = py_round (received_at * 90000) - timestamp;
          previous_transit = rs_transit state;
          state = state\<lparr>rs_transit := Some transit\<rparr>
      in case previous_transit of
           None \<Rightarrow> state
         | Some previous \<Rightarrow>
             state\<lparr>rs_jitter := rs_jitter state
                      + (of_int \<bar>transit - previous\<bar> - rs_jitter state) / 16\<rparr>)"

definition maybe_send_video_rtcp_receiver_report ::
  "pyfloat \<Rightarrow> pyfloat \<Rightarrow> rtcp_state \<Rightarrow> int \<Rightarrow> int \<Rightarrow> int \<Rightarrow> int \<Rightarrow> pyfloat
     \<Rightarrow> (int, RTCPReceiveReportState) odict
     \<Rightarrow> rtcp_msg option res \<times> (int, RTCPReceiveReportState) odict"
where
  "maybe_send_video_rtcp_receiver_report now interval st own_ssrc ssrc s timestamp received_at states =
     (let state = receive_state_update s timestamp received_at (map_of states ssrc)
      in if interval \<le> 0 \<or> received_at - rs_last_report_at state < interval
         then (Inr None, AList.update ssrc state states)
         else let (block, state) = rtcp_receiver_report_block now st ssrc
                                     (state\<lparr>rs_last_report_at := received_at\<rparr>)
              in (case block of
                    Inl e \<Rightarrow> Inl e
                  | Inr b \<Rightarrow> map_sum id Some (send_rtcp_receiver_report own_ssrc [b]),
                  AList.update ssrc state states))"

definition prune_rtcp_receiver_reports :: "pyfloat \<Rightarrow> rtcp_state \<Rightarrow> rtcp_state" where
  "prune_rtcp_receiver_reports now st =
     (let cutoff = now - rc_receiver_report_ttl st
      in st\<lparr>rc_receiver_reports :=
              filter (\<lambda>(key, report). \<not> rr_received_at report < cutoff) (rc_receiver_reports st)\<rparr>)"

text \<open>One block of \<open>_handle_rtcp_receiver_report\<close>, at a byte offset.\<close>

definition read_receiver_report :: "pyfloat \<Rightarrow> int \<Rightarrow> bytes \<Rightarrow> nat \<Rightarrow> RTCPReceiverReport" where
  "read_receiver_report now sender_ssrc payload offset =
     (let loss = from_be (take 4 (drop (offset + 4) payload));
          cumulative_lost = loss AND 0xFFFFFF;
          cumulative_lost = (if cumulative_lost AND 0x800000 \<noteq> 0
                             then cumulative_lost - 0x1000000 else cumulative_lost)
      in \<lparr>rr_sender_ssrc = sender_ssrc,
          rr_source_ssrc = u32_at payload offset,
          rr_fraction_lost = drop_bit 24 loss AND 0xFF,
          rr_cumulative_lost = cumulative_lost,
          rr_extended_high_sequence = u32_at payload (offset + 8),
          rr_jitter = u32_at payload (offset + 12),
          rr_last_sender_report = u32_at payload (offset + 16),
          rr_delay_since_last_sender_report = u32_at payload (offset + 20),
          rr_received_at = now\<rparr>)"

fun receiver_report_loop ::
  "pyfloat \<Rightarrow> int \<Rightarrow> bytes \<Rightarrow> nat list \<Rightarrow> (int \<times> int, RTCPReceiverReport) odict
     \<Rightarrow> (int \<times> int, RTCPReceiverReport) odict"
where
  "receiver_report_loop now sender_ssrc payload [] reports = reports"
| "receiver_report_loop now sender_ssrc payload (offset # offsets) reports =
     (if offset + 24 > length payload then reports
      else let report = read_receiver_report now sender_ssrc payload offset
           in receiver_report_loop now sender_ssrc payload offsets
                (AList.update (sender_ssrc, rr_source_ssrc report) report reports))"

definition handle_rtcp_receiver_report ::
  "pyfloat \<Rightarrow> int \<Rightarrow> int \<Rightarrow> bytes \<Rightarrow> rtcp_state \<Rightarrow> rtcp_state"
where
  "handle_rtcp_receiver_report now sender_ssrc report_count payload st =
     (let st = prune_rtcp_receiver_reports now st;
          stop = min (length payload) (nat (report_count * 24));
          offsets = map (\<lambda>i. 24 * i) [0..<(stop + 23) div 24]
      in st\<lparr>rc_receiver_reports :=
              receiver_report_loop now sender_ssrc payload offsets (rc_receiver_reports st)\<rparr>)"

definition rtcp_receiver_reports :: "pyfloat \<Rightarrow> rtcp_state \<Rightarrow> RTCPReceiverReport list \<times> rtcp_state" where
  "rtcp_receiver_reports now st =
     (let st = prune_rtcp_receiver_reports now st in (map snd (rc_receiver_reports st), st))"


lemma or_push_bit: "0 \<le> y \<Longrightarrow> y < 2 ^ n \<Longrightarrow> push_bit n x OR y = x * 2 ^ n + (y :: int)"
  using concat_bit_eq [of n y x] concat_bit_def [of n y x]
  by (simp add: take_bit_int_eq_self push_bit_eq_mult or.commute)

lemma and_sign_bit:
  fixes x :: int
  assumes "0 \<le> x" "x < 16777216"
  shows "x AND 8388608 = 0 \<longleftrightarrow> x < 8388608"
proof -
  have "x AND 8388608 = 0 \<longleftrightarrow> even (x div 8388608)"
    using and_exp_eq_0_iff_not_bit [of x 23] by (simp add: bit_iff_odd)
  moreover have "x div 8388608 = (if x < 8388608 then 0 else 1)" using assms by auto
  ultimately show ?thesis by simp
qed

lemma loss_fraction_bounds: "0 \<le> loss_fraction e r" "loss_fraction e r \<le> 255"
  by (auto simp: loss_fraction_def Let_def push_bit_eq_mult pos_imp_zdiv_nonneg_iff)

lemma loss_fraction_div: "0 \<le> r \<Longrightarrow> r < e \<Longrightarrow> loss_fraction e r = min 255 (256 * (e - r) div e)"
  by (simp add: loss_fraction_def Let_def push_bit_eq_mult mult.commute)

abbreviation (input) "clamp24 lost \<equiv> max (- 8388608) (min 8388607 (lost :: int))"

lemma loss_word_eq:
  assumes "0 \<le> f" "f \<le> 255"
  shows "loss_word f lost = f * 16777216 + clamp24 lost mod 16777216"
proof -
  have "clamp24 lost < 0 \<Longrightarrow> clamp24 lost mod 16777216 = clamp24 lost + 16777216"
    by (subst mod_add_self2 [symmetric], rule mod_pos_pos_trivial) auto
  then have "loss_word f lost = push_bit 24 f OR (clamp24 lost mod 16777216)"
    using assms by (auto simp: loss_word_def Let_def)
  also have "\<dots> = f * 2 ^ 24 + clamp24 lost mod 16777216" by (intro or_push_bit) auto
  finally show ?thesis by simp
qed

lemma loss_word_bounds: "0 \<le> f \<Longrightarrow> f \<le> 255 \<Longrightarrow> in_u 32 (loss_word f lost)"
proof -
  assume f: "0 \<le> f" "f \<le> 255"
  have "in_u 32 (f * 16777216 + c mod 16777216)" for c :: int
    using f pos_mod_sign [of 16777216 c] pos_mod_bound [of 16777216 c] by (simp add: in_u_def)
  then show ?thesis unfolding loss_word_eq [OF f] .
qed

lemma read_loss:
  assumes "0 \<le> f" "f \<le> 255"
  shows "drop_bit 24 (loss_word f lost) mod 256 = f" and "loss_word f lost mod 16777216 = clamp24 lost mod 16777216"
  using assms by (simp_all add: loss_word_eq drop_bit_eq_div div_add1_eq)

lemma sign_extend24:
  "(if (clamp24 lost mod 16777216) AND 8388608 \<noteq> 0 then clamp24 lost mod 16777216 - 16777216
    else clamp24 lost mod 16777216) = clamp24 lost"
proof (cases "clamp24 lost < 0")
  case True
  then have m: "clamp24 lost mod 16777216 = clamp24 lost + 16777216"
    by (subst mod_add_self2 [symmetric], intro mod_pos_pos_trivial) auto
  then show ?thesis using True and_sign_bit [of "clamp24 lost + 16777216"] by (simp add: m)
next
  case False
  then have m: "clamp24 lost mod 16777216 = clamp24 lost" by (intro mod_pos_pos_trivial) auto
  then show ?thesis using False and_sign_bit [of "clamp24 lost"] by (simp add: m)
qed

lemma in_u_mod [simp]: "in_u 32 (x mod 4294967296)"
  by (simp add: in_u_def)

text \<open>The report count is the low five bits of the first byte of the header.\<close>

definition u8_count :: "bytes \<Rightarrow> int" where
  "u8_count header = from_be (take 1 header) AND 0x1F"

definition report_delay :: "pyfloat \<Rightarrow> rtcp_state \<Rightarrow> int \<Rightarrow> int \<times> int" where
  "report_delay now st ssrc =
     (case map_of (rc_sender_report_lsr st) ssrc of
        None \<Rightarrow> (0, 0)
      | Some (lsr, received) \<Rightarrow> (lsr, max 0 (min 4294967295 (py_round ((now - received) * 65536)))))"

lemma receiver_report_block_bytes:
  assumes "e = rs_max_extended_sequence state - rs_base_extended_sequence state + 1"
  shows "rtcp_receiver_report_block now st ssrc state =
    (Inr (concat (map (be_bytes 4) [ssrc mod 4294967296,
       loss_word (loss_fraction (e - rs_expected_prior state) (rs_packets_received state - rs_received_prior state))
         (e - rs_packets_received state),
       rs_max_extended_sequence state mod 4294967296, py_round (rs_jitter state) mod 4294967296,
       fst (report_delay now st ssrc) mod 4294967296, snd (report_delay now st ssrc)])),
     state\<lparr>rs_expected_prior := e, rs_received_prior := rs_packets_received state\<rparr>)"
proof -
  have "in_u 32 (max 0 (min 4294967295 x))" "in_u 32 0" for x :: int by (auto simp: in_u_def)
  then show ?thesis
    using assms loss_fraction_bounds
    by (simp add: rtcp_receiver_report_block_def pack_u32s_def report_delay_def Let_def loss_word_bounds
        split: option.splits prod.splits)
qed

text \<open>
  The state of a source after any packets and reports: what it expected last time and counted last
  time is no more than now, and the jitter estimate is not negative.
\<close>

definition receive_state_ok :: "RTCPReceiveReportState \<Rightarrow> bool" where
  "receive_state_ok state \<longleftrightarrow>
     rs_base_extended_sequence state \<le> rs_max_extended_sequence state
     \<and> 0 \<le> rs_base_extended_sequence state \<and> rs_base_extended_sequence state < 65536
     \<and> rs_expected_prior state \<le> rs_max_extended_sequence state - rs_base_extended_sequence state + 1
     \<and> rs_received_prior state \<le> rs_packets_received state
     \<and> 1 \<le> rs_packets_received state \<and> 0 \<le> rs_jitter state"

lemma receive_state_update_ok:
  assumes "\<forall>state. existing = Some state \<longrightarrow> receive_state_ok state"
  shows "receive_state_ok (receive_state_update s ts received_at existing)"
proof -
  have jitter: "0 \<le> j \<Longrightarrow> 0 \<le> j + (\<bar>x\<bar> - j) / 16" for j x :: rat
    by (simp add: field_simps)
  show ?thesis
    using assms jitter
    by (auto simp: receive_state_update_def receive_state_ok_def Let_def split: option.splits)
qed

lemma maybe_report_ok:
  assumes "\<forall>state \<in> set (vals states). receive_state_ok state"
    and "maybe_send_video_rtcp_receiver_report now interval st own ssrc s ts received_at states = (r, states')"
  shows "\<forall>state \<in> set (vals states'). receive_state_ok state"
proof -
  define u where "u = receive_state_update s ts received_at (map_of states ssrc)"
  have u: "receive_state_ok u"
    unfolding u_def using assms(1) by (intro receive_state_update_ok) (auto dest: map_of_Some_vals)
  then have "receive_state_ok (u\<lparr>rs_last_report_at := a, rs_expected_prior :=
      rs_max_extended_sequence u - rs_base_extended_sequence u + 1,
      rs_received_prior := rs_packets_received u\<rparr>)" for a
    by (simp add: receive_state_ok_def)
  then obtain v where "states' = AList.update ssrc v states" "receive_state_ok v"
    using assms(2) u
    by (auto simp: maybe_send_video_rtcp_receiver_report_def receiver_report_block_bytes [OF refl] Let_def
        simp flip: u_def split: if_splits)
  then show ?thesis using assms(1) vals_update_subset [of ssrc v states] by auto
qed

text \<open>
  A receiver report can always be built and sent, whatever the state of the stream and of the
  clocks: every field it packs is clamped or masked into its width.
\<close>

theorem receiver_report_total:
  "is_ok (fst (maybe_send_video_rtcp_receiver_report now interval st own ssrc s ts received_at states))"
  by (simp add: maybe_send_video_rtcp_receiver_report_def receiver_report_block_bytes [OF refl]
      send_rtcp_receiver_report_def rtcp_header_def Let_def is_ok_iff in_u_def)


lemma read_receiver_report_words:
  assumes "in_u 32 a" "in_u 32 w" "in_u 32 c" "in_u 32 d" "in_u 32 e" "in_u 32 f"
  shows "read_receiver_report at_time sender (concat (map (be_bytes 4) [a, w, c, d, e, f])) 0 =
      \<lparr>rr_sender_ssrc = sender, rr_source_ssrc = a, rr_fraction_lost = drop_bit 24 w mod 256,
       rr_cumulative_lost = (if (w mod 16777216) AND 8388608 \<noteq> 0
                             then w mod 16777216 - 16777216 else w mod 16777216),
       rr_extended_high_sequence = c, rr_jitter = d, rr_last_sender_report = e,
       rr_delay_since_last_sender_report = f, rr_received_at = at_time\<rparr>"
  using assms by (simp add: read_receiver_report_def Let_def in_u_def)

lemma read_receiver_report_block:
  assumes "rtcp_receiver_report_block now st ssrc state = (Inr b, state')"
    and "e = rs_max_extended_sequence state - rs_base_extended_sequence state + 1"
  shows "read_receiver_report at_time sender b 0 =
      \<lparr>rr_sender_ssrc = sender, rr_source_ssrc = ssrc mod 4294967296,
       rr_fraction_lost = loss_fraction (e - rs_expected_prior state)
                            (rs_packets_received state - rs_received_prior state),
       rr_cumulative_lost = clamp24 (e - rs_packets_received state),
       rr_extended_high_sequence = rs_max_extended_sequence state mod 4294967296,
       rr_jitter = py_round (rs_jitter state) mod 4294967296,
       rr_last_sender_report = fst (report_delay now st ssrc) mod 4294967296,
       rr_delay_since_last_sender_report = snd (report_delay now st ssrc),
       rr_received_at = at_time\<rparr>" and "length b = 24"
proof -
  define f where "f = loss_fraction (e - rs_expected_prior state) (rs_packets_received state - rs_received_prior state)"
  define lost where "lost = e - rs_packets_received state"
  have f: "0 \<le> f" "f \<le> 255" by (simp_all add: f_def loss_fraction_bounds)
  have d: "in_u 32 (snd (report_delay now st ssrc))"
    by (auto simp: report_delay_def in_u_def split: option.splits)
  have b: "b = concat (map (be_bytes 4) [ssrc mod 4294967296, loss_word f lost,
      rs_max_extended_sequence state mod 4294967296, py_round (rs_jitter state) mod 4294967296,
      fst (report_delay now st ssrc) mod 4294967296, snd (report_delay now st ssrc)])"
    using assms(1) unfolding receiver_report_block_bytes [OF assms(2)] f_def lost_def by simp
  show "length b = 24" by (simp add: b)
  show "read_receiver_report at_time sender b 0 =
      \<lparr>rr_sender_ssrc = sender, rr_source_ssrc = ssrc mod 4294967296,
       rr_fraction_lost = loss_fraction (e - rs_expected_prior state)
                            (rs_packets_received state - rs_received_prior state),
       rr_cumulative_lost = clamp24 (e - rs_packets_received state),
       rr_extended_high_sequence = rs_max_extended_sequence state mod 4294967296,
       rr_jitter = py_round (rs_jitter state) mod 4294967296,
       rr_last_sender_report = fst (report_delay now st ssrc) mod 4294967296,
       rr_delay_since_last_sender_report = snd (report_delay now st ssrc),
       rr_received_at = at_time\<rparr>"
    unfolding b read_receiver_report_words [OF in_u_mod loss_word_bounds [OF f] in_u_mod in_u_mod in_u_mod d]
      read_loss [OF f] sign_extend24 unfolding f_def lost_def by (rule refl)
qed

text \<open>
  C21. What a receiver report says is what the other side reads: handling the sent packet stores,
  under the pair of SSRCs, the loss fraction, the cumulative loss (saturated to 24 signed bits),
  the highest extended sequence number, the jitter and the sender-report echo.
\<close>

theorem receiver_report_roundtrip:
  assumes "rtcp_receiver_report_block now st ssrc state = (Inr b, state')"
    and "send_rtcp_receiver_report own [b] = Inr (header, body)"
    and "e = rs_max_extended_sequence state - rs_base_extended_sequence state + 1"
  shows "map_of (rc_receiver_reports (handle_rtcp_receiver_report at_time sender (u8_count header) body st'))
           (sender, ssrc mod 2 ^ 32) = Some
      \<lparr>rr_sender_ssrc = sender, rr_source_ssrc = ssrc mod 2 ^ 32,
       rr_fraction_lost = loss_fraction (e - rs_expected_prior state)
                            (rs_packets_received state - rs_received_prior state),
       rr_cumulative_lost = clamp24 (e - rs_packets_received state),
       rr_extended_high_sequence = rs_max_extended_sequence state mod 2 ^ 32,
       rr_jitter = py_round (rs_jitter state) mod 2 ^ 32,
       rr_last_sender_report = fst (report_delay now st ssrc) mod 2 ^ 32,
       rr_delay_since_last_sender_report = snd (report_delay now st ssrc),
       rr_received_at = at_time\<rparr>"
proof -
  note r = read_receiver_report_block [OF assms(1,3)]
  have "body = b \<and> u8_count header = 1"
    using assms(2)
    by (auto simp: send_rtcp_receiver_report_def rtcp_header_def u8_count_def be_bytes_def in_u_def
        Let_def from_be_def)
  moreover have "[0..<(min (length b) (nat (1 * 24)) + 23) div 24] = [0]" using r(2) by simp
  ultimately show ?thesis
    using r by (simp add: handle_rtcp_receiver_report_def Let_def del: mult_1)
qed

definition sample_receive_state :: RTCPReceiveReportState where
  "sample_receive_state =
     \<lparr>rs_base_extended_sequence = 65530, rs_max_extended_sequence = 65539, rs_packets_received = 8,
      rs_expected_prior = 0, rs_received_prior = 0, rs_jitter = 3, rs_transit = None, rs_last_report_at = 0\<rparr>"

lemma sample_report_block:
  "rtcp_receiver_report_block 0 sample_rtcp_state 5 sample_receive_state =
     (Inr [0, 0, 0, 5, 51, 0, 0, 2, 0, 1, 0, 3, 0, 0, 0, 3, 0, 0, 0, 0, 0, 0, 0, 0],
      sample_receive_state\<lparr>rs_expected_prior := 10, rs_received_prior := 8\<rparr>)"
  by code_simp

lemma sample_report_sent:
  "send_rtcp_receiver_report 7 [[0, 0, 0, 5, 51, 0, 0, 2, 0, 1, 0, 3, 0, 0, 0, 3, 0, 0, 0, 0, 0, 0, 0, 0]] =
     Inr ([129, 201, 0, 7, 0, 0, 0, 7],
          [0, 0, 0, 5, 51, 0, 0, 2, 0, 1, 0, 3, 0, 0, 0, 3, 0, 0, 0, 0, 0, 0, 0, 0])"
  by code_simp

theorem receiver_report_roundtrip_witness:
  "map_option rr_cumulative_lost (map_of (rc_receiver_reports (handle_rtcp_receiver_report 0 7
      (u8_count [129, 201, 0, 7, 0, 0, 0, 7])
      [0, 0, 0, 5, 51, 0, 0, 2, 0, 1, 0, 3, 0, 0, 0, 3, 0, 0, 0, 0, 0, 0, 0, 0] sample_rtcp_state))
      (7, 5 mod 2 ^ 32)) = Some 2"
  unfolding receiver_report_roundtrip [OF sample_report_block sample_report_sent refl]
  by (simp add: sample_receive_state_def)

text \<open>After pruning, no report is older than the time to live, and no younger one is lost.\<close>

theorem prune_receiver_reports_spec:
  "set (fst (rtcp_receiver_reports now st)) =
     {r \<in> set (vals (rc_receiver_reports st)). now - rr_received_at r \<le> rc_receiver_report_ttl st}"
  by (force simp: rtcp_receiver_reports_def prune_rtcp_receiver_reports_def vals_def Let_def)

fun receive_all ::
  "pyfloat \<Rightarrow> rtcp_state \<Rightarrow> int \<Rightarrow> (pyfloat \<times> int \<times> int \<times> int \<times> pyfloat) list
     \<Rightarrow> (int, RTCPReceiveReportState) odict \<Rightarrow> (int, RTCPReceiveReportState) odict"
where
  "receive_all interval st own [] states = states"
| "receive_all interval st own ((now, ssrc, s, ts, received_at) # ps) states =
     receive_all interval st own ps
       (snd (maybe_send_video_rtcp_receiver_report now interval st own ssrc s ts received_at states))"

text \<open>
  Whatever packets of whatever sources are counted, and whenever reports fall due, each
  source's receive state stays well formed: the highest sequence number is not below the first,
  neither prior counter exceeds its current value, and the jitter is not negative.
\<close>

theorem receive_states_ok:
  "list_all receive_state_ok (vals (receive_all interval st own packets []))"
proof -
  have "list_all receive_state_ok (vals states) \<Longrightarrow>
      list_all receive_state_ok (vals (receive_all interval st own packets states))" for states
  proof (induction interval st own packets states rule: receive_all.induct)
    case (2 interval st own now ssrc s ts received_at ps states)
    have "\<forall>state \<in> set (vals (snd (maybe_send_video_rtcp_receiver_report now interval st own ssrc s ts
        received_at states))). receive_state_ok state"
      using maybe_report_ok [OF "2.prems" [unfolded list_all_iff] prod.collapse [symmetric]] .
    then show ?case using "2.IH" by (simp add: list_all_iff)
  qed simp
  from this [of "[]"] show ?thesis by simp
qed

end
