(* ===== verification/Nack.thy ===== *)
theory Nack
  imports Rtcp
begin

text \<open>
  Loss recovery on the receiving side of \<open>VoiceClient\<close> (\<open>client.py\<close>): the last sequence
  number of every source, the packets asked for again, the retries, and the overflow that gives up
  and asks for a keyframe. \<open>_track_video_receive_sequence\<close> runs on the receive thread and
  \<open>_retry_pending_video_nacks\<close> also on a timer thread; the step relation at the end
  interleaves the two at the granularity of a whole call.

  Encryption is the native module's: \<open>fails\<close> says for which packets it raises, and
  \<open>nk_sent\<close> is the sequence of packets handed to the socket.
\<close>

section \<open>State\<close>

record nack_state =
  nk_connection_ssrc :: int
  nk_rtx_enabled :: bool
  nk_debug_stats :: bool
  nk_stats :: "(string, int) odict"
  nk_last_sequences :: "(int, int) odict"
  nk_pending :: "(int, (int, PendingVideoNack) odict) odict"
  nk_sent :: "rtcp_msg list"

definition record_stat :: "string \<Rightarrow> int \<Rightarrow> nack_state \<Rightarrow> nack_state" where
  "record_stat key amount st =
     (if nk_debug_stats st
      then st\<lparr>nk_stats := AList.update key ((case map_of (nk_stats st) key of None \<Rightarrow> 0 | Some v \<Rightarrow> v) + amount)
                            (nk_stats st)\<rparr>
      else st)"

definition record_max_stat :: "string \<Rightarrow> int \<Rightarrow> nack_state \<Rightarrow> nack_state" where
  "record_max_stat key v st =
     (if nk_debug_stats st
      then st\<lparr>nk_stats := AList.update key (max (case map_of (nk_stats st) key of None \<Rightarrow> 0 | Some v \<Rightarrow> v) v)
                            (nk_stats st)\<rparr>
      else st)"

definition set_pending :: "int \<Rightarrow> (int, PendingVideoNack) odict \<Rightarrow> nack_state \<Rightarrow> nack_state" where
  "set_pending ssrc pending st = st\<lparr>nk_pending := AList.update ssrc pending (nk_pending st)\<rparr>"

definition drop_pending :: "int \<Rightarrow> nack_state \<Rightarrow> nack_state" where
  "drop_pending ssrc st = st\<lparr>nk_pending := AList.delete ssrc (nk_pending st)\<rparr>"

lemma record_stat_simps [simp]:
  "nk_rtx_enabled (record_stat k n st) = nk_rtx_enabled st"
  "nk_connection_ssrc (record_stat k n st) = nk_connection_ssrc st"
  "nk_last_sequences (record_stat k n st) = nk_last_sequences st"
  "nk_pending (record_stat k n st) = nk_pending st"
  "nk_sent (record_stat k n st) = nk_sent st"
  "nk_rtx_enabled (record_max_stat k n st) = nk_rtx_enabled st"
  "nk_connection_ssrc (record_max_stat k n st) = nk_connection_ssrc st"
  "nk_last_sequences (record_max_stat k n st) = nk_last_sequences st"
  "nk_pending (record_max_stat k n st) = nk_pending st"
  "nk_sent (record_max_stat k n st) = nk_sent st"
  by (simp_all add: record_stat_def record_max_stat_def)

lemma pending_simps [simp]:
  "nk_pending (set_pending ssrc p st) = AList.update ssrc p (nk_pending st)"
  "nk_pending (drop_pending ssrc st) = AList.delete ssrc (nk_pending st)"
  "nk_rtx_enabled (set_pending ssrc p st) = nk_rtx_enabled st"
  "nk_rtx_enabled (drop_pending ssrc st) = nk_rtx_enabled st"
  "nk_connection_ssrc (set_pending ssrc p st) = nk_connection_ssrc st"
  "nk_connection_ssrc (drop_pending ssrc st) = nk_connection_ssrc st"
  "nk_last_sequences (set_pending ssrc p st) = nk_last_sequences st"
  "nk_last_sequences (drop_pending ssrc st) = nk_last_sequences st"
  "nk_sent (set_pending ssrc p st) = nk_sent st"
  "nk_sent (drop_pending ssrc st) = nk_sent st"
  by (simp_all add: set_pending_def drop_pending_def)

section \<open>Operations\<close>

text \<open>\<open>_send_udp_packet(encrypt_rtcp(...))\<close>: encryption may raise, a failed send is dropped.\<close>

definition send_packet :: "(rtcp_msg \<Rightarrow> exn option) \<Rightarrow> rtcp_msg \<Rightarrow> nack_state \<Rightarrow> unit res \<times> nack_state" where
  "send_packet fails packet st =
     (case fails packet of
        Some e \<Rightarrow> (Inl e, st)
      | None \<Rightarrow> (Inr (), st\<lparr>nk_sent := nk_sent st @ [packet]\<rparr>))"

definition send_nack ::
  "(rtcp_msg \<Rightarrow> exn option) \<Rightarrow> int \<Rightarrow> int list \<Rightarrow> nack_state \<Rightarrow> unit res \<times> nack_state"
where
  "send_nack fails media_ssrc sequences st =
     (case send_rtcp_nack (nk_connection_ssrc st) media_ssrc sequences of
        Inl e \<Rightarrow> (Inl e, st)
      | Inr None \<Rightarrow> (Inr (), st)
      | Inr (Some packet) \<Rightarrow> send_packet fails packet st)"

definition send_pli :: "(rtcp_msg \<Rightarrow> exn option) \<Rightarrow> int \<Rightarrow> nack_state \<Rightarrow> unit res \<times> nack_state" where
  "send_pli fails ssrc st =
     (case send_video_pli (nk_connection_ssrc st) ssrc of
        Inl e \<Rightarrow> (Inl e, st)
      | Inr packet \<Rightarrow> send_packet fails packet st)"

definition add_pending_video_nacks ::
  "(rtcp_msg \<Rightarrow> exn option) \<Rightarrow> int \<Rightarrow> int list \<Rightarrow> nack_state \<Rightarrow> int list \<times> nack_state"
where
  "add_pending_video_nacks fails media_ssrc sequences st =
     (let unique_sequences = unique_order (map (\<lambda>s. s AND 0xFFFF) sequences)
      in if unique_sequences = [] then ([], st)
         else
           let (pending, st) = (case map_of (nk_pending st) media_ssrc of
                   None \<Rightarrow> ([], set_pending media_ssrc [] st)
                 | Some pending \<Rightarrow> (pending, st));
               added = filter (\<lambda>s. s \<notin> set (keys pending)) unique_sequences
           in if added = [] then ([], st)
              else if length pending + length added > VIDEO_NACK_MAX_OUTSTANDING
              then let st = record_stat ''video_nack_overflows'' 1 st;
                       st = drop_pending media_ssrc st;
                       (_, st) = send_pli fails media_ssrc st
                   in ([], st)
              else (added,
                    set_pending media_ssrc
                      (pending @ map (\<lambda>s. (s, \<lparr>sent_at = 0, retries = 0\<rparr>)) added) st))"

fun sendable_sequences :: "int set \<Rightarrow> int list \<Rightarrow> int set \<Rightarrow> int list" where
  "sendable_sequences pending [] seen = []"
| "sendable_sequences pending (s # ss) seen =
     (let n = s AND 0xFFFF
      in if n \<in> seen \<or> n \<notin> pending then sendable_sequences pending ss seen
         else n # sendable_sequences pending ss (insert n seen))"

definition mark_sent :: "pyfloat \<Rightarrow> int list \<Rightarrow> (int, PendingVideoNack) odict \<Rightarrow> (int, PendingVideoNack) odict" where
  "mark_sent now chunk pending =
     fold (\<lambda>s. AList.map_entry s (\<lambda>n. n\<lparr>sent_at := now, retries := retries n + 1\<rparr>)) chunk pending"

fun send_nack_chunks ::
  "(rtcp_msg \<Rightarrow> exn option) \<Rightarrow> int \<Rightarrow> pyfloat \<Rightarrow> int list list \<Rightarrow> nack_state \<Rightarrow> unit res \<times> nack_state"
where
  "send_nack_chunks fails media_ssrc now [] st = (Inr (), st)"
| "send_nack_chunks fails media_ssrc now (chunk # rest) st =
     (let st = record_stat ''video_nack_packets_sent'' 1 st;
          st = record_stat ''video_nack_sequences_sent'' (int (length chunk)) st
      in bind_res (send_nack fails media_ssrc chunk st)
           (\<lambda>_ st. let pending = (case map_of (nk_pending st) media_ssrc of None \<Rightarrow> [] | Some p \<Rightarrow> p)
                  in send_nack_chunks fails media_ssrc now rest
                       (set_pending media_ssrc (mark_sent now chunk pending) st)))"

definition send_pending_video_nacks ::
  "(rtcp_msg \<Rightarrow> exn option) \<Rightarrow> int \<Rightarrow> int list \<Rightarrow> pyfloat \<Rightarrow> nack_state \<Rightarrow> unit res \<times> nack_state"
where
  "send_pending_video_nacks fails media_ssrc sequences now st =
     (case map_of (nk_pending st) media_ssrc of
        None \<Rightarrow> (Inr (), st)
      | Some pending \<Rightarrow>
          send_nack_chunks fails media_ssrc now
            (chunks RTCP_NACK_MAX_SEQUENCES (sendable_sequences (set (keys pending)) sequences {})) st)"

definition nack_expired :: "PendingVideoNack \<Rightarrow> bool" where
  "nack_expired n \<longleftrightarrow> retries n \<ge> VIDEO_NACK_MAX_RETRIES"

definition nack_due :: "pyfloat \<Rightarrow> PendingVideoNack \<Rightarrow> bool" where
  "nack_due now n \<longleftrightarrow> \<not> nack_expired n \<and> now - sent_at n \<ge> VIDEO_NACK_RETRY_INTERVAL"

definition retry_pending_video_nacks ::
  "(rtcp_msg \<Rightarrow> exn option) \<Rightarrow> int \<Rightarrow> pyfloat \<Rightarrow> nack_state \<Rightarrow> unit res \<times> nack_state"
where
  "retry_pending_video_nacks fails media_ssrc now st =
     (case map_of (nk_pending st) media_ssrc of
        None \<Rightarrow> (Inr (), st)
      | Some pending \<Rightarrow>
          (let expired = keys (filter (\<lambda>(s, n). nack_expired n) pending);
               due = keys (filter (\<lambda>(s, n). nack_due now n) pending);
               st = set_pending media_ssrc (filter (\<lambda>(s, n). s \<notin> set expired) pending) st;
               st = (if expired \<noteq> []
                     then record_stat ''video_nack_sequences_expired'' (int (length expired)) st else st)
           in bind_res (if due \<noteq> [] then send_pending_video_nacks fails media_ssrc due now st
                        else (Inr (), st))
                (\<lambda>_ st. (Inr (), case map_of (nk_pending st) media_ssrc of
                     Some [] \<Rightarrow> drop_pending media_ssrc st
                   | _ \<Rightarrow> st))))"

definition forget_pending :: "int \<Rightarrow> int \<Rightarrow> nack_state \<Rightarrow> nack_state" where
  "forget_pending ssrc s st =
     (case map_of (nk_pending st) ssrc of
        None \<Rightarrow> st
      | Some pending \<Rightarrow>
          (let pending = AList.delete s pending
           in if pending = [] then drop_pending ssrc st else set_pending ssrc pending st))"

definition retry_if_rtx ::
  "(rtcp_msg \<Rightarrow> exn option) \<Rightarrow> int \<Rightarrow> pyfloat \<Rightarrow> nack_state \<Rightarrow> unit res \<times> nack_state"
where
  "retry_if_rtx fails ssrc now st =
     (if nk_rtx_enabled st then retry_pending_video_nacks fails ssrc now st else (Inr (), st))"

text \<open>The end of \<open>_track_video_receive_sequence\<close>, once a gap of \<open>delta\<close> is known.\<close>

definition request_missing ::
  "(rtcp_msg \<Rightarrow> exn option) \<Rightarrow> int \<Rightarrow> int \<Rightarrow> int \<Rightarrow> pyfloat \<Rightarrow> nack_state \<Rightarrow> unit res \<times> nack_state"
where
  "request_missing fails ssrc previous delta now st =
     (let missing = map (\<lambda>offset. (previous + offset) AND 0xFFFF) [1..delta - 1];
          (missing, st) = add_pending_video_nacks fails ssrc missing st
      in bind_res
           (if missing \<noteq> []
            then send_pending_video_nacks fails ssrc missing now
                   (record_stat ''video_nack_sequences_added'' (int (length missing)) st)
            else (Inr (), st))
           (\<lambda>_ st. retry_pending_video_nacks fails ssrc now st))"

definition advance_sequence ::
  "(rtcp_msg \<Rightarrow> exn option) \<Rightarrow> int \<Rightarrow> int \<Rightarrow> int \<Rightarrow> int \<Rightarrow> pyfloat \<Rightarrow> nack_state \<Rightarrow> unit res \<times> nack_state"
where
  "advance_sequence fails ssrc previous s delta now st =
     (let st = (if s < previous then record_stat ''video_sequence_wraps'' 1 st else st);
          st = (if delta > 1
                then record_max_stat ''video_sequence_gap_max'' delta
                       (record_stat ''video_sequence_gaps'' 1 st)
                else st);
          st = st\<lparr>nk_last_sequences := AList.update ssrc s (nk_last_sequences st)\<rparr>
      in if \<not> nk_rtx_enabled st then (Inr (), st)
         else if delta = 1 then retry_pending_video_nacks fails ssrc now st
         else request_missing fails ssrc previous delta now st)"

definition track_video_receive_sequence ::
  "(rtcp_msg \<Rightarrow> exn option) \<Rightarrow> int \<Rightarrow> int \<Rightarrow> bool \<Rightarrow> pyfloat \<Rightarrow> nack_state \<Rightarrow> unit res \<times> nack_state"
where
  "track_video_receive_sequence fails ssrc raw_sequence repaired now st =
     (let s = raw_sequence AND 0xFFFF;
          st = forget_pending ssrc s st
      in if repaired
         then retry_if_rtx fails ssrc now (record_stat ''video_sequence_repaired_packets'' 1 st)
         else case map_of (nk_last_sequences st) ssrc of
             None \<Rightarrow> retry_if_rtx fails ssrc now
                       (st\<lparr>nk_last_sequences := AList.update ssrc s (nk_last_sequences st)\<rparr>)
           | Some previous \<Rightarrow>
               (let delta = sequence_delta s previous
                in if delta = 0
                   then retry_if_rtx fails ssrc now (record_stat ''video_sequence_duplicates'' 1 st)
                   else if delta > 0x7FFF
                   then retry_if_rtx fails ssrc now (record_stat ''video_sequence_old_or_reordered'' 1 st)
                   else advance_sequence fails ssrc previous s delta now st))"



section \<open>Sending requests\<close>

definition touch :: "pyfloat \<Rightarrow> PendingVideoNack \<Rightarrow> PendingVideoNack" where
  "touch now n = n\<lparr>sent_at := now, retries := retries n + 1\<rparr>"

definition touch_all :: "pyfloat \<Rightarrow> int set \<Rightarrow> (int, PendingVideoNack) odict \<Rightarrow> (int, PendingVideoNack) odict" where
  "touch_all now ss p = map (\<lambda>(s, n). (s, if s \<in> ss then touch now n else n)) p"

lemma keys_touch_all [simp]: "keys (touch_all now ss p) = keys p"
  by (simp add: touch_all_def)

lemma odict_ok_touch_all [simp]: "odict_ok (touch_all now ss p) = odict_ok p"
  by (simp add: odict_ok_def)

lemma length_touch_all [simp]: "length (touch_all now ss p) = length p"
  by (simp add: touch_all_def)

lemma touch_all_empty [simp]: "touch_all now {} p = p"
  by (induction p) (auto simp: touch_all_def)

lemma touch_all_Un: "ss \<inter> ts = {} \<Longrightarrow> touch_all now ts (touch_all now ss p) = touch_all now (ss \<union> ts) p"
  by (auto simp: touch_all_def)

lemma mark_sent_touch: "odict_ok p \<Longrightarrow> distinct chunk \<Longrightarrow> mark_sent now chunk p = touch_all now (set chunk) p"
proof (induction chunk arbitrary: p)
  case Nil
  then show ?case by (simp add: mark_sent_def)
next
  case (Cons s chunk)
  have "AList.map_entry s (\<lambda>n. n\<lparr>sent_at := now, retries := retries n + 1\<rparr>) p = touch_all now {s} p"
    using Cons.prems(1) by (auto simp: map_entry_map touch_all_def touch_def)
  then have "mark_sent now (s # chunk) p = mark_sent now chunk (touch_all now {s} p)"
    by (simp add: mark_sent_def)
  also have "\<dots> = touch_all now (insert s (set chunk)) p"
    using Cons by (simp add: touch_all_Un)
  finally show ?case by simp
qed

text \<open>The packets a list of chunks turns into.\<close>

definition nack_packets :: "int \<Rightarrow> int \<Rightarrow> int list list \<Rightarrow> rtcp_msg list" where
  "nack_packets own media cs =
     concat (map (\<lambda>c. case send_rtcp_nack own media c of Inr (Some p) \<Rightarrow> [p] | _ \<Rightarrow> []) cs)"

lemma nack_packets_simps [simp]:
  "nack_packets own media [] = []"
  "nack_packets own media (c # cs) =
     (case send_rtcp_nack own media c of Inr (Some p) \<Rightarrow> [p] | _ \<Rightarrow> []) @ nack_packets own media cs"
  by (simp_all add: nack_packets_def)

definition sent_ok ::
  "int \<Rightarrow> pyfloat \<Rightarrow> (int, PendingVideoNack) odict \<Rightarrow> int list list \<Rightarrow> nack_state \<Rightarrow> unit res \<Rightarrow> nack_state \<Rightarrow> bool"
where
  "sent_ok media now p cs st r st' \<longleftrightarrow>
     (\<exists>sent rest. cs = sent @ rest \<and> (is_ok r \<longrightarrow> rest = [])
        \<and> nk_pending st' = AList.update media (touch_all now (set (concat sent)) p) (nk_pending st)
        \<and> nk_sent st' = nk_sent st @ nack_packets (nk_connection_ssrc st) media sent)
     \<and> nk_last_sequences st' = nk_last_sequences st
     \<and> nk_rtx_enabled st' = nk_rtx_enabled st
     \<and> nk_connection_ssrc st' = nk_connection_ssrc st"

lemma sent_ok_stop:
  "map_of (nk_pending st) media = Some p \<Longrightarrow> sent_ok media now p cs st (Inl e) st"
  unfolding sent_ok_def by (intro conjI exI [of _ "[]"] exI [of _ cs]) (auto simp: update_same)

lemma send_nack_cases:
  assumes "send_nack fails media c st = (r, st')"
  shows "(\<exists>e. r = Inl e \<and> st' = st)
    \<or> r = Inr () \<and> st' = st\<lparr>nk_sent := nk_sent st @ nack_packets (nk_connection_ssrc st) media [c]\<rparr>"
  using assms by (auto simp: send_nack_def send_packet_def split: sum.splits option.splits)

lemma send_nack_chunks_ok:
  assumes "send_nack_chunks fails media now cs st = (r, st')"
    and "map_of (nk_pending st) media = Some p" "odict_ok p" "distinct (concat cs)"
  shows "sent_ok media now p cs st r st'"
  using assms
proof (induction cs arbitrary: st p)
  case Nil
  then show ?case by (auto simp: sent_ok_def update_same)
next
  case (Cons c cs)
  define st1 where "st1 = record_stat ''video_nack_sequences_sent'' (int (length c))
    (record_stat ''video_nack_packets_sent'' 1 st)"
  have same: "nk_pending st1 = nk_pending st" "nk_sent st1 = nk_sent st"
    "nk_last_sequences st1 = nk_last_sequences st" "nk_rtx_enabled st1 = nk_rtx_enabled st"
    "nk_connection_ssrc st1 = nk_connection_ssrc st" by (simp_all add: st1_def)
  obtain r2 st2 where sn: "send_nack fails media c st1 = (r2, st2)" by (cases "send_nack fails media c st1")
  from send_nack_cases [OF sn] show ?case
  proof (elim disjE exE conjE)
    fix e assume "r2 = Inl e" "st2 = st1"
    then have "r = Inl e" "st' = st1" using Cons.prems(1) sn by (simp_all flip: st1_def)
    then show ?thesis using sent_ok_stop [of st media p now "c # cs" e] Cons.prems(2) same
      by (simp add: sent_ok_def)
  next
    assume r2: "r2 = Inr ()"
      and st2: "st2 = st1\<lparr>nk_sent := nk_sent st1 @ nack_packets (nk_connection_ssrc st1) media [c]\<rparr>"
    define st3 where "st3 = set_pending media (touch_all now (set c) p) st2"
    have dis: "distinct c" "distinct (concat cs)" "set c \<inter> set (concat cs) = {}"
      using Cons.prems(4) by simp_all
    have "send_nack_chunks fails media now cs st3 = (r, st')"
      using Cons.prems sn r2 st2 same dis
      by (simp add: st3_def mark_sent_touch flip: st1_def)
    then have "sent_ok media now (touch_all now (set c) p) cs st3 r st'"
      using Cons.prems(3) dis by (intro Cons.IH) (auto simp: st3_def)
    then obtain sent rest where s: "cs = sent @ rest" "is_ok r \<longrightarrow> rest = []"
      "nk_pending st' = AList.update media (touch_all now (set (concat sent)) (touch_all now (set c) p)) (nk_pending st3)"
      "nk_sent st' = nk_sent st3 @ nack_packets (nk_connection_ssrc st3) media sent"
      and o: "nk_last_sequences st' = nk_last_sequences st3" "nk_rtx_enabled st' = nk_rtx_enabled st3"
        "nk_connection_ssrc st' = nk_connection_ssrc st3"
      unfolding sent_ok_def by auto
    have "touch_all now (set (concat sent)) (touch_all now (set c) p) = touch_all now (set (concat (c # sent))) p"
      using dis s(1) by (subst touch_all_Un) auto
    then show ?thesis
      using s o same st2 unfolding sent_ok_def
      by (intro conjI exI [of _ "c # sent"] exI [of _ rest]) (auto simp: st3_def)
  qed
qed


lemma sendable_spec:
  "set (sendable_sequences P ss seen) = (\<lambda>s. s mod 65536) ` set ss \<inter> P - seen
     \<and> distinct (sendable_sequences P ss seen)"
  by (induction P ss seen rule: sendable_sequences.induct) (auto simp: Let_def)

lemma sendable_id:
  assumes "distinct ss" "set ss \<subseteq> P" "\<forall>s \<in> set ss. 0 \<le> s \<and> s < 65536" "set ss \<inter> seen = {}"
  shows "sendable_sequences P ss seen = ss"
  using assms by (induction ss arbitrary: seen) (auto simp: Let_def)

lemma send_pending_ok:
  assumes "send_pending_video_nacks fails media ss now st = (r, st')"
    and "map_of (nk_pending st) media = Some p" "odict_ok p"
  shows "sent_ok media now p (chunks 253 (sendable_sequences (set (keys p)) ss {})) st r st'"
  using assms sendable_spec [of "set (keys p)" ss "{}"]
  by (intro send_nack_chunks_ok [of fails]) (auto simp: send_pending_video_nacks_def concat_chunks)


section \<open>Invariant\<close>

definition pending_ok :: "(int, PendingVideoNack) odict \<Rightarrow> bool" where
  "pending_ok p \<longleftrightarrow> odict_ok p \<and> p \<noteq> [] \<and> length p \<le> 1000
     \<and> (\<forall>(s, n) \<in> set p. 0 \<le> s \<and> s < 65536 \<and> 0 \<le> retries n \<and> retries n \<le> 100)"

definition nack_inv :: "nack_state \<Rightarrow> bool" where
  "nack_inv st \<longleftrightarrow> odict_ok (nk_pending st)
     \<and> (\<forall>p \<in> set (vals (nk_pending st)). pending_ok p)
     \<and> (\<forall>s \<in> set (vals (nk_last_sequences st)). 0 \<le> s \<and> s < 65536)"

lemma nack_inv_cong:
  "nack_inv st \<Longrightarrow> nk_pending st' = nk_pending st \<Longrightarrow> nk_last_sequences st' = nk_last_sequences st \<Longrightarrow>
     nack_inv st'"
  by (simp add: nack_inv_def)

lemma nack_inv_lookup: "nack_inv st \<Longrightarrow> map_of (nk_pending st) media = Some p \<Longrightarrow> pending_ok p"
  by (auto simp: nack_inv_def dest: map_of_Some_vals)

lemma nack_inv_update:
  "nack_inv st \<Longrightarrow> pending_ok p \<Longrightarrow> nk_pending st' = AList.update media p (nk_pending st) \<Longrightarrow>
     nk_last_sequences st' = nk_last_sequences st \<Longrightarrow> nack_inv st'"
  using vals_update_subset [of media p "nk_pending st"] by (auto simp: nack_inv_def)

lemma nack_inv_delete:
  "nack_inv st \<Longrightarrow> nk_pending st' = AList.delete media (nk_pending st) \<Longrightarrow>
     nk_last_sequences st' = nk_last_sequences st \<Longrightarrow> nack_inv st'"
  using vals_delete_subset [of media "nk_pending st"] by (auto simp: nack_inv_def)

lemma nack_inv_last:
  "nack_inv st \<Longrightarrow> 0 \<le> s \<Longrightarrow> s < 65536 \<Longrightarrow> nk_pending st' = nk_pending st \<Longrightarrow>
     nk_last_sequences st' = AList.update ssrc s (nk_last_sequences st) \<Longrightarrow> nack_inv st'"
  using vals_update_subset [of ssrc s "nk_last_sequences st"] by (auto simp: nack_inv_def)

lemma pending_ok_touch:
  assumes "pending_ok p" "\<forall>(s, n) \<in> set p. s \<in> ss \<longrightarrow> retries n < 100"
  shows "pending_ok (touch_all now ss p)"
  using assms by (fastforce simp: pending_ok_def touch_all_def touch_def)

lemma sent_ok_inv:
  assumes "sent_ok media now p cs st r st'" "nack_inv st" "pending_ok p"
    and "\<forall>(s, n) \<in> set p. s \<in> set (concat cs) \<longrightarrow> retries n < 100"
  shows "nack_inv st'"
proof -
  obtain sent rest where s: "cs = sent @ rest"
    "nk_pending st' = AList.update media (touch_all now (set (concat sent)) p) (nk_pending st)"
    "nk_last_sequences st' = nk_last_sequences st"
    using assms(1) by (auto simp: sent_ok_def)
  have "pending_ok (touch_all now (set (concat sent)) p)"
    using assms(3,4) s(1) by (intro pending_ok_touch) auto
  then show ?thesis using nack_inv_update [OF assms(2)] s by blast
qed

text \<open>What remains after the expired requests are dropped, and what is due.\<close>

definition live_nacks :: "(int, PendingVideoNack) odict \<Rightarrow> (int, PendingVideoNack) odict" where
  "live_nacks p = filter (\<lambda>(s, n). \<not> nack_expired n) p"

definition due_sequences :: "pyfloat \<Rightarrow> (int, PendingVideoNack) odict \<Rightarrow> int list" where
  "due_sequences now p = keys (filter (\<lambda>(s, n). nack_due now n) p)"

lemma odict_ok_unique: "odict_ok d \<Longrightarrow> (k, v) \<in> set d \<Longrightarrow> (k, w) \<in> set d \<Longrightarrow> v = w"
  by (metis keys_def map_of_eq_Some_iff odict_ok_def option.inject)

lemma filter_expired:
  "odict_ok p \<Longrightarrow> filter (\<lambda>(s, n). s \<notin> set (keys (filter (\<lambda>(s, n). nack_expired n) p))) p = live_nacks p"
  unfolding live_nacks_def keys_def
  by (intro filter_cong) (auto simp: image_iff dest: odict_ok_unique)

lemma due_live:
  assumes "pending_ok p"
  shows "sendable_sequences (set (keys (live_nacks p))) (due_sequences now p) {} = due_sequences now p"
    and "\<forall>(s, n) \<in> set (live_nacks p). s \<in> set (due_sequences now p) \<longrightarrow> retries n < 100"
proof -
  have p: "odict_ok p" "\<forall>(s, n) \<in> set p. 0 \<le> s \<and> s < 65536"
    using assms by (auto simp: pending_ok_def)
  have "distinct (due_sequences now p)"
    using odict_ok_filter [OF p(1)] by (simp add: due_sequences_def odict_ok_def)
  moreover have "set (due_sequences now p) \<subseteq> set (keys (live_nacks p))"
    by (force simp: due_sequences_def live_nacks_def keys_def nack_due_def)
  moreover have "\<forall>s \<in> set (due_sequences now p). 0 \<le> s \<and> s < 65536"
    using p(2) by (auto simp: due_sequences_def keys_def)
  ultimately show "sendable_sequences (set (keys (live_nacks p))) (due_sequences now p) {} = due_sequences now p"
    by (intro sendable_id) auto
  show "\<forall>(s, n) \<in> set (live_nacks p). s \<in> set (due_sequences now p) \<longrightarrow> retries n < 100"
    by (auto simp: live_nacks_def nack_expired_def)
qed


lemma live_nil: "live_nacks p = [] \<Longrightarrow> due_sequences now p = []"
  by (auto simp: live_nacks_def due_sequences_def nack_due_def filter_empty_conv keys_def)

lemma retry_cases:
  assumes "retry_pending_video_nacks fails media now st = (r, st')"
    and "map_of (nk_pending st) media = Some p" "pending_ok p"
  shows "\<exists>st1 st2 r2. nk_pending st1 = AList.update media (live_nacks p) (nk_pending st)
    \<and> nk_sent st1 = nk_sent st \<and> nk_last_sequences st1 = nk_last_sequences st
    \<and> nk_connection_ssrc st1 = nk_connection_ssrc st \<and> nk_rtx_enabled st1 = nk_rtx_enabled st
    \<and> sent_ok media now (live_nacks p) (chunks 253 (due_sequences now p)) st1 r2 st2
    \<and> ((\<exists>e. r2 = Inl e \<and> r = Inl e \<and> st' = st2 \<and> live_nacks p \<noteq> [])
       \<or> r2 = Inr () \<and> r = Inr () \<and> st' = (if live_nacks p = [] then drop_pending media st2 else st2))"
proof -
  let ?expired = "keys (filter (\<lambda>(s, n). nack_expired n) p)"
  define st0 where "st0 = set_pending media (live_nacks p) st"
  define st1 where "st1 = (if ?expired \<noteq> []
    then record_stat ''video_nack_sequences_expired'' (int (length ?expired)) st0 else st0)"
  have p: "odict_ok p" using assms(3) by (simp add: pending_ok_def)
  have ok: "odict_ok (live_nacks p)" using p by (simp add: live_nacks_def)
  have s1: "nk_pending st1 = AList.update media (live_nacks p) (nk_pending st)" "nk_sent st1 = nk_sent st"
    "nk_last_sequences st1 = nk_last_sequences st" "nk_connection_ssrc st1 = nk_connection_ssrc st"
    "nk_rtx_enabled st1 = nk_rtx_enabled st" by (simp_all add: st1_def st0_def)
  have look: "map_of (nk_pending st1) media = Some (live_nacks p)" by (simp add: s1 map_of_update_eq)
  obtain r2 st2 where sp: "(if due_sequences now p \<noteq> []
      then send_pending_video_nacks fails media (due_sequences now p) now st1 else (Inr (), st1)) = (r2, st2)"
    by fastforce
  have sent: "sent_ok media now (live_nacks p) (chunks 253 (due_sequences now p)) st1 r2 st2"
  proof (cases "due_sequences now p = []")
    case True
    then show ?thesis using sp look
      by (auto simp: sent_ok_def update_same chunks.simps [of _ "[]"])
  next
    case False
    then show ?thesis
      using sp send_pending_ok [OF _ look ok, of fails "due_sequences now p" now r2 st2]
        due_live(1) [OF assms(3), of now] by simp
  qed
  have final: "(r, st') = bind_res (r2, st2) (\<lambda>_ st. (Inr (), case map_of (nk_pending st) media of
      Some [] \<Rightarrow> drop_pending media st | _ \<Rightarrow> st))"
    using assms(1,2) sp
    unfolding retry_pending_video_nacks_def Let_def
    by (simp add: filter_expired [OF p] st0_def st1_def cong: if_cong flip: due_sequences_def)
  obtain ss where look2: "map_of (nk_pending st2) media = Some (touch_all now ss (live_nacks p))"
    using sent by (auto simp: sent_ok_def map_of_update_eq)
  have "touch_all now ss (live_nacks p) = [] \<longleftrightarrow> live_nacks p = []" by (simp add: touch_all_def)
  moreover have "live_nacks p = [] \<Longrightarrow> r2 = Inr ()" using sp live_nil [of p now] by (simp split: if_splits)
  ultimately have "(\<exists>e. r2 = Inl e \<and> r = Inl e \<and> st' = st2 \<and> live_nacks p \<noteq> [])
       \<or> r2 = Inr () \<and> r = Inr () \<and> st' = (if live_nacks p = [] then drop_pending media st2 else st2)"
    using final look2 by (cases r2) (auto split: list.splits)
  with s1 sent show ?thesis by blast
qed

lemma retry_inv:
  assumes "nack_inv st" "retry_pending_video_nacks fails media now st = (r, st')"
  shows "nack_inv st' \<and> nk_last_sequences st' = nk_last_sequences st"
proof (cases "map_of (nk_pending st) media")
  case None
  then show ?thesis using assms by (simp add: retry_pending_video_nacks_def)
next
  case (Some p)
  then have p: "pending_ok p" by (rule nack_inv_lookup [OF assms(1)])
  from retry_cases [OF assms(2) Some p] obtain st1 st2 r2 where
    s1: "nk_pending st1 = AList.update media (live_nacks p) (nk_pending st)"
      "nk_last_sequences st1 = nk_last_sequences st"
    and sent: "sent_ok media now (live_nacks p) (chunks 253 (due_sequences now p)) st1 r2 st2"
    and fin: "st' = (if live_nacks p = [] then drop_pending media st2 else st2)" by fastforce
  obtain ss where s2: "nk_pending st2 = AList.update media (touch_all now ss (live_nacks p)) (nk_pending st1)"
    "nk_last_sequences st2 = nk_last_sequences st1" using sent by (auto simp: sent_ok_def)
  show ?thesis
  proof (cases "live_nacks p = []")
    case True
    then have "nk_pending st' = AList.delete media (nk_pending st)" "nk_last_sequences st' = nk_last_sequences st"
      using fin s1 s2 by simp_all
    then show ?thesis using nack_inv_delete [OF assms(1)] by blast
  next
    case False
    then have live: "pending_ok (live_nacks p)"
      using p by (auto simp: pending_ok_def live_nacks_def intro: le_trans [OF length_filter_le])
    have "nack_inv st1" using assms(1) live s1 by (rule nack_inv_update)
    then have "nack_inv st2"
      using sent_ok_inv [OF sent _ live] due_live(2) [OF p, of now] by (simp add: concat_chunks)
    then show ?thesis using fin False s1 s2 by auto
  qed
qed


lemma retry_inv1: "retry_pending_video_nacks fails media now st = (r, st') \<Longrightarrow> nack_inv st \<Longrightarrow> nack_inv st'"
  using retry_inv by blast

definition no_nack :: PendingVideoNack where
  "no_nack = \<lparr>sent_at = 0, retries = 0\<rparr>"

definition pending_of :: "nack_state \<Rightarrow> int \<Rightarrow> (int, PendingVideoNack) odict" where
  "pending_of st media = (case map_of (nk_pending st) media of None \<Rightarrow> [] | Some p \<Rightarrow> p)"

definition new_sequences :: "nack_state \<Rightarrow> int \<Rightarrow> int list \<Rightarrow> int list" where
  "new_sequences st media ss =
     filter (\<lambda>s. s \<notin> set (keys (pending_of st media))) (unique_order (map (\<lambda>s. s mod 65536) ss))"

text \<open>The three ways \<open>_add_pending_video_nacks\<close> can end: nothing new, overflow, added.\<close>

lemma add_pending_cases:
  assumes "add_pending_video_nacks fails media ss st = (added, st')" "nack_inv st"
  shows "added = [] \<and> st' = st \<and> new_sequences st media ss = []
    \<or> added = [] \<and> length (pending_of st media) + length (new_sequences st media ss) > 1000
        \<and> nk_pending st' = AList.delete media (nk_pending st)
        \<and> nk_last_sequences st' = nk_last_sequences st \<and> nk_rtx_enabled st' = nk_rtx_enabled st
        \<and> nk_connection_ssrc st' = nk_connection_ssrc st
    \<or> added \<noteq> [] \<and> added = new_sequences st media ss
        \<and> length (pending_of st media) + length added \<le> 1000
        \<and> nk_pending st' = AList.update media (pending_of st media @ map (\<lambda>s. (s, no_nack)) added) (nk_pending st)
        \<and> nk_last_sequences st' = nk_last_sequences st \<and> nk_rtx_enabled st' = nk_rtx_enabled st
        \<and> nk_connection_ssrc st' = nk_connection_ssrc st \<and> nk_sent st' = nk_sent st"
proof -
  define us where "us = unique_order (map (\<lambda>s. s mod 65536) ss)"
  define st1 where "st1 = (if map_of (nk_pending st) media = None then set_pending media [] st else st)"
  define st2 where "st2 = drop_pending media (record_stat ''video_nack_overflows'' 1 st1)"
  define st3 where "st3 = snd (send_pli fails media st2)"
  have s1: "AList.update media p (nk_pending st1) = AList.update media p (nk_pending st)"
    "AList.delete media (nk_pending st1) = AList.delete media (nk_pending st)"
    "nk_last_sequences st1 = nk_last_sequences st" "nk_rtx_enabled st1 = nk_rtx_enabled st"
    "nk_connection_ssrc st1 = nk_connection_ssrc st" "nk_sent st1 = nk_sent st" for p
    by (simp_all add: st1_def)
  have s3: "nk_pending st3 = nk_pending st2" "nk_last_sequences st3 = nk_last_sequences st2"
    "nk_rtx_enabled st3 = nk_rtx_enabled st2" "nk_connection_ssrc st3 = nk_connection_ssrc st2"
    by (simp_all add: st3_def send_pli_def send_packet_def split: sum.splits option.splits)
  have none: "map_of (nk_pending st) media = None \<Longrightarrow> us \<noteq> [] \<Longrightarrow> new_sequences st media ss \<noteq> []"
    by (simp add: new_sequences_def pending_of_def us_def)
  have "(added, st') =
      (if us = [] then ([], st)
       else if new_sequences st media ss = [] then ([], st1)
       else if length (pending_of st media) + length (new_sequences st media ss) > 1000 then ([], st3)
       else (new_sequences st media ss,
             set_pending media (pending_of st media @ map (\<lambda>s. (s, no_nack)) (new_sequences st media ss)) st1))"
    unfolding assms(1) [symmetric]
    by (simp add: add_pending_video_nacks_def Let_def new_sequences_def pending_of_def us_def st1_def st2_def st3_def
        no_nack_def case_prod_beta cong: if_cong split: option.splits)
  then show ?thesis
    using none by (auto simp: s1 s3 st2_def st1_def new_sequences_def us_def split: if_splits)
qed

lemma new_sequences_props:
  "distinct (new_sequences st media ss)"
  "set (new_sequences st media ss) \<inter> set (keys (pending_of st media)) = {}"
  "\<forall>s \<in> set (new_sequences st media ss). 0 \<le> s \<and> s < 65536"
  by (auto simp: new_sequences_def)

lemma pending_of_ok: "nack_inv st \<Longrightarrow> pending_of st media \<noteq> [] \<Longrightarrow> pending_ok (pending_of st media)"
  by (auto simp: pending_of_def dest: nack_inv_lookup split: option.splits)

lemma pending_ok_append:
  assumes "nack_inv st" "added = new_sequences st media ss" "added \<noteq> []"
    "length (pending_of st media) + length added \<le> 1000"
  shows "pending_ok (pending_of st media @ map (\<lambda>s. (s, no_nack)) added)"
proof -
  have "distinct (keys (pending_of st media))" "\<forall>(s, n) \<in> set (pending_of st media).
      0 \<le> s \<and> s < 65536 \<and> 0 \<le> retries n \<and> retries n \<le> 100"
    using pending_of_ok [OF assms(1), of media]
    by (cases "pending_of st media = []"; simp add: pending_ok_def odict_ok_def)+
  then show ?thesis
    using assms(3,4) new_sequences_props [of st media ss] unfolding assms(2)
    by (auto simp: pending_ok_def odict_ok_def keys_def no_nack_def o_def)
qed

lemma add_pending_inv:
  assumes "add_pending_video_nacks fails media ss st = (added, st')" "nack_inv st"
  shows "nack_inv st'"
  using add_pending_cases [OF assms]
proof (elim disjE conjE)
  assume "added \<noteq> []" "added = new_sequences st media ss" "length (pending_of st media) + length added \<le> 1000"
    "nk_pending st' = AList.update media (pending_of st media @ map (\<lambda>s. (s, no_nack)) added) (nk_pending st)"
    "nk_last_sequences st' = nk_last_sequences st"
  then show ?thesis using nack_inv_update [OF assms(2) pending_ok_append [OF assms(2)]] by blast
qed (use assms(2) nack_inv_delete in blast)+

lemma forget_pending_inv:
  assumes "nack_inv st"
  shows "nack_inv (forget_pending ssrc s st)"
proof (cases "map_of (nk_pending st) ssrc")
  case None
  then show ?thesis using assms by (simp add: forget_pending_def)
next
  case (Some p)
  have "pending_ok (AList.delete s p)" if "AList.delete s p \<noteq> []"
  proof -
    have "set (AList.delete s p) \<subseteq> set p" by (auto simp: AList.delete_eq)
    then show ?thesis
      using nack_inv_lookup [OF assms Some] that length_delete_le [of s p] by (auto simp: pending_ok_def)
  qed
  then show ?thesis
    using assms Some by (auto simp: forget_pending_def Let_def intro: nack_inv_delete nack_inv_update)
qed


lemma send_pending_inv:
  assumes "send_pending_video_nacks fails media ss now st = (r, st')" "nack_inv st"
    and "\<forall>s \<in> set ss. \<forall>n. (s, n) \<in> set (pending_of st media) \<longrightarrow> retries n < 100"
    and "\<forall>s \<in> set ss. 0 \<le> s \<and> s < 65536"
  shows "nack_inv st'"
proof (cases "map_of (nk_pending st) media")
  case None
  then show ?thesis using assms(1,2) by (simp add: send_pending_video_nacks_def)
next
  case (Some p)
  then have p: "pending_ok p" by (rule nack_inv_lookup [OF assms(2)])
  then have sent: "sent_ok media now p (chunks 253 (sendable_sequences (set (keys p)) ss {})) st r st'"
    using send_pending_ok [OF assms(1) Some] by (simp add: pending_ok_def)
  have "retries n < 100" if "(s, n) \<in> set p" "s \<in> set (sendable_sequences (set (keys p)) ss {})" for s n
  proof -
    from that(2) obtain s' where "s' \<in> set ss" "s = s' mod 65536" using sendable_spec [of "set (keys p)" ss "{}"] by auto
    then show ?thesis using assms(3,4) that(1) Some by (auto simp: pending_of_def)
  qed
  then show ?thesis
    by (intro sent_ok_inv [OF sent assms(2) p]) (auto simp: concat_chunks simp del: set_concat)
qed

lemma retry_if_rtx_inv: "retry_if_rtx fails ssrc now st = (r, st') \<Longrightarrow> nack_inv st \<Longrightarrow> nack_inv st'"
  using retry_inv by (auto simp: retry_if_rtx_def split: if_splits)

lemma request_missing_inv:
  assumes "request_missing fails ssrc previous delta now st = (r, st')" "nack_inv st"
  shows "nack_inv st'"
proof -
  let ?missing = "map (\<lambda>offset. (previous + offset) mod 65536) [1..delta - 1]"
  obtain added st1 where a: "add_pending_video_nacks fails ssrc ?missing st = (added, st1)" by fastforce
  have i1: "nack_inv st1" by (rule add_pending_inv [OF a assms(2)])
  let ?st2 = "record_stat ''video_nack_sequences_added'' (int (length added)) st1"
  have i2: "nack_inv ?st2" using i1 by (rule nack_inv_cong) simp_all
  obtain r3 st3 where s: "(if added \<noteq> [] then send_pending_video_nacks fails ssrc added now ?st2 else (Inr (), st1))
      = (r3, st3)" by fastforce
  have "nack_inv st3"
  proof (cases "added = []")
    case True
    then show ?thesis using s i1 by simp
  next
    case False
    then have n: "added = new_sequences st ssrc ?missing"
      "nk_pending st1 = AList.update ssrc (pending_of st ssrc @ map (\<lambda>s. (s, no_nack)) added) (nk_pending st)"
      using add_pending_cases [OF a assms(2)] by auto
    have "retries n < 100" if "s \<in> set added" "(s, n) \<in> set (pending_of ?st2 ssrc)" for s n
    proof -
      have "s \<notin> set (keys (pending_of st ssrc))" using that(1) n(1) new_sequences_props(2) by blast
      moreover have "pending_of ?st2 ssrc = pending_of st ssrc @ map (\<lambda>s. (s, no_nack)) added"
        by (simp add: pending_of_def [of ?st2] n(2) map_of_update_eq)
      ultimately have "n = no_nack" using that(2) by (auto dest: in_keysI)
      then show ?thesis by (simp add: no_nack_def)
    qed
    moreover have "\<forall>s \<in> set added. 0 \<le> s \<and> s < 65536" using new_sequences_props(3) n(1) by blast
    ultimately show ?thesis using s False send_pending_inv [OF _ i2] by auto
  qed
  moreover have "bind_res (r3, st3) (\<lambda>_ st. retry_pending_video_nacks fails ssrc now st) = (r, st')"
    using assms(1) a s by (simp add: request_missing_def Let_def)
  ultimately show ?thesis by (cases r3) (auto dest: retry_inv1)
qed

lemma advance_sequence_inv:
  assumes "advance_sequence fails ssrc previous s delta now st = (r, st')" "nack_inv st" "0 \<le> s" "s < 65536"
  shows "nack_inv st'"
proof -
  define st1 where "st1 = (if s < previous then record_stat ''video_sequence_wraps'' 1 st else st)"
  define st2 where "st2 = (if delta > 1 then record_max_stat ''video_sequence_gap_max'' delta
    (record_stat ''video_sequence_gaps'' 1 st1) else st1)"
  define st3 where "st3 = st2\<lparr>nk_last_sequences := AList.update ssrc s (nk_last_sequences st2)\<rparr>"
  have "nack_inv st3"
    using assms(2-4) by (rule nack_inv_last) (simp_all add: st3_def st2_def st1_def)
  moreover have "(if \<not> nk_rtx_enabled st3 then (Inr (), st3)
      else if delta = 1 then retry_pending_video_nacks fails ssrc now st3
      else request_missing fails ssrc previous delta now st3) = (r, st')"
    by (simp only: assms(1) [symmetric] advance_sequence_def Let_def st3_def st2_def st1_def)
  ultimately show ?thesis
    by (auto dest: retry_inv1 request_missing_inv split: if_splits)
qed

lemma track_inv:
  assumes "track_video_receive_sequence fails ssrc raw repaired now st = (r, st')" "nack_inv st"
  shows "nack_inv st'"
proof -
  define st1 where "st1 = forget_pending ssrc (raw mod 65536) st"
  have i1: "nack_inv st1" unfolding st1_def by (rule forget_pending_inv [OF assms(2)])
  have stat: "nack_inv (record_stat k n st1)" for k n using i1 by (rule nack_inv_cong) simp_all
  have last: "nack_inv (st1\<lparr>nk_last_sequences := AList.update ssrc (raw mod 65536) (nk_last_sequences st1)\<rparr>)"
    using i1 by (rule nack_inv_last [where s = "raw mod 65536"]) simp_all
  note retry = retry_if_rtx_inv [of fails ssrc now _ r st']
  show ?thesis
    using assms(1) retry [OF _ stat] retry [OF _ last] advance_sequence_inv [OF _ i1, of fails ssrc _ "raw mod 65536"]
    by (auto simp: track_video_receive_sequence_def Let_def simp flip: st1_def split: if_splits option.splits)
qed



section \<open>Receive thread and retry timer\<close>

text \<open>
  One step is a whole call: a packet on the receive thread, or the timer thread retrying one
  source. A call that raises leaves the state it had reached.
\<close>

inductive nack_step :: "(rtcp_msg \<Rightarrow> exn option) \<Rightarrow> nack_state \<Rightarrow> nack_state \<Rightarrow> bool"
  for fails
where
  receive: "track_video_receive_sequence fails ssrc raw repaired now st = (r, st') \<Longrightarrow> nack_step fails st st'"
| timer: "retry_pending_video_nacks fails ssrc now st = (r, st') \<Longrightarrow> nack_step fails st st'"

definition nack_init :: "int \<Rightarrow> bool \<Rightarrow> bool \<Rightarrow> nack_state" where
  "nack_init ssrc rtx debug =
     \<lparr>nk_connection_ssrc = ssrc, nk_rtx_enabled = rtx, nk_debug_stats = debug, nk_stats = [],
      nk_last_sequences = [], nk_pending = [], nk_sent = []\<rparr>"

lemma nack_reachable_inv: "(nack_step fails)\<^sup>*\<^sup>* (nack_init ssrc rtx debug) st \<Longrightarrow> nack_inv st"
proof (induction rule: rtranclp_induct)
  case base
  then show ?case by (simp add: nack_init_def nack_inv_def)
next
  case (step st st')
  from step(2) step.IH show ?case by cases (auto dest: track_inv retry_inv)
qed

text \<open>
  C2. However packets and timer ticks interleave, and whatever calls raise, the requests pending
  for a source are for distinct 16-bit sequence numbers, never more than 1000 of them, none asked
  for more than 100 times; and a source without pending requests has no entry.
\<close>

theorem nack_requests_bounded:
  assumes "(nack_step fails)\<^sup>*\<^sup>* (nack_init ssrc rtx debug) st" and "map_of (nk_pending st) media = Some p"
  shows "distinct (keys p) \<and> p \<noteq> [] \<and> length p \<le> 1000
    \<and> (\<forall>(s, n) \<in> set p. 0 \<le> s \<and> s < 2 ^ 16 \<and> 0 \<le> retries n \<and> retries n \<le> 100)"
  using nack_inv_lookup [OF nack_reachable_inv [OF assms(1)] assms(2)]
  by (simp add: pending_ok_def odict_ok_def)

lemma retry_returns:
  assumes "retry_pending_video_nacks fails media now st = (Inr (), st')"
    and "map_of (nk_pending st) media = Some p" "pending_ok p"
  shows "nk_sent st' = nk_sent st @ nack_packets (nk_connection_ssrc st) media (chunks 253 (due_sequences now p))"
    and "pending_of st' media = touch_all now (set (due_sequences now p)) (live_nacks p)"
    and "nk_last_sequences st' = nk_last_sequences st"
proof -
  from retry_cases [OF assms] obtain st1 st2 where
    s1: "nk_pending st1 = AList.update media (live_nacks p) (nk_pending st)" "nk_sent st1 = nk_sent st"
      "nk_connection_ssrc st1 = nk_connection_ssrc st" "nk_last_sequences st1 = nk_last_sequences st"
    and sent: "sent_ok media now (live_nacks p) (chunks 253 (due_sequences now p)) st1 (Inr ()) st2"
    and fin: "st' = (if live_nacks p = [] then drop_pending media st2 else st2)" by fastforce
  have s2: "nk_pending st2 = AList.update media (touch_all now (set (due_sequences now p)) (live_nacks p)) (nk_pending st)"
    "nk_sent st2 = nk_sent st @ nack_packets (nk_connection_ssrc st) media (chunks 253 (due_sequences now p))"
    "nk_last_sequences st2 = nk_last_sequences st"
    using sent s1 by (auto simp: sent_ok_def concat_chunks simp del: set_concat)
  have nil: "live_nacks p = [] \<Longrightarrow> touch_all now ss (live_nacks p) = []" for ss by (simp add: touch_all_def)
  show "nk_sent st' = nk_sent st @ nack_packets (nk_connection_ssrc st) media (chunks 253 (due_sequences now p))"
    "nk_last_sequences st' = nk_last_sequences st" using fin s2 by simp_all
  show "pending_of st' media = touch_all now (set (due_sequences now p)) (live_nacks p)"
    using fin s2 nil by (simp add: pending_of_def map_of_update_eq delete_conv' split: if_splits)
qed

text \<open>A run used as a witness: packets 65534 and 2 of source 5, then a timer tick.\<close>

abbreviation (input) "no_failure \<equiv> (\<lambda>_ :: rtcp_msg. None :: exn option)"

definition sample_first :: nack_state where
  "sample_first = snd (track_video_receive_sequence no_failure 5 65534 False 1 (nack_init 7 True True))"

definition sample_gap :: nack_state where
  "sample_gap = snd (track_video_receive_sequence no_failure 5 2 False 2 sample_first)"

lemma sample_first_reachable: "(nack_step no_failure)\<^sup>*\<^sup>* (nack_init 7 True True) sample_first"
  unfolding sample_first_def by (intro r_into_rtranclp nack_step.receive [OF prod.collapse [symmetric]])

lemma sample_gap_reachable: "(nack_step no_failure)\<^sup>*\<^sup>* (nack_init 7 True True) sample_gap"
  unfolding sample_gap_def
  by (intro rtranclp.rtrancl_into_rtrancl [OF sample_first_reachable] nack_step.receive [OF prod.collapse [symmetric]])

lemma sample_gap_pending: "map_of (nk_pending sample_gap) 5 =
    Some [(65535, \<lparr>sent_at = 2, retries = 1\<rparr>), (0, \<lparr>sent_at = 2, retries = 1\<rparr>), (1, \<lparr>sent_at = 2, retries = 1\<rparr>)]"
  by code_simp

theorem nack_requests_bounded_witness:
  "distinct (keys [(65535 :: int, \<lparr>sent_at = 2, retries = 1\<rparr>), (0, \<lparr>sent_at = 2, retries = 1\<rparr>), (1, \<lparr>sent_at = 2, retries = 1\<rparr>)])"
  using nack_requests_bounded [OF sample_gap_reachable sample_gap_pending] by blast

text \<open>
  A retry that returns asks again for exactly the pending numbers that are at least 100 ms
  old and were asked for fewer than 100 times, in chunks of at most 253; their time and count are
  updated, the exhausted ones are dropped, and nothing else changes.
\<close>

theorem retry_repeats_due_requests:
  assumes "retry_pending_video_nacks fails media now st = (Inr (), st')"
    and "nack_inv st" and "map_of (nk_pending st) media = Some p"
  shows "nk_sent st' = nk_sent st
        @ nack_packets (nk_connection_ssrc st) media
            (chunks 253 (keys (filter (\<lambda>(s, n). retries n < 100 \<and> 1 / 10 \<le> now - sent_at n) p)))
    \<and> pending_of st' media =
        map (\<lambda>(s, n). (s, if 1 / 10 \<le> now - sent_at n then n\<lparr>sent_at := now, retries := retries n + 1\<rparr> else n))
          (filter (\<lambda>(s, n). retries n < 100) p)"
proof -
  have p: "pending_ok p" by (rule nack_inv_lookup [OF assms(2,3)])
  have due: "due_sequences now p = keys (filter (\<lambda>(s, n). retries n < 100 \<and> 1 / 10 \<le> now - sent_at n) p)"
    by (simp add: due_sequences_def nack_due_def nack_expired_def not_le)
  have live: "live_nacks p = filter (\<lambda>(s, n). retries n < 100) p"
    by (simp add: live_nacks_def nack_expired_def not_le)
  have touched: "touch_all now (set (due_sequences now p)) (live_nacks p) =
      map (\<lambda>(s, n). (s, if 1 / 10 \<le> now - sent_at n then n\<lparr>sent_at := now, retries := retries n + 1\<rparr> else n))
        (live_nacks p)"
    using p unfolding due live
    by (auto simp: touch_all_def touch_def keys_def pending_ok_def image_iff dest: odict_ok_unique)
  show ?thesis
    using retry_returns [OF assms(1,3) p] touched due live by simp
qed

theorem retry_repeats_due_requests_witness:
  "keys (pending_of (snd (retry_pending_video_nacks no_failure 5 3 sample_gap)) 5) = [65535, 0, 1]"
proof -
  have "retry_pending_video_nacks no_failure 5 3 sample_gap
      = (Inr (), snd (retry_pending_video_nacks no_failure 5 3 sample_gap))" by code_simp
  from retry_repeats_due_requests [OF this nack_reachable_inv [OF sample_gap_reachable] sample_gap_pending]
  show ?thesis by simp
qed

lemma forget_pending_of [simp]:
  "pending_of (forget_pending ssrc s st) ssrc = AList.delete s (pending_of st ssrc)"
  by (simp add: forget_pending_def pending_of_def Let_def map_of_update_eq delete_conv' split: option.splits)

lemma forget_pending_same [simp]:
  "nk_sent (forget_pending ssrc s st) = nk_sent st"
  "nk_last_sequences (forget_pending ssrc s st) = nk_last_sequences st"
  "nk_rtx_enabled (forget_pending ssrc s st) = nk_rtx_enabled st"
  "nk_connection_ssrc (forget_pending ssrc s st) = nk_connection_ssrc st"
  by (simp_all add: forget_pending_def Let_def split: option.splits)

definition missing_between :: "int \<Rightarrow> int \<Rightarrow> int list" where
  "missing_between previous delta = map (\<lambda>offset. (previous + offset) mod 65536) [1..delta - 1]"

lemma distinct_missing: "delta \<le> 32767 \<Longrightarrow> distinct (missing_between previous delta)"
proof -
  assume d: "delta \<le> 32767"
  have "x = y" if "x \<in> set [1..delta - 1]" "y \<in> set [1..delta - 1]"
    "(previous + x) mod 65536 = (previous + y) mod 65536" for x y
  proof -
    have "((previous + x) - (previous + y)) mod 65536 = 0" using that(3) by (metis mod_diff_cong diff_self mod_0)
    then have "65536 dvd x - y" by (simp add: mod_eq_0_iff_dvd)
    moreover have "\<bar>x - y\<bar> < 65536" using that d by auto
    ultimately show ?thesis using zdvd_not_zless [of "\<bar>x - y\<bar>" 65536] by (cases "x = y") auto
  qed
  then show ?thesis by (auto simp: missing_between_def distinct_map intro!: inj_onI)
qed

lemma new_missing:
  assumes "delta \<le> 32767"
  shows "new_sequences st media (missing_between previous delta)
    = filter (\<lambda>s. s \<notin> set (keys (pending_of st media))) (missing_between previous delta)"
proof -
  have "map (\<lambda>s. s mod 65536) (missing_between previous delta) = missing_between previous delta"
    by (simp add: missing_between_def)
  then show ?thesis using distinct_missing [OF assms] by (simp add: new_sequences_def unique_order_id)
qed

lemma due_append: "due_sequences now (p @ q) = due_sequences now p @ due_sequences now q"
  by (simp add: due_sequences_def keys_def)

lemma live_append: "live_nacks (p @ q) = live_nacks p @ live_nacks q"
  by (simp add: live_nacks_def)

lemma touch_append: "touch_all now ss (p @ q) = touch_all now ss p @ touch_all now ss q"
  by (simp add: touch_all_def)

lemma touch_other: "ss \<inter> set (keys p) = {} \<Longrightarrow> touch_all now ss p = p"
  by (induction p) (auto simp: touch_all_def)

lemma touched_new:
  "due_sequences now (touch_all now (set ss) (map (\<lambda>s. (s, no_nack)) ss)) = []"
  "live_nacks (touch_all now (set ss) (map (\<lambda>s. (s, no_nack)) ss)) = touch_all now (set ss) (map (\<lambda>s. (s, no_nack)) ss)"
  by (auto simp: due_sequences_def live_nacks_def touch_all_def touch_def nack_due_def nack_expired_def no_nack_def
      keys_def filter_empty_conv intro!: filter_True)

lemma keys_new: "keys (map (\<lambda>s. (s, n)) ss) = ss"
  by (induction ss) auto


lemma retry_returns_of:
  assumes "retry_pending_video_nacks fails media now st = (Inr (), st')" "nack_inv st"
  shows "nk_sent st' = nk_sent st
      @ nack_packets (nk_connection_ssrc st) media (chunks 253 (due_sequences now (pending_of st media)))
    \<and> keys (pending_of st' media) = keys (live_nacks (pending_of st media))
    \<and> nk_last_sequences st' = nk_last_sequences st"
proof (cases "map_of (nk_pending st) media")
  case None
  then show ?thesis using assms(1)
    by (simp add: retry_pending_video_nacks_def pending_of_def due_sequences_def live_nacks_def chunks.simps [of _ "[]"])
next
  case (Some p)
  then show ?thesis
    using retry_returns [OF assms(1) Some nack_inv_lookup [OF assms(2) Some]] by (simp add: pending_of_def [of st])
qed

lemma request_missing_ok:
  assumes run: "request_missing fails ssrc previous delta now st = (Inr (), st')"
    and inv: "nack_inv st" and delta: "delta \<le> 32767"
    and new: "new = filter (\<lambda>s. s \<notin> set (keys (pending_of st ssrc))) (missing_between previous delta)"
    and room: "length (pending_of st ssrc) + length new \<le> 1000"
  shows "nk_sent st' = nk_sent st @ nack_packets (nk_connection_ssrc st) ssrc (chunks 253 new)
      @ nack_packets (nk_connection_ssrc st) ssrc (chunks 253 (due_sequences now (pending_of st ssrc)))
    \<and> keys (pending_of st' ssrc) = keys (live_nacks (pending_of st ssrc)) @ new
    \<and> nk_last_sequences st' = nk_last_sequences st"
proof -
  obtain added st1 where a: "add_pending_video_nacks fails ssrc (missing_between previous delta) st = (added, st1)"
    by fastforce
  have ns: "new_sequences st ssrc (missing_between previous delta) = new"
    using new_missing [OF delta] new by simp
  have i1: "nack_inv st1" by (rule add_pending_inv [OF a inv])
  let ?st2 = "record_stat ''video_nack_sequences_added'' (int (length added)) st1"
  have run': "bind_res (if added \<noteq> [] then send_pending_video_nacks fails ssrc added now ?st2 else (Inr (), st1))
      (\<lambda>_ st. retry_pending_video_nacks fails ssrc now st) = (Inr (), st')"
    using run a by (simp add: request_missing_def Let_def missing_between_def)
  from add_pending_cases [OF a inv] consider
      "added = []" "st1 = st" "new = []"
    | "added \<noteq> []" "added = new" "nk_sent st1 = nk_sent st" "nk_connection_ssrc st1 = nk_connection_ssrc st"
      "nk_last_sequences st1 = nk_last_sequences st"
      "nk_pending st1 = AList.update ssrc (pending_of st ssrc @ map (\<lambda>s. (s, no_nack)) new) (nk_pending st)"
    using room ns by fastforce
  then show ?thesis
  proof cases
    case 1
    then show ?thesis using run' retry_returns_of [of fails ssrc now st st'] inv
      by (simp add: chunks.simps [of _ "[]"])
  next
    case 2
    define p where "p = pending_of st ssrc @ map (\<lambda>s. (s, no_nack)) new"
    have look: "map_of (nk_pending ?st2) ssrc = Some p" using 2 by (simp add: p_def map_of_update_eq)
    have ok: "pending_ok p" using pending_ok_append [OF inv ns [symmetric]] 2 room by (simp add: p_def)
    obtain r3 st3 where s: "send_pending_video_nacks fails ssrc new now ?st2 = (r3, st3)" by fastforce
    then have r3: "r3 = Inr ()" and rt: "retry_pending_video_nacks fails ssrc now st3 = (Inr (), st')"
      using run' 2 by (cases r3; simp)+
    have np: "distinct new" "set new \<inter> set (keys (pending_of st ssrc)) = {}" "\<forall>s \<in> set new. 0 \<le> s \<and> s < 65536"
      using new_sequences_props [of st ssrc "missing_between previous delta"] ns by simp_all
    have "sendable_sequences (set (keys p)) new {} = new"
      using np by (intro sendable_id) (auto simp: p_def keys_def)
    then have sent: "sent_ok ssrc now p (chunks 253 new) ?st2 (Inr ()) st3"
      using send_pending_ok [OF s look] ok r3 by (simp add: pending_ok_def)
    have tp: "touch_all now (set new) p = pending_of st ssrc @ touch_all now (set new) (map (\<lambda>s. (s, no_nack)) new)"
      using np(2) by (simp add: p_def touch_append touch_other)
    have s3: "nk_sent st3 = nk_sent st @ nack_packets (nk_connection_ssrc st) ssrc (chunks 253 new)"
      "nk_last_sequences st3 = nk_last_sequences st" "nk_connection_ssrc st3 = nk_connection_ssrc st"
      "nk_pending st3 = AList.update ssrc (touch_all now (set new) p) (nk_pending st1)"
      using sent 2 by (auto simp: sent_ok_def concat_chunks simp del: set_concat)
    have "nack_inv ?st2" using i1 by (rule nack_inv_cong) simp_all
    moreover have "\<forall>(s, n) \<in> set p. s \<in> set new \<longrightarrow> retries n < 100"
      using np(2) by (auto simp: p_def no_nack_def dest: in_keysI)
    ultimately have i3: "nack_inv st3"
      by (intro sent_ok_inv [OF sent _ ok]) (simp_all add: concat_chunks del: set_concat)
    have "pending_of st3 ssrc = touch_all now (set new) p" by (simp add: pending_of_def s3(4) map_of_update_eq)
    then show ?thesis
      using retry_returns_of [OF rt i3] s3(1-3) by (simp add: tp due_append live_append touched_new keys_new)
  qed
qed

text \<open>
  C20. When a packet jumps ahead of its predecessor, and the pending list has room, exactly the
  sequence numbers in between that are not already pending are asked for at once, in order; the
  pending list is then what was pending and not exhausted followed by those, the arriving packet
  is no longer in it, and the jump becomes the new last sequence number.
\<close>

theorem gap_requests_missing_packets:
  assumes "track_video_receive_sequence fails ssrc raw False now st = (Inr (), st')"
    and "nack_inv st" and "nk_rtx_enabled st"
    and "map_of (nk_last_sequences st) ssrc = Some previous"
    and "1 < sequence_delta raw previous" and "sequence_delta raw previous \<le> 0x7FFF"
    and "p = AList.delete (raw mod 2 ^ 16) (pending_of st ssrc)"
    and "new = filter (\<lambda>s. s \<notin> set (keys p))
                 (map (\<lambda>offset. (previous + offset) mod 2 ^ 16) [1..sequence_delta raw previous - 1])"
    and "length p + length new \<le> 1000"
  shows "nk_sent st' = nk_sent st @ nack_packets (nk_connection_ssrc st) ssrc (chunks 253 new)
      @ nack_packets (nk_connection_ssrc st) ssrc (chunks 253 (due_sequences now p))
    \<and> keys (pending_of st' ssrc) = keys (filter (\<lambda>(s, n). retries n < 100) p) @ new
    \<and> map_of (nk_last_sequences st') ssrc = Some (raw mod 2 ^ 16)"
proof -
  define st1 where "st1 = forget_pending ssrc (raw mod 65536) st"
  define delta where "delta = sequence_delta raw previous"
  have delta: "sequence_delta (raw mod 65536) previous = delta"
    by (simp add: delta_def sequence_delta_def mod_diff_left_eq)
  define st2 where "st2 = record_max_stat ''video_sequence_gap_max'' delta
    (record_stat ''video_sequence_gaps'' 1
      (if raw mod 65536 < previous then record_stat ''video_sequence_wraps'' 1 st1 else st1))"
  define st3 where "st3 = st2\<lparr>nk_last_sequences := AList.update ssrc (raw mod 65536) (nk_last_sequences st2)\<rparr>"
  have same: "nk_pending st3 = nk_pending st1" "nk_sent st3 = nk_sent st" "nk_connection_ssrc st3 = nk_connection_ssrc st"
    "nk_rtx_enabled st3 = nk_rtx_enabled st"
    "nk_last_sequences st3 = AList.update ssrc (raw mod 65536) (nk_last_sequences st)"
    by (simp_all add: st3_def st2_def st1_def)
  have p3: "pending_of st3 ssrc = p" using assms(7) by (simp add: pending_of_def same(1)) (simp add: st1_def flip: pending_of_def)
  have i1: "nack_inv st1" unfolding st1_def by (rule forget_pending_inv [OF assms(2)])
  have i3: "nack_inv st3"
    by (rule nack_inv_last [OF i1, of "raw mod 65536"]) (simp_all add: same st1_def)
  have "advance_sequence fails ssrc previous (raw mod 65536) delta now st1 = (Inr (), st')"
    using assms(1,4,5,6) by (simp add: track_video_receive_sequence_def Let_def delta st1_def flip: delta_def)
  moreover have "1 < delta" using assms(5) by (simp add: delta_def)
  ultimately have "(if \<not> nk_rtx_enabled st3 then (Inr (), st3)
      else if delta = 1 then retry_pending_video_nacks fails ssrc now st3
      else request_missing fails ssrc previous delta now st3) = (Inr (), st')"
    by (simp only: advance_sequence_def Let_def st3_def st2_def if_True)
  then have "request_missing fails ssrc previous delta now st3 = (Inr (), st')"
    using \<open>1 < delta\<close> assms(3) by (simp add: same)
  from request_missing_ok [OF this i3, of new] show ?thesis
    using assms(6,8,9) same p3
    by (simp add: missing_between_def delta_def live_nacks_def nack_expired_def not_le map_of_update_eq)
qed


theorem gap_requests_missing_packets_witness:
  "keys (pending_of sample_gap 5) = [65535, 0, 1] \<and> length (nk_sent sample_gap) = 1"
proof -
  have run: "track_video_receive_sequence no_failure 5 2 False 2 sample_first = (Inr (), sample_gap)"
    by code_simp
  have new: "[65535, 0, 1] = filter (\<lambda>s. s \<notin> set (keys ([] :: (int, PendingVideoNack) odict)))
      (map (\<lambda>offset. (65534 + offset) mod 2 ^ 16) [1..sequence_delta 2 65534 - 1])" by code_simp
  have p: "[] = AList.delete (2 mod 2 ^ 16) (pending_of sample_first 5)" by code_simp
  have last: "map_of (nk_last_sequences sample_first) 5 = Some 65534" by code_simp
  have rtx: "nk_rtx_enabled sample_first" by code_simp
  have delta: "1 < sequence_delta 2 65534" "sequence_delta 2 65534 \<le> 0x7FFF" by code_simp+
  have sent: "length (nack_packets (nk_connection_ssrc sample_first) 5 (chunks 253 [65535, 0, 1])) = 1"
    "nack_packets (nk_connection_ssrc sample_first) 5 (chunks 253 (due_sequences 2 [])) = []"
    "nk_sent sample_first = []" by code_simp+
  show ?thesis
    using gap_requests_missing_packets [OF run nack_reachable_inv [OF sample_first_reachable] rtx last delta p new] sent
    by simp
qed

end
