(* ===== verification/Media.thy ===== *)
theory Media
  imports Rtp
begin

text \<open>
  The value types of \<open>media.py\<close> that the other components exchange: received media packets,
  encoded frames, playback parameters, and the statistics objects of the frame readers.
\<close>

record MediaPacket =
  mp_media_type :: string
  mp_codec :: string
  mp_payload :: bytes
  mp_payload_type :: int
  mp_marker :: bool
  mp_sequence :: int
  mp_timestamp :: int
  mp_ssrc :: int
  mp_user_id :: "int option"
  mp_raw :: bytes
  mp_extension_payload :: bytes
  mp_rtp_extended :: bool
  mp_rtp_extensions :: "RTPExtension list"
  mp_rtp_packets :: "RTPPacket list"
  mp_received_at :: "pyfloat option"
  mp_rtcp_time :: "pyfloat option"
  mp_speaking_flags :: "int option"
  mp_audio_level :: "int option"
  mp_audio_voice_activity :: "bool option"

text \<open>The fields that have no default in the dataclass, the others at their defaults.\<close>

definition new_media_packet ::
  "string \<Rightarrow> string \<Rightarrow> bytes \<Rightarrow> int \<Rightarrow> bool \<Rightarrow> int \<Rightarrow> int \<Rightarrow> int \<Rightarrow> int option \<Rightarrow> bytes \<Rightarrow> MediaPacket"
where
  "new_media_packet media_type codec payload payload_type marker s timestamp ssrc user_id raw =
     \<lparr>mp_media_type = media_type, mp_codec = codec, mp_payload = payload, mp_payload_type = payload_type,
      mp_marker = marker, mp_sequence = s, mp_timestamp = timestamp, mp_ssrc = ssrc,
      mp_user_id = user_id, mp_raw = raw, mp_extension_payload = [], mp_rtp_extended = False,
      mp_rtp_extensions = [], mp_rtp_packets = [], mp_received_at = None, mp_rtcp_time = None,
      mp_speaking_flags = None, mp_audio_level = None, mp_audio_voice_activity = None\<rparr>"

record VideoFrame =
  vf_data :: bytes
  vf_frame_time_ms :: pyfloat

record VideoConfig =
  vc_codec :: string
  vc_width :: int
  vc_height :: int
  vc_fps :: int
  vc_bitrate :: int

record VideoProbeInfo =
  vp_width :: "int option"
  vp_height :: "int option"
  vp_fps :: "int option"
  vp_bitrate :: "int option"
  vp_codec :: "string option"


section \<open>Reader statistics\<close>

record PipeStats =
  ps_read_count :: int
  ps_read_empty_count :: int
  ps_read_total_ms :: pyfloat
  ps_read_max_ms :: pyfloat
  ps_write_count :: int
  ps_write_total_ms :: pyfloat
  ps_write_max_ms :: pyfloat
  ps_bytes_written :: int

definition new_pipe_stats :: PipeStats where
  "new_pipe_stats =
     \<lparr>ps_read_count = 0, ps_read_empty_count = 0, ps_read_total_ms = 0, ps_read_max_ms = 0,
      ps_write_count = 0, ps_write_total_ms = 0, ps_write_max_ms = 0, ps_bytes_written = 0\<rparr>"

definition pipe_record_read :: "pyfloat \<Rightarrow> bool \<Rightarrow> PipeStats \<Rightarrow> PipeStats" where
  "pipe_record_read elapsed_ms is_empty st =
     (let st = st\<lparr>ps_read_count := ps_read_count st + 1,
                  ps_read_total_ms := ps_read_total_ms st + elapsed_ms,
                  ps_read_max_ms := max (ps_read_max_ms st) elapsed_ms\<rparr>
      in if is_empty then st\<lparr>ps_read_empty_count := ps_read_empty_count st + 1\<rparr> else st)"

definition pipe_record_write :: "pyfloat \<Rightarrow> int \<Rightarrow> PipeStats \<Rightarrow> PipeStats" where
  "pipe_record_write elapsed_ms n st =
     st\<lparr>ps_write_count := ps_write_count st + 1,
        ps_write_total_ms := ps_write_total_ms st + elapsed_ms,
        ps_write_max_ms := max (ps_write_max_ms st) elapsed_ms,
        ps_bytes_written := ps_bytes_written st + n\<rparr>"

definition pipe_snapshot :: "PipeStats \<Rightarrow> (string, pyfloat) odict" where
  "pipe_snapshot st =
     [(''pipeReadCount'', of_int (ps_read_count st)),
      (''pipeReadEmptyCount'', of_int (ps_read_empty_count st)),
      (''pipeReadMeanMs'', ps_read_total_ms st / of_int (max 1 (ps_read_count st))),
      (''pipeReadMaxMs'', ps_read_max_ms st),
      (''pipeWriteCount'', of_int (ps_write_count st)),
      (''pipeWriteMeanMs'', ps_write_total_ms st / of_int (max 1 (ps_write_count st))),
      (''pipeWriteMaxMs'', ps_write_max_ms st),
      (''pipeBytesWritten'', of_int (ps_bytes_written st))]"

record EncodedFrameStats =
  es_read_count :: int
  es_read_empty_count :: int
  es_read_total_ms :: pyfloat
  es_read_max_ms :: pyfloat
  es_bytes_read :: int

definition new_encoded_frame_stats :: EncodedFrameStats where
  "new_encoded_frame_stats =
     \<lparr>es_read_count = 0, es_read_empty_count = 0, es_read_total_ms = 0, es_read_max_ms = 0,
      es_bytes_read = 0\<rparr>"

definition encoded_record_read :: "pyfloat \<Rightarrow> int \<Rightarrow> EncodedFrameStats \<Rightarrow> EncodedFrameStats" where
  "encoded_record_read elapsed_ms frame_size st =
     (let st = st\<lparr>es_read_count := es_read_count st + 1,
                  es_read_total_ms := es_read_total_ms st + elapsed_ms,
                  es_read_max_ms := max (es_read_max_ms st) elapsed_ms\<rparr>
      in if frame_size \<noteq> 0 then st\<lparr>es_bytes_read := es_bytes_read st + frame_size\<rparr>
         else st\<lparr>es_read_empty_count := es_read_empty_count st + 1\<rparr>)"

definition encoded_snapshot :: "EncodedFrameStats \<Rightarrow> (string, pyfloat) odict" where
  "encoded_snapshot st =
     [(''encodedFrameReadCount'', of_int (es_read_count st)),
      (''encodedFrameReadEmptyCount'', of_int (es_read_empty_count st)),
      (''encodedFrameReadMeanMs'', es_read_total_ms st / of_int (max 1 (es_read_count st))),
      (''encodedFrameReadMaxMs'', es_read_max_ms st),
      (''encodedFrameBytesRead'', of_int (es_bytes_read st))]"

lemma mean_le_max:
  assumes "\<forall>x \<in> set xs. x \<le> (m :: pyfloat)" "0 \<le> m"
  shows "sum_list xs / of_int (max 1 (int (length xs))) \<le> m"
proof -
  have "sum_list xs \<le> of_nat (length xs) * m"
    using assms(1) by (induction xs) (auto simp: algebra_simps)
  then show ?thesis using assms(2) by (cases xs) (auto simp: field_simps max_def)
qed

end
