(* ===== verification/Dave.thy ===== *)
theory Dave
  imports Media
begin

text \<open>
  \<open>dave.py\<close> and the queue of undecryptable video frames in \<open>client.py\<close>: recognition of a
  DAVE frame by its trailer (tag, LEB128 nonce, LEB128 unencrypted ranges, size byte, marker), and
  the bounded queue of frames that wait for their keys. The DAVE session (\<open>davey\<close>) is a
  parameter: whether it can decrypt for a user, and what decryption returns or raises.
\<close>

section \<open>LEB128\<close>

abbreviation (input) "DAVE_TAG_SIZE \<equiv> (8 :: nat)"
abbreviation (input) "DAVE_MIN_SIZE \<equiv> (11 :: nat)"
abbreviation (input) "DAVE_PENDING_VIDEO_MAX_FRAMES \<equiv> (128 :: nat)"
abbreviation (input) "DAVE_PENDING_VIDEO_MAX_AGE \<equiv> (10 :: pyfloat)"

text \<open>
  \<open>_read_leb128_uint64(buffer, offset, end)\<close> on \<open>buffer[offset:end]\<close>; it returns the value and
  what is left, that is, \<open>buffer[new_offset:end]\<close>.
\<close>

fun leb128_loop :: "int \<Rightarrow> nat \<Rightarrow> bytes \<Rightarrow> (int \<times> bytes) option" where
  "leb128_loop value fill_bits buf =
     (case buf of
        [] \<Rightarrow> None
      | byte # rest \<Rightarrow>
          if fill_bits < 64 - 7
          then let value = value OR push_bit fill_bits (uint byte AND 0x7F)
               in if uint byte AND 0x80 = 0 then Some (value, rest)
                  else leb128_loop value (fill_bits + 7) rest
          else if uint byte \<le> 1 then Some (value OR push_bit fill_bits (uint byte), rest)
          else None)"

declare leb128_loop.simps [simp del]

definition read_leb128_uint64 :: "bytes \<Rightarrow> (int \<times> bytes) option" where
  "read_leb128_uint64 buf = leb128_loop 0 0 buf"

text \<open>The encoding it reads: seven bits a byte, low group first, continuation in the top bit.\<close>

fun leb128_encode :: "nat \<Rightarrow> bytes" where
  "leb128_encode n =
     (if n < 128 then [of_nat n] else of_nat (n mod 128 + 128) # leb128_encode (n div 128))"

declare leb128_encode.simps [simp del]

lemma or_low: "0 \<le> v \<Longrightarrow> v < 2 ^ f \<Longrightarrow> v OR push_bit f x = v + x * 2 ^ f" for v :: int
  using concat_bit_eq [of f v x] concat_bit_def [of f v x]
  by (simp add: take_bit_int_eq_self push_bit_eq_mult)

lemma and_80: "0 \<le> x \<Longrightarrow> x < 256 \<Longrightarrow> x AND 128 = 0 \<longleftrightarrow> x < (128 :: int)"
proof -
  assume x: "0 \<le> x" "x < 256"
  have "x AND 128 = 0 \<longleftrightarrow> even (x div 128)"
    using and_exp_eq_0_iff_not_bit [of x 7] by (simp add: bit_iff_odd)
  moreover have "x div 128 = (if x < 128 then 0 else 1)" using x by auto
  ultimately show ?thesis by simp
qed

lemma leb128_step:
  assumes "0 \<le> v" "v < 2 ^ f" "f < 57"
  shows "leb128_loop v f (b # rest) =
    (if uint b < 128 then Some (v + uint b * 2 ^ f, rest)
     else leb128_loop (v + (uint b mod 128) * 2 ^ f) (f + 7) rest)"
proof -
  have b: "0 \<le> uint b" "uint b < 256" using uint_byte_bounds by auto
  then have "uint b < 128 \<Longrightarrow> uint b mod 128 = uint b" by simp
  then show ?thesis
    using assms b or_low [OF assms(1,2), of "uint b mod 128"] and_80 [OF b]
    by (subst leb128_loop.simps) (auto simp: Let_def)
qed

lemma leb128_last:
  assumes "0 \<le> v" "v < 2 ^ f" "\<not> f < 57"
  shows "leb128_loop v f (b # rest) = (if uint b \<le> 1 then Some (v + uint b * 2 ^ f, rest) else None)"
  using assms or_low [OF assms(1,2), of "uint b"] by (subst leb128_loop.simps) auto

lemma group_bound:
  fixes v g :: int
  assumes "0 \<le> g" "g \<le> 127" "0 \<le> v" "v < 2 ^ f"
  shows "0 \<le> v + g * 2 ^ f" "v + g * 2 ^ f < 2 ^ (f + 7)"
proof -
  have "g * 2 ^ f \<le> 127 * 2 ^ f" using assms(2) by (intro mult_right_mono) auto
  then have "v + g * 2 ^ f < 2 ^ f + 127 * 2 ^ f" using assms(4) by linarith
  also have "\<dots> = 2 ^ (f + 7)" by (simp add: power_add)
  finally show "v + g * 2 ^ f < 2 ^ (f + 7)" .
  show "0 \<le> v + g * 2 ^ f" using assms by simp
qed

lemma leb128_loop_encode:
  assumes "0 \<le> v" "v < 2 ^ f" "int n * 2 ^ f < 2 ^ 64" "f = 7 * k" "k \<le> 9"
  shows "leb128_loop v f (leb128_encode n @ rest) = Some (v + int n * 2 ^ f, rest)"
  using assms
proof (induction n arbitrary: v f k rule: less_induct)
  case (less n)
  show ?case
  proof (cases "f < 57")
    case False
    then have k: "f = 63" using less.prems(4,5) by (cases "k = 9") auto
    then have n: "n < 2" using less.prems(3) by simp
    then have "uint (of_nat n :: byte) = int n" by (simp add: uint_nat unat_of_nat)
    then show ?thesis using n k less.prems
      by (simp add: leb128_encode.simps [of n] leb128_last)
  next
    case True
    show ?thesis
    proof (cases "n < 128")
      case True
      then have "uint (of_nat n :: byte) = int n" by (simp add: uint_nat unat_of_nat)
      then show ?thesis using \<open>f < 57\<close> True less.prems
        by (simp add: leb128_encode.simps [of n] leb128_step)
    next
      case False
      have u: "uint (of_nat (n mod 128 + 128) :: byte) = int (n mod 128) + 128"
      proof -
        have "(n mod 128 + 128) mod 256 = n mod 128 + 128" by (intro mod_less) simp
        then show ?thesis by (simp only: uint_nat unat_of_nat) simp
      qed
      let ?v = "v + int (n mod 128) * 2 ^ f"
      have "int (n mod 128) \<le> 127" by simp
      then have v: "0 \<le> ?v" "?v < 2 ^ (f + 7)" using group_bound less.prems(1,2) by simp_all
      have n: "int n = int (n mod 128) + 128 * int (n div 128)"
        by (metis add.commute mod_mult_div_eq of_nat_add of_nat_mult of_nat_numeral)
      have "int (n div 128) * 2 ^ (f + 7) \<le> int n * 2 ^ f"
        by (subst n) (simp add: power_add algebra_simps)
      then have small: "int (n div 128) * 2 ^ (f + 7) < 2 ^ 64" using less.prems(3) by linarith
      have "k + 1 \<le> 9" using \<open>f < 57\<close> less.prems(4) by simp
      then have "leb128_loop ?v (f + 7) (leb128_encode (n div 128) @ rest) = Some (?v + int (n div 128) * 2 ^ (f + 7), rest)"
        using False v small less.prems(4) by (intro less.IH [of _ _ _ "k + 1"]) auto
      moreover have "?v + int (n div 128) * 2 ^ (f + 7) = v + int n * 2 ^ f"
        by (subst n) (simp add: power_add algebra_simps)
      ultimately show ?thesis using False \<open>f < 57\<close> less.prems u
        by (simp add: leb128_encode.simps [of n] leb128_step)
    qed
  qed
qed

text \<open>C7. Every 64-bit number read back from its LEB128 encoding is the number, and nothing after
  the encoding is consumed.\<close>

theorem leb128_roundtrip:
  assumes "n < 2 ^ 64"
  shows "read_leb128_uint64 (leb128_encode n @ rest) = Some (int n, rest)"
proof -
  have "int n < 2 ^ 64" using assms by (metis of_nat_less_iff of_nat_numeral of_nat_power)
  then show ?thesis
    using leb128_loop_encode [of 0 0 n 0 rest] by (simp add: read_leb128_uint64_def)
qed

theorem leb128_roundtrip_witness:
  "read_leb128_uint64 ([0xFF, 0xFF, 0xFF, 0xFF, 0xFF, 0xFF, 0xFF, 0xFF, 0xFF, 1] @ [7]) = Some (18446744073709551615, [7])"
proof -
  have e: "leb128_encode 18446744073709551615 = [0xFF, 0xFF, 0xFF, 0xFF, 0xFF, 0xFF, 0xFF, 0xFF, 0xFF, 1]"
    by (simp add: leb128_encode.simps)
  show ?thesis unfolding e [symmetric] by (subst leb128_roundtrip) simp_all
qed

lemma leb128_loop_bounds:
  assumes "leb128_loop v f buf = Some (x, rest)" "0 \<le> v" "v < 2 ^ f" "f = 7 * k" "k \<le> 9"
  shows "0 \<le> x \<and> x < 2 ^ 64 \<and> (\<exists>used. buf = used @ rest \<and> used \<noteq> [] \<and> length used + k \<le> 10)"
  using assms
proof (induction buf arbitrary: v f k)
  case Nil
  then show ?case by (simp add: leb128_loop.simps)
next
  case (Cons b buf)
  have b: "0 \<le> uint b" "uint b < 256" using uint_byte_bounds by auto
  show ?case
  proof (cases "f < 57")
    case False
    then have k: "k = 9" "f = 63" using Cons.prems(4,5) by auto
    then have "uint b \<le> 1" "x = v + uint b * 2 ^ 63" "buf = rest"
      using Cons.prems leb128_last [of v f b buf] by (auto split: if_splits)
    then show ?thesis using Cons.prems b k by (auto intro!: exI [of _ "[b]"])
  next
    case True
    then have f50: "f \<le> 56" "k \<le> 8" using Cons.prems(4) by auto
    show ?thesis
    proof (cases "uint b < 128")
      case lt: True
      then have x: "x = v + uint b * 2 ^ f" "buf = rest"
        using Cons.prems leb128_step [of v f b buf] True by auto
      have "x < 2 ^ (f + 7)" unfolding x(1) using group_bound [of "uint b" v f] b lt Cons.prems(2,3) by simp
      also have "\<dots> \<le> 2 ^ 64" using f50 by (intro power_increasing) auto
      finally show ?thesis using Cons.prems b x f50 by (auto intro!: exI [of _ "[b]"])
    next
      case False
      then have s: "leb128_loop (v + uint b mod 128 * 2 ^ f) (f + 7) buf = Some (x, rest)"
        using Cons.prems leb128_step [of v f b buf] True by auto
      have "v + uint b mod 128 * 2 ^ f < 2 ^ (f + 7)"
        using group_bound [of "uint b mod 128" v f] Cons.prems(2,3) by simp
      from Cons.IH [OF s _ this, of "k + 1"] obtain used where
        "0 \<le> x" "x < 2 ^ 64" "buf = used @ rest" "used \<noteq> []" "length used + (k + 1) \<le> 10"
        using Cons.prems f50 by auto
      then show ?thesis by (auto intro!: exI [of _ "b # used"])
    qed
  qed
qed

lemma read_leb128_bounds:
  "read_leb128_uint64 buf = Some (x, rest) \<Longrightarrow>
     0 \<le> x \<and> x < 2 ^ 64 \<and> (\<exists>used. buf = used @ rest \<and> used \<noteq> [] \<and> length used \<le> 10)"
  using leb128_loop_bounds [of 0 0 buf x rest 0] by (simp add: read_leb128_uint64_def)



lemma read_leb128_shorter: "read_leb128_uint64 buf = Some (x, rest) \<Longrightarrow> length rest < length buf"
  using read_leb128_bounds by fastforce

section \<open>Recognition of a DAVE frame\<close>

text \<open>\<open>_valid_unencrypted_ranges(buffer, offset, end, frame_size)\<close> on \<open>buffer[offset:end]\<close>.\<close>

function valid_ranges_loop :: "int \<Rightarrow> bytes \<Rightarrow> int \<Rightarrow> bool" where
  "valid_ranges_loop previous_end buf frame_size =
     (if buf = [] then True
      else case read_leb128_uint64 buf of
        None \<Rightarrow> False
      | Some (range_offset, buf1) \<Rightarrow>
          (case read_leb128_uint64 buf1 of
             None \<Rightarrow> False
           | Some (range_size, buf2) \<Rightarrow>
               (let range_end = range_offset + range_size
                in if range_offset < previous_end \<or> range_end > frame_size then False
                   else valid_ranges_loop range_end buf2 frame_size)))"
  by pat_completeness auto

termination
  by (relation "measure (\<lambda>(_, buf, _). length buf)") (auto dest!: read_leb128_shorter)

declare valid_ranges_loop.simps [simp del]

definition valid_unencrypted_ranges :: "bytes \<Rightarrow> int \<Rightarrow> bool" where
  "valid_unencrypted_ranges buf frame_size = valid_ranges_loop 0 buf frame_size"

abbreviation (input) "DAVE_MARKER \<equiv> [0xFA, 0xFA :: byte]"

definition looks_like_dave_protocol_frame :: "bytes \<Rightarrow> bool" where
  "looks_like_dave_protocol_frame payload =
     (if length payload < DAVE_MIN_SIZE then False
      else if drop (length payload - 2) payload \<noteq> DAVE_MARKER then False
      else
        let supplemental_size = unat (payload ! (length payload - 3))
        in if supplemental_size < DAVE_MIN_SIZE \<or> supplemental_size > length payload then False
           else
             let supplemental = drop (length payload - supplemental_size) payload;
                 ranges_end = supplemental_size - 1 - 2
             in if unat (supplemental ! ranges_end) \<noteq> supplemental_size
                   \<or> drop (ranges_end + 1) supplemental \<noteq> DAVE_MARKER
                then False
                else case read_leb128_uint64 (drop DAVE_TAG_SIZE (take ranges_end supplemental)) of
                       None \<Rightarrow> False
                     | Some (_, rest) \<Rightarrow> valid_unencrypted_ranges rest (int (length payload)))"

text \<open>Ranges in order, disjoint, and inside the frame.\<close>

definition ranges_ok :: "(nat \<times> nat) list \<Rightarrow> nat \<Rightarrow> bool" where
  "ranges_ok rs frame_size \<longleftrightarrow>
     sorted_wrt (\<lambda>r r'. fst r + snd r \<le> fst r') rs \<and> (\<forall>r \<in> set rs. fst r + snd r \<le> frame_size)"

definition encode_ranges :: "(nat \<times> nat) list \<Rightarrow> bytes" where
  "encode_ranges rs = concat (map (\<lambda>(off, size). leb128_encode off @ leb128_encode size) rs)"

lemma leb128_encode_nonempty: "leb128_encode n \<noteq> []"
  by (subst leb128_encode.simps) simp

lemma read_encoded: "n < 2 ^ 64 \<Longrightarrow> read_leb128_uint64 (leb128_encode n @ rest) = Some (int n, rest)"
proof -
  assume "n < 2 ^ 64"
  then have "int n < 2 ^ 64" by (metis of_nat_less_iff of_nat_numeral of_nat_power)
  then show ?thesis using leb128_loop_encode [of 0 0 n 0 rest] by (simp add: read_leb128_uint64_def)
qed

lemma valid_ranges_encoded:
  assumes "\<forall>r \<in> set rs. fst r < 2 ^ 64 \<and> snd r < 2 ^ 64"
  shows "valid_ranges_loop (int prev) (encode_ranges rs) (int frame) \<longleftrightarrow>
    ranges_ok rs frame \<and> (\<forall>r \<in> set rs. prev \<le> fst r)"
  using assms
proof (induction rs arbitrary: prev)
  case Nil
  then show ?case by (simp add: encode_ranges_def valid_ranges_loop.simps ranges_ok_def)
next
  case (Cons r rs)
  obtain off size where r: "r = (off, size)" by (cases r)
  have enc: "encode_ranges (r # rs) = leb128_encode off @ leb128_encode size @ encode_ranges rs"
    by (simp add: encode_ranges_def r)
  have "valid_ranges_loop (int prev) (encode_ranges (r # rs)) (int frame) \<longleftrightarrow>
      prev \<le> off \<and> off + size \<le> frame \<and> valid_ranges_loop (int (off + size)) (encode_ranges rs) (int frame)"
    using Cons.prems unfolding enc
    by (subst valid_ranges_loop.simps) (auto simp: r read_encoded leb128_encode_nonempty Let_def)
  also have "\<dots> \<longleftrightarrow> ranges_ok (r # rs) frame \<and> (\<forall>r \<in> set (r # rs). prev \<le> fst r)"
    using Cons.IH [of "off + size"] Cons.prems by (fastforce simp: r ranges_ok_def)
  finally show ?case .
qed

definition dave_trailer :: "bytes \<Rightarrow> nat \<Rightarrow> (nat \<times> nat) list \<Rightarrow> bytes" where
  "dave_trailer tag nonce ranges =
     (let body = tag @ leb128_encode nonce @ encode_ranges ranges
      in body @ [of_nat (length body + 3)] @ DAVE_MARKER)"

text \<open>
  A payload that ends in a DAVE trailer (an 8-byte tag, a nonce, unencrypted ranges, a size
  byte that fits, the marker) is taken for a DAVE frame exactly when the ranges are in order, do
  not overlap, and stay within the frame.
\<close>

theorem dave_frame_recognised:
  assumes "length tag = 8" and "nonce < 2 ^ 64" and "\<forall>r \<in> set ranges. fst r < 2 ^ 64 \<and> snd r < 2 ^ 64"
    and "length (dave_trailer tag nonce ranges) \<le> 255"
  shows "looks_like_dave_protocol_frame (media @ dave_trailer tag nonce ranges) \<longleftrightarrow>
    ranges_ok ranges (length (media @ dave_trailer tag nonce ranges))"
proof -
  define body where "body = tag @ leb128_encode nonce @ encode_ranges ranges"
  have t: "dave_trailer tag nonce ranges = body @ [of_nat (length body + 3)] @ DAVE_MARKER"
    by (simp add: dave_trailer_def body_def Let_def)
  let ?p = "media @ dave_trailer tag nonce ranges"
  have len: "length body + 3 \<le> 255" "8 \<le> length body" using assms(1,4) by (simp_all add: t body_def)
  have size: "unat (of_nat (length body + 3) :: byte) = length body + 3"
    using len(1) by (simp only: unat_of_nat) simp
  have lp: "length ?p = length media + length body + 3" by (simp add: t)
  have at: "?p ! (length ?p - 3) = of_nat (length body + 3)" by (simp add: lp) (simp add: t nth_append)
  have sup: "drop (length ?p - (length body + 3)) ?p = dave_trailer tag nonce ranges" by (simp add: t)
  have "drop (length ?p - 2) ?p = DAVE_MARKER" by (simp add: lp) (simp add: t)
  moreover have "dave_trailer tag nonce ranges ! length body = of_nat (length body + 3)"
    "drop (Suc (length body)) (dave_trailer tag nonce ranges) = DAVE_MARKER"
    "take (length body) (dave_trailer tag nonce ranges) = body" by (simp_all add: t)
  moreover have "drop 8 body = leb128_encode nonce @ encode_ranges ranges" using assms(1) by (simp add: body_def)
  moreover have "\<not> length ?p < 11" using len by (simp add: t)
  ultimately have "looks_like_dave_protocol_frame ?p \<longleftrightarrow>
      valid_unencrypted_ranges (encode_ranges ranges) (int (length ?p))"
    unfolding looks_like_dave_protocol_frame_def Let_def at size sup
    using len lp read_encoded [OF assms(2)] size by simp
  then show ?thesis
    using valid_ranges_encoded [OF assms(3), of 0 "length ?p"] by (simp add: valid_unencrypted_ranges_def)
qed


theorem dave_frame_recognised_witness:
  "looks_like_dave_protocol_frame ([1, 2, 3, 4] @ dave_trailer [0, 0, 0, 0, 0, 0, 0, 0] 300 [(0, 1), (2, 2)])
   \<and> \<not> looks_like_dave_protocol_frame ([1, 2, 3, 4] @ dave_trailer [0, 0, 0, 0, 0, 0, 0, 0] 300 [(2, 2), (0, 1)])"
proof -
  have l: "length (dave_trailer [0, 0, 0, 0, 0, 0, 0, 0] 300 [(0, 1), (2, 2)]) = 17"
    "length (dave_trailer [0, 0, 0, 0, 0, 0, 0, 0] 300 [(2, 2), (0, 1)]) = 17"
    by (simp_all add: dave_trailer_def Let_def encode_ranges_def leb128_encode.simps)
  show ?thesis by (subst (1 2) dave_frame_recognised) (simp_all add: l [simplified] ranges_ok_def)
qed


section \<open>The session\<close>

record dave_env =
  de_can_encrypt :: bool
  de_session :: bool
  de_ready :: bool
  de_can_passthrough :: "int \<Rightarrow> bool"
  de_decrypt :: "string \<Rightarrow> int \<Rightarrow> bytes \<Rightarrow> bytes res"

definition can_decrypt_dave :: "dave_env \<Rightarrow> int \<Rightarrow> bool" where
  "can_decrypt_dave env user_id =
     (if de_can_encrypt env then True
      else if \<not> de_session env \<or> \<not> de_ready env then False
      else de_can_passthrough env user_id)"

definition can_attempt_video_dave_decrypt :: "dave_env \<Rightarrow> int option \<Rightarrow> bool" where
  "can_attempt_video_dave_decrypt env user_id =
     (case user_id of None \<Rightarrow> False | Some u \<Rightarrow> de_session env \<and> can_decrypt_dave env u)"

definition decrypt_video_frame :: "dave_env \<Rightarrow> int option \<Rightarrow> bytes \<Rightarrow> bytes res" where
  "decrypt_video_frame env user_id payload =
     (case user_id of
        None \<Rightarrow> Inr payload
      | Some u \<Rightarrow>
          if \<not> de_session env \<or> \<not> can_decrypt_dave env u then Inr payload
          else de_decrypt env ''video'' u payload)"

fun exn_str :: "exn \<Rightarrow> string" where
  "exn_str (DaveError message) = message"
| "exn_str _ = []"

definition is_retryable_dave_decrypt_error :: "exn \<Rightarrow> bool" where
  "is_retryable_dave_decrypt_error e =
     (str_contains ''NoValidCryptorFound'' (exn_str e) \<or> str_contains ''NoDecryptorForUser'' (exn_str e))"


section \<open>Frames waiting for their keys\<close>

record PendingDaveVideoFrame =
  pd_decoded :: DecodedRTPPacket
  pd_codec :: string
  pd_ssrc :: int
  pd_user_id :: "int option"
  pd_raw :: bytes
  pd_payload :: bytes
  pd_rtp_packets :: "RTPPacket list"
  pd_received_at :: pyfloat
  pd_queued_at :: pyfloat

definition dave_expired :: "pyfloat \<Rightarrow> PendingDaveVideoFrame \<Rightarrow> bool" where
  "dave_expired now f \<longleftrightarrow> now - pd_queued_at f > DAVE_PENDING_VIDEO_MAX_AGE"

definition stash_dave_video_frame ::
  "pyfloat \<Rightarrow> DecodedRTPPacket \<Rightarrow> string \<Rightarrow> int \<Rightarrow> int option \<Rightarrow> bytes \<Rightarrow> bytes \<Rightarrow> RTPPacket list \<Rightarrow> pyfloat
     \<Rightarrow> PendingDaveVideoFrame list \<Rightarrow> PendingDaveVideoFrame list"
where
  "stash_dave_video_frame now decoded codec ssrc user_id raw payload rtp_packets received_at queue =
     (let queue = dropWhile (dave_expired now) queue;
          queue = (if length queue \<ge> DAVE_PENDING_VIDEO_MAX_FRAMES then tl queue else queue)
      in queue @ [\<lparr>pd_decoded = decoded, pd_codec = codec, pd_ssrc = ssrc, pd_user_id = user_id,
                   pd_raw = raw, pd_payload = payload, pd_rtp_packets = rtp_packets,
                   pd_received_at = received_at, pd_queued_at = now\<rparr>])"

text \<open>\<open>mk frame payload\<close> is \<open>_make_video_media_packet\<close> on the fields of the frame.\<close>

fun retry_dave_loop ::
  "dave_env \<Rightarrow> (PendingDaveVideoFrame \<Rightarrow> bytes \<Rightarrow> MediaPacket) \<Rightarrow> pyfloat \<Rightarrow> PendingDaveVideoFrame list
     \<Rightarrow> MediaPacket list \<Rightarrow> PendingDaveVideoFrame list \<Rightarrow> MediaPacket list \<times> PendingDaveVideoFrame list"
where
  "retry_dave_loop env mk now [] ready remaining = (ready, remaining)"
| "retry_dave_loop env mk now (f # fs) ready remaining =
     (if dave_expired now f then retry_dave_loop env mk now fs ready remaining
      else if \<not> can_attempt_video_dave_decrypt env (pd_user_id f)
      then retry_dave_loop env mk now fs ready (remaining @ [f])
      else case decrypt_video_frame env (pd_user_id f) (pd_payload f) of
          Inl e \<Rightarrow>
            if is_retryable_dave_decrypt_error e
            then retry_dave_loop env mk now fs ready (remaining @ [f])
            else retry_dave_loop env mk now fs ready remaining
        | Inr payload \<Rightarrow> retry_dave_loop env mk now fs (ready @ [mk f payload]) remaining)"

definition retry_pending_dave_video_frames ::
  "dave_env \<Rightarrow> (PendingDaveVideoFrame \<Rightarrow> bytes \<Rightarrow> MediaPacket) \<Rightarrow> pyfloat \<Rightarrow> PendingDaveVideoFrame list
     \<Rightarrow> MediaPacket list \<times> PendingDaveVideoFrame list"
where
  "retry_pending_dave_video_frames env mk now queue =
     (if queue = [] then ([], queue) else retry_dave_loop env mk now queue [] [])"

text \<open>The fate of one frame at a retry.\<close>

definition dave_waits :: "dave_env \<Rightarrow> PendingDaveVideoFrame \<Rightarrow> bool" where
  "dave_waits env f \<longleftrightarrow>
     \<not> can_attempt_video_dave_decrypt env (pd_user_id f)
     \<or> (\<exists>e. decrypt_video_frame env (pd_user_id f) (pd_payload f) = Inl e \<and> is_retryable_dave_decrypt_error e)"

definition dave_opens :: "dave_env \<Rightarrow> PendingDaveVideoFrame \<Rightarrow> bytes option" where
  "dave_opens env f =
     (if can_attempt_video_dave_decrypt env (pd_user_id f)
      then case decrypt_video_frame env (pd_user_id f) (pd_payload f) of Inl e \<Rightarrow> None | Inr payload \<Rightarrow> Some payload
      else None)"

lemma retry_dave_loop_spec:
  "retry_dave_loop env mk now fs ready remaining =
     (ready @ concat (map (\<lambda>f. case dave_opens env f of None \<Rightarrow> [] | Some x \<Rightarrow> [mk f x])
                (filter (\<lambda>f. \<not> dave_expired now f) fs)),
      remaining @ filter (\<lambda>f. \<not> dave_expired now f \<and> dave_waits env f) fs)"
  by (induction env mk now fs ready remaining rule: retry_dave_loop.induct)
     (auto simp: dave_opens_def dave_waits_def split: sum.splits)

text \<open>
  At a retry no waiting frame is lost or reordered: in queue order, every frame not older than
  ten seconds is delivered if it decrypts, kept if its keys are still missing, and dropped only
  when decryption fails for good.
\<close>

theorem dave_retry_partition:
  "retry_pending_dave_video_frames env mk now queue =
     (concat (map (\<lambda>f. case dave_opens env f of None \<Rightarrow> [] | Some x \<Rightarrow> [mk f x])
        (filter (\<lambda>f. now - pd_queued_at f \<le> 10) queue)),
      filter (\<lambda>f. now - pd_queued_at f \<le> 10 \<and> dave_waits env f) queue)"
  by (simp add: retry_pending_dave_video_frames_def retry_dave_loop_spec dave_expired_def not_less)

text \<open>Frames come and keys come, on one monotonic clock.\<close>

inductive dave_step :: "pyfloat \<times> PendingDaveVideoFrame list \<Rightarrow> pyfloat \<times> PendingDaveVideoFrame list \<Rightarrow> bool" where
  stash: "t \<le> now \<Longrightarrow> dave_step (t, q)
     (now, stash_dave_video_frame now decoded codec ssrc user_id raw payload rtp_packets received_at q)"
| retry: "t \<le> now \<Longrightarrow> dave_step (t, q) (now, snd (retry_pending_dave_video_frames env mk now q))"

inductive_cases dave_stepE: "dave_step (t, q) (t', q')"

definition dave_queue_ok :: "pyfloat \<times> PendingDaveVideoFrame list \<Rightarrow> bool" where
  "dave_queue_ok s \<longleftrightarrow>
     length (snd s) \<le> 128
     \<and> sorted_wrt (\<lambda>f g. pd_queued_at f \<le> pd_queued_at g) (snd s)
     \<and> (\<forall>f \<in> set (snd s). pd_queued_at f \<le> fst s \<and> fst s - pd_queued_at f \<le> 10)"

lemma sorted_wrt_dropWhile: "sorted_wrt R xs \<Longrightarrow> sorted_wrt R (dropWhile P xs)"
  by (induction xs) auto

lemma sorted_wrt_tl: "sorted_wrt R xs \<Longrightarrow> sorted_wrt R (tl xs)"
  by (cases xs) auto

lemma dropWhile_expired:
  "sorted_wrt (\<lambda>f g. pd_queued_at f \<le> pd_queued_at g) q \<Longrightarrow> f \<in> set (dropWhile (dave_expired now) q) \<Longrightarrow>
     now - pd_queued_at f \<le> 10"
  by (induction q) (auto simp: dave_expired_def split: if_splits)

lemma dave_step_ok: "dave_step s s' \<Longrightarrow> dave_queue_ok s \<Longrightarrow> dave_queue_ok s'"
proof (induction rule: dave_step.induct)
  case (stash t now q decoded codec ssrc user_id raw payload rtp_packets received_at)
  define q1 where "q1 = dropWhile (dave_expired now) q"
  define q2 where "q2 = (if length q1 \<ge> 128 then tl q1 else q1)"
  have q: "length q \<le> 128" "sorted_wrt (\<lambda>f g. pd_queued_at f \<le> pd_queued_at g) q"
    "\<forall>f \<in> set q. pd_queued_at f \<le> t" using stash.prems by (auto simp: dave_queue_ok_def)
  have "length q1 \<le> 128" using q(1) length_dropWhile_le [of "dave_expired now" q] by (simp add: q1_def)
  then have "length q2 \<le> 127" by (auto simp: q2_def)
  moreover have "set q2 \<subseteq> set q1" by (auto simp: q2_def dest: list.set_sel(2) [rotated])
  moreover have "\<forall>f \<in> set q1. pd_queued_at f \<le> now \<and> now - pd_queued_at f \<le> 10"
    using dropWhile_expired [OF q(2)] q(3) stash.hyps by (fastforce simp: q1_def dest: set_dropWhileD)
  moreover have "sorted_wrt (\<lambda>f g. pd_queued_at f \<le> pd_queued_at g) q2"
    using q(2) by (auto simp: q2_def q1_def intro: sorted_wrt_dropWhile sorted_wrt_tl)
  ultimately show ?case
    by (auto simp: dave_queue_ok_def stash_dave_video_frame_def Let_def sorted_wrt_append
        simp flip: q1_def q2_def)
next
  case (retry t now q env mk)
  then show ?case
    by (force simp: dave_queue_ok_def retry_pending_dave_video_frames_def retry_dave_loop_spec dave_expired_def
        intro: sorted_wrt_filter le_trans [OF length_filter_le])
qed

text \<open>
  However stashing and retrying interleave, at most 128 frames wait, in the order they were
  queued, and none waits past its ten seconds once the queue has been touched.
\<close>

theorem dave_queue_bounded:
  assumes "dave_step\<^sup>*\<^sup>* (t0, []) (t, q)"
  shows "length q \<le> 128 \<and> sorted_wrt (\<lambda>f g. pd_queued_at f \<le> pd_queued_at g) q
    \<and> (\<forall>f \<in> set q. t - pd_queued_at f \<le> 10)"
proof -
  have "dave_queue_ok s" if "dave_step\<^sup>*\<^sup>* (t0, []) s" for s
    using that by (induction rule: rtranclp_induct) (auto intro: dave_step_ok simp: dave_queue_ok_def [of "(t0, [])"])
  from this [OF assms] show ?thesis by (simp add: dave_queue_ok_def)
qed


theorem dave_queue_bounded_witness:
  "length (stash_dave_video_frame 3 (sample_decoded 1) ''VP8'' 1 (Some 2) [] [] [] 3 []) \<le> 128"
proof -
  have "dave_step\<^sup>*\<^sup>* (0, []) (3, stash_dave_video_frame 3 (sample_decoded 1) ''VP8'' 1 (Some 2) [] [] [] 3 [])"
    by (intro r_into_rtranclp dave_step.stash) simp
  from dave_queue_bounded [OF this] show ?thesis by simp
qed

end
