(* ===== verification/Transcoding.thy ===== *)
theory Transcoding
  imports Media
begin

text \<open>
  \<open>transcoding.py\<close>: the codec and encoder tables, codec names, the option lists a user may
  give, the \<open>VideoTranscoderConfig\<close> presets, and the FFmpeg arguments of every encoder.
  Running FFmpeg (\<open>subprocess.run\<close>) is a parameter: what it prints, or whether it succeeds.
\<close>

section \<open>Tables\<close>

text \<open>Codec, encoders, decoders: \<open>VIDEO_CODEC_CAPABILITY_NAMES\<close>.\<close>

definition VIDEO_CODEC_CAPABILITY_NAMES :: "(string \<times> string list \<times> string list) list" where
  "VIDEO_CODEC_CAPABILITY_NAMES =
     [(''AV1'',
        [''av1_nvenc'', ''av1_amf'', ''av1_qsv'', ''av1_vaapi'', ''av1_mf'', ''libaom-av1'',
         ''libsvtav1'', ''librav1e''],
        [''av1'', ''av1_cuvid'', ''av1_qsv'', ''libaom-av1'', ''libdav1d'']),
      (''H265'',
        [''hevc_nvenc'', ''hevc_amf'', ''hevc_qsv'', ''hevc_vaapi'', ''hevc_videotoolbox'',
         ''hevc_mf'', ''hevc_v4l2m2m'', ''libx265''],
        [''hevc'', ''hevc_cuvid'', ''hevc_qsv'', ''hevc_v4l2m2m'']),
      (''H264'',
        [''h264_nvenc'', ''h264_amf'', ''h264_qsv'', ''h264_vaapi'', ''h264_videotoolbox'',
         ''h264_mf'', ''h264_v4l2m2m'', ''libx264'', ''libopenh264''],
        [''h264'', ''h264_cuvid'', ''h264_qsv'', ''h264_v4l2m2m'']),
      (''VP8'',
        [''vp8_vaapi'', ''vp8_v4l2m2m'', ''libvpx''],
        [''vp8'', ''libvpx'', ''vp8_cuvid'', ''vp8_qsv'', ''vp8_v4l2m2m'']),
      (''VP9'',
        [''vp9_qsv'', ''vp9_vaapi'', ''vp9_v4l2m2m'', ''libvpx-vp9''],
        [''vp9'', ''libvpx-vp9'', ''vp9_cuvid'', ''vp9_qsv'', ''vp9_v4l2m2m''])]"

definition VIDEO_CODEC_SOFTWARE_PERFORMANCE :: "(string \<times> int) list" where
  "VIDEO_CODEC_SOFTWARE_PERFORMANCE = [(''H264'', 500), (''VP8'', 400), (''H265'', 350), (''VP9'', 300), (''AV1'', 250)]"

definition HARDWARE_ENCODERS :: "string list" where
  "HARDWARE_ENCODERS =
     [''h264_amf'', ''h264_mf'', ''h264_nvenc'', ''h264_qsv'', ''h264_v4l2m2m'', ''h264_vaapi'',
      ''h264_videotoolbox'', ''hevc_amf'', ''hevc_mf'', ''hevc_nvenc'', ''hevc_qsv'',
      ''hevc_v4l2m2m'', ''hevc_vaapi'', ''hevc_videotoolbox'', ''vp8_v4l2m2m'', ''vp8_vaapi'',
      ''vp9_qsv'', ''vp9_v4l2m2m'', ''vp9_vaapi'', ''av1_amf'', ''av1_mf'', ''av1_nvenc'',
      ''av1_qsv'', ''av1_vaapi'']"

definition HARDWARE_DECODERS :: "string list" where
  "HARDWARE_DECODERS =
     [''h264_cuvid'', ''h264_qsv'', ''h264_v4l2m2m'', ''hevc_cuvid'', ''hevc_qsv'',
      ''hevc_v4l2m2m'', ''vp8_cuvid'', ''vp8_qsv'', ''vp8_v4l2m2m'', ''vp9_cuvid'', ''vp9_qsv'',
      ''vp9_v4l2m2m'', ''av1_cuvid'', ''av1_qsv'']"

definition SUPPORTED_VIDEO_CODECS :: "string list" where
  "SUPPORTED_VIDEO_CODECS = map fst VIDEO_CODEC_CAPABILITY_NAMES"

definition VIDEO_CODEC_ALIASES :: "(string \<times> string) list" where
  "VIDEO_CODEC_ALIASES =
     [(''h264'', ''H264''), (''avc1'', ''H264''), (''h265'', ''H265''), (''hevc'', ''H265''),
      (''hev1'', ''H265''), (''hvc1'', ''H265''), (''vp8'', ''VP8''), (''vp9'', ''VP9''), (''av1'',
      ''AV1''), (''av01'', ''AV1'')]"

definition VIDEO_ENCODER_PRIORITY :: "(string \<times> string list) list" where
  "VIDEO_ENCODER_PRIORITY = map (\<lambda>(codec, encoders, decoders). (codec, encoders)) VIDEO_CODEC_CAPABILITY_NAMES"

definition VIDEO_SOFTWARE_ENCODER_PRIORITY :: "(string \<times> string list) list" where
  "VIDEO_SOFTWARE_ENCODER_PRIORITY =
     map (\<lambda>(codec, encoders). (codec, filter (\<lambda>e. e \<notin> set HARDWARE_ENCODERS) encoders)) VIDEO_ENCODER_PRIORITY"

definition VIDEO_DEFAULT_ENCODERS :: "(string \<times> string) list" where
  "VIDEO_DEFAULT_ENCODERS = map (\<lambda>(codec, encoders). (codec, hd encoders)) VIDEO_SOFTWARE_ENCODER_PRIORITY"

definition VIDEO_OUTPUT_FORMAT :: "(string \<times> string) list" where
  "VIDEO_OUTPUT_FORMAT =
     [(''H264'', ''h264''), (''H265'', ''hevc''), (''VP8'', ''ivf''), (''VP9'', ''ivf''), (''AV1'',
      ''ivf'')]"

definition NVENC_ENCODERS :: "string list" where
  "NVENC_ENCODERS =
     [''h264_nvenc'', ''hevc_nvenc'', ''av1_nvenc'']"

definition NVENC_H26X_ENCODERS :: "string list" where
  "NVENC_H26X_ENCODERS =
     [''h264_nvenc'', ''hevc_nvenc'']"

definition AMF_ENCODERS :: "string list" where
  "AMF_ENCODERS =
     [''h264_amf'', ''hevc_amf'', ''av1_amf'']"

definition QSV_ENCODERS :: "string list" where
  "QSV_ENCODERS =
     [''h264_qsv'', ''hevc_qsv'', ''vp9_qsv'', ''av1_qsv'']"

definition VAAPI_ENCODERS :: "string list" where
  "VAAPI_ENCODERS =
     [''h264_vaapi'', ''hevc_vaapi'', ''vp8_vaapi'', ''vp9_vaapi'', ''av1_vaapi'']"

definition VIDEOTOOLBOX_ENCODERS :: "string list" where
  "VIDEOTOOLBOX_ENCODERS =
     [''h264_videotoolbox'', ''hevc_videotoolbox'']"

definition V4L2M2M_ENCODERS :: "string list" where
  "V4L2M2M_ENCODERS =
     [''h264_v4l2m2m'', ''hevc_v4l2m2m'', ''vp8_v4l2m2m'', ''vp9_v4l2m2m'']"

definition MEDIA_FOUNDATION_ENCODERS :: "string list" where
  "MEDIA_FOUNDATION_ENCODERS =
     [''h264_mf'', ''hevc_mf'', ''av1_mf'']"


section \<open>Codec names\<close>

definition is_space :: "char \<Rightarrow> bool" where
  "is_space c \<longleftrightarrow> (of_char c :: nat) \<in> {9, 10, 11, 12, 13, 28, 29, 30, 31, 32}"

definition strip :: "string \<Rightarrow> string" where
  "strip s = rev (dropWhile is_space (rev (dropWhile is_space s)))"

text \<open>\<open>value\<close> is a string or \<open>None\<close>, as in every caller.\<close>

definition video_codec_or_none :: "string option \<Rightarrow> string option" where
  "video_codec_or_none v =
     (case v of
        None \<Rightarrow> None
      | Some s \<Rightarrow>
          let normalized = lower (strip s)
          in if normalized = [] then None else map_of VIDEO_CODEC_ALIASES normalized)"

definition coerce_video_codec :: "string \<Rightarrow> string res" where
  "coerce_video_codec v =
     (let normalized = (case video_codec_or_none (Some v) of None \<Rightarrow> upper v | Some c \<Rightarrow> c)
      in if normalized \<notin> set SUPPORTED_VIDEO_CODECS then Inl ValueError else Inr normalized)"

definition native_video_bitrate :: "int option \<Rightarrow> int option \<Rightarrow> int" where
  "native_video_bitrate height fps =
     (if (case height of None \<Rightarrow> 0 | Some h \<Rightarrow> h) \<ge> 721 \<or> (case fps of None \<Rightarrow> 0 | Some f \<Rightarrow> f) \<ge> 31
      then 8000000 else 4000000)"


section \<open>Command line options\<close>

text \<open>
  \<open>shlex.split\<close> in its default mode (POSIX, no comments): white space separates, quotes group,
  a backslash escapes, inside double quotes only a backslash or a double quote.
\<close>

datatype shlex_state = ShSpace | ShWord | ShQuote char | ShEscape shlex_state

definition is_sh_space :: "char \<Rightarrow> bool" where
  "is_sh_space c \<longleftrightarrow> (of_char c :: nat) \<in> {9, 10, 13, 32}"

abbreviation (input) "backslash \<equiv> CHR 0x5C"
abbreviation (input) "squote \<equiv> CHR 0x27"
abbreviation (input) "dquote \<equiv> CHR 0x22"

fun shlex_loop :: "shlex_state \<Rightarrow> string \<Rightarrow> bool \<Rightarrow> string \<Rightarrow> string list res" where
  "shlex_loop ShSpace token quoted [] = Inr (if token \<noteq> [] \<or> quoted then [token] else [])"
| "shlex_loop ShWord token quoted [] = Inr (if token \<noteq> [] \<or> quoted then [token] else [])"
| "shlex_loop (ShQuote q) token quoted [] = Inl ValueError"
| "shlex_loop (ShEscape st) token quoted [] = Inl ValueError"
| "shlex_loop ShSpace token quoted (c # cs) =
     (if is_sh_space c
      then if token \<noteq> [] \<or> quoted then map_res (Cons token) (shlex_loop ShSpace [] False cs)
           else shlex_loop ShSpace token quoted cs
      else if c = backslash then shlex_loop (ShEscape ShWord) token quoted cs
      else if c = squote \<or> c = dquote then shlex_loop (ShQuote c) token quoted cs
      else shlex_loop ShWord [c] quoted cs)"
| "shlex_loop (ShQuote q) token quoted (c # cs) =
     (if c = q then shlex_loop ShWord token True cs
      else if c = backslash \<and> q = dquote then shlex_loop (ShEscape (ShQuote q)) token True cs
      else shlex_loop (ShQuote q) (token @ [c]) True cs)"
| "shlex_loop (ShEscape st) token quoted (c # cs) =
     (let token = (case st of
            ShQuote q \<Rightarrow> if c \<noteq> backslash \<and> c \<noteq> q then token @ [backslash] else token
          | _ \<Rightarrow> token)
      in shlex_loop st (token @ [c]) quoted cs)"
| "shlex_loop ShWord token quoted (c # cs) =
     (if is_sh_space c
      then if token \<noteq> [] \<or> quoted then map_res (Cons token) (shlex_loop ShSpace [] False cs)
           else shlex_loop ShSpace token quoted cs
      else if c = squote \<or> c = dquote then shlex_loop (ShQuote c) token quoted cs
      else if c = backslash then shlex_loop (ShEscape ShWord) token quoted cs
      else shlex_loop ShWord (token @ [c]) quoted cs)"

definition shlex_split :: "string \<Rightarrow> string list res" where
  "shlex_split s = shlex_loop ShSpace [] False s"

datatype argv = ArgvNone | ArgvStr string | ArgvSeq "string list"

definition argv_options :: "argv \<Rightarrow> string list res" where
  "argv_options v =
     (case v of ArgvNone \<Rightarrow> Inr [] | ArgvStr s \<Rightarrow> shlex_split s | ArgvSeq xs \<Rightarrow> Inr xs)"

text \<open>\<open>(*options, *value)\<close>: a string unpacks into its characters, \<open>None\<close> does not unpack.\<close>

definition argv_unpack :: "argv \<Rightarrow> string list res" where
  "argv_unpack v =
     (case v of ArgvNone \<Rightarrow> Inl TypeError | ArgvStr s \<Rightarrow> Inr (map (\<lambda>c. [c]) s) | ArgvSeq xs \<Rightarrow> Inr xs)"


section \<open>Transcoder configuration\<close>

datatype codec_selection = SelName string | SelMap "(string \<times> string) list"

record VideoTranscoderConfig =
  tc_encoder :: "codec_selection option"
  tc_decoder :: "codec_selection option"
  tc_prefer_hardware :: bool
  tc_validate_encoder :: bool
  tc_validate_decoder :: bool
  tc_encoder_options :: argv
  tc_input_options :: argv
  tc_output_options :: argv
  tc_video_filters :: "string list option"

definition default_transcoder :: VideoTranscoderConfig where
  "default_transcoder =
     \<lparr>tc_encoder = None, tc_decoder = None, tc_prefer_hardware = True, tc_validate_encoder = True,
      tc_validate_decoder = True, tc_encoder_options = ArgvSeq [], tc_input_options = ArgvSeq [],
      tc_output_options = ArgvSeq [], tc_video_filters = None\<rparr>"

definition transcoder_software ::
  "bool \<Rightarrow> argv \<Rightarrow> argv \<Rightarrow> argv \<Rightarrow> string list option \<Rightarrow> VideoTranscoderConfig"
where
  "transcoder_software validate_encoder encoder_options input_options output_options video_filters =
     default_transcoder
       \<lparr>tc_prefer_hardware := False, tc_validate_encoder := validate_encoder,
        tc_encoder_options := encoder_options, tc_input_options := input_options,
        tc_output_options := output_options, tc_video_filters := video_filters\<rparr>"

definition transcoder_encoder_config ::
  "(string \<times> string) list \<Rightarrow> bool \<Rightarrow> argv \<Rightarrow> argv \<Rightarrow> argv \<Rightarrow> string list option \<Rightarrow> VideoTranscoderConfig"
where
  "transcoder_encoder_config encoder validate_encoder encoder_options input_options output_options video_filters =
     default_transcoder
       \<lparr>tc_encoder := Some (SelMap encoder), tc_validate_encoder := validate_encoder,
        tc_encoder_options := encoder_options, tc_input_options := input_options,
        tc_output_options := output_options, tc_video_filters := video_filters\<rparr>"

definition flag_option :: "string \<Rightarrow> bool option \<Rightarrow> string list" where
  "flag_option name v = (case v of None \<Rightarrow> [] | Some b \<Rightarrow> [name, if b then ''1'' else ''0''])"

definition value_option :: "string \<Rightarrow> string option \<Rightarrow> string list" where
  "value_option name v = (case v of None \<Rightarrow> [] | Some x \<Rightarrow> [name, x])"

definition transcoder_nvenc ::
  "string option \<Rightarrow> string option \<Rightarrow> int option \<Rightarrow> bool option \<Rightarrow> bool option \<Rightarrow> bool
     \<Rightarrow> argv \<Rightarrow> argv \<Rightarrow> argv \<Rightarrow> string list option \<Rightarrow> VideoTranscoderConfig res"
where
  "transcoder_nvenc preset tune gpu spatial_aq temporal_aq validate_encoder
       encoder_options input_options output_options video_filters =
     (let options = value_option ''-preset'' preset @ value_option ''-tune'' tune
            @ value_option ''-gpu'' (map_option str_of_int gpu)
            @ flag_option ''-spatial-aq'' spatial_aq @ flag_option ''-temporal-aq'' temporal_aq
      in map_res (\<lambda>extra. transcoder_encoder_config
             [(''H264'', ''h264_nvenc''), (''H265'', ''hevc_nvenc''), (''AV1'', ''av1_nvenc'')]
             validate_encoder (ArgvSeq (options @ extra)) input_options output_options video_filters)
           (argv_unpack encoder_options))"

definition transcoder_amf ::
  "bool \<Rightarrow> argv \<Rightarrow> argv \<Rightarrow> argv \<Rightarrow> string list option \<Rightarrow> VideoTranscoderConfig"
where
  "transcoder_amf =
     transcoder_encoder_config [(''H264'', ''h264_amf''), (''H265'', ''hevc_amf''), (''AV1'', ''av1_amf'')]"

definition transcoder_qsv ::
  "bool \<Rightarrow> argv \<Rightarrow> argv \<Rightarrow> argv \<Rightarrow> string list option \<Rightarrow> VideoTranscoderConfig"
where
  "transcoder_qsv =
     transcoder_encoder_config
       [(''H264'', ''h264_qsv''), (''H265'', ''hevc_qsv''), (''VP9'', ''vp9_qsv''), (''AV1'', ''av1_qsv'')]"

definition transcoder_vaapi :: "string \<Rightarrow> bool \<Rightarrow> argv \<Rightarrow> argv \<Rightarrow> argv \<Rightarrow> VideoTranscoderConfig res" where
  "transcoder_vaapi device validate_encoder encoder_options input_options output_options =
     map_res (\<lambda>extra. default_transcoder
         \<lparr>tc_encoder := Some (SelMap
            [(''H264'', ''h264_vaapi''), (''H265'', ''hevc_vaapi''), (''VP8'', ''vp8_vaapi''),
             (''VP9'', ''vp9_vaapi''), (''AV1'', ''av1_vaapi'')]),
          tc_validate_encoder := validate_encoder, tc_encoder_options := encoder_options,
          tc_input_options := ArgvSeq ([''-vaapi_device'', device] @ extra),
          tc_output_options := output_options,
          tc_video_filters := Some [''scale={width}:{height}:flags=fast_bilinear'', ''format=nv12|vaapi'', ''hwupload'']\<rparr>)
       (argv_unpack input_options)"

definition transcoder_video_toolbox ::
  "bool \<Rightarrow> argv \<Rightarrow> argv \<Rightarrow> argv \<Rightarrow> string list option \<Rightarrow> VideoTranscoderConfig"
where
  "transcoder_video_toolbox =
     transcoder_encoder_config [(''H264'', ''h264_videotoolbox''), (''H265'', ''hevc_videotoolbox'')]"

definition transcoder_media_foundation ::
  "bool \<Rightarrow> argv \<Rightarrow> argv \<Rightarrow> argv \<Rightarrow> string list option \<Rightarrow> VideoTranscoderConfig"
where
  "transcoder_media_foundation =
     transcoder_encoder_config [(''H264'', ''h264_mf''), (''H265'', ''hevc_mf''), (''AV1'', ''av1_mf'')]"

definition resolve_transcoder_codec :: "string \<Rightarrow> codec_selection \<Rightarrow> string res" where
  "resolve_transcoder_codec codec selection =
     (case selection of
        SelName name \<Rightarrow> Inr name
      | SelMap m \<Rightarrow>
          (case coerce_video_codec codec of
             Inl e \<Rightarrow> Inl e
           | Inr normalized \<Rightarrow>
               (case map_of m normalized of
                  Some selected \<Rightarrow> Inr selected
                | None \<Rightarrow>
                    (case map_of m (lower normalized) of
                       Some selected \<Rightarrow> Inr selected
                     | None \<Rightarrow> Inl ClientException))))"


section \<open>Encoder arguments\<close>

definition encoder_tuning :: "string \<Rightarrow> string \<Rightarrow> string list" where
  "encoder_tuning encoder fps =
     (if encoder = ''libx264''
      then [''-preset'', ''ultrafast'', ''-tune'', ''zerolatency'', ''-profile:v'', ''baseline'',
            ''-g'', fps, ''-keyint_min'', fps, ''-x264-params'',
            ''repeat-headers=1:scenecut=0:aud=1:keyint='' @ fps @ '':min-keyint='' @ fps]
      else if encoder = ''libx265''
      then [''-preset'', ''ultrafast'', ''-tune'', ''zerolatency'', ''-g'', fps, ''-keyint_min'', fps,
            ''-x265-params'', ''repeat-headers=1:aud=1:scenecut=0:keyint='' @ fps @ '':min-keyint='' @ fps]
      else if encoder \<in> set NVENC_ENCODERS
      then [''-preset'', ''p1'', ''-tune'', ''ull'', ''-g'', fps, ''-bf'', ''0'', ''-forced-idr'', ''1'',
            ''-zerolatency'', ''1'', ''-delay'', ''0'']
           @ (if encoder \<in> set NVENC_H26X_ENCODERS then [''-aud'', ''1''] else [])
      else if encoder \<in> set AMF_ENCODERS
      then [''-usage'', ''ultralowlatency'', ''-quality'', ''speed'', ''-g'', fps, ''-bf'', ''0'']
      else if encoder \<in> set QSV_ENCODERS then [''-preset'', ''veryfast'', ''-g'', fps, ''-bf'', ''0'']
      else if encoder \<in> set VAAPI_ENCODERS then [''-g'', fps, ''-bf'', ''0'']
      else if encoder \<in> set VIDEOTOOLBOX_ENCODERS then [''-g'', fps, ''-bf'', ''0'', ''-realtime'', ''1'']
      else if encoder \<in> set V4L2M2M_ENCODERS then [''-g'', fps, ''-bf'', ''0'']
      else if encoder \<in> set MEDIA_FOUNDATION_ENCODERS then [''-g'', fps]
      else if encoder = ''libvpx''
      then [''-deadline'', ''realtime'', ''-cpu-used'', ''8'', ''-lag-in-frames'', ''0'', ''-error-resilient'', ''1'',
            ''-auto-alt-ref'', ''0'', ''-g'', fps]
      else if encoder = ''libvpx-vp9''
      then [''-deadline'', ''realtime'', ''-cpu-used'', ''8'', ''-lag-in-frames'', ''0'', ''-error-resilient'', ''1'',
            ''-auto-alt-ref'', ''0'', ''-row-mt'', ''1'', ''-g'', fps]
      else if encoder = ''libsvtav1''
      then [''-preset'', ''12'', ''-rc'', ''2'', ''-la_depth'', ''0'', ''-sc_detection'', ''0'', ''-g'', fps]
      else if encoder = ''libaom-av1''
      then [''-cpu-used'', ''8'', ''-usage'', ''realtime'', ''-lag-in-frames'', ''0'', ''-g'', fps]
      else if encoder = ''librav1e'' then [''-speed'', ''10'', ''-g'', fps]
      else [''-g'', fps])"

definition video_encoder_args :: "string \<Rightarrow> string \<Rightarrow> int \<Rightarrow> string list res" where
  "video_encoder_args codec encoder fps =
     map_res (\<lambda>_. [''-c:v'', encoder] @ encoder_tuning encoder (str_of_int fps)) (coerce_video_codec codec)"

definition video_bitstream_filter_args :: "string \<Rightarrow> string option \<Rightarrow> string list res" where
  "video_bitstream_filter_args codec encoder =
     map_res (\<lambda>codec.
        if (codec, encoder) \<in> {(''H264'', Some ''h264_nvenc''), (''H265'', Some ''hevc_nvenc'')}
        then [''-bsf:v'', ''dump_extra=freq=keyframe'']
        else if (codec, encoder) \<in> {(''H264'', Some ''libx264''), (''H265'', Some ''libx265'')} then []
        else if codec = ''H264'' then [''-bsf:v'', ''h264_metadata=aud=insert'']
        else if codec = ''H265'' then [''-bsf:v'', ''hevc_metadata=aud=insert'']
        else [])
      (coerce_video_codec codec)"


section \<open>Filter graphs\<close>

text \<open>
  \<open>str.format\<close> with keyword arguments, for replacement fields that are plain names: doubled
  braces stand for themselves, an unknown name is a \<open>KeyError\<close>, a lone or unclosed brace a
  \<open>ValueError\<close>. A field with a conversion or a format specification is outside the model and
  counted with the unknown names.
\<close>

function format_fragment :: "(string \<times> string) list \<Rightarrow> string \<Rightarrow> string res" where
  "format_fragment args s =
     (case s of
        [] \<Rightarrow> Inr []
      | c # cs \<Rightarrow>
          if c = CHR ''{''
          then (if cs \<noteq> [] \<and> hd cs = CHR ''{'' then map_res (Cons c) (format_fragment args (tl cs))
                else let name = takeWhile (\<lambda>x. x \<noteq> CHR ''}'') cs;
                         rest = dropWhile (\<lambda>x. x \<noteq> CHR ''}'') cs
                     in if rest = [] then Inl ValueError
                        else case map_of args name of
                               None \<Rightarrow> Inl KeyError
                             | Some v \<Rightarrow> map_res (append v) (format_fragment args (tl rest)))
          else if c = CHR ''}''
          then (if cs \<noteq> [] \<and> hd cs = CHR ''}'' then map_res (Cons c) (format_fragment args (tl cs))
                else Inl ValueError)
          else map_res (Cons c) (format_fragment args cs))"
  by pat_completeness auto
termination
  by (relation "measure (\<lambda>(args, s). length s)")
     (auto intro: le_less_trans [OF le_trans [OF diff_le_self length_dropWhile_le]])

declare format_fragment.simps [simp del]

definition video_filtergraph :: "VideoTranscoderConfig \<Rightarrow> int \<Rightarrow> int \<Rightarrow> int \<Rightarrow> string \<Rightarrow> string res" where
  "video_filtergraph config width height fps codec =
     (let filters = (case tc_video_filters config of
            None \<Rightarrow> [''scale={width}:{height}:flags=fast_bilinear'', ''format=yuv420p'']
          | Some fs \<Rightarrow> fs);
          args = [(''width'', str_of_int width), (''height'', str_of_int height), (''fps'', str_of_int fps),
                  (''codec'', codec)]
      in map_res (join '','') (sequence_res (map (format_fragment args) filters)))"


section \<open>Asking FFmpeg\<close>

text \<open>The \<open>-encoders\<close>/\<open>-decoders\<close> listing: \<open>str.split\<close> on white space, lines as given.\<close>

fun split_ws :: "string \<Rightarrow> string \<Rightarrow> string list" where
  "split_ws [] [] = []"
| "split_ws word [] = [word]"
| "split_ws word (c # cs) =
     (if is_space c then (if word = [] then split_ws [] cs else word # split_ws [] cs)
      else split_ws (word @ [c]) cs)"

fun parsed_codec_names :: "string list \<Rightarrow> string list" where
  "parsed_codec_names [] = []"
| "parsed_codec_names (line # rest) =
     (case split_ws [] line of
        flags # name # _ \<Rightarrow>
          if take 1 flags = ''V'' \<and> CHR ''.'' \<in> set flags then name # parsed_codec_names rest
          else parsed_codec_names rest
      | _ \<Rightarrow> parsed_codec_names rest)"

text \<open>
  \<open>run\<close> is the subprocess: \<open>None\<close> when it cannot be started, else its return code and the
  lines of its output. The two caches are keyed by executable.
\<close>

definition ffmpeg_video_codec_names ::
  "(string list \<Rightarrow> (int \<times> string list) option) \<Rightarrow> string \<Rightarrow> string
     \<Rightarrow> (string, string set) odict \<times> (string, string set) odict
     \<Rightarrow> string set \<times> (string, string set) odict \<times> (string, string set) odict"
where
  "ffmpeg_video_codec_names run executable kind caches =
     (let cache = (if kind = ''encoders'' then fst caches else snd caches)
      in case map_of cache executable of
           Some cached \<Rightarrow> (cached, caches)
         | None \<Rightarrow>
             (let names = (case run [executable, ''-hide_banner'', ''-'' @ kind] of
                    None \<Rightarrow> {}
                  | Some (returncode, stdout) \<Rightarrow> if returncode = 0 then set (parsed_codec_names stdout) else {});
                  cache = AList.update executable names cache
              in (names, if kind = ''encoders'' then (cache, snd caches) else (fst caches, cache))))"

type_synonym usable_key =
  "string \<times> string \<times> string \<times> int \<times> int \<times> string list \<times> string list \<times> string list \<times> string list option"

definition probe_size :: "int \<Rightarrow> int" where
  "probe_size v = (let p = max 16 (if v > 0 then v else 64) in if p mod 2 \<noteq> 0 then p + 1 else p)"

definition encoder_probe_command ::
  "string \<Rightarrow> string \<Rightarrow> string \<Rightarrow> int \<Rightarrow> int \<Rightarrow> VideoTranscoderConfig \<Rightarrow> string list res"
where
  "encoder_probe_command executable codec encoder probe_width probe_height config =
     and_then (argv_options (tc_input_options config)) (\<lambda>input.
     and_then (video_filtergraph config probe_width probe_height 1 codec) (\<lambda>filtergraph.
     and_then (video_encoder_args codec encoder 1) (\<lambda>encoder_args.
     and_then (argv_options (tc_encoder_options config)) (\<lambda>extra.
     and_then (argv_options (tc_output_options config)) (\<lambda>output.
     and_then (video_bitstream_filter_args codec (Some encoder)) (\<lambda>bsf.
       Inr ([executable, ''-hide_banner'', ''-loglevel'', ''error'', ''-nostdin''] @ input
            @ [''-f'', ''lavfi'', ''-i'',
               ''testsrc2=size='' @ str_of_int probe_width @ ''x'' @ str_of_int probe_height @ '':rate=1'',
               ''-frames:v'', ''1'', ''-an'']
            @ (if filtergraph \<noteq> [] then [''-vf'', filtergraph] else [])
            @ [''-b:v'', ''200k''] @ encoder_args @ extra @ output @ bsf @ [''-f'', ''null'', ''-''])))))))"

definition encoder_probe_key ::
  "string \<Rightarrow> string \<Rightarrow> string \<Rightarrow> int \<Rightarrow> int \<Rightarrow> VideoTranscoderConfig \<Rightarrow> usable_key res"
where
  "encoder_probe_key executable codec encoder probe_width probe_height config =
     and_then (argv_options (tc_input_options config)) (\<lambda>input.
     and_then (argv_options (tc_encoder_options config)) (\<lambda>extra.
     and_then (argv_options (tc_output_options config)) (\<lambda>output.
       Inr (executable, codec, encoder, probe_width, probe_height, input, extra, output,
            tc_video_filters config))))"

text \<open>\<open>succeeds command\<close>: the process starts, ends within its 15 seconds, and returns 0.\<close>

definition ffmpeg_encoder_is_usable ::
  "(string list \<Rightarrow> bool) \<Rightarrow> string \<Rightarrow> string \<Rightarrow> string \<Rightarrow> int \<Rightarrow> int \<Rightarrow> VideoTranscoderConfig option
     \<Rightarrow> (usable_key, bool) odict \<Rightarrow> bool res \<times> (usable_key, bool) odict"
where
  "ffmpeg_encoder_is_usable succeeds executable raw_codec encoder width height transcoder cache =
     (case coerce_video_codec raw_codec of
        Inl e \<Rightarrow> (Inl e, cache)
      | Inr codec \<Rightarrow>
          let config = (case transcoder of None \<Rightarrow> default_transcoder | Some c \<Rightarrow> c);
              w = probe_size width; h = probe_size height
          in case encoder_probe_key executable codec encoder w h config of
               Inl e \<Rightarrow> (Inl e, cache)
             | Inr key \<Rightarrow>
                 (case map_of cache key of
                    Some cached \<Rightarrow> (Inr cached, cache)
                  | None \<Rightarrow>
                      (case encoder_probe_command executable codec encoder w h config of
                         Inl e \<Rightarrow> (Inl e, cache)
                       | Inr command \<Rightarrow>
                           (Inr (succeeds command), AList.update key (succeeds command) cache))))"

section \<open>Properties\<close>

text \<open>
  Codec names are normal forms: whatever spelling is accepted is mapped to a supported codec,
  which is accepted and mapped to itself.
\<close>

theorem coerce_video_codec_normal:
  assumes "coerce_video_codec v = Inr c"
  shows "c \<in> {''AV1'', ''H265'', ''H264'', ''VP8'', ''VP9''} \<and> coerce_video_codec c = Inr c"
proof -
  have "c \<in> set SUPPORTED_VIDEO_CODECS"
    using assms by (simp add: coerce_video_codec_def Let_def split: if_splits)
  moreover have "\<forall>c \<in> set SUPPORTED_VIDEO_CODECS. coerce_video_codec c = Inr c" by code_simp
  moreover have "set SUPPORTED_VIDEO_CODECS = {''AV1'', ''H265'', ''H264'', ''VP8'', ''VP9''}"
    by (simp only: SUPPORTED_VIDEO_CODECS_def VIDEO_CODEC_CAPABILITY_NAMES_def list.map fst_conv list.set)
  ultimately show ?thesis by blast
qed

theorem coerce_video_codec_normal_witness:
  "coerce_video_codec '' HEVC '' = Inr ''H265'' \<and> coerce_video_codec ''H265'' = Inr ''H265''"
proof -
  have "coerce_video_codec '' HEVC '' = Inr ''H265''" by code_simp
  with coerce_video_codec_normal [OF this] show ?thesis by blast
qed

definition writes_aud :: "string list \<Rightarrow> bool" where
  "writes_aud args \<longleftrightarrow> (\<exists>a \<in> set args. str_contains ''aud=1'' a) \<or> (\<exists>pre post. args = pre @ [''-aud'', ''1''] @ post)"

definition inserts_aud :: "string list \<Rightarrow> bool" where
  "inserts_aud bsf \<longleftrightarrow> (\<exists>a \<in> set bsf. str_contains ''_metadata=aud=insert'' a)"

lemma x264_writes_aud: "writes_aud [''-c:v'', ''libx264'', ''-preset'', ''ultrafast'', ''-tune'', ''zerolatency'',
    ''-profile:v'', ''baseline'', ''-g'', fps, ''-keyint_min'', fps, ''-x264-params'',
    ''repeat-headers=1:scenecut=0:aud=1:keyint='' @ fps @ '':min-keyint='' @ fps]"
  using str_containsI [of "''aud=1''" "''repeat-headers=1:scenecut=0:''" "'':keyint='' @ fps @ '':min-keyint='' @ fps"]
  by (simp add: writes_aud_def)

lemma x265_writes_aud: "writes_aud [''-c:v'', ''libx265'', ''-preset'', ''ultrafast'', ''-tune'', ''zerolatency'',
    ''-g'', fps, ''-keyint_min'', fps, ''-x265-params'',
    ''repeat-headers=1:aud=1:scenecut=0:keyint='' @ fps @ '':min-keyint='' @ fps]"
  using str_containsI [of "''aud=1''" "''repeat-headers=1:''" "'':scenecut=0:keyint='' @ fps @ '':min-keyint='' @ fps"]
  by (simp add: writes_aud_def)

lemma nvenc_writes_aud:
  assumes "encoder = ''h264_nvenc'' \<or> encoder = ''hevc_nvenc''"
  shows "writes_aud ([''-c:v'', encoder] @ encoder_tuning encoder fps)"
proof -
  have "encoder \<in> set NVENC_ENCODERS" "encoder \<in> set NVENC_H26X_ENCODERS" "encoder \<noteq> ''libx264''" "encoder \<noteq> ''libx265''"
    using assms by (auto simp: NVENC_ENCODERS_def NVENC_H26X_ENCODERS_def)
  then have "encoder_tuning encoder fps = [''-preset'', ''p1'', ''-tune'', ''ull'', ''-g'', fps, ''-bf'', ''0'',
      ''-forced-idr'', ''1'', ''-zerolatency'', ''1'', ''-delay'', ''0''] @ [''-aud'', ''1'']"
    by (simp only: encoder_tuning_def if_True if_False simp_thms)
  then show ?thesis unfolding writes_aud_def by (metis append.assoc append_Nil2)
qed

text \<open>
  Whatever encoder a H264 or H265 stream is produced with, it carries the access unit
  delimiters on which the Annex B reader splits frames: the encoder is told to write them, or a
  bitstream filter inserts them.
\<close>

theorem h26x_streams_are_delimited:
  assumes "codec = ''H264'' \<or> codec = ''H265''"
  shows "\<exists>args bsf. video_encoder_args codec encoder fps = Inr args
    \<and> video_bitstream_filter_args codec (Some encoder) = Inr bsf \<and> (writes_aud args \<or> inserts_aud bsf)"
proof -
  have co: "coerce_video_codec codec = Inr codec"
  proof -
    have "coerce_video_codec ''H264'' = Inr ''H264''" "coerce_video_codec ''H265'' = Inr ''H265''"
      by code_simp+
    then show ?thesis using assms by auto
  qed
  have ins: "inserts_aud [''-bsf:v'', ''h264_metadata=aud=insert'']"
    "inserts_aud [''-bsf:v'', ''hevc_metadata=aud=insert'']" by code_simp+
  let ?args = "[''-c:v'', encoder] @ encoder_tuning encoder (str_of_int fps)"
  have args: "video_encoder_args codec encoder fps = Inr ?args"
    by (simp add: video_encoder_args_def co)
  consider "encoder = ''h264_nvenc'' \<or> encoder = ''hevc_nvenc''" | "encoder = ''libx264''" | "encoder = ''libx265''"
    | "encoder \<notin> {''h264_nvenc'', ''hevc_nvenc'', ''libx264'', ''libx265''}" by blast
  then show ?thesis
  proof cases
    case 1
    then show ?thesis using nvenc_writes_aud args by (auto simp: video_bitstream_filter_args_def co)
  next
    case 2
    then show ?thesis using x264_writes_aud args by (auto simp: video_bitstream_filter_args_def co encoder_tuning_def)
  next
    case 3
    then show ?thesis using x265_writes_aud args by (auto simp: video_bitstream_filter_args_def co encoder_tuning_def)
  next
    case 4
    then have "video_bitstream_filter_args codec (Some encoder) =
        Inr (if codec = ''H264'' then [''-bsf:v'', ''h264_metadata=aud=insert'']
             else if codec = ''H265'' then [''-bsf:v'', ''hevc_metadata=aud=insert''] else [])"
      by (simp add: video_bitstream_filter_args_def co)
    then show ?thesis using ins assms args by auto
  qed
qed

theorem h26x_streams_are_delimited_witness:
  "\<exists>args bsf. video_encoder_args ''H264'' ''libx264'' 30 = Inr args
    \<and> video_bitstream_filter_args ''H264'' (Some ''libx264'') = Inr bsf \<and> (writes_aud args \<or> inserts_aud bsf)"
  by (rule h26x_streams_are_delimited) simp

text \<open>
  A probe of an encoder is cached under everything its command depends on: a second probe
  with the same arguments gives the same answer without running FFmpeg again.
\<close>

theorem encoder_probe_cached:
  assumes "ffmpeg_encoder_is_usable succeeds executable codec encoder width height transcoder cache = (Inr usable, cache')"
  shows "ffmpeg_encoder_is_usable succeeds' executable codec encoder width height transcoder cache' = (Inr usable, cache')"
  using assms
  by (auto simp: ffmpeg_encoder_is_usable_def Let_def map_of_update_eq split: sum.splits option.splits)

theorem encoder_probe_cached_witness:
  "fst (ffmpeg_encoder_is_usable (\<lambda>_. False) ''ffmpeg'' ''vp8'' ''libvpx'' 0 0 None
      (snd (ffmpeg_encoder_is_usable (\<lambda>_. True) ''ffmpeg'' ''vp8'' ''libvpx'' 0 0 None []))) = Inr True"
proof -
  have "ffmpeg_encoder_is_usable (\<lambda>_. True) ''ffmpeg'' ''vp8'' ''libvpx'' 0 0 None []
    = (Inr True, snd (ffmpeg_encoder_is_usable (\<lambda>_. True) ''ffmpeg'' ''vp8'' ''libvpx'' 0 0 None []))"
    by code_simp
  from encoder_probe_cached [OF this] show ?thesis by simp
qed

definition plain_word :: "string \<Rightarrow> bool" where
  "plain_word w \<longleftrightarrow> w \<noteq> [] \<and> (\<forall>c \<in> set w. \<not> is_sh_space c \<and> c \<noteq> backslash \<and> c \<noteq> squote \<and> c \<noteq> dquote)"

lemma shlex_word:
  assumes "\<forall>c \<in> set w. \<not> is_sh_space c \<and> c \<noteq> backslash \<and> c \<noteq> squote \<and> c \<noteq> dquote"
  shows "shlex_loop ShWord token quoted (w @ rest) = shlex_loop ShWord (token @ w) quoted rest"
  using assms by (induction w arbitrary: token) auto

lemma shlex_plain: "plain_word w \<Longrightarrow> shlex_loop ShSpace [] False (w @ rest) = shlex_loop ShWord w False rest"
proof -
  assume w: "plain_word w"
  then obtain c cs where cs: "w = c # cs" by (cases w) (auto simp: plain_word_def)
  then show ?thesis using w shlex_word [of cs "[c]" False rest] by (simp add: plain_word_def)
qed

text \<open>
  Options given as one string are split like a shell would: words without quotes, backslashes
  or spaces, joined by single spaces, come back unchanged.
\<close>

theorem argv_options_plain_words:
  assumes "list_all plain_word ws"
  shows "argv_options (ArgvStr (join '' '' ws)) = Inr ws"
proof -
  have sp: "is_sh_space (CHR '' '')" by (simp add: is_sh_space_def)
  have "shlex_loop ShSpace [] False (join '' '' ws) = Inr ws"
    using assms
  proof (induction "'' '' :: string" ws rule: join.induct)
    case (2 x)
    then show ?case using shlex_plain [of x "[]"] by (simp add: plain_word_def)
  next
    case (3 x y zs)
    then have "shlex_loop ShSpace [] False (x @ '' '' @ join '' '' (y # zs)) = Inr (x # y # zs)"
      using sp by (subst shlex_plain) (auto simp: plain_word_def)
    then show ?case by simp
  qed simp
  then show ?thesis by (simp add: argv_options_def shlex_split_def)
qed

theorem argv_options_plain_words_witness:
  "argv_options (ArgvStr ''-rc cbr -b:v 2M'') = Inr [''-rc'', ''cbr'', ''-b:v'', ''2M'']"
proof -
  have "list_all plain_word [''-rc'', ''cbr'', ''-b:v'', ''2M'']" by code_simp
  from argv_options_plain_words [OF this] show ?thesis by simp
qed

end
