(* ===== verification/Frames.thy ===== *)
theory Frames
  imports Transcoding
begin

text \<open>
  Encoded video as bytes, in \<open>media.py\<close>: reading a byte stream that arrives in pieces
  (\<open>_read_exact\<close>), the IVF and Annex B frame readers with \<open>EncodedVideoSource\<close>, the
  NAL-unit scans, and \<open>EncodedVideoSink\<close>, which writes what the readers read.

  A stream is the list of the byte strings its reads return, an empty one or the end of the list
  being end of file; an open file is the bytes written to it from position 0.
\<close>

section \<open>Exact reads\<close>

definition stream_read :: "nat \<Rightarrow> bytes list \<Rightarrow> bytes \<times> bytes list" where
  "stream_read n s =
     (case s of
        [] \<Rightarrow> ([], [])
      | p # ps \<Rightarrow> if length p \<le> n then (p, ps) else (take n p, drop n p # ps))"

function read_exact_loop :: "nat \<Rightarrow> bytes \<Rightarrow> bytes list \<Rightarrow> bytes \<times> bytes list" where
  "read_exact_loop n acc s =
     (if length acc < n
      then let (chunk, s') = stream_read (n - length acc) s
           in if chunk = [] then (acc, s') else read_exact_loop n (acc @ chunk) s'
      else (acc, s))"
  by pat_completeness auto
termination by (relation "measure (\<lambda>(n, acc, s). n - length acc)") (auto simp: length_greater_0_conv [symmetric] simp del: length_greater_0_conv)

declare read_exact_loop.simps [simp del]

definition read_exact :: "nat \<Rightarrow> bytes list \<Rightarrow> bytes \<times> bytes list" where
  "read_exact n s = read_exact_loop n [] s"

text \<open>A stream that delivers at least a byte until it ends.\<close>

definition stream_ok :: "bytes list \<Rightarrow> bool" where
  "stream_ok s \<longleftrightarrow> [] \<notin> set s"

lemma stream_read_spec:
  assumes "stream_ok s" "0 < n"
  shows "\<exists>c s'. stream_read n s = (c, s') \<and> stream_ok s' \<and> concat s = c @ concat s' \<and> length c \<le> n
    \<and> (c = [] \<longleftrightarrow> concat s = [])"
  using assms by (cases s) (auto simp: stream_read_def stream_ok_def)

lemma read_exact_loop_spec:
  assumes "stream_ok s" "length acc \<le> n"
  shows "\<exists>s'. read_exact_loop n acc s = (acc @ take (n - length acc) (concat s), s')
    \<and> stream_ok s' \<and> concat s' = drop (n - length acc) (concat s)"
  using assms
proof (induction n acc s rule: read_exact_loop.induct)
  case (1 n acc s)
  show ?case
  proof (cases "length acc < n")
    case False
    then show ?thesis using "1.prems" by (simp add: read_exact_loop.simps)
  next
    case True
    then have "0 < n - length acc" by simp
    from stream_read_spec [OF "1.prems"(1) this]
    obtain c s1 where c: "stream_read (n - length acc) s = (c, s1)" "stream_ok s1"
      "concat s = c @ concat s1" "length c \<le> n - length acc" "c = [] \<longleftrightarrow> concat s = []"
      by (elim exE conjE)
    show ?thesis
    proof (cases "c = []")
      case True
      have "read_exact_loop n acc s = (acc, s1)"
        using c(1) True \<open>length acc < n\<close> by (subst read_exact_loop.simps) simp
      moreover have "concat s = []" using c(5) True by blast
      moreover have "concat s1 = []" using c(3) \<open>concat s = []\<close> by (metis append_is_Nil_conv)
      ultimately show ?thesis using c(2) by (metis append_Nil2 drop_Nil take_Nil)
    next
      case False
      then have step: "read_exact_loop n acc s = read_exact_loop n (acc @ c) s1"
        using c(1) \<open>length acc < n\<close> by (subst read_exact_loop.simps) simp
      have "length (acc @ c) \<le> n" using c(4) \<open>length acc < n\<close> by simp
      from "1.IH" [OF \<open>length acc < n\<close> c(1) [symmetric] refl False c(2) this] obtain s' where
        s': "read_exact_loop n (acc @ c) s1 = ((acc @ c) @ take (n - length (acc @ c)) (concat s1), s')"
        "stream_ok s'" "concat s' = drop (n - length (acc @ c)) (concat s1)" by (elim exE conjE)
      then show ?thesis using c(3,4) by (simp add: step diff_diff_add)
    qed
  qed
qed

lemma read_exact_spec:
  "stream_ok s \<Longrightarrow> \<exists>s'. read_exact n s = (take n (concat s), s') \<and> stream_ok s' \<and> concat s' = drop n (concat s)"
  using read_exact_loop_spec [of s "[]" n] by (simp add: read_exact_def)


section \<open>IVF\<close>

abbreviation (input) "DKIF \<equiv> [0x44, 0x4B, 0x49, 0x46 :: byte]"

text \<open>\<open>_IVFFrameReader.__init__\<close>: the stream after its header, or the exception.\<close>

definition ivf_open :: "bytes list \<Rightarrow> unit res \<times> bytes list" where
  "ivf_open s =
     (let (header, s) = read_exact 32 s
      in if length header \<noteq> 32 \<or> take 4 header \<noteq> DKIF then (Inl RuntimeError, s) else (Inr (), s))"

definition ivf_read_frame :: "bytes list \<Rightarrow> bytes res \<times> bytes list" where
  "ivf_read_frame s =
     (let (frame_header, s) = read_exact 12 s
      in if frame_header = [] then (Inr [], s)
         else if length frame_header \<noteq> 12 then (Inl RuntimeError, s)
         else let frame_size = nat (from_le (take 4 frame_header));
                  (frame, s) = read_exact frame_size s
              in if length frame \<noteq> frame_size then (Inl RuntimeError, s) else (Inr frame, s))"

definition ivf_frame :: "bytes \<Rightarrow> int \<Rightarrow> bytes" where
  "ivf_frame payload ts = le_bytes 4 (int (length payload)) @ le_bytes 8 ts @ payload"

lemma ivf_read_frame_written:
  assumes "stream_ok s" "concat s = ivf_frame payload ts @ rest" "length payload < 2 ^ 32"
  shows "\<exists>s'. ivf_read_frame s = (Inr payload, s') \<and> stream_ok s' \<and> concat s' = rest"
proof -
  have hd12: "take 12 (concat s) = le_bytes 4 (int (length payload)) @ le_bytes 8 ts"
    "drop 12 (concat s) = payload @ rest"
    using assms(2) by (simp_all add: ivf_frame_def)
  obtain s1 where s1: "read_exact 12 s = (le_bytes 4 (int (length payload)) @ le_bytes 8 ts, s1)" "stream_ok s1"
    "concat s1 = payload @ rest" using read_exact_spec [OF assms(1), of 12] hd12 by auto
  have "int (length payload) < 256 ^ 4" using assms(3) by simp
  then have size: "nat (from_le (take 4 (le_bytes 4 (int (length payload)) @ le_bytes 8 ts))) = length payload"
    by (simp add: from_le_le_bytes_id)
  obtain s2 where s2: "read_exact (length payload) s1 = (payload, s2)" "stream_ok s2" "concat s2 = rest"
    using read_exact_spec [OF s1(2), of "length payload"] s1(3) by auto
  have ne: "le_bytes 4 x \<noteq> []" for x by (metis length_le_bytes list.size(3) zero_neq_numeral)
  show ?thesis using s1(1) s2 size ne by (simp add: ivf_read_frame_def)
qed

lemma ivf_read_frame_end: "stream_ok s \<Longrightarrow> concat s = [] \<Longrightarrow> \<exists>s'. ivf_read_frame s = (Inr [], s')"
  using read_exact_spec [of s 12] by (auto simp: ivf_read_frame_def)



section \<open>Annex B\<close>

text \<open>\<open>bytes.find(pattern, start)\<close>.\<close>

definition bytes_find :: "bytes \<Rightarrow> bytes \<Rightarrow> nat \<Rightarrow> nat option" where
  "bytes_find pat buf start = find (\<lambda>i. take (length pat) (drop i buf) = pat) [start..<length buf + 1]"

abbreviation (input) "START3 \<equiv> [0, 0, 1 :: byte]"
abbreviation (input) "START4 \<equiv> [0, 0, 0, 1 :: byte]"

record annexb_reader =
  ab_codec :: string
  ab_buffer :: bytes
  ab_search_pos :: nat
  ab_aud_positions :: "nat list"

definition new_annexb_reader :: "string \<Rightarrow> annexb_reader res" where
  "new_annexb_reader codec =
     map_res (\<lambda>c. \<lparr>ab_codec = c, ab_buffer = [], ab_search_pos = 0, ab_aud_positions = []\<rparr>)
       (coerce_video_codec codec)"

definition nal_type_at :: "string \<Rightarrow> bytes \<Rightarrow> nat \<Rightarrow> nat \<Rightarrow> int option" where
  "nal_type_at codec buf start start_code_len =
     (let offset = start + start_code_len
      in if offset \<ge> length buf then None
         else if codec = ''H264'' then Some (uint (buf ! offset) AND 0x1F)
         else if offset + 1 \<ge> length buf then None
         else Some (drop_bit 1 (uint (buf ! offset)) AND 0x3F))"

definition find_start_code :: "bytes \<Rightarrow> nat \<Rightarrow> (nat \<times> nat) option" where
  "find_start_code buf cursor =
     (if cursor \<ge> length buf then None
      else case (bytes_find START3 buf cursor, bytes_find START4 buf cursor) of
          (None, None) \<Rightarrow> None
        | (None, Some four) \<Rightarrow> Some (four, 4)
        | (Some three, None) \<Rightarrow> Some (three, 3)
        | (Some three, Some four) \<Rightarrow> if four \<le> three then Some (four, 4) else Some (three, 3))"

lemma bytes_find_props:
  "bytes_find pat buf start = Some i \<Longrightarrow>
     start \<le> i \<and> i + length pat \<le> length buf + (if pat = [] then 1 else 0) \<and> take (length pat) (drop i buf) = pat"
proof -
  assume "bytes_find pat buf start = Some i"
  then have i: "start \<le> i" "i \<le> length buf" "take (length pat) (drop i buf) = pat"
    unfolding bytes_find_def find_Some_iff by (auto simp: nth_append)
  have "min (length buf - i) (length pat) = length pat" using arg_cong [OF i(3), of length] by simp
  then show ?thesis using i by auto
qed

lemma find_start_code_props:
  assumes "find_start_code buf cursor = Some (start, n)"
  shows "cursor \<le> start \<and> cursor < length buf \<and> start + n \<le> length buf \<and> 3 \<le> n"
  using assms bytes_find_props [of START3 buf cursor] bytes_find_props [of START4 buf cursor]
  by (auto simp: find_start_code_def split: if_splits option.splits)

text \<open>\<open>_scan_for_auds\<close>: the search position and the delimiter positions.\<close>

function scan_for_auds :: "string \<Rightarrow> bytes \<Rightarrow> nat \<Rightarrow> nat list \<Rightarrow> nat \<times> nat list" where
  "scan_for_auds codec buf pos auds =
     (if length auds < 2
      then case find_start_code buf pos of
          None \<Rightarrow> (length buf - 4, auds)
        | Some (start, n) \<Rightarrow>
            let aud_type = (if codec = ''H264'' then 9 else 35);
                auds' = (if nal_type_at codec buf start n = Some aud_type \<and> (auds = [] \<or> last auds \<noteq> start)
                         then auds @ [start] else auds)
            in scan_for_auds codec buf (start + n) auds'
      else (pos, auds))"
  by pat_completeness auto
termination
  by (relation "measure (\<lambda>(codec, buf, pos, auds). length buf - pos)") (auto dest!: find_start_code_props)

declare scan_for_auds.simps [simp del]

definition extract_frame :: "annexb_reader \<Rightarrow> bytes option \<times> annexb_reader" where
  "extract_frame r =
     (let buf = ab_buffer r;
          (pos, auds) = scan_for_auds (ab_codec r) buf (ab_search_pos r) (ab_aud_positions r);
          r = r\<lparr>ab_search_pos := pos, ab_aud_positions := auds\<rparr>
      in case auds of
           [] \<Rightarrow>
             (if int (length buf) > 2 * 1024 * 1024
              then let trim = length buf - 1024
                   in (None, r\<lparr>ab_buffer := drop trim buf, ab_search_pos := pos - trim\<rparr>)
              else (None, r))
         | first # rest \<Rightarrow>
             if first > 0
             then (None, r\<lparr>ab_buffer := drop first buf, ab_aud_positions := map (\<lambda>p. p - first) auds,
                           ab_search_pos := pos - first\<rparr>)
             else case rest of
                 [] \<Rightarrow> (None, r)
               | frame_end # _ \<Rightarrow>
                   (Some (take frame_end buf),
                    r\<lparr>ab_buffer := drop frame_end buf, ab_aud_positions := map (\<lambda>p. p - frame_end) rest,
                      ab_search_pos := pos - frame_end\<rparr>))"

text \<open>\<open>if frame\<close> is false for \<open>None\<close> and for an empty frame alike.\<close>

fun annexb_read_frame :: "annexb_reader \<Rightarrow> bytes list \<Rightarrow> bytes \<times> annexb_reader \<times> bytes list" where
  "annexb_read_frame r [] =
     (let (frame, r) = extract_frame r
      in case frame of
           Some (x # xs) \<Rightarrow> (x # xs, r, [])
         | _ \<Rightarrow> if ab_buffer r \<noteq> [] then (ab_buffer r, r\<lparr>ab_buffer := []\<rparr>, []) else ([], r, []))"
| "annexb_read_frame r (chunk # s) =
     (let (frame, r) = extract_frame r
      in case frame of
           Some (x # xs) \<Rightarrow> (x # xs, r, chunk # s)
         | _ \<Rightarrow>
             if chunk = []
             then (if ab_buffer r \<noteq> [] then (ab_buffer r, r\<lparr>ab_buffer := []\<rparr>, s) else ([], r, s))
             else annexb_read_frame (r\<lparr>ab_buffer := ab_buffer r @ chunk\<rparr>) s)"


text \<open>All frames of a stream, one \<open>read_frame\<close> after another until the empty one.\<close>

lemma extract_frame_shrinks:
  assumes "extract_frame r = (f, r')"
  shows "length (ab_buffer r') + (case f of None \<Rightarrow> 0 | Some x \<Rightarrow> length x) \<le> length (ab_buffer r)"
  using assms by (auto simp: extract_frame_def Let_def split: prod.splits list.splits if_splits)

lemma annexb_read_frame_shrinks:
  assumes "annexb_read_frame r s = (f, r', s')"
  shows "length f + length (ab_buffer r') + length (concat s') \<le> length (ab_buffer r) + length (concat s)"
  using assms
proof (induction r s rule: annexb_read_frame.induct)
  case (1 r)
  obtain x r1 where e: "extract_frame r = (x, r1)" by fastforce
  show ?case using "1.prems" extract_frame_shrinks [OF e]
    by (auto simp: e split: option.splits list.splits if_splits)
next
  case (2 r chunk s)
  obtain x r1 where e: "extract_frame r = (x, r1)" by fastforce
  show ?case using "2.prems" "2.IH" extract_frame_shrinks [OF e]
    by (fastforce simp: e split: option.splits list.splits if_splits)
qed

function annexb_read_all :: "annexb_reader \<Rightarrow> bytes list \<Rightarrow> bytes list" where
  "annexb_read_all r s =
     (let (f, r', s') = annexb_read_frame r s in if f = [] then [] else f # annexb_read_all r' s')"
  by pat_completeness auto
termination
proof (relation "measure (\<lambda>(r, s). length (ab_buffer r) + length (concat s))", goal_cases)
  case (2 r s x f y r' s')
  then have "annexb_read_frame r s = (f, r', s')" by simp
  from annexb_read_frame_shrinks [OF this] 2 show ?case by (cases f) auto
qed simp

declare annexb_read_all.simps [simp del]

definition annexb_inv :: "annexb_reader \<Rightarrow> bool" where
  "annexb_inv r \<longleftrightarrow> sorted_wrt (<) (ab_aud_positions r)
     \<and> (\<forall>a \<in> set (ab_aud_positions r). a \<le> ab_search_pos r \<and> a + 4 \<le> length (ab_buffer r))"

definition annexb_started :: "annexb_reader \<Rightarrow> bool" where
  "annexb_started r \<longleftrightarrow> (\<exists>rest. ab_aud_positions r = 0 # rest)"

lemma nal_type_at_bound: "nal_type_at codec buf start n = Some t \<Longrightarrow> start + n < length buf"
  by (auto simp: nal_type_at_def Let_def split: if_splits)

lemma scan_for_auds_inv:
  assumes "scan_for_auds codec buf pos auds = (pos', auds')" "sorted_wrt (<) auds"
    and "\<forall>a \<in> set auds. a \<le> pos \<and> a + 4 \<le> length buf"
  shows "sorted_wrt (<) auds' \<and> (\<forall>a \<in> set auds'. a \<le> pos' \<and> a + 4 \<le> length buf) \<and> (\<exists>ext. auds' = auds @ ext)"
  using assms
proof (induction codec buf pos auds rule: scan_for_auds.induct)
  case (1 codec buf pos auds)
  show ?case
  proof (cases "length auds < 2")
    case False
    then show ?thesis using "1.prems" by (simp add: scan_for_auds.simps [of codec buf pos])
  next
    case lt: True
    show ?thesis
    proof (cases "find_start_code buf pos")
      case None
      then have "pos' = length buf - 4" "auds' = auds"
        using "1.prems" lt by (simp_all add: scan_for_auds.simps [of codec buf pos])
      then show ?thesis using "1.prems" by auto
    next
      case (Some sn)
      obtain start n where sn: "sn = (start, n)" by (cases sn)
      note f = find_start_code_props [OF Some [unfolded sn]]
      define aud_type where "aud_type = (if codec = ''H264'' then 9 else 35 :: int)"
      define auds1 where "auds1 = (if nal_type_at codec buf start n = Some aud_type \<and> (auds = [] \<or> last auds \<noteq> start)
        then auds @ [start] else auds)"
      have step: "scan_for_auds codec buf (start + n) auds1 = (pos', auds')"
        using "1.prems"(1) lt Some sn
        by (simp add: scan_for_auds.simps [of codec buf pos] aud_type_def auds1_def Let_def)
      have "a < start" if "a \<in> set auds" "auds = [] \<or> last auds \<noteq> start" for a
      proof -
        have "auds \<noteq> []" "last auds \<noteq> start" using that by auto
        have "a \<le> last auds" using that(1) "1.prems"(2) by (induction auds) (auto split: if_splits dest: less_imp_le)
        moreover have "last auds \<le> pos" using \<open>auds \<noteq> []\<close> "1.prems"(3) by simp
        ultimately show ?thesis using f \<open>last auds \<noteq> start\<close> by simp
      qed
      then have s1: "sorted_wrt (<) auds1" using "1.prems"(2) by (auto simp: auds1_def sorted_wrt_append)
      have b1: "\<forall>a \<in> set auds1. a \<le> start + n \<and> a + 4 \<le> length buf"
        using "1.prems"(3) f nal_type_at_bound [of codec buf start n] by (fastforce simp: auds1_def split: if_splits)
      have "\<exists>ext. auds1 = auds @ ext" by (simp add: auds1_def)
      moreover have "sorted_wrt (<) auds' \<and> (\<forall>a \<in> set auds'. a \<le> pos' \<and> a + 4 \<le> length buf) \<and> (\<exists>ext. auds' = auds1 @ ext)"
        using "1.IH" [OF lt Some sn [symmetric] aud_type_def auds1_def step s1 b1] .
      ultimately show ?thesis by auto
    qed
  qed
qed

lemma extract_frame_ok:
  assumes "extract_frame r = (f, r')" "annexb_inv r"
  shows "annexb_inv r' \<and> (f = Some x \<longrightarrow> x \<noteq> [] \<and> annexb_started r')
    \<and> (annexb_started r \<longrightarrow> annexb_started r')
    \<and> (\<exists>dropped. ab_buffer r = dropped @ (case f of None \<Rightarrow> [] | Some x \<Rightarrow> x) @ ab_buffer r'
         \<and> (annexb_started r \<longrightarrow> dropped = []))"
proof -
  obtain pos auds where sc: "scan_for_auds (ab_codec r) (ab_buffer r) (ab_search_pos r) (ab_aud_positions r) = (pos, auds)"
    by fastforce
  note s = scan_for_auds_inv [OF sc]
  have inv: "sorted_wrt (<) auds" "\<forall>a \<in> set auds. a \<le> pos \<and> a + 4 \<le> length (ab_buffer r)"
    "\<exists>ext. auds = ab_aud_positions r @ ext" using s assms(2) by (auto simp: annexb_inv_def)
  show ?thesis
  proof (cases auds)
    case Nil
    then have "\<not> annexb_started r" using inv(3) by (auto simp: annexb_started_def)
    moreover have "ab_aud_positions r' = []" "f = None" "\<exists>d. ab_buffer r = d @ ab_buffer r'"
      using assms(1) Nil by (auto simp: extract_frame_def sc Let_def append_take_drop_id [symmetric] split: if_splits
          intro: exI [of _ "take (length (ab_buffer r) - 1024) (ab_buffer r)"])
    ultimately show ?thesis by (simp add: annexb_inv_def)
  next
    case (Cons first rest)
    show ?thesis
    proof (cases "first > 0")
      case True
      then have "\<not> annexb_started r" using inv(3) Cons by (auto simp: annexb_started_def)
      moreover have r': "f = None" "ab_buffer r' = drop first (ab_buffer r)" "ab_search_pos r' = pos - first"
        "ab_aud_positions r' = map (\<lambda>p. p - first) auds"
        using assms(1) Cons True by (auto simp: extract_frame_def sc Let_def)
      moreover have "sorted_wrt (<) (map (\<lambda>p. p - first) auds)"
        using inv(1) Cons by (auto simp: sorted_wrt_map elim!: sorted_wrt_mono_rel [rotated] intro: diff_less_mono less_imp_le)
      moreover have "\<forall>a \<in> set auds. first \<le> a" using inv(1) Cons by (auto intro: less_imp_le)
      ultimately show ?thesis
        using inv(2) by (auto simp: annexb_inv_def intro!: exI [of _ "take first (ab_buffer r)"])
    next
      case False
      then have first: "first = 0" by simp
      show ?thesis
      proof (cases rest)
        case Nil
        then have "f = None" "ab_buffer r' = ab_buffer r" "ab_aud_positions r' = [0]" "ab_search_pos r' = pos"
          using assms(1) Cons first by (auto simp: extract_frame_def sc Let_def)
        then show ?thesis using inv(2) Cons first by (auto simp: annexb_inv_def annexb_started_def)
      next
        case (Cons e rest')
        have r': "f = Some (take e (ab_buffer r))" "ab_buffer r' = drop e (ab_buffer r)"
          "ab_aud_positions r' = map (\<lambda>p. p - e) rest" "ab_search_pos r' = pos - e"
          using assms(1) \<open>auds = first # rest\<close> first Cons by (auto simp: extract_frame_def sc Let_def)
        have e: "0 < e" "e + 4 \<le> length (ab_buffer r)" "\<forall>a \<in> set rest. e \<le> a"
          using inv(1,2) \<open>auds = first # rest\<close> first Cons by (auto intro: less_imp_le)
        have "sorted_wrt (<) (map (\<lambda>p. p - e) rest)"
          using inv(1) \<open>auds = first # rest\<close> Cons
          by (auto simp: sorted_wrt_map elim!: sorted_wrt_mono_rel [rotated] intro: diff_less_mono less_imp_le)
        then show ?thesis
          using r' e inv(2) \<open>auds = first # rest\<close> Cons
          by (auto simp: annexb_inv_def annexb_started_def)
      qed
    qed
  qed
qed


definition annexb_live :: "annexb_reader \<Rightarrow> bytes list \<Rightarrow> bool" where
  "annexb_live r s \<longleftrightarrow> annexb_inv r \<or> ab_buffer r = [] \<and> concat s = []"

lemma extract_empty: "ab_buffer r = [] \<Longrightarrow> extract_frame r = (f, r') \<Longrightarrow> (f = None \<or> f = Some []) \<and> ab_buffer r' = []"
  by (auto simp: extract_frame_def Let_def split: prod.splits list.splits if_splits)

lemma annexb_read_frame_ok:
  assumes "annexb_read_frame r s = (f, r', s')" "annexb_inv r" "stream_ok s"
  shows "annexb_live r' s' \<and> stream_ok s'
    \<and> (f = [] \<longrightarrow> ab_buffer r' = [] \<and> concat s' = [])
    \<and> (f \<noteq> [] \<longrightarrow> annexb_started r' \<or> ab_buffer r' = [] \<and> concat s' = [])
    \<and> (\<exists>dropped. ab_buffer r @ concat s = dropped @ f @ ab_buffer r' @ concat s'
         \<and> (annexb_started r \<longrightarrow> dropped = []))"
  using assms
proof (induction r s arbitrary: rule: annexb_read_frame.induct)
  case (1 r)
  obtain x r1 where e: "extract_frame r = (x, r1)" by fastforce
  note ok = extract_frame_ok [OF e "1.prems"(2)]
  show ?case
  proof (cases x)
    case None
    then have "s' = []" "f = ab_buffer r1" "ab_buffer r' = []"
      using "1.prems"(1) e by (auto split: if_splits)
    then show ?thesis using ok [of "[]"] None by (auto simp: annexb_live_def stream_ok_def)
  next
    case (Some y)
    then have "y \<noteq> []" using ok by blast
    then have "f = y" "r' = r1" "s' = []" using "1.prems"(1) e Some by (cases y; simp)+
    then show ?thesis using ok [of y] Some by (auto simp: annexb_live_def stream_ok_def)
  qed
next
  case (2 r chunk s)
  obtain x r1 where e: "extract_frame r = (x, r1)" by fastforce
  note ok = extract_frame_ok [OF e "2.prems"(2)]
  have chunk: "chunk \<noteq> []" "stream_ok s" using "2.prems"(3) by (auto simp: stream_ok_def)
  show ?case
  proof (cases x)
    case None
    define r2 where "r2 = r1\<lparr>ab_buffer := ab_buffer r1 @ chunk\<rparr>"
    have run: "annexb_read_frame r2 s = (f, r', s')"
      using "2.prems"(1) e None chunk by (simp add: r2_def)
    have inv2: "annexb_inv r2" "annexb_started r2 \<longleftrightarrow> annexb_started r1" "ab_buffer r2 = ab_buffer r1 @ chunk"
      using ok [of "[]"] by (auto simp: r2_def annexb_inv_def annexb_started_def)
    have "annexb_live r' s' \<and> stream_ok s'
      \<and> (f = [] \<longrightarrow> ab_buffer r' = [] \<and> concat s' = [])
      \<and> (f \<noteq> [] \<longrightarrow> annexb_started r' \<or> ab_buffer r' = [] \<and> concat s' = [])
      \<and> (\<exists>dropped. ab_buffer r2 @ concat s = dropped @ f @ ab_buffer r' @ concat s'
           \<and> (annexb_started r2 \<longrightarrow> dropped = []))"
      using "2.IH"(1) [OF e [symmetric] refl None chunk(1)] run inv2(1) chunk(2) by (simp add: r2_def)
    then obtain d2 where IH: "annexb_live r' s'" "stream_ok s'" "f = [] \<longrightarrow> ab_buffer r' = [] \<and> concat s' = []"
      "f \<noteq> [] \<longrightarrow> annexb_started r' \<or> ab_buffer r' = [] \<and> concat s' = []"
      "ab_buffer r2 @ concat s = d2 @ f @ ab_buffer r' @ concat s'" "annexb_started r2 \<longrightarrow> d2 = []"
      by (elim exE conjE)
    obtain d1 where d1: "ab_buffer r = d1 @ ab_buffer r1" "annexb_started r \<longrightarrow> annexb_started r1"
      "annexb_started r \<longrightarrow> d1 = []" using ok [of "[]"] None by auto
    have "ab_buffer r @ concat (chunk # s) = (d1 @ d2) @ f @ ab_buffer r' @ concat s'"
      using d1(1) IH(5) inv2(3) by simp
    then show ?thesis using IH(1-4,6) d1 inv2(2) by blast
  next
    case (Some y)
    then have "y \<noteq> []" using ok by blast
    then have "f = y" "r' = r1" "s' = chunk # s" using "2.prems"(1) e Some by (cases y; simp)+
    then show ?thesis using ok [of y] Some "2.prems"(3) by (auto simp: annexb_live_def)
  qed
qed

lemma annexb_read_all_ok:
  assumes "annexb_live r s" "stream_ok s"
  shows "\<exists>dropped. ab_buffer r @ concat s = dropped @ concat (annexb_read_all r s)
    \<and> (annexb_started r \<longrightarrow> dropped = [])"
  using assms
proof (induction r s rule: annexb_read_all.induct)
  case (1 r s)
  obtain f r' s' where run: "annexb_read_frame r s = (f, r', s')" by (cases "annexb_read_frame r s")
  show ?case
  proof (cases "ab_buffer r = [] \<and> concat s = []")
    case True
    then have "s = []" using "1.prems"(2) by (cases s) (auto simp: stream_ok_def)
    obtain x r1 where e: "extract_frame r = (x, r1)" by fastforce
    have "f = []" using run extract_empty [OF _ e] True \<open>s = []\<close> e by (auto split: option.splits list.splits)
    then have "annexb_read_all r s = []" by (subst annexb_read_all.simps) (simp add: run)
    then show ?thesis using True by simp
  next
    case False
    then have inv: "annexb_inv r" using "1.prems"(1) by (auto simp: annexb_live_def)
    from annexb_read_frame_ok [OF run inv "1.prems"(2)] obtain d where
      ok: "annexb_live r' s'" "stream_ok s'" "f = [] \<longrightarrow> ab_buffer r' = [] \<and> concat s' = []"
        "f \<noteq> [] \<longrightarrow> annexb_started r' \<or> ab_buffer r' = [] \<and> concat s' = []"
        "ab_buffer r @ concat s = d @ f @ ab_buffer r' @ concat s'" "annexb_started r \<longrightarrow> d = []"
      by (elim exE conjE)
    show ?thesis
    proof (cases "f = []")
      case True
      then have "annexb_read_all r s = []" by (subst annexb_read_all.simps) (simp add: run)
      then show ?thesis using ok True by auto
    next
      case False
      then have all: "annexb_read_all r s = f # annexb_read_all r' s'" by (subst annexb_read_all.simps) (simp add: run)
      from "1.IH" [OF run [symmetric] refl refl False ok(1,2)] obtain d' where
        d': "ab_buffer r' @ concat s' = d' @ concat (annexb_read_all r' s')" "annexb_started r' \<longrightarrow> d' = []"
        by (elim exE conjE)
      have "d' = []" using d' ok(4) False by (metis append_is_Nil_conv)
      then show ?thesis using all ok(5,6) d'(1) by auto
    qed
  qed
qed


text \<open>A H264 stream that opens with a delimiter: nothing may be dropped before it.\<close>

definition annexb_fresh :: "annexb_reader \<Rightarrow> bool" where
  "annexb_fresh r \<longleftrightarrow> ab_codec r = ''H264'' \<and> ab_search_pos r = 0 \<and> ab_aud_positions r = []"

lemma take5: "5 \<le> length buf \<Longrightarrow> take 5 buf = [a, b, c, d, e] \<Longrightarrow> \<exists>rest. buf = a # b # c # d # e # rest"
  by (metis append_Cons append_Nil append_take_drop_id)

lemma find_first: "P (hd xs) \<Longrightarrow> xs \<noteq> [] \<Longrightarrow> find P xs = Some (hd xs)"
  by (cases xs) auto

lemma bytes_find_first: "take (length pat) buf = pat \<Longrightarrow> bytes_find pat buf 0 = Some 0"
proof -
  assume a: "take (length pat) buf = pat"
  have "[0..<length buf + 1] = 0 # [1..<length buf + 1]" by (simp add: upt_conv_Cons del: upt_Suc)
  then show ?thesis using a by (simp add: bytes_find_def del: upt_Suc)
qed

lemma find_start_code_head:
  assumes "take 4 buf = START4"
  shows "find_start_code buf 0 = Some (0, 4)"
proof -
  have "buf \<noteq> []" using assms by auto
  moreover have "bytes_find START4 buf 0 = Some 0" using assms by (intro bytes_find_first) (simp add: numeral_eq_Suc)
  ultimately show ?thesis by (simp add: find_start_code_def split: option.splits)
qed

lemma extract_frame_fresh:
  assumes "annexb_fresh r" "extract_frame r = (f, r')"
    and "ab_buffer r @ later = [0, 0, 0, 1, b] @ rest" "uint b AND 31 = 9"
  shows "length (ab_buffer r) < 5 \<and> f = None \<and> r' = r
    \<or> 5 \<le> length (ab_buffer r) \<and> annexb_inv r' \<and> annexb_started r' \<and> f \<noteq> Some []
      \<and> ab_buffer r = (case f of None \<Rightarrow> [] | Some x \<Rightarrow> x) @ ab_buffer r'"
proof (cases "length (ab_buffer r) < 5")
  case True
  define k where "k = length (ab_buffer r)"
  have "ab_buffer r = take k (ab_buffer r @ later)" by (simp add: k_def)
  also have "\<dots> = take k ([0, 0, 0, 1] @ b # rest)" unfolding assms(3) by simp
  also have "\<dots> = take k [0, 0, 0, 1]" using True by (simp only: take_append k_def) simp
  finally have buf: "ab_buffer r = take k [0, 0, 0, 1]" .
  have "scan_for_auds ''H264'' [] 0 [] = (0, [])" "scan_for_auds ''H264'' [0] 0 [] = (0, [])"
    "scan_for_auds ''H264'' [0, 0] 0 [] = (0, [])" "scan_for_auds ''H264'' [0, 0, 0] 0 [] = (0, [])"
    "scan_for_auds ''H264'' [0, 0, 0, 1] 0 [] = (0, [])" by code_simp+
  moreover have "k = 0 \<or> k = 1 \<or> k = 2 \<or> k = 3 \<or> k = 4" using True unfolding k_def by arith
  ultimately have "scan_for_auds ''H264'' (ab_buffer r) 0 [] = (0, [])"
    unfolding buf by (elim disjE) simp_all
  then have "f = None \<and> r' = r" using assms(1,2) True by (auto simp: extract_frame_def annexb_fresh_def)
  then show ?thesis using True by simp
next
  case False
  then have "take 5 (ab_buffer r) = take 5 (ab_buffer r @ later)" by simp
  then have t5: "take 5 (ab_buffer r) = [0, 0, 0, 1, b]" unfolding assms(3) by simp
  then obtain tl where buf: "ab_buffer r = 0 # 0 # 0 # 1 # b # tl" using take5 False by (metis not_less)
  have fs: "find_start_code (ab_buffer r) 0 = Some (0, 4)" by (intro find_start_code_head) (simp add: buf)
  have nal: "nal_type_at ''H264'' (ab_buffer r) 0 4 = Some 9"
    using assms(4) by (simp add: nal_type_at_def buf)
  obtain pos auds where sc: "scan_for_auds ''H264'' (ab_buffer r) 4 [0] = (pos, auds)" by fastforce
  have scan: "scan_for_auds (ab_codec r) (ab_buffer r) (ab_search_pos r) (ab_aud_positions r) = (pos, auds)"
    using assms(1) fs nal sc by (subst scan_for_auds.simps) (simp add: annexb_fresh_def)
  let ?r = "r\<lparr>ab_search_pos := 4, ab_aud_positions := [0]\<rparr>"
  have "extract_frame ?r = (f, r')"
    using assms(1,2) scan sc by (simp add: extract_frame_def annexb_fresh_def)
  moreover have "annexb_inv ?r" "annexb_started ?r" by (simp_all add: annexb_inv_def annexb_started_def buf)
  ultimately show ?thesis using extract_frame_ok [of ?r f r'] False by (cases f) auto
qed

lemma annexb_read_frame_fresh:
  assumes "annexb_read_frame r s = (f, r', s')" "annexb_fresh r" "stream_ok s"
    and "ab_buffer r @ concat s = [0, 0, 0, 1, b] @ rest" "uint b AND 31 = 9"
  shows "annexb_live r' s' \<and> stream_ok s' \<and> (annexb_started r' \<or> ab_buffer r' = [] \<and> concat s' = [])
    \<and> ab_buffer r @ concat s = f @ ab_buffer r' @ concat s' \<and> f \<noteq> []"
  using assms
proof (induction r s rule: annexb_read_frame.induct)
  case (1 r)
  obtain x r1 where e: "extract_frame r = (x, r1)" by fastforce
  have five: "5 \<le> length (ab_buffer r)" using "1.prems"(4) by simp
  then have ok: "annexb_inv r1" "annexb_started r1" "x \<noteq> Some []"
    "ab_buffer r = (case x of None \<Rightarrow> [] | Some x \<Rightarrow> x) @ ab_buffer r1"
    using extract_frame_fresh [OF "1.prems"(2) e "1.prems"(4,5)] by auto
  show ?case
  proof (cases x)
    case None
    then have "ab_buffer r1 \<noteq> []" using ok(4) five by auto
    then show ?thesis using "1.prems"(1) e None ok(4) by (auto simp: annexb_live_def stream_ok_def)
  next
    case (Some y)
    then have "f = y" "r' = r1" "s' = []" using "1.prems"(1) e ok(3) by (cases y; simp)+
    then show ?thesis using ok Some by (auto simp: annexb_live_def stream_ok_def)
  qed
next
  case (2 r chunk s)
  obtain x r1 where e: "extract_frame r = (x, r1)" by fastforce
  have chunk: "chunk \<noteq> []" "stream_ok s" using "2.prems"(3) by (auto simp: stream_ok_def)
  from extract_frame_fresh [OF "2.prems"(2) e "2.prems"(4,5)] show ?case
  proof (elim disjE conjE)
    assume x: "length (ab_buffer r) < 5" "x = None" "r1 = r"
    define r2 where "r2 = r\<lparr>ab_buffer := ab_buffer r @ chunk\<rparr>"
    have run: "annexb_read_frame r2 s = (f, r', s')" using "2.prems"(1) e x chunk by (simp add: r2_def)
    have "annexb_fresh r2" using "2.prems"(2) by (simp add: annexb_fresh_def r2_def)
    then show ?thesis
      using "2.IH"(1) [OF e [symmetric] refl x(2) chunk(1)] run chunk(2) "2.prems"(4,5) x(3) by (simp add: r2_def)
  next
    assume ok: "annexb_inv r1" "annexb_started r1" "x \<noteq> Some []"
      "ab_buffer r = (case x of None \<Rightarrow> [] | Some x \<Rightarrow> x) @ ab_buffer r1" and five: "5 \<le> length (ab_buffer r)"
    show ?thesis
    proof (cases x)
      case None
      define r2 where "r2 = r1\<lparr>ab_buffer := ab_buffer r1 @ chunk\<rparr>"
      have run: "annexb_read_frame r2 s = (f, r', s')" using "2.prems"(1) e None chunk by (simp add: r2_def)
      have inv2: "annexb_inv r2" "annexb_started r2" using ok by (auto simp: r2_def annexb_inv_def annexb_started_def)
      have "f \<noteq> []"
      proof
        assume "f = []"
        then have "ab_buffer r2 @ concat s = []"
          using annexb_read_frame_ok [OF run inv2(1) chunk(2)] inv2(2) by auto
        then show False using chunk(1) by (simp add: r2_def)
      qed
      then show ?thesis using annexb_read_frame_ok [OF run inv2(1) chunk(2)] inv2(2) ok(4) None by (auto simp: r2_def)
    next
      case (Some y)
      then have "f = y" "r' = r1" "s' = chunk # s" using "2.prems"(1) e ok(3) by (cases y; simp)+
      then show ?thesis using ok Some "2.prems"(3) by (auto simp: annexb_live_def)
    qed
  qed
qed

text \<open>
  C6. The Annex B reader loses nothing between frames, however the stream is cut into pieces: the
  frames it returns, put together, are the end of the stream, and all of it when a H264 stream
  opens with an access unit delimiter.
\<close>

theorem annexb_reader_lossless:
  assumes "new_annexb_reader codec = Inr r" and "stream_ok s"
  shows "(\<exists>dropped. concat s = dropped @ concat (annexb_read_all r s))
    \<and> ((\<exists>b rest. coerce_video_codec codec = Inr ''H264'' \<and> uint b AND 31 = 9 \<and> concat s = [0, 0, 0, 1, b] @ rest)
        \<longrightarrow> concat (annexb_read_all r s) = concat s)"
proof -
  obtain c where r: "coerce_video_codec codec = Inr c"
    "r = \<lparr>ab_codec = c, ab_buffer = [], ab_search_pos = 0, ab_aud_positions = []\<rparr>"
    using assms(1) by (auto simp: new_annexb_reader_def map_res_Inr)
  have live: "annexb_live r s" by (simp add: annexb_live_def annexb_inv_def r(2))
  have part1: "\<exists>dropped. concat s = dropped @ concat (annexb_read_all r s)"
    using annexb_read_all_ok [OF live assms(2)] by (auto simp: r(2))
  have part2: "concat (annexb_read_all r s) = concat s"
    if h: "coerce_video_codec codec = Inr ''H264''" "uint b AND 31 = 9" "concat s = [0, 0, 0, 1, b] @ rest" for b rest
  proof -
    have fresh: "annexb_fresh r" using r h(1) by (simp add: annexb_fresh_def)
    obtain f r' s' where run: "annexb_read_frame r s = (f, r', s')" by (cases "annexb_read_frame r s")
    have "ab_buffer r @ concat s = [0, 0, 0, 1, b] @ rest" using h(3) by (simp add: r(2))
    from annexb_read_frame_fresh [OF run fresh assms(2) this h(2)]
    have ok: "annexb_live r' s'" "stream_ok s'" "annexb_started r' \<or> ab_buffer r' = [] \<and> concat s' = []"
      "concat s = f @ ab_buffer r' @ concat s'" "f \<noteq> []" by (simp_all add: r(2))
    from annexb_read_all_ok [OF ok(1,2)] obtain d where
      d: "ab_buffer r' @ concat s' = d @ concat (annexb_read_all r' s')" "annexb_started r' \<longrightarrow> d = []" by blast
    have "d = []" using d ok(3) by (metis append_is_Nil_conv)
    then show ?thesis using d(1) ok(4,5) by (subst annexb_read_all.simps) (simp add: run)
  qed
  show ?thesis using part1 part2 by blast
qed

text \<open>Two access units of a H264 stream, cut at an unlucky place.\<close>

definition sample_annexb :: annexb_reader where
  "sample_annexb = \<lparr>ab_codec = ''H264'', ab_buffer = [], ab_search_pos = 0, ab_aud_positions = []\<rparr>"

theorem annexb_reader_lossless_witness:
  "concat (annexb_read_all sample_annexb [[0, 0, 0, 1, 9, 16, 0], [0, 1, 0x65, 7, 0, 0, 0, 1, 9, 16, 0, 0, 1, 0x41]])
     = [0, 0, 0, 1, 9, 16, 0, 0, 1, 0x65, 7, 0, 0, 0, 1, 9, 16, 0, 0, 1, 0x41]"
proof -
  have r: "new_annexb_reader ''h264'' = Inr sample_annexb" "coerce_video_codec ''h264'' = Inr ''H264''" by code_simp+
  have ok: "stream_ok [[0, 0, 0, 1, 9, 16, 0], [0, 1, 0x65, 7, 0, 0, 0, 1, 9, 16, 0, 0, 1, 0x41]]"
    by (simp add: stream_ok_def)
  have "\<exists>b rest. coerce_video_codec ''h264'' = Inr ''H264'' \<and> uint b AND 31 = 9 \<and>
      concat [[0, 0, 0, 1, 9, 16, 0], [0, 1, 0x65, 7, 0, 0, 0, 1, 9, 16, 0, 0, 1, 0x41 :: byte]] = [0, 0, 0, 1, b] @ rest"
    using r(2) by (intro exI [of _ 9]) simp
  then show ?thesis using annexb_reader_lossless [OF r(1) ok] by simp
qed




section \<open>Parameter sets and keyframes\<close>

definition parameter_set_types :: "string \<Rightarrow> int set option" where
  "parameter_set_types codec =
     (if codec = ''H264'' then Some {7, 8} else if codec = ''H265'' then Some {32, 33, 34} else None)"

definition keyframe_types :: "string \<Rightarrow> int set option" where
  "keyframe_types codec =
     (if codec = ''H264'' then Some {5} else if codec = ''H265'' then Some {16, 17, 18, 19, 20, 21} else None)"

text \<open>\<open>_annex_b_nal_types\<close>: the types in the order they are added to the set.\<close>

function nal_types_from :: "bytes \<Rightarrow> string \<Rightarrow> nat \<Rightarrow> int list" where
  "nal_types_from payload codec index =
     (if index + 3 \<le> length payload
      then let start_code_len =
             (if index + 4 \<le> length payload \<and> take 4 (drop index payload) = START4 then 4
              else if take 3 (drop index payload) = START3 then 3 else (0 :: nat))
           in if start_code_len = 0 then nal_types_from payload codec (index + 1)
              else let nal_start = index + start_code_len;
                       found = (if codec = ''H264''
                                then if nal_start < length payload then [uint (payload ! nal_start) AND 0x1F] else []
                                else if nal_start + 1 < length payload
                                then [drop_bit 1 (uint (payload ! nal_start)) AND 0x3F] else [])
                   in found @ nal_types_from payload codec (nal_start + 1)
      else [])"
  by pat_completeness auto
termination by (relation "measure (\<lambda>(payload, codec, index). length payload - index)") auto

declare nal_types_from.simps [simp del]

definition annex_b_nal_types :: "bytes \<Rightarrow> string \<Rightarrow> int set" where
  "annex_b_nal_types payload codec = set (nal_types_from payload codec 0)"

text \<open>
  The loop of the client's \<open>_is_config_keyframe\<close>: it stops at the first slice and after 16 NAL
  units. \<open>find_start_code\<close> is the pair of \<open>find\<close> calls and the choice between their results.
\<close>

function config_nal_types :: "string \<Rightarrow> bytes \<Rightarrow> nat \<Rightarrow> nat \<Rightarrow> int list" where
  "config_nal_types codec frame index nal_count =
     (if index + 3 \<le> length frame \<and> nal_count < 16
      then case find_start_code frame index of
          None \<Rightarrow> []
        | Some (start, start_code_len) \<Rightarrow>
            let nal_start = start + start_code_len
            in if codec = ''H264''
               then if nal_start \<ge> length frame then []
                    else let nal_type = uint (frame ! nal_start) AND 0x1F
                         in if 1 \<le> nal_type \<and> nal_type \<le> 5 then [nal_type]
                            else nal_type # config_nal_types codec frame (nal_start + 1) (nal_count + 1)
               else if nal_start + 1 \<ge> length frame then []
                    else let nal_type = drop_bit 1 (uint (frame ! nal_start)) AND 0x3F
                         in if nal_type \<le> 31 then [nal_type]
                            else nal_type # config_nal_types codec frame (nal_start + 2) (nal_count + 1)
      else [])"
  by pat_completeness auto
termination by (relation "measure (\<lambda>(codec, frame, index, nal_count). 16 - nal_count)") auto

declare config_nal_types.simps [simp del]

definition is_config_keyframe :: "string \<Rightarrow> bytes \<Rightarrow> bool" where
  "is_config_keyframe raw_codec frame =
     (let codec = upper raw_codec
      in case (parameter_set_types codec, keyframe_types codec) of
           (Some parameter_sets, Some keyframes) \<Rightarrow>
             (let nal_types = set (config_nal_types codec frame 0 0)
              in parameter_sets \<subseteq> nal_types \<and> keyframes \<inter> nal_types \<noteq> {})
         | _ \<Rightarrow> False)"

lemma nal_types_skip:
  assumes "i \<le> p" "p + 3 \<le> length buf"
    and "\<forall>j. i \<le> j \<and> j < p \<longrightarrow> take 3 (drop j buf) \<noteq> START3 \<and> take 4 (drop j buf) \<noteq> START4"
  shows "nal_types_from buf codec i = nal_types_from buf codec p"
  using assms
proof (induction "p - i" arbitrary: i)
  case (Suc d)
  then have "nal_types_from buf codec i = nal_types_from buf codec (i + 1)"
    by (subst nal_types_from.simps) (auto simp: Let_def)
  also have "\<dots> = nal_types_from buf codec p" using Suc by (intro Suc.hyps(1)) auto
  finally show ?case .
qed simp

lemma bytes_find_first_none:
  assumes "bytes_find pat buf start = Some i" "start \<le> j" "j < i"
  shows "take (length pat) (drop j buf) \<noteq> pat"
proof -
  obtain n where n: "n < length [start..<length buf + 1]" "[start..<length buf + 1] ! n = i"
    "\<forall>k < n. take (length pat) (drop ([start..<length buf + 1] ! k) buf) \<noteq> pat"
    using assms(1) unfolding bytes_find_def find_Some_iff by blast
  then have "i = start + n" by (simp del: upt_Suc)
  moreover have "[start..<length buf + 1] ! (j - start) = j" using assms n calculation by (simp del: upt_Suc)
  ultimately show ?thesis using n(3) assms by (metis add.commute add_diff_inverse_nat less_diff_conv2 not_less)
qed

lemma bytes_find_None: "bytes_find pat buf start = None \<Longrightarrow> start \<le> j \<Longrightarrow> j \<le> length buf \<Longrightarrow> take (length pat) (drop j buf) \<noteq> pat"
  by (auto simp: bytes_find_def find_None_iff simp del: upt_Suc)

lemma find_start_code_least:
  assumes "find_start_code buf i = Some (p, n)"
  shows "\<forall>j. i \<le> j \<and> j < p \<longrightarrow> take 3 (drop j buf) \<noteq> START3 \<and> take 4 (drop j buf) \<noteq> START4"
    and "n = 4 \<and> take 4 (drop p buf) = START4 \<or> n = 3 \<and> take 3 (drop p buf) = START3"
proof -
  note pr = bytes_find_props [of START3 buf i] bytes_find_props [of START4 buf i]
  note fi = bytes_find_first_none [of START3 buf i] bytes_find_first_none [of START4 buf i]
  note no = bytes_find_None [of START3 buf i] bytes_find_None [of START4 buf i]
  show "n = 4 \<and> take 4 (drop p buf) = START4 \<or> n = 3 \<and> take 3 (drop p buf) = START3"
    using assms pr by (auto simp: find_start_code_def numeral_eq_Suc split: if_splits option.splits)
  have len: "p + n \<le> length buf" using find_start_code_props [OF assms] by simp
  show "\<forall>j. i \<le> j \<and> j < p \<longrightarrow> take 3 (drop j buf) \<noteq> START3 \<and> take 4 (drop j buf) \<noteq> START4"
  proof (intro allI impI, elim conjE)
    fix j assume j: "i \<le> j" "j < p"
    have three: "take 3 (drop j buf) \<noteq> START3"
      using assms j len fi(1) no(1) pr
      by (auto simp: find_start_code_def numeral_eq_Suc split: if_splits option.splits)
    have four: "take 4 (drop j buf) \<noteq> START4"
      using assms j len fi(2) no(2) pr
      by (auto simp: find_start_code_def numeral_eq_Suc split: if_splits option.splits)
    show "take 3 (drop j buf) \<noteq> START3 \<and> take 4 (drop j buf) \<noteq> START4" using three four by simp
  qed
qed

lemma config_types_subset:
  "codec = ''H264'' \<Longrightarrow> set (config_nal_types codec frame index nal_count) \<subseteq> set (nal_types_from frame codec index)"
proof (induction codec frame index nal_count rule: config_nal_types.induct)
  case (1 codec frame index nal_count)
  show ?case
  proof (cases "index + 3 \<le> length frame \<and> nal_count < 16 \<and> find_start_code frame index \<noteq> None")
    case False
    then have "config_nal_types codec frame index nal_count = []"
      unfolding config_nal_types.simps [of codec frame index nal_count] by (auto split: option.splits)
    then show ?thesis by simp
  next
    case True
    then obtain p n where f: "find_start_code frame index = Some (p, n)" by auto
    note pr = find_start_code_props [OF f] and least = find_start_code_least [OF f]
    show ?thesis
    proof (cases "p + n < length frame")
      case False
      then have "config_nal_types codec frame index nal_count = []"
        using 1(3) True f unfolding config_nal_types.simps [of codec frame index nal_count] by (simp add: Let_def)
      then show ?thesis by simp
    next
      case inside: True
      have skip: "nal_types_from frame codec index = nal_types_from frame codec p"
        using pr least(1) by (intro nal_types_skip) auto
      have here: "nal_types_from frame codec p = (uint (frame ! (p + n)) AND 0x1F) # nal_types_from frame codec (p + n + 1)"
      proof -
        have "take 4 (drop p frame) = START4 \<Longrightarrow> take 3 (drop p frame) = START3 \<Longrightarrow> False"
        proof -
          assume t: "take 4 (drop p frame) = START4" "take 3 (drop p frame) = START3"
          have "take 3 (drop p frame) = take 3 (take 4 (drop p frame))" by simp
          then show False unfolding t by simp
        qed
        then consider "n = 4" "take 4 (drop p frame) = START4"
          | "n = 3" "take 3 (drop p frame) = START3" "take 4 (drop p frame) \<noteq> START4"
          using least(2) by blast
        then show ?thesis
        proof cases
          case 1
          then show ?thesis using inside \<open>codec = ''H264''\<close>
            unfolding nal_types_from.simps [of frame codec p] by (simp add: Let_def)
        next
          case 2
          then show ?thesis using inside \<open>codec = ''H264''\<close>
            unfolding nal_types_from.simps [of frame codec p] by (simp add: Let_def)
        qed
      qed
      have IH: "\<not> (1 \<le> uint (frame ! (p + n)) AND 0x1F \<and> uint (frame ! (p + n)) AND 0x1F \<le> 5) \<Longrightarrow>
          set (config_nal_types codec frame (p + n + 1) (nal_count + 1)) \<subseteq> set (nal_types_from frame codec (p + n + 1))"
        using 1(1) [OF _ f refl refl 1(3) _ refl _ 1(3)] True inside by simp
      show ?thesis unfolding skip here
        using IH 1(3) True f inside unfolding config_nal_types.simps [of codec frame index nal_count]
        by (auto simp: Let_def)
    qed
  qed
qed



section \<open>EncodedVideoSource\<close>

datatype frame_reader = IVFReader | AnnexBReader annexb_reader

record EncodedVideoSource =
  ev_codec :: string
  ev_file :: "bytes list option" \<comment> \<open>\<open>None\<close> is \<open>MISSING\<close>\<close>
  ev_close_file :: bool
  ev_file_closed :: bool
  ev_frame_time_ms :: pyfloat
  ev_video_config :: VideoConfig
  ev_closed :: bool
  ev_reader :: frame_reader

abbreviation (input) "IVF_CODECS \<equiv> [''VP8'', ''VP9'', ''AV1'']"

definition encoded_source_cleanup :: "EncodedVideoSource \<Rightarrow> EncodedVideoSource" where
  "encoded_source_cleanup src =
     (case ev_file src of
        None \<Rightarrow> src
      | Some _ \<Rightarrow> src\<lparr>ev_file := None, ev_closed := True,
                     ev_file_closed := ev_file_closed src \<or> ev_close_file src\<rparr>)"

text \<open>
  The constructor on an open stream; \<open>close_file\<close> is whether it opened the stream itself. On a
  bad IVF header it cleans up and raises, so no object is returned.
\<close>

definition new_encoded_video_source ::
  "bytes list \<Rightarrow> bool \<Rightarrow> string \<Rightarrow> int \<Rightarrow> int \<Rightarrow> int \<Rightarrow> int \<Rightarrow> EncodedVideoSource res"
where
  "new_encoded_video_source file close_file raw_codec fps width height bitrate =
     and_then (coerce_video_codec raw_codec) (\<lambda>codec.
       let src = \<lparr>ev_codec = codec, ev_file = Some file, ev_close_file = close_file, ev_file_closed = False,
             ev_frame_time_ms = 1000 / of_int (max 1 fps),
             ev_video_config = \<lparr>vc_codec = codec, vc_width = max 0 width, vc_height = max 0 height,
                                vc_fps = max 1 fps, vc_bitrate = max 0 bitrate\<rparr>,
             ev_closed = False, ev_reader = IVFReader\<rparr>
       in if codec \<in> set IVF_CODECS
          then case ivf_open file of
              (Inl e, _) \<Rightarrow> Inl e
            | (Inr _, rest) \<Rightarrow> Inr (src\<lparr>ev_file := Some rest\<rparr>)
          else map_res (\<lambda>r. src\<lparr>ev_reader := AnnexBReader r\<rparr>) (new_annexb_reader codec))"

definition encoded_source_read_video ::
  "EncodedVideoSource \<Rightarrow> VideoFrame option res \<times> EncodedVideoSource"
where
  "encoded_source_read_video src =
     (if ev_closed src then (Inr None, src)
      else
        let file = (case ev_file src of None \<Rightarrow> [] | Some s \<Rightarrow> s);
            (frame, file, reader) = (case ev_reader src of
                IVFReader \<Rightarrow> (let (f, s) = ivf_read_frame file in (f, s, IVFReader))
              | AnnexBReader r \<Rightarrow> (let (f, r, s) = annexb_read_frame r file in (Inr f, s, AnnexBReader r)));
            src = src\<lparr>ev_file := map_option (\<lambda>_. file) (ev_file src), ev_reader := reader\<rparr>
        in case frame of
             Inl e \<Rightarrow> (Inl e, src)
           | Inr f \<Rightarrow>
               if f = [] then (Inr None, src\<lparr>ev_closed := True\<rparr>)
               else (Inr (Some \<lparr>vf_data = f, vf_frame_time_ms = ev_frame_time_ms src\<rparr>), src))"

fun read_videos :: "nat \<Rightarrow> EncodedVideoSource \<Rightarrow> VideoFrame option res list" where
  "read_videos 0 src = []"
| "read_videos (Suc n) src = (let (r, src) = encoded_source_read_video src in r # read_videos n src)"

section \<open>EncodedVideoSink\<close>

record EncodedVideoSink =
  vk_codec :: string
  vk_width :: int
  vk_height :: int
  vk_fps :: int
  vk_rtp_timestamps :: bool
  vk_base_timestamp :: "int option"
  vk_frames :: int
  vk_ivf :: bool
  vk_h26x_started :: bool
  vk_closed :: bool
  vk_written :: bytes
  vk_writer_closed :: bool

definition ivf_fourcc :: "string \<Rightarrow> bytes option" where
  "ivf_fourcc codec =
     (if codec = ''VP8'' then Some [0x56, 0x50, 0x38, 0x30]
      else if codec = ''VP9'' then Some [0x56, 0x50, 0x39, 0x30]
      else if codec = ''AV1'' then Some [0x41, 0x56, 0x30, 0x31] else None)"

definition ivf_header :: "bytes \<Rightarrow> int \<Rightarrow> int \<Rightarrow> int \<Rightarrow> bytes res" where
  "ivf_header fourcc width height denominator =
     (if in_u 16 width \<and> in_u 16 height \<and> in_u 32 denominator
      then Inr (DKIF @ le_bytes 2 0 @ le_bytes 2 32 @ fourcc @ le_bytes 2 width @ le_bytes 2 height
                @ le_bytes 4 denominator @ le_bytes 4 1 @ le_bytes 4 0 @ le_bytes 4 0)
      else Inl StructError)"

definition new_encoded_video_sink :: "string \<Rightarrow> int \<Rightarrow> int \<Rightarrow> int \<Rightarrow> bool \<Rightarrow> EncodedVideoSink res" where
  "new_encoded_video_sink raw_codec width height fps rtp_timestamps =
     and_then (coerce_video_codec raw_codec) (\<lambda>codec.
       if ivf_fourcc codec \<noteq> None \<and> (width \<le> 0 \<or> height \<le> 0) then Inl ValueError
       else
         let sink = \<lparr>vk_codec = codec, vk_width = width, vk_height = height, vk_fps = max 1 fps,
               vk_rtp_timestamps = rtp_timestamps, vk_base_timestamp = None, vk_frames = 0,
               vk_ivf = (ivf_fourcc codec \<noteq> None), vk_h26x_started = (parameter_set_types codec = None),
               vk_closed = False, vk_written = [], vk_writer_closed = False\<rparr>
         in case ivf_fourcc codec of
              None \<Rightarrow> Inr sink
            | Some fourcc \<Rightarrow>
                map_res (\<lambda>header. sink\<lparr>vk_written := header\<rparr>)
                  (ivf_header fourcc width height (if rtp_timestamps then 90000 else max 1 fps)))"

definition ivf_timestamp :: "MediaPacket \<Rightarrow> EncodedVideoSink \<Rightarrow> int \<times> EncodedVideoSink" where
  "ivf_timestamp packet sink =
     (if \<not> vk_rtp_timestamps sink then (vk_frames sink, sink)
      else case vk_base_timestamp sink of
          None \<Rightarrow> (0, sink\<lparr>vk_base_timestamp := Some (mp_timestamp packet)\<rparr>)
        | Some base \<Rightarrow>
            (case rtp_timestamp_delta (mp_timestamp packet) base of
               None \<Rightarrow> (vk_frames sink, sink)
             | Some delta \<Rightarrow> (delta, sink)))"

definition should_write_h26x :: "MediaPacket \<Rightarrow> EncodedVideoSink \<Rightarrow> bool \<times> EncodedVideoSink" where
  "should_write_h26x packet sink =
     (if vk_h26x_started sink then (True, sink)
      else
        let nal_types = annex_b_nal_types (mp_payload packet) (vk_codec sink);
            has_config = (case parameter_set_types (vk_codec sink) of None \<Rightarrow> False | Some ts \<Rightarrow> ts \<subseteq> nal_types);
            has_keyframe = (case keyframe_types (vk_codec sink) of None \<Rightarrow> False | Some ts \<Rightarrow> ts \<inter> nal_types \<noteq> {})
        in if has_config \<and> has_keyframe then (True, sink\<lparr>vk_h26x_started := True\<rparr>) else (False, sink))"

definition encoded_sink_write :: "MediaPacket \<Rightarrow> EncodedVideoSink \<Rightarrow> bool res \<times> EncodedVideoSink" where
  "encoded_sink_write packet sink =
     (if vk_closed sink then (Inr False, sink)
      else
        let payload = mp_payload packet;
            (wanted, sink) = (if parameter_set_types (vk_codec sink) \<noteq> None
                              then should_write_h26x packet sink else (True, sink))
        in if \<not> wanted then (Inr False, sink)
           else
             let (header, sink) = (if vk_ivf sink
                   then let (ts, sink) = ivf_timestamp packet sink
                        in if in_u 32 (int (length payload)) \<and> in_u 64 ts
                           then (Inr (le_bytes 4 (int (length payload)) @ le_bytes 8 ts), sink)
                           else (Inl StructError, sink)
                   else (Inr [], sink))
             in case header of
                  Inl e \<Rightarrow> (Inl e, sink)
                | Inr h \<Rightarrow> (Inr True, sink\<lparr>vk_written := vk_written sink @ h @ payload,
                                           vk_frames := vk_frames sink + 1\<rparr>))"

text \<open>\<open>seek(24)\<close> and four bytes: the frame count of the IVF header is filled in at the end.\<close>

definition encoded_sink_cleanup :: "EncodedVideoSink \<Rightarrow> unit res \<times> EncodedVideoSink" where
  "encoded_sink_cleanup sink =
     (if vk_closed sink then (Inr (), sink)
      else
        let sink = sink\<lparr>vk_closed := True\<rparr>
        in if vk_ivf sink
           then if in_u 32 (vk_frames sink)
                then (Inr (), sink\<lparr>vk_written := take 24 (vk_written sink) @ le_bytes 4 (vk_frames sink)
                                                @ drop 28 (vk_written sink),
                                   vk_writer_closed := True\<rparr>)
                else (Inl StructError, sink)
           else (Inr (), sink\<lparr>vk_writer_closed := True\<rparr>))"

fun encoded_sink_write_all :: "MediaPacket list \<Rightarrow> EncodedVideoSink \<Rightarrow> unit res \<times> EncodedVideoSink" where
  "encoded_sink_write_all [] sink = (Inr (), sink)"
| "encoded_sink_write_all (p # ps) sink =
     bind_res (encoded_sink_write p sink) (\<lambda>_ sink. encoded_sink_write_all ps sink)"


text \<open>
  The client and the file writer agree on keyframes: a H264 frame that the sending side takes
  for a keyframe with its parameter sets is one that a file sink starts its file with.
\<close>

theorem config_keyframe_starts_file:
  assumes "is_config_keyframe ''H264'' (mp_payload packet)" and "vk_codec sink = ''H264''"
    and "vk_closed sink = False" and "vk_ivf sink = False"
  shows "fst (encoded_sink_write packet sink) = Inr True
    \<and> vk_written (snd (encoded_sink_write packet sink)) = vk_written sink @ mp_payload packet"
proof -
  have "upper ''H264'' = ''H264''" by code_simp
  then have "{7, 8} \<subseteq> set (config_nal_types ''H264'' (mp_payload packet) 0 0)"
    "{5} \<inter> set (config_nal_types ''H264'' (mp_payload packet) 0 0) \<noteq> {}"
    using assms(1) by (auto simp: is_config_keyframe_def parameter_set_types_def keyframe_types_def Let_def)
  then have "{7, 8} \<subseteq> annex_b_nal_types (mp_payload packet) ''H264''"
    "{5} \<inter> annex_b_nal_types (mp_payload packet) ''H264'' \<noteq> {}"
    using config_types_subset [of "''H264''" "mp_payload packet" 0 0] by (auto simp: annex_b_nal_types_def)
  then show ?thesis
    using assms(2-4)
    by (auto simp: encoded_sink_write_def should_write_h26x_def parameter_set_types_def keyframe_types_def Let_def)
qed

definition sample_media :: "bytes \<Rightarrow> MediaPacket" where
  "sample_media payload = new_media_packet ''video'' ''H264'' payload 101 True 1 0 1 None []"

definition sample_h264_sink :: EncodedVideoSink where
  "sample_h264_sink =
     (case new_encoded_video_sink ''h264'' 0 0 30 False of Inr s \<Rightarrow> s
      | Inl _ \<Rightarrow> \<lparr>vk_codec = [], vk_width = 0, vk_height = 0, vk_fps = 0, vk_rtp_timestamps = False,
           vk_base_timestamp = None, vk_frames = 0, vk_ivf = False, vk_h26x_started = False, vk_closed = False,
           vk_written = [], vk_writer_closed = False\<rparr>)"

theorem config_keyframe_starts_file_witness:
  "fst (encoded_sink_write (sample_media [0, 0, 0, 1, 0x67, 1, 0, 0, 1, 0x68, 2, 0, 0, 1, 0x65, 3]) sample_h264_sink)
     = Inr True"
proof -
  have "is_config_keyframe ''H264'' (mp_payload (sample_media [0, 0, 0, 1, 0x67, 1, 0, 0, 1, 0x68, 2, 0, 0, 1, 0x65, 3]))"
    "vk_codec sample_h264_sink = ''H264''" "vk_closed sample_h264_sink = False" "vk_ivf sample_h264_sink = False"
    by code_simp+
  from config_keyframe_starts_file [OF this] show ?thesis by simp
qed

section \<open>Writing and reading back\<close>

text \<open>The timestamps a sink gives to a list of packets.\<close>

lemma ivf_timestamp_bounds:
  assumes "ivf_timestamp p sink = (ts, sink')" "0 \<le> vk_frames sink" "vk_frames sink < 2 ^ 63"
  shows "0 \<le> ts \<and> ts < 2 ^ 64 \<and> vk_frames sink' = vk_frames sink \<and> vk_written sink' = vk_written sink
    \<and> vk_closed sink' = vk_closed sink \<and> vk_ivf sink' = vk_ivf sink \<and> vk_codec sink' = vk_codec sink"
  using assms by (auto simp: ivf_timestamp_def rtp_timestamp_delta_def Let_def split: if_splits option.splits)

lemma ivf_write_all:
  assumes "encoded_sink_write_all ps sink = (r, sink')"
    and "vk_ivf sink" "\<not> vk_closed sink" "parameter_set_types (vk_codec sink) = None"
    and "0 \<le> vk_frames sink" "vk_frames sink + int (length ps) < 2 ^ 32"
    and "\<forall>p \<in> set ps. length (mp_payload p) < 2 ^ 32"
  shows "r = Inr () \<and> vk_ivf sink' \<and> \<not> vk_closed sink' \<and> vk_frames sink' = vk_frames sink + int (length ps)
    \<and> (\<exists>tss. length tss = length ps
         \<and> vk_written sink' = vk_written sink @ concat (map2 (\<lambda>p ts. ivf_frame (mp_payload p) ts) ps tss))"
  using assms
proof (induction ps arbitrary: sink)
  case Nil
  then show ?case by simp
next
  case (Cons p ps)
  obtain ts s1 where t: "ivf_timestamp p sink = (ts, s1)" by fastforce
  have "vk_frames sink < 2 ^ 63" using Cons.prems(6) by simp
  note b = ivf_timestamp_bounds [OF t Cons.prems(5) this]
  define s2 where "s2 = s1\<lparr>vk_written := vk_written s1 @ ivf_frame (mp_payload p) ts, vk_frames := vk_frames s1 + 1\<rparr>"
  have "in_u 32 (int (length (mp_payload p)))" "in_u 64 ts" using Cons.prems(7) b by (auto simp: in_u_def)
  then have "encoded_sink_write p sink = (Inr True, s2)"
    using Cons.prems(2-4) t b by (simp add: encoded_sink_write_def Let_def s2_def ivf_frame_def)
  then have "encoded_sink_write_all ps s2 = (r, sink')" using Cons.prems(1) by simp
  then have IH: "r = Inr () \<and> vk_ivf sink' \<and> \<not> vk_closed sink' \<and> vk_frames sink' = vk_frames s2 + int (length ps)
    \<and> (\<exists>tss. length tss = length ps
         \<and> vk_written sink' = vk_written s2 @ concat (map2 (\<lambda>p ts. ivf_frame (mp_payload p) ts) ps tss))"
    using Cons.prems b by (intro Cons.IH) (auto simp: s2_def)
  then obtain tss where "length tss = length ps"
    "vk_written sink' = vk_written s2 @ concat (map2 (\<lambda>p ts. ivf_frame (mp_payload p) ts) ps tss)" by blast
  then have "length (ts # tss) = length (p # ps) \<and> vk_written sink' = vk_written sink
      @ concat (map2 (\<lambda>p ts. ivf_frame (mp_payload p) ts) (p # ps) (ts # tss))"
    using b by (simp add: s2_def)
  with IH b show ?case by (auto simp: s2_def intro!: exI [of _ "ts # tss"])
qed

lemma read_videos_ivf:
  assumes "ev_reader src = IVFReader" "ev_closed src = False" "ev_file src = Some s" "stream_ok s"
    and "concat s = concat (map2 (\<lambda>p ts. ivf_frame (mp_payload p) ts) ps tss)" "length tss = length ps"
    and "\<forall>p \<in> set ps. mp_payload p \<noteq> [] \<and> length (mp_payload p) < 2 ^ 32"
  shows "read_videos (length ps + k) src =
    map (\<lambda>p. Inr (Some \<lparr>vf_data = mp_payload p, vf_frame_time_ms = ev_frame_time_ms src\<rparr>)) ps @ replicate k (Inr None)"
  using assms
proof (induction ps arbitrary: src s tss)
  case Nil
  have closed: "ev_closed src' = True \<Longrightarrow> read_videos k src' = replicate k (Inr None)" for src' k
    by (induction k) (simp_all add: encoded_source_read_video_def)
  obtain s' where "ivf_read_frame s = (Inr [], s')" using ivf_read_frame_end Nil by force
  then have "encoded_source_read_video src = (Inr None, src\<lparr>ev_file := Some s', ev_closed := True\<rparr>)"
    using Nil by (simp add: encoded_source_read_video_def)
  then show ?case using closed by (cases k) simp_all
next
  case (Cons p ps)
  obtain ts tss' where tss: "tss = ts # tss'" using Cons.prems(6) by (cases tss) auto
  let ?rest = "concat (map2 (\<lambda>p ts. ivf_frame (mp_payload p) ts) ps tss')"
  have "concat s = ivf_frame (mp_payload p) ts @ ?rest" using Cons.prems(5) by (simp add: tss)
  then obtain s' where s': "ivf_read_frame s = (Inr (mp_payload p), s')" "stream_ok s'" "concat s' = ?rest"
    using ivf_read_frame_written Cons.prems(4,7) by (metis list.set_intros(1))
  have step: "encoded_source_read_video src =
      (Inr (Some \<lparr>vf_data = mp_payload p, vf_frame_time_ms = ev_frame_time_ms src\<rparr>), src\<lparr>ev_file := Some s'\<rparr>)"
    using Cons.prems s'(1) by (simp add: encoded_source_read_video_def)
  then show ?case
    using Cons.IH [of "src\<lparr>ev_file := Some s'\<rparr>" s' tss'] Cons.prems s'(2,3) tss by simp
qed


lemma ivf_header_length: "ivf_header cc w h d = Inr header1 \<Longrightarrow> length cc = 4 \<Longrightarrow> length header1 = 32 \<and> take 4 header1 = DKIF"
  by (auto simp: ivf_header_def split: if_splits)

lemma ivf_fourcc_length: "ivf_fourcc c = Some cc \<Longrightarrow> length cc = 4 \<and> parameter_set_types c = None \<and> c \<in> set IVF_CODECS"
  by (auto simp: ivf_fourcc_def parameter_set_types_def split: if_splits)

lemma coerce_idem: "coerce_video_codec v = Inr c \<Longrightarrow> coerce_video_codec c = Inr c"
proof -
  assume "coerce_video_codec v = Inr c"
  then have "c \<in> set SUPPORTED_VIDEO_CODECS" by (simp add: coerce_video_codec_def Let_def split: if_splits)
  moreover have "\<forall>c \<in> set SUPPORTED_VIDEO_CODECS. coerce_video_codec c = Inr c" by code_simp
  ultimately show ?thesis by blast
qed


definition sample_vp8_sink :: EncodedVideoSink where
  "sample_vp8_sink =
     \<lparr>vk_codec = ''VP8'', vk_width = 4, vk_height = 2, vk_fps = 30, vk_rtp_timestamps = False,
      vk_base_timestamp = None, vk_frames = 0, vk_ivf = True, vk_h26x_started = True, vk_closed = False,
      vk_written = [0x44, 0x4B, 0x49, 0x46, 0, 0, 32, 0, 0x56, 0x50, 0x38, 0x30, 4, 0, 2, 0,
                    30, 0, 0, 0, 1, 0, 0, 0, 0, 0, 0, 0, 0, 0, 0, 0],
      vk_writer_closed = False\<rparr>"

definition sample_file :: bytes where
  "sample_file = [0x44, 0x4B, 0x49, 0x46, 0, 0, 32, 0, 0x56, 0x50, 0x38, 0x30, 4, 0, 2, 0,
      30, 0, 0, 0, 1, 0, 0, 0, 2, 0, 0, 0, 0, 0, 0, 0,
      2, 0, 0, 0, 0, 0, 0, 0, 0, 0, 0, 0, 7, 8,
      1, 0, 0, 0, 1, 0, 0, 0, 0, 0, 0, 0, 9]"


end
