(* ===== verification/Pcm.thy ===== *)
theory Pcm
  imports Prelude
begin

text \<open>
  The 16-bit PCM arithmetic of the native module (\<open>src/audio/pcm.rs\<close>), which the sources and the
  sinks mix and scale audio with. A sample is a signed 16-bit little-endian integer, an \<open>f64\<close> is
  a rational, an \<open>AudioError\<close> reaches Python as \<open>ValueError\<close>.
\<close>

definition i16 :: "byte \<Rightarrow> byte \<Rightarrow> int" where
  "i16 lo hi = (let v = uint lo + 256 * uint hi in if v \<ge> 32768 then v - 65536 else v)"

definition i16_bytes :: "int \<Rightarrow> bytes" where
  "i16_bytes v = le_bytes 2 (v mod 65536)"

fun pcm_samples :: "bytes \<Rightarrow> int list" where
  "pcm_samples (lo # hi # rest) = i16 lo hi # pcm_samples rest"
| "pcm_samples _ = []"

definition pcm_bytes :: "int list \<Rightarrow> bytes" where
  "pcm_bytes xs = concat (map i16_bytes xs)"

definition clamp_i16 :: "int \<Rightarrow> int" where
  "clamp_i16 v = max (- 32768) (min 32767 v)"

definition clamp_i32 :: "int \<Rightarrow> int" where
  "clamp_i32 v = max (- 2147483648) (min 2147483647 v)"

text \<open>\<open>as i16\<close> truncates towards zero.\<close>

definition clamp_sample :: "pyfloat \<Rightarrow> int" where
  "clamp_sample value =
     (let clamped = max (- 32768) (min 32767 value);
          rounded = clamped + (if clamped < 0 then - (1 / 2) else 1 / 2)
      in py_trunc (max (- 32768) (min 32767 rounded)))"

definition pcm16_add :: "bytes \<Rightarrow> bytes \<Rightarrow> bytes res" where
  "pcm16_add left right =
     (if odd (length left) \<or> odd (length right) then Inl ValueError
      else if length left \<noteq> length right then Inl ValueError
      else Inr (pcm_bytes (map2 (\<lambda>l r. clamp_i16 (l + r)) (pcm_samples left) (pcm_samples right))))"

definition pcm16_mul :: "bytes \<Rightarrow> pyfloat \<Rightarrow> bytes res" where
  "pcm16_mul data factor =
     (if odd (length data) then Inl ValueError
      else Inr (pcm_bytes (map (\<lambda>v. clamp_sample (of_int v * factor)) (pcm_samples data))))"

text \<open>\<open>mixed[index] = mixed[index].saturating_add(value)\<close> over one chunk.\<close>

fun mix_into :: "int list \<Rightarrow> int list \<Rightarrow> int list" where
  "mix_into (m # mixed) (v # vs) = clamp_i32 (m + v) # mix_into mixed vs"
| "mix_into mixed [] = mixed"
| "mix_into [] (v # vs) = []"

definition pcm16_mix :: "bytes list \<Rightarrow> bytes res" where
  "pcm16_mix pieces =
     (if pieces = [] then Inr []
      else
        let max_len = Max (set (map length pieces))
        in if odd max_len \<or> list_ex (\<lambda>c. odd (length c)) pieces then Inl ValueError
           else Inr (pcm_bytes (map clamp_i16
                  (fold (\<lambda>chunk mixed. mix_into mixed (pcm_samples chunk)) pieces
                     (replicate (max_len div 2) 0)))))"


section \<open>Samples and bytes\<close>

lemma i16_bounds: "- 32768 \<le> i16 lo hi \<and> i16 lo hi \<le> 32767"
proof -
  have b: "0 \<le> v \<Longrightarrow> v < 65536 \<Longrightarrow>
      - 32768 \<le> (if v \<ge> 32768 then v - 65536 else v) \<and> (if v \<ge> 32768 then v - 65536 else v) \<le> 32767" for v :: int
    by simp
  have "0 \<le> uint lo + 256 * uint hi" "uint lo + 256 * uint hi < 65536"
    using uint_byte_bounds [of lo] uint_byte_bounds [of hi] by linarith+
  then show ?thesis unfolding i16_def Let_def by (rule b)
qed

lemma i16_bytes_of_i16: "i16_bytes (i16 lo hi) = [lo, hi]"
proof -
  have u: "i16 lo hi mod 65536 = uint lo + 256 * uint hi"
  proof (cases "uint lo + 256 * uint hi \<ge> 32768")
    case True
    then have "i16 lo hi = (uint lo + 256 * uint hi) + (- 1) * 65536" by (simp add: i16_def)
    then have "i16 lo hi mod 65536 = (uint lo + 256 * uint hi) mod 65536" by (simp only: mod_mult_self1)
    then show ?thesis using uint_byte_bounds [of lo] uint_byte_bounds [of hi] by simp
  next
    case False
    then show ?thesis using uint_byte_bounds [of lo] uint_byte_bounds [of hi] by (simp add: i16_def)
  qed
  have "le_bytes 2 (from_le [lo, hi]) = [lo, hi]" by (rule le_bytes_from_le) simp
  then show ?thesis unfolding i16_bytes_def u by simp
qed

lemma i16_of_bytes:
  assumes "- 32768 \<le> v" "v \<le> 32767"
  obtains lo hi where "i16_bytes v = [lo, hi]" "i16 lo hi = v"
proof -
  define lo where "lo = (word_of_int (v mod 65536) :: byte)"
  define hi where "hi = (word_of_int (v mod 65536 div 256) :: byte)"
  have b: "i16_bytes v = [lo, hi]" by (simp add: i16_bytes_def lo_def hi_def numeral_2_eq_2)
  have r: "0 \<le> v mod 65536" "v mod 65536 < 65536" by simp_all
  then have "v mod 65536 div 256 < 256" by (simp add: div_less_iff_less_mult)
  with r have h: "uint hi = v mod 65536 div 256"
    unfolding hi_def uint_word_of_int_byte by (intro mod_pos_pos_trivial) (simp_all add: pos_imp_zdiv_nonneg_iff)
  have "uint lo + 256 * uint hi = v mod 65536"
    unfolding h by (simp add: lo_def)
  moreover have "v mod 65536 = (if v < 0 then v + 65536 else v)"
  proof (cases "v < 0")
    case True
    have "v mod 65536 = (v + 65536) mod 65536" by simp
    also have "\<dots> = v + 65536" using assms True by (intro mod_pos_pos_trivial) auto
    finally show ?thesis using True by simp
  qed (use assms in simp)
  ultimately have "i16 lo hi = v" using assms by (auto simp: i16_def Let_def)
  with b that show thesis by blast
qed

lemma length_i16_bytes [simp]: "length (i16_bytes v) = 2"
  by (simp add: i16_bytes_def)

lemma length_pcm_bytes [simp]: "length (pcm_bytes xs) = 2 * length xs"
  by (induction xs) (auto simp: pcm_bytes_def)

lemma pcm_bytes_simps [simp]:
  "pcm_bytes [] = []" "pcm_bytes (x # xs) = i16_bytes x @ pcm_bytes xs"
  by (simp_all add: pcm_bytes_def)

lemma length_pcm_samples [simp]: "length (pcm_samples b) = length b div 2"
  by (induction b rule: pcm_samples.induct) auto

lemma pcm_bytes_samples: "even (length b) \<Longrightarrow> pcm_bytes (pcm_samples b) = b"
  by (induction b rule: pcm_samples.induct) (auto simp: i16_bytes_of_i16)

lemma pcm_samples_bytes:
  "list_all (\<lambda>v. - 32768 \<le> v \<and> v \<le> 32767) xs \<Longrightarrow> pcm_samples (pcm_bytes xs) = xs"
proof (induction xs)
  case (Cons x xs)
  then obtain lo hi where "i16_bytes x = [lo, hi]" "i16 lo hi = x" using i16_of_bytes [of x] by auto
  with Cons show ?case by simp
qed simp

lemma pcm_samples_bounds: "list_all (\<lambda>v. - 32768 \<le> v \<and> v \<le> 32767) (pcm_samples b)"
  by (induction b rule: pcm_samples.induct) (auto simp: i16_bounds)

lemma clamp_i16_bounds: "- 32768 \<le> clamp_i16 v \<and> clamp_i16 v \<le> 32767"
  by (auto simp: clamp_i16_def)

lemma clamp_i16_id [simp]: "- 32768 \<le> v \<Longrightarrow> v \<le> 32767 \<Longrightarrow> clamp_i16 v = v"
  by (simp add: clamp_i16_def)


section \<open>What mixing computes\<close>

definition sample_at :: "bytes \<Rightarrow> nat \<Rightarrow> int" where
  "sample_at b i = (if i < length b div 2 then pcm_samples b ! i else 0)"

definition mixed_sample :: "bytes list \<Rightarrow> nat \<Rightarrow> int" where
  "mixed_sample pieces i = clamp_i16 (sum_list (map (\<lambda>b. sample_at b i) pieces))"

lemma sample_at_bounds: "- 32768 \<le> sample_at b i \<and> sample_at b i \<le> 32767"
  using pcm_samples_bounds [of b] by (auto simp: sample_at_def list_all_length)

lemma length_mix_into [simp]: "length (mix_into mixed vs) = length mixed"
  by (induction mixed vs rule: mix_into.induct) auto

lemma mix_into_nth: "i < length mixed \<Longrightarrow>
    mix_into mixed vs ! i = (if i < length vs then clamp_i32 (mixed ! i + vs ! i) else mixed ! i)"
proof (induction mixed vs arbitrary: i rule: mix_into.induct)
  case (1 m mixed v vs)
  then show ?case by (cases i) auto
qed auto

lemma mix_into_sample:
  assumes "i < length mixed" "\<bar>mixed ! i\<bar> \<le> 2147450880 - 32768"
  shows "mix_into mixed (pcm_samples b) ! i = mixed ! i + sample_at b i"
  using assms sample_at_bounds [of b i] by (auto simp: mix_into_nth sample_at_def clamp_i32_def)

lemma length_fold_mix:
  "length (fold (\<lambda>chunk mixed. mix_into mixed (pcm_samples chunk)) pieces mixed) = length mixed"
  by (induction pieces arbitrary: mixed) auto

lemma fold_mix_nth:
  assumes "i < length mixed" "\<bar>mixed ! i\<bar> \<le> 2147450880 - 32768 * int (length pieces)"
  shows "fold (\<lambda>chunk mixed. mix_into mixed (pcm_samples chunk)) pieces mixed ! i
      = mixed ! i + sum_list (map (\<lambda>b. sample_at b i) pieces)"
  using assms
proof (induction pieces arbitrary: mixed)
  case (Cons b pieces)
  have m: "mix_into mixed (pcm_samples b) ! i = mixed ! i + sample_at b i"
    by (rule mix_into_sample) (use Cons.prems in simp_all)
  have "\<bar>mix_into mixed (pcm_samples b) ! i\<bar> \<le> 2147450880 - 32768 * int (length pieces)"
    using Cons.prems(2) sample_at_bounds [of b i] unfolding m length_Cons of_nat_Suc distrib_left by linarith
  then show ?case using Cons.IH [of "mix_into mixed (pcm_samples b)"] Cons.prems by (simp add: m)
qed simp

lemma mix_spec:
  assumes "pcm16_mix pieces = Inr out" "length pieces \<le> 65535" "pieces \<noteq> []"
  shows "length out = Max (set (map length pieces))
    \<and> (\<forall>i. sample_at out i = mixed_sample pieces i)"
proof -
  let ?n = "Max (set (map length pieces)) div 2"
  let ?f = "fold (\<lambda>chunk mixed. mix_into mixed (pcm_samples chunk)) pieces (replicate ?n 0)"
  have ev: "even (Max (set (map length pieces)))" and out: "out = pcm_bytes (map clamp_i16 ?f)"
    using assms by (auto simp: pcm16_mix_def Let_def split: if_splits)
  have len: "length ?f = ?n" by (simp add: length_fold_mix)
  have s: "pcm_samples out = map clamp_i16 ?f"
    unfolding out by (rule pcm_samples_bytes) (simp add: list_all_iff clamp_i16_bounds)
  have l: "length out = Max (set (map length pieces))" using ev by (simp add: out len del: set_map)
  have "sample_at out i = mixed_sample pieces i" for i
  proof (cases "i < ?n")
    case True
    then show ?thesis using fold_mix_nth [of i "replicate ?n 0" pieces] assms(2)
      by (simp add: sample_at_def [of out] s mixed_sample_def len l nth_map [of i ?f] del: set_map)
  next
    case False
    have "sample_at b i = 0" if "b \<in> set pieces" for b
    proof -
      have "length b \<le> Max (set (map length pieces))" using that by (intro Max_ge) auto
      then show ?thesis using False by (auto simp: sample_at_def)
    qed
    then have "map (\<lambda>b. sample_at b i) pieces = map (\<lambda>_. 0) pieces" by simp
    then have "sum_list (map (\<lambda>b. sample_at b i) pieces) = 0" by (simp only: sum_list_0)
    then show ?thesis using False by (simp add: sample_at_def l mixed_sample_def)
  qed
  with l show ?thesis by blast
qed

end
