(* ===== verification/Sources.thy ===== *)
theory Sources
  imports Frames Pcm
begin

text \<open>
  The sources of \<open>media.py\<close>. Python's duck typing is a record of operations over the state of an
  object, \<open>source_ops\<close>: a class is a state type and such a record, a wrapper class is a function from
  the operations of its children to its own. The children of a wrapper are a list of objects and the
  wrapper's attributes are indices into it, so that two attributes can hold the same object; the
  identity \<open>id(source)\<close> is the index. A call returns its result or exception and the new state.
\<close>

section \<open>The interface\<close>

record MediaSinkWants =
  mw_wants :: "(int, int) odict"
  mw_any :: "int option"
  mw_pixel_counts :: "(int, pyfloat) odict"

record 's source_ops =
  so_is_media :: "'s \<Rightarrow> bool" \<comment> \<open>\<open>isinstance(source, MediaSource)\<close>\<close>
  so_has_audio :: "'s \<Rightarrow> bool"
  so_read :: "'s \<Rightarrow> bytes res \<times> 's"
  so_is_opus :: "'s \<Rightarrow> bool"
  so_has_video :: "'s \<Rightarrow> bool"
  so_read_video :: "'s \<Rightarrow> VideoFrame option res \<times> 's"
  so_read_video_streams :: "string list \<Rightarrow> 's \<Rightarrow> (string, VideoFrame) odict option res \<times> 's"
  so_read_preview :: "'s \<Rightarrow> bytes option res \<times> 's"
  so_supports_simulcast :: "'s \<Rightarrow> bool"
  so_video_config :: "'s \<Rightarrow> VideoConfig option"
  so_on_media_sink_wants :: "MediaSinkWants \<Rightarrow> 's \<Rightarrow> unit res \<times> 's"
  so_is_finished :: "'s \<Rightarrow> bool"
  so_cleanup :: "'s \<Rightarrow> unit res \<times> 's"

text \<open>
  The default \<open>MediaSource.read_video_streams\<close>, on the RIDs of the streams, and the other defaults
  of the class. \<open>AudioSource.read\<close> is abstract; every class here overrides it.
\<close>

definition default_read_video_streams ::
  "('s \<Rightarrow> VideoFrame option res \<times> 's) \<Rightarrow> string list \<Rightarrow> 's \<Rightarrow> (string, VideoFrame) odict option res \<times> 's"
where
  "default_read_video_streams read_video rids s =
     (case rids of
        [] \<Rightarrow> (Inr (Some []), s)
      | rid # _ \<Rightarrow> bind_res (read_video s) (\<lambda>frame s. (Inr (map_option (\<lambda>f. [(rid, f)]) frame), s)))"

definition media_source :: "'s source_ops" where
  "media_source =
     \<lparr>so_is_media = (\<lambda>_. True), so_has_audio = (\<lambda>_. True), so_read = (\<lambda>s. (Inl TypeError, s)),
      so_is_opus = (\<lambda>_. False), so_has_video = (\<lambda>_. False), so_read_video = (\<lambda>s. (Inr None, s)),
      so_read_video_streams = default_read_video_streams (\<lambda>s. (Inr None, s)),
      so_read_preview = (\<lambda>s. (Inr None, s)), so_supports_simulcast = (\<lambda>_. False),
      so_video_config = (\<lambda>_. None), so_on_media_sink_wants = (\<lambda>_ s. (Inr (), s)),
      so_is_finished = (\<lambda>_. False), so_cleanup = (\<lambda>s. (Inr (), s))\<rparr>"

text \<open>\<open>_VideoOnlySource\<close>.\<close>

definition video_only_source :: "'s source_ops" where
  "video_only_source = media_source\<lparr>so_has_audio := (\<lambda>_. False), so_read := (\<lambda>s. (Inr [], s))\<rparr>"

text \<open>\<open>_unique_sources\<close>, on identities.\<close>

definition unique_sources :: "nat option list \<Rightarrow> nat list" where
  "unique_sources sources = unique_order (List.map_filter id sources)"

text \<open>Calling an operation of a child, and of several in order until one raises.\<close>

definition on_child :: "('s \<Rightarrow> 'r \<times> 's) \<Rightarrow> nat \<Rightarrow> 's list \<Rightarrow> 'r \<times> 's list" where
  "on_child f i objs = (let (r, s) = f (objs ! i) in (r, objs[i := s]))"

fun each_child :: "('s \<Rightarrow> unit res \<times> 's) \<Rightarrow> nat list \<Rightarrow> 's list \<Rightarrow> unit res \<times> 's list" where
  "each_child f [] objs = (Inr (), objs)"
| "each_child f (i # ids) objs = bind_res (on_child f i objs) (\<lambda>_ objs. each_child f ids objs)"

text \<open>\<open>_VideoSourceDelegate\<close>: \<open>active\<close> is \<open>_active_video_source\<close>, \<open>put\<close> writes the child back.\<close>

definition delegate ::
  "('c \<Rightarrow> 's option) \<Rightarrow> ('s \<Rightarrow> 'c \<Rightarrow> 'c) \<Rightarrow> ('s \<Rightarrow> 'a option res \<times> 's) \<Rightarrow> 'c \<Rightarrow> 'a option res \<times> 'c"
where
  "delegate active put f c =
     (case active c of None \<Rightarrow> (Inr None, c) | Some s \<Rightarrow> (let (r, s) = f s in (r, put s c)))"

definition delegate_wants ::
  "('c \<Rightarrow> 's option) \<Rightarrow> ('s \<Rightarrow> 'c \<Rightarrow> 'c) \<Rightarrow> ('s \<Rightarrow> unit res \<times> 's) \<Rightarrow> 'c \<Rightarrow> unit res \<times> 'c"
where
  "delegate_wants active put f c =
     (case active c of None \<Rightarrow> (Inr (), c) | Some s \<Rightarrow> (let (r, s) = f s in (r, put s c)))"

definition video_source_delegate ::
  "'s source_ops \<Rightarrow> ('c \<Rightarrow> 's option) \<Rightarrow> ('s \<Rightarrow> 'c \<Rightarrow> 'c) \<Rightarrow> 'c source_ops \<Rightarrow> 'c source_ops"
where
  "video_source_delegate ops active put base = base\<lparr>
     so_has_video := (\<lambda>c. case active c of None \<Rightarrow> False | Some s \<Rightarrow> so_has_video ops s),
     so_read_video := delegate active put (so_read_video ops),
     so_read_video_streams := (\<lambda>rids. delegate active put (so_read_video_streams ops rids)),
     so_read_preview := delegate active put (so_read_preview ops),
     so_supports_simulcast := (\<lambda>c. case active c of None \<Rightarrow> False | Some s \<Rightarrow> so_supports_simulcast ops s),
     so_video_config := (\<lambda>c. case active c of None \<Rightarrow> None | Some s \<Rightarrow> so_video_config ops s),
     so_on_media_sink_wants := (\<lambda>w. delegate_wants active put (so_on_media_sink_wants ops w))\<rparr>"


section \<open>Leaf sources\<close>

text \<open>
  A plain \<open>discord.AudioSource\<close>: the results its \<open>read\<close> will give, then \<open>b''\<close>. The class is the
  third-party library's; only \<open>read\<close>, \<open>is_opus\<close> and \<open>cleanup\<close> are ever called on it.
\<close>

record AudioSource =
  as_reads :: "bytes res list"
  as_opus :: bool
  as_cleaned :: bool

definition audio_source :: "AudioSource source_ops" where
  "audio_source = media_source\<lparr>
     so_is_media := (\<lambda>_. False),
     so_read := (\<lambda>s. case as_reads s of [] \<Rightarrow> (Inr [], s) | r # rs \<Rightarrow> (r, s\<lparr>as_reads := rs\<rparr>)),
     so_is_opus := as_opus,
     so_cleanup := (\<lambda>s. (Inr (), s\<lparr>as_cleaned := True\<rparr>))\<rparr>"

record PCMMediaSource =
  pm_stream :: "bytes list"
  pm_close :: bool
  pm_closed :: bool
  pm_stream_closed :: bool

definition pcm_close_stream :: "PCMMediaSource \<Rightarrow> PCMMediaSource" where
  "pcm_close_stream s =
     (if \<not> pm_close s then s else s\<lparr>pm_close := False, pm_stream_closed := True\<rparr>)"

text \<open>\<open>frame_size\<close> is \<open>OpusEncoder.FRAME_SIZE\<close>.\<close>

definition pcm_read :: "nat \<Rightarrow> PCMMediaSource \<Rightarrow> bytes res \<times> PCMMediaSource" where
  "pcm_read frame_size s =
     (if pm_closed s then (Inr [], s)
      else
        let (data, stream) = stream_read frame_size (pm_stream s);
            s = s\<lparr>pm_stream := stream\<rparr>
        in if data = [] then (Inr [], pcm_close_stream (s\<lparr>pm_closed := True\<rparr>))
           else if length data < frame_size
           then (Inr (data @ replicate (frame_size - length data) 0), pcm_close_stream (s\<lparr>pm_closed := True\<rparr>))
           else (Inr data, s))"

definition new_pcm_source :: "bytes list \<Rightarrow> bool \<Rightarrow> PCMMediaSource" where
  "new_pcm_source stream close =
     \<lparr>pm_stream = stream, pm_close = close, pm_closed = False, pm_stream_closed = False\<rparr>"

definition pcm_source :: "nat \<Rightarrow> PCMMediaSource source_ops" where
  "pcm_source frame_size = media_source\<lparr>
     so_has_audio := (\<lambda>s. \<not> pm_closed s),
     so_read := pcm_read frame_size,
     so_is_finished := pm_closed,
     so_cleanup := (\<lambda>s. (Inr (), pcm_close_stream (s\<lparr>pm_closed := True\<rparr>)))\<rparr>"

record AudioFrameSource =
  af_frames :: "bytes list"
  af_opus :: bool
  af_closed :: bool

definition new_audio_frame_source :: "bytes list \<Rightarrow> bool \<Rightarrow> AudioFrameSource" where
  "new_audio_frame_source frames opus = \<lparr>af_frames = frames, af_opus = opus, af_closed = False\<rparr>"

definition audio_frame_read :: "nat \<Rightarrow> AudioFrameSource \<Rightarrow> bytes res \<times> AudioFrameSource" where
  "audio_frame_read frame_size s =
     (if af_closed s then (Inr [], s)
      else case af_frames s of
          [] \<Rightarrow> (Inr [], s\<lparr>af_closed := True\<rparr>)
        | data # frames \<Rightarrow>
            (let s = s\<lparr>af_frames := frames\<rparr>
             in if data = [] then (Inr data, s\<lparr>af_closed := True\<rparr>)
                else if \<not> af_opus s \<and> length data < frame_size
                then (Inr (data @ replicate (frame_size - length data) 0), s\<lparr>af_closed := True\<rparr>)
                else (Inr data, s)))"

definition audio_frame_source :: "nat \<Rightarrow> AudioFrameSource source_ops" where
  "audio_frame_source frame_size = media_source\<lparr>
     so_has_audio := (\<lambda>s. \<not> af_closed s),
     so_read := audio_frame_read frame_size,
     so_is_opus := af_opus,
     so_is_finished := af_closed,
     so_cleanup := (\<lambda>s. (Inr (), s\<lparr>af_closed := True\<rparr>))\<rparr>"

datatype video_input = InputFrame VideoFrame | InputBytes bytes

record VideoFrameSource =
  vs_codec :: string
  vs_frame_time_ms :: pyfloat
  vs_video_config :: VideoConfig
  vs_frames :: "video_input list"
  vs_closed :: bool

definition new_video_frame_source ::
  "video_input list \<Rightarrow> string \<Rightarrow> int \<Rightarrow> int \<Rightarrow> int \<Rightarrow> int \<Rightarrow> VideoFrameSource res"
where
  "new_video_frame_source frames raw_codec fps width height bitrate =
     map_res (\<lambda>codec. \<lparr>vs_codec = codec, vs_frame_time_ms = 1000 / of_int (max 1 fps),
         vs_video_config = \<lparr>vc_codec = codec, vc_width = max 0 width, vc_height = max 0 height,
                            vc_fps = max 1 fps, vc_bitrate = max 0 bitrate\<rparr>,
         vs_frames = frames, vs_closed = False\<rparr>)
       (coerce_video_codec raw_codec)"

definition video_frame_read_video :: "VideoFrameSource \<Rightarrow> VideoFrame option res \<times> VideoFrameSource" where
  "video_frame_read_video s =
     (if vs_closed s then (Inr None, s)
      else case vs_frames s of
          [] \<Rightarrow> (Inr None, s\<lparr>vs_closed := True\<rparr>)
        | InputFrame f # frames \<Rightarrow> (Inr (Some f), s\<lparr>vs_frames := frames\<rparr>)
        | InputBytes b # frames \<Rightarrow>
            (Inr (Some \<lparr>vf_data = b, vf_frame_time_ms = vs_frame_time_ms s\<rparr>), s\<lparr>vs_frames := frames\<rparr>))"

definition video_frame_source :: "VideoFrameSource source_ops" where
  "video_frame_source = video_only_source\<lparr>
     so_has_video := (\<lambda>s. \<not> vs_closed s),
     so_video_config := (\<lambda>s. Some (vs_video_config s)),
     so_read_video := video_frame_read_video,
     so_read_video_streams := default_read_video_streams video_frame_read_video,
     so_is_finished := vs_closed,
     so_cleanup := (\<lambda>s. (Inr (), s\<lparr>vs_closed := True\<rparr>))\<rparr>"

definition encoded_video_source :: "EncodedVideoSource source_ops" where
  "encoded_video_source = video_only_source\<lparr>
     so_has_video := (\<lambda>s. \<not> ev_closed s),
     so_video_config := (\<lambda>s. Some (ev_video_config s)),
     so_read_video := encoded_source_read_video,
     so_read_video_streams := default_read_video_streams encoded_source_read_video,
     so_is_finished := ev_closed,
     so_cleanup := (\<lambda>s. (Inr (), encoded_source_cleanup s))\<rparr>"


section \<open>AudioMediaSource\<close>

record 's AudioMediaSource =
  am_original :: 's
  am_finished :: bool
  am_cleaned :: bool

definition new_audio_media_source :: "'s \<Rightarrow> 's AudioMediaSource" where
  "new_audio_media_source original = \<lparr>am_original = original, am_finished = False, am_cleaned = False\<rparr>"

definition audio_media_read :: "'s source_ops \<Rightarrow> 's AudioMediaSource \<Rightarrow> bytes res \<times> 's AudioMediaSource" where
  "audio_media_read ops c =
     (if am_cleaned c \<or> am_finished c then (Inr [], c)
      else
        let (r, original) = so_read ops (am_original c)
        in bind_res (r, c\<lparr>am_original := original\<rparr>) (\<lambda>data c.
             if data = [] then (Inr [], c\<lparr>am_finished := True\<rparr>) else (Inr data, c)))"

definition audio_media_cleanup :: "'s source_ops \<Rightarrow> 's AudioMediaSource \<Rightarrow> unit res \<times> 's AudioMediaSource" where
  "audio_media_cleanup ops c =
     (if am_cleaned c then (Inr (), c)
      else
        let (r, original) = so_cleanup ops (am_original c)
        in (r, c\<lparr>am_cleaned := True, am_finished := True, am_original := original\<rparr>))"

definition audio_media_source :: "'s source_ops \<Rightarrow> 's AudioMediaSource source_ops" where
  "audio_media_source ops = media_source\<lparr>
     so_has_audio := (\<lambda>c. \<not> am_cleaned c \<and> \<not> am_finished c),
     so_read := audio_media_read ops,
     so_is_opus := (\<lambda>c. \<not> am_cleaned c \<and> so_is_opus ops (am_original c)),
     so_is_finished := (\<lambda>c. am_cleaned c \<or> am_finished c),
     so_cleanup := audio_media_cleanup ops\<rparr>"


section \<open>CompositeMediaSource\<close>

record 's CompositeMediaSource =
  cp_objects :: "'s list"
  cp_audio :: "nat option"
  cp_video :: "nat option"
  cp_cleaned :: bool
  cp_audio_finished :: bool

definition new_composite :: "'s list \<Rightarrow> nat option \<Rightarrow> nat option \<Rightarrow> 's CompositeMediaSource res" where
  "new_composite objects audio video =
     (if audio = None \<and> video = None then Inl TypeError
      else Inr \<lparr>cp_objects = objects, cp_audio = audio, cp_video = video,
                cp_cleaned = False, cp_audio_finished = False\<rparr>)"

definition composite_audio_done :: "'s source_ops \<Rightarrow> 's CompositeMediaSource \<Rightarrow> bool" where
  "composite_audio_done ops c =
     (case cp_audio c of
        None \<Rightarrow> True
      | Some i \<Rightarrow> cp_audio_finished c
          \<or> so_is_media ops (cp_objects c ! i) \<and> so_is_finished ops (cp_objects c ! i))"

definition composite_active_index :: "'s source_ops \<Rightarrow> 's CompositeMediaSource \<Rightarrow> nat option" where
  "composite_active_index ops c =
     (case cp_video c of
        None \<Rightarrow> None
      | Some i \<Rightarrow> if cp_cleaned c \<or> so_is_finished ops (cp_objects c ! i) then None else Some i)"

definition composite_active :: "'s source_ops \<Rightarrow> 's CompositeMediaSource \<Rightarrow> 's option" where
  "composite_active ops c = map_option (\<lambda>i. cp_objects c ! i) (composite_active_index ops c)"

definition composite_put :: "'s \<Rightarrow> 's CompositeMediaSource \<Rightarrow> 's CompositeMediaSource" where
  "composite_put s c =
     (case cp_video c of None \<Rightarrow> c | Some i \<Rightarrow> c\<lparr>cp_objects := (cp_objects c)[i := s]\<rparr>)"

definition composite_children :: "'s CompositeMediaSource \<Rightarrow> nat list" where
  "composite_children c = unique_sources [cp_audio c, cp_video c]"

definition composite_read :: "'s source_ops \<Rightarrow> 's CompositeMediaSource \<Rightarrow> bytes res \<times> 's CompositeMediaSource" where
  "composite_read ops c =
     (case cp_audio c of
        None \<Rightarrow> (Inr [], c)
      | Some i \<Rightarrow>
          if cp_cleaned c \<or> composite_audio_done ops c then (Inr [], c)
          else
            let (r, objs) = on_child (so_read ops) i (cp_objects c)
            in bind_res (r, c\<lparr>cp_objects := objs\<rparr>) (\<lambda>data c.
                 if data = [] then (Inr [], c\<lparr>cp_audio_finished := True\<rparr>) else (Inr data, c)))"

definition composite_is_opus :: "'s source_ops \<Rightarrow> 's CompositeMediaSource \<Rightarrow> bool" where
  "composite_is_opus ops c =
     (case cp_audio c of
        None \<Rightarrow> False
      | Some i \<Rightarrow> if \<not> cp_cleaned c \<and> \<not> composite_audio_done ops c then so_is_opus ops (cp_objects c ! i) else False)"

definition wants_if_media :: "'s source_ops \<Rightarrow> MediaSinkWants \<Rightarrow> 's \<Rightarrow> unit res \<times> 's" where
  "wants_if_media ops w s = (if so_is_media ops s then so_on_media_sink_wants ops w s else (Inr (), s))"

definition composite_wants ::
  "'s source_ops \<Rightarrow> MediaSinkWants \<Rightarrow> 's CompositeMediaSource \<Rightarrow> unit res \<times> 's CompositeMediaSource"
where
  "composite_wants ops w c =
     (let (r, objs) = each_child (wants_if_media ops w) (composite_children c) (cp_objects c)
      in (r, c\<lparr>cp_objects := objs\<rparr>))"

definition composite_is_finished :: "'s source_ops \<Rightarrow> 's CompositeMediaSource \<Rightarrow> bool" where
  "composite_is_finished ops c \<longleftrightarrow>
     cp_cleaned c \<or> composite_audio_done ops c \<and> composite_active ops c = None"

definition composite_cleanup :: "'s source_ops \<Rightarrow> 's CompositeMediaSource \<Rightarrow> unit res \<times> 's CompositeMediaSource" where
  "composite_cleanup ops c =
     (if cp_cleaned c then (Inr (), c)
      else
        let c = c\<lparr>cp_cleaned := True, cp_audio_finished := True\<rparr>;
            (r, objs) = each_child (so_cleanup ops) (composite_children c) (cp_objects c)
        in (r, c\<lparr>cp_objects := objs\<rparr>))"

definition composite_source :: "'s source_ops \<Rightarrow> 's CompositeMediaSource source_ops" where
  "composite_source ops =
     (video_source_delegate ops (composite_active ops) composite_put media_source)\<lparr>
        so_has_audio := (\<lambda>c. \<not> cp_cleaned c \<and> \<not> composite_audio_done ops c),
        so_read := composite_read ops,
        so_is_opus := composite_is_opus ops,
        so_on_media_sink_wants := composite_wants ops,
        so_is_finished := composite_is_finished ops,
        so_cleanup := composite_cleanup ops\<rparr>"


section \<open>MultiMediaSource\<close>

record 's MultiMediaSource =
  mu_objects :: "'s list"
  mu_sources :: "nat list"
  mu_audio :: "nat list"
  mu_video :: "nat list"
  mu_opus :: "nat list"
  mu_finished_audio :: "nat set"
  mu_finished_video :: "nat set"
  mu_cleaned :: bool

definition new_multi :: "'s source_ops \<Rightarrow> 's list \<Rightarrow> nat list \<Rightarrow> 's MultiMediaSource res" where
  "new_multi ops objects sources =
     (let audio = filter (\<lambda>i. \<not> so_is_media ops (objects ! i) \<or> so_has_audio ops (objects ! i)) sources;
          video = filter (\<lambda>i. so_is_media ops (objects ! i) \<and> so_has_video ops (objects ! i)) sources;
          opus = filter (\<lambda>i. so_is_opus ops (objects ! i)) audio
      in if sources = [] then Inl TypeError
         else if opus \<noteq> [] \<and> length audio \<noteq> 1 then Inl ClientException
         else Inr \<lparr>mu_objects = objects, mu_sources = sources, mu_audio = audio, mu_video = video,
                   mu_opus = opus, mu_finished_audio = {}, mu_finished_video = {}, mu_cleaned = False\<rparr>)"

definition multi_audio_done :: "'s source_ops \<Rightarrow> 's MultiMediaSource \<Rightarrow> nat \<Rightarrow> bool" where
  "multi_audio_done ops m i \<longleftrightarrow>
     i \<in> mu_finished_audio m \<or> so_is_media ops (mu_objects m ! i) \<and> so_is_finished ops (mu_objects m ! i)"

definition multi_video_done :: "'s source_ops \<Rightarrow> 's MultiMediaSource \<Rightarrow> nat \<Rightarrow> bool" where
  "multi_video_done ops m i \<longleftrightarrow> i \<in> mu_finished_video m \<or> so_is_finished ops (mu_objects m ! i)"

definition multi_active_audio :: "'s source_ops \<Rightarrow> 's MultiMediaSource \<Rightarrow> nat list" where
  "multi_active_audio ops m = filter (\<lambda>i. \<not> multi_audio_done ops m i) (mu_audio m)"

definition multi_active_video :: "'s source_ops \<Rightarrow> 's MultiMediaSource \<Rightarrow> nat list" where
  "multi_active_video ops m = filter (\<lambda>i. \<not> multi_video_done ops m i) (mu_video m)"

definition multi_is_opus :: "'s source_ops \<Rightarrow> 's MultiMediaSource \<Rightarrow> bool" where
  "multi_is_opus ops m = list_ex (\<lambda>i. \<not> multi_audio_done ops m i) (mu_opus m)"

definition multi_child :: "('s \<Rightarrow> 'r res \<times> 's) \<Rightarrow> nat \<Rightarrow> 's MultiMediaSource \<Rightarrow> 'r res \<times> 's MultiMediaSource" where
  "multi_child f i m = (let (r, objs) = on_child f i (mu_objects m) in (r, m\<lparr>mu_objects := objs\<rparr>))"

definition finish_audio :: "nat \<Rightarrow> 's MultiMediaSource \<Rightarrow> 's MultiMediaSource" where
  "finish_audio i m = m\<lparr>mu_finished_audio := insert i (mu_finished_audio m)\<rparr>"

definition finish_video :: "nat \<Rightarrow> 's MultiMediaSource \<Rightarrow> 's MultiMediaSource" where
  "finish_video i m = m\<lparr>mu_finished_video := insert i (mu_finished_video m)\<rparr>"

text \<open>One chunk from each of the sources that were active before the first was read.\<close>

fun multi_read_chunks ::
  "'s source_ops \<Rightarrow> nat list \<Rightarrow> bytes list \<Rightarrow> 's MultiMediaSource \<Rightarrow> bytes list res \<times> 's MultiMediaSource"
where
  "multi_read_chunks ops [] got m = (Inr got, m)"
| "multi_read_chunks ops (i # ids) got m =
     bind_res (multi_child (so_read ops) i m) (\<lambda>chunk m.
       if chunk \<noteq> [] then multi_read_chunks ops ids (got @ [chunk]) m
       else multi_read_chunks ops ids got (finish_audio i m))"

definition multi_read :: "'s source_ops \<Rightarrow> 's MultiMediaSource \<Rightarrow> bytes res \<times> 's MultiMediaSource" where
  "multi_read ops m =
     (let active = multi_active_audio ops m
      in if active = [] then (Inr [], m)
         else if multi_is_opus ops m
         then bind_res (multi_child (so_read ops) (hd (mu_opus m)) m) (\<lambda>data m.
                (Inr data, if data = [] then finish_audio (hd (mu_opus m)) m else m))
         else bind_res (multi_read_chunks ops active [] m) (\<lambda>got m.
                if got = [] then (Inr [], m) else (pcm16_mix got, m)))"

text \<open>
  The loops over the video sources: the generator tests each source when it is reached, so a source
  finished by this loop is not read a second time.
\<close>

fun multi_video_loop ::
  "'s source_ops \<Rightarrow> ('s \<Rightarrow> 'a option res \<times> 's) \<Rightarrow> nat list \<Rightarrow> 's MultiMediaSource \<Rightarrow> 'a option res \<times> 's MultiMediaSource"
where
  "multi_video_loop ops f [] m = (Inr None, m)"
| "multi_video_loop ops f (i # ids) m =
     (if multi_video_done ops m i then multi_video_loop ops f ids m
      else bind_res (multi_child f i m) (\<lambda>frame m.
        case frame of
          Some x \<Rightarrow> (Inr (Some x), m)
        | None \<Rightarrow> multi_video_loop ops f ids
            (if so_is_finished ops (mu_objects m ! i) then finish_video i m else m)))"

fun multi_preview_loop ::
  "'s source_ops \<Rightarrow> nat list \<Rightarrow> 's MultiMediaSource \<Rightarrow> bytes option res \<times> 's MultiMediaSource"
where
  "multi_preview_loop ops [] m = (Inr None, m)"
| "multi_preview_loop ops (i # ids) m =
     (if multi_video_done ops m i then multi_preview_loop ops ids m
      else bind_res (multi_child (so_read_preview ops) i m) (\<lambda>preview m.
        case preview of
          Some (x # xs) \<Rightarrow> (Inr preview, m)
        | _ \<Rightarrow> multi_preview_loop ops ids m))"

definition multi_video_config :: "'s source_ops \<Rightarrow> 's MultiMediaSource \<Rightarrow> VideoConfig option" where
  "multi_video_config ops m =
     (case List.map_filter (\<lambda>i. so_video_config ops (mu_objects m ! i)) (multi_active_video ops m) of
        [] \<Rightarrow> None | config # _ \<Rightarrow> Some config)"

definition multi_supports_simulcast :: "'s source_ops \<Rightarrow> 's MultiMediaSource \<Rightarrow> bool" where
  "multi_supports_simulcast ops m =
     (case multi_active_video ops m of [] \<Rightarrow> False | i # _ \<Rightarrow> so_supports_simulcast ops (mu_objects m ! i))"

definition multi_children :: "'s MultiMediaSource \<Rightarrow> nat list" where
  "multi_children m = unique_sources (map Some (mu_sources m))"

definition multi_wants ::
  "'s source_ops \<Rightarrow> MediaSinkWants \<Rightarrow> 's MultiMediaSource \<Rightarrow> unit res \<times> 's MultiMediaSource"
where
  "multi_wants ops w m =
     (let (r, objs) = each_child (wants_if_media ops w) (multi_children m) (mu_objects m)
      in (r, m\<lparr>mu_objects := objs\<rparr>))"

definition multi_is_finished :: "'s source_ops \<Rightarrow> 's MultiMediaSource \<Rightarrow> bool" where
  "multi_is_finished ops m \<longleftrightarrow>
     list_all (multi_audio_done ops m) (mu_audio m) \<and> list_all (multi_video_done ops m) (mu_video m)"

definition multi_cleanup :: "'s source_ops \<Rightarrow> 's MultiMediaSource \<Rightarrow> unit res \<times> 's MultiMediaSource" where
  "multi_cleanup ops m =
     (if mu_cleaned m then (Inr (), m)
      else
        let m = m\<lparr>mu_cleaned := True, mu_finished_audio := mu_finished_audio m \<union> set (mu_audio m),
                   mu_finished_video := mu_finished_video m \<union> set (mu_video m)\<rparr>;
            (r, objs) = each_child (so_cleanup ops) (multi_children m) (mu_objects m)
        in (r, m\<lparr>mu_objects := objs\<rparr>))"

definition multi_source :: "'s source_ops \<Rightarrow> 's MultiMediaSource source_ops" where
  "multi_source ops =
     \<lparr>so_is_media = (\<lambda>_. True),
      so_has_audio = (\<lambda>m. multi_active_audio ops m \<noteq> []),
      so_read = multi_read ops,
      so_is_opus = multi_is_opus ops,
      so_has_video = (\<lambda>m. multi_active_video ops m \<noteq> []),
      so_read_video = (\<lambda>m. multi_video_loop ops (so_read_video ops) (mu_video m) m),
      so_read_video_streams = (\<lambda>rids m. multi_video_loop ops (so_read_video_streams ops rids) (mu_video m) m),
      so_read_preview = (\<lambda>m. multi_preview_loop ops (mu_video m) m),
      so_supports_simulcast = multi_supports_simulcast ops,
      so_video_config = multi_video_config ops,
      so_on_media_sink_wants = multi_wants ops,
      so_is_finished = multi_is_finished ops,
      so_cleanup = multi_cleanup ops\<rparr>"


section \<open>MediaVolumeTransformer\<close>

record 's MediaVolumeTransformer =
  mv_source :: 's
  mv_volume :: pyfloat
  mv_cleaned :: bool

text \<open>
  The constructor on a media source; a plain audio source is wrapped in an \<open>AudioMediaSource\<close> first.
\<close>

definition new_volume_transformer :: "'s source_ops \<Rightarrow> 's \<Rightarrow> pyfloat \<Rightarrow> 's MediaVolumeTransformer res" where
  "new_volume_transformer ops source volume =
     (if so_has_audio ops source \<and> so_is_opus ops source then Inl ClientException
      else Inr \<lparr>mv_source = source, mv_volume = max volume 0, mv_cleaned = False\<rparr>)"

definition set_volume :: "pyfloat \<Rightarrow> 's MediaVolumeTransformer \<Rightarrow> 's MediaVolumeTransformer" where
  "set_volume value c = c\<lparr>mv_volume := max value 0\<rparr>"

definition volume_active :: "'s MediaVolumeTransformer \<Rightarrow> 's option" where
  "volume_active c = (if mv_cleaned c then None else Some (mv_source c))"

definition volume_read :: "'s source_ops \<Rightarrow> 's MediaVolumeTransformer \<Rightarrow> bytes res \<times> 's MediaVolumeTransformer" where
  "volume_read ops c =
     (case volume_active c of
        None \<Rightarrow> (Inr [], c)
      | Some source \<Rightarrow>
          (let (r, source) = so_read ops source
           in bind_res (r, c\<lparr>mv_source := source\<rparr>) (\<lambda>data c.
                (if data \<noteq> [] then pcm16_mul data (min (mv_volume c) 2) else Inr data, c))))"

definition volume_cleanup :: "'s source_ops \<Rightarrow> 's MediaVolumeTransformer \<Rightarrow> unit res \<times> 's MediaVolumeTransformer" where
  "volume_cleanup ops c =
     (if mv_cleaned c then (Inr (), c)
      else let (r, source) = so_cleanup ops (mv_source c)
           in (r, c\<lparr>mv_cleaned := True, mv_source := source\<rparr>))"

definition volume_source :: "'s source_ops \<Rightarrow> 's MediaVolumeTransformer source_ops" where
  "volume_source ops =
     (video_source_delegate ops volume_active (\<lambda>s c. c\<lparr>mv_source := s\<rparr>) media_source)\<lparr>
        so_has_audio := (\<lambda>c. case volume_active c of None \<Rightarrow> False | Some s \<Rightarrow> so_has_audio ops s),
        so_read := volume_read ops,
        so_is_opus := (\<lambda>_. False),
        so_is_finished := (\<lambda>c. case volume_active c of None \<Rightarrow> True | Some s \<Rightarrow> so_is_finished ops s),
        so_cleanup := volume_cleanup ops\<rparr>"


section \<open>SimulcastVideoSource\<close>

record 's SimulcastVideoSource =
  sm_objects :: "'s list"
  sm_sources :: "(string, nat) odict"
  sm_closed :: bool

text \<open>The constructor's checks: every value is a media source with video, and all known codecs agree.\<close>

fun simulcast_codecs_agree :: "'s source_ops \<Rightarrow> 's list \<Rightarrow> string option \<Rightarrow> nat list \<Rightarrow> bool" where
  "simulcast_codecs_agree ops objects codec [] = True"
| "simulcast_codecs_agree ops objects codec (i # ids) =
     (case so_video_config ops (objects ! i) of
        None \<Rightarrow> simulcast_codecs_agree ops objects codec ids
      | Some config \<Rightarrow>
          (case codec of
             None \<Rightarrow> simulcast_codecs_agree ops objects (Some (vc_codec config)) ids
           | Some c \<Rightarrow> vc_codec config = c \<and> simulcast_codecs_agree ops objects codec ids))"

fun simulcast_check :: "'s source_ops \<Rightarrow> 's list \<Rightarrow> nat list \<Rightarrow> unit res" where
  "simulcast_check ops objects [] = Inr ()"
| "simulcast_check ops objects (i # ids) =
     (if \<not> so_is_media ops (objects ! i) then Inl TypeError
      else if \<not> so_has_video ops (objects ! i) then Inl ClientException
      else simulcast_check ops objects ids)"

definition new_simulcast :: "'s source_ops \<Rightarrow> 's list \<Rightarrow> (string, nat) odict \<Rightarrow> 's SimulcastVideoSource res" where
  "new_simulcast ops objects sources =
     (if sources = [] then Inl TypeError
      else and_then (simulcast_check ops objects (vals sources)) (\<lambda>_.
        if simulcast_codecs_agree ops objects None (vals sources)
        then Inr \<lparr>sm_objects = objects, sm_sources = sources, sm_closed = False\<rparr>
        else Inl ClientException))"

text \<open>\<open>_primary_source\<close>: the first of the mapping.\<close>

definition simulcast_primary :: "'s SimulcastVideoSource \<Rightarrow> 's option" where
  "simulcast_primary c =
     (if sm_closed c then None
      else case sm_sources c of [] \<Rightarrow> None | (rid, i) # _ \<Rightarrow> Some (sm_objects c ! i))"

definition simulcast_put :: "'s \<Rightarrow> 's SimulcastVideoSource \<Rightarrow> 's SimulcastVideoSource" where
  "simulcast_put s c =
     (case sm_sources c of [] \<Rightarrow> c | (rid, i) # _ \<Rightarrow> c\<lparr>sm_objects := (sm_objects c)[i := s]\<rparr>)"

definition simulcast_is_finished :: "'s source_ops \<Rightarrow> 's SimulcastVideoSource \<Rightarrow> bool" where
  "simulcast_is_finished ops c \<longleftrightarrow>
     sm_closed c \<or> list_all (\<lambda>i. so_is_finished ops (sm_objects c ! i)) (vals (sm_sources c))"

fun simulcast_read_loop ::
  "'s source_ops \<Rightarrow> string list \<Rightarrow> (string, VideoFrame) odict \<Rightarrow> 's SimulcastVideoSource
     \<Rightarrow> (string, VideoFrame) odict res \<times> 's SimulcastVideoSource"
where
  "simulcast_read_loop ops [] frames c = (Inr frames, c)"
| "simulcast_read_loop ops (rid # rids) frames c =
     (case map_of (sm_sources c) rid of
        None \<Rightarrow> (Inl ClientException, c)
      | Some i \<Rightarrow>
          if so_is_finished ops (sm_objects c ! i) then simulcast_read_loop ops rids frames c
          else
            let (r, objs) = on_child (so_read_video ops) i (sm_objects c)
            in bind_res (r, c\<lparr>sm_objects := objs\<rparr>) (\<lambda>frame c.
                 case frame of
                   None \<Rightarrow> simulcast_read_loop ops rids frames c
                 | Some f \<Rightarrow> simulcast_read_loop ops rids (AList.update rid f frames) c))"

definition simulcast_read_video_streams ::
  "'s source_ops \<Rightarrow> string list \<Rightarrow> 's SimulcastVideoSource
     \<Rightarrow> (string, VideoFrame) odict option res \<times> 's SimulcastVideoSource"
where
  "simulcast_read_video_streams ops rids c =
     (if sm_closed c then (Inr None, c)
      else if rids = [] then (Inr (Some []), c)
      else bind_res (simulcast_read_loop ops rids [] c) (\<lambda>frames c.
        if frames \<noteq> [] then (Inr (Some frames), c)
        else if simulcast_is_finished ops c then (Inr None, c) else (Inr (Some []), c)))"

definition simulcast_each ::
  "('s \<Rightarrow> unit res \<times> 's) \<Rightarrow> 's SimulcastVideoSource \<Rightarrow> unit res \<times> 's SimulcastVideoSource"
where
  "simulcast_each f c =
     (let (r, objs) = each_child f (unique_sources (map Some (vals (sm_sources c)))) (sm_objects c)
      in (r, c\<lparr>sm_objects := objs\<rparr>))"

definition simulcast_source :: "'s source_ops \<Rightarrow> 's SimulcastVideoSource source_ops" where
  "simulcast_source ops =
     (video_source_delegate ops simulcast_primary simulcast_put video_only_source)\<lparr>
        so_has_video := (\<lambda>c. \<not> sm_closed c
          \<and> list_ex (\<lambda>i. so_has_video ops (sm_objects c ! i) \<and> \<not> so_is_finished ops (sm_objects c ! i))
               (vals (sm_sources c))),
        so_supports_simulcast := (\<lambda>c. \<not> sm_closed c \<and> length (sm_sources c) > 1),
        so_read_video_streams := simulcast_read_video_streams ops,
        so_on_media_sink_wants := (\<lambda>w. simulcast_each (so_on_media_sink_wants ops w)),
        so_is_finished := simulcast_is_finished ops,
        so_cleanup := (\<lambda>c. if sm_closed c then (Inr (), c)
                            else simulcast_each (so_cleanup ops) (c\<lparr>sm_closed := True\<rparr>))\<rparr>"


section \<open>Objects of two classes\<close>

text \<open>Dynamic dispatch: the children of one wrapper may be of different classes.\<close>

definition either_call ::
  "('a \<Rightarrow> 'r \<times> 'a) \<Rightarrow> ('b \<Rightarrow> 'r \<times> 'b) \<Rightarrow> 'a + 'b \<Rightarrow> 'r \<times> ('a + 'b)"
where
  "either_call f g s = (case s of Inl a \<Rightarrow> map_prod id Inl (f a) | Inr b \<Rightarrow> map_prod id Inr (g b))"

definition either_source :: "'a source_ops \<Rightarrow> 'b source_ops \<Rightarrow> ('a + 'b) source_ops" where
  "either_source a b =
     \<lparr>so_is_media = case_sum (so_is_media a) (so_is_media b),
      so_has_audio = case_sum (so_has_audio a) (so_has_audio b),
      so_read = either_call (so_read a) (so_read b),
      so_is_opus = case_sum (so_is_opus a) (so_is_opus b),
      so_has_video = case_sum (so_has_video a) (so_has_video b),
      so_read_video = either_call (so_read_video a) (so_read_video b),
      so_read_video_streams = (\<lambda>rids. either_call (so_read_video_streams a rids) (so_read_video_streams b rids)),
      so_read_preview = either_call (so_read_preview a) (so_read_preview b),
      so_supports_simulcast = case_sum (so_supports_simulcast a) (so_supports_simulcast b),
      so_video_config = case_sum (so_video_config a) (so_video_config b),
      so_on_media_sink_wants = (\<lambda>w. either_call (so_on_media_sink_wants a w) (so_on_media_sink_wants b w)),
      so_is_finished = case_sum (so_is_finished a) (so_is_finished b),
      so_cleanup = either_call (so_cleanup a) (so_cleanup b)\<rparr>"

end
