(* ===== verification/SourceContract.thy ===== *)
theory SourceContract
  imports Sources
begin

text \<open>
  The contract of a media source and the proof that every source class keeps it: the classes that
  read a stream or an iterable directly, and the wrappers for whatever children keep it.
\<close>

section \<open>Calls and replies\<close>

datatype source_call =
    Read | ReadVideo | ReadStreams "string list" | ReadPreview | Wants MediaSinkWants | Cleanup

datatype source_reply =
    Audio bytes | Video "VideoFrame option" | Streams "(string, VideoFrame) odict option"
  | Preview "bytes option" | Done

definition reply :: "('a \<Rightarrow> source_reply) \<Rightarrow> 'a res \<times> 's \<Rightarrow> source_reply res \<times> 's" where
  "reply f r = (map_res f (fst r), snd r)"

fun call_source :: "'s source_ops \<Rightarrow> source_call \<Rightarrow> 's \<Rightarrow> source_reply res \<times> 's" where
  "call_source ops Read s = reply Audio (so_read ops s)"
| "call_source ops ReadVideo s = reply Video (so_read_video ops s)"
| "call_source ops (ReadStreams rids) s = reply Streams (so_read_video_streams ops rids s)"
| "call_source ops ReadPreview s = reply Preview (so_read_preview ops s)"
| "call_source ops (Wants w) s = reply (\<lambda>_. Done) (so_on_media_sink_wants ops w s)"
| "call_source ops Cleanup s = reply (\<lambda>_. Done) (so_cleanup ops s)"

fun run_source :: "'s source_ops \<Rightarrow> source_call list \<Rightarrow> 's \<Rightarrow> source_reply res list \<times> 's" where
  "run_source ops [] s = ([], s)"
| "run_source ops (c # cs) s =
     (let (r, s) = call_source ops c s; (rs, s) = run_source ops cs s in (r # rs, s))"

text \<open>A reply that carries no media: an exception, the end of a lane, or nothing ready.\<close>

fun quiet :: "source_reply res \<Rightarrow> bool" where
  "quiet (Inr (Audio data)) = (data = [])"
| "quiet (Inr (Video frame)) = (frame = None)"
| "quiet (Inr (Streams frames)) = (frames = None \<or> frames = Some [])"
| "quiet _ = True"

lemma quiet_map_res [simp]:
  "quiet (map_res (\<lambda>_. Done) r0)" "quiet (map_res Preview r1)"
  "quiet (map_res Audio r2) \<longleftrightarrow> (\<forall>data. r2 = Inr data \<longrightarrow> data = [])"
  "quiet (map_res Video r3) \<longleftrightarrow> (\<forall>frame. r3 = Inr frame \<longrightarrow> frame = None)"
  "quiet (map_res Streams r4) \<longleftrightarrow> (\<forall>frames. r4 = Inr frames \<longrightarrow> frames = None \<or> frames = Some [])"
  by (auto simp: map_res_def split: sum.splits)

text \<open>
  What every call keeps: the object stays well formed, stays of its class, and once finished
  stays finished.
\<close>

definition evolves :: "'s source_ops \<Rightarrow> ('s \<Rightarrow> bool) \<Rightarrow> 's \<Rightarrow> 's \<Rightarrow> bool" where
  "evolves ops ok s s' \<longleftrightarrow> (ok s \<longrightarrow> ok s') \<and> (ok s \<longrightarrow> so_is_media ops s' = so_is_media ops s)
     \<and> (ok s \<longrightarrow> so_is_media ops s \<longrightarrow> so_is_finished ops s \<longrightarrow> so_is_finished ops s')"

lemma evolves_refl [simp]: "evolves ops ok s s"
  by (simp add: evolves_def)

lemma evolves_trans: "evolves ops ok s s' \<Longrightarrow> evolves ops ok s' s'' \<Longrightarrow> evolves ops ok s s''"
  by (auto simp: evolves_def)

named_theorems source_simps "the operations of the source classes"

lemmas [source_simps] =
  media_source_def video_only_source_def default_read_video_streams_def reply_def

locale source_contract =
  fixes ops :: "'s source_ops" and ok :: "'s \<Rightarrow> bool"
  assumes call_evolves: "evolves ops ok s (snd (call_source ops c s))"
    and finished_quiet: "ok s \<Longrightarrow> so_is_media ops s \<Longrightarrow> so_is_finished ops s \<Longrightarrow> quiet (fst (call_source ops c s))"
    and finished_lanes: "ok s \<Longrightarrow> so_is_media ops s \<Longrightarrow> so_is_finished ops s
      \<Longrightarrow> \<not> so_has_audio ops s \<and> \<not> so_has_video ops s"
    and cleanup_finishes: "ok s \<Longrightarrow> so_is_media ops s \<Longrightarrow> so_is_finished ops (snd (so_cleanup ops s))"
begin

lemma run_evolves: "evolves ops ok s (snd (run_source ops cs s))"
proof (induction cs arbitrary: s)
  case (Cons c cs)
  from evolves_trans [OF call_evolves Cons.IH] show ?case by (simp add: case_prod_beta)
qed simp

lemma run_ok: "ok s \<Longrightarrow> ok (snd (run_source ops cs s))"
  and run_media: "ok s \<Longrightarrow> so_is_media ops (snd (run_source ops cs s)) = so_is_media ops s"
  and run_finished: "ok s \<Longrightarrow> so_is_media ops s \<Longrightarrow> so_is_finished ops s
    \<Longrightarrow> so_is_finished ops (snd (run_source ops cs s))"
  using run_evolves [of s cs] by (simp_all add: evolves_def)

lemma finished_stays_quiet:
  assumes "ok s" "so_is_media ops s" "so_is_finished ops s"
  shows "list_all quiet (fst (run_source ops cs s))"
  using assms
proof (induction cs arbitrary: s)
  case (Cons c cs)
  let ?s = "snd (call_source ops c s)"
  have "ok ?s \<and> so_is_media ops ?s \<and> so_is_finished ops ?s"
    using call_evolves [of s c] Cons.prems by (simp add: evolves_def)
  then show ?case using Cons.IH [of ?s] finished_quiet [OF Cons.prems, of c] by (simp add: case_prod_beta)
qed simp

text \<open>After a clean-up, no sequence of calls gets media out of the source any more.\<close>

lemma cleaned_up_quiet:
  assumes "ok s" "so_is_media ops s"
  shows "list_all quiet (fst (run_source ops cs (snd (so_cleanup ops s))))
    \<and> so_is_finished ops (snd (run_source ops cs (snd (so_cleanup ops s))))"
proof -
  have "evolves ops ok s (snd (so_cleanup ops s))"
    using call_evolves [of s Cleanup] by (simp add: reply_def)
  then have "ok (snd (so_cleanup ops s))" "so_is_media ops (snd (so_cleanup ops s))"
    using assms by (simp_all add: evolves_def)
  then show ?thesis using cleanup_finishes [OF assms] finished_stays_quiet run_finished by blast
qed

text \<open>The calls by name, for the wrappers.\<close>

lemma evolves_calls:
  "evolves ops ok s (snd (so_read ops s))"
  "evolves ops ok s (snd (so_read_video ops s))"
  "evolves ops ok s (snd (so_read_video_streams ops rids s))"
  "evolves ops ok s (snd (so_read_preview ops s))"
  "evolves ops ok s (snd (so_on_media_sink_wants ops w s))"
  "evolves ops ok s (snd (so_cleanup ops s))"
  using call_evolves [of s Read] call_evolves [of s ReadVideo] call_evolves [of s "ReadStreams rids"]
    call_evolves [of s ReadPreview] call_evolves [of s "Wants w"] call_evolves [of s Cleanup]
  by (simp_all add: reply_def)

lemma quiet_calls:
  assumes "ok s" "so_is_media ops s" "so_is_finished ops s"
  shows "fst (so_read ops s) = Inr data \<Longrightarrow> data = []"
    and "fst (so_read_video ops s) = Inr frame \<Longrightarrow> frame = None"
    and "fst (so_read_video_streams ops rids s) = Inr frames \<Longrightarrow> frames = None \<or> frames = Some []"
  using finished_quiet [OF assms, of Read] finished_quiet [OF assms, of ReadVideo]
    finished_quiet [OF assms, of "ReadStreams rids"]
  by (auto simp: reply_def)

end


section \<open>The leaf classes\<close>

lemma pcm_close_stream_closed [simp]: "pm_closed (pcm_close_stream s) = pm_closed s"
  by (simp add: pcm_close_stream_def)

interpretation plain_audio: source_contract audio_source "\<lambda>_. True"
proof (unfold_locales, goal_cases)
  case (1 s c)
  then show ?case by (cases c) (auto simp: evolves_def source_simps audio_source_def)
qed (simp_all add: audio_source_def)

interpretation pcm: source_contract "pcm_source frame_size" "\<lambda>_. True"
proof (unfold_locales, goal_cases)
  case (1 s c)
  then show ?case by (cases c) (auto simp: evolves_def source_simps pcm_source_def pcm_read_def Let_def split: list.splits)
next
  case (2 s c)
  then show ?case by (cases c) (auto simp: source_simps pcm_source_def pcm_read_def split: list.splits)
qed (simp_all add: source_simps pcm_source_def)

interpretation audio_frames: source_contract "audio_frame_source frame_size" "\<lambda>_. True"
proof (unfold_locales, goal_cases)
  case (1 s c)
  then show ?case
    by (cases c) (auto simp: evolves_def source_simps audio_frame_source_def audio_frame_read_def Let_def split: list.splits)
next
  case (2 s c)
  then show ?case by (cases c) (auto simp: source_simps audio_frame_source_def audio_frame_read_def split: list.splits)
qed (simp_all add: source_simps audio_frame_source_def)

interpretation video_frames: source_contract video_frame_source "\<lambda>_. True"
proof (unfold_locales, goal_cases)
  case (1 s c)
  then show ?case
    by (cases c) (auto simp: evolves_def source_simps video_frame_source_def video_frame_read_video_def
      split: list.splits video_input.splits)
next
  case (2 s c)
  then show ?case by (cases c) (auto simp: source_simps video_frame_source_def video_frame_read_video_def split: list.splits)
qed (simp_all add: source_simps video_frame_source_def)


interpretation encoded: source_contract encoded_video_source "\<lambda>s. ev_file s = None \<longrightarrow> ev_closed s"
proof (unfold_locales, goal_cases)
  case (1 s c)
  then show ?case
    by (cases c) (auto simp: evolves_def source_simps encoded_video_source_def encoded_source_read_video_def
      encoded_source_cleanup_def Let_def split: list.splits option.splits prod.splits sum.splits)
next
  case (2 s c)
  then show ?case by (cases c) (auto simp: source_simps encoded_video_source_def encoded_source_read_video_def split: list.splits)
qed (auto simp: source_simps encoded_video_source_def encoded_source_cleanup_def split: option.splits)


section \<open>Children of a wrapper\<close>

definition all_evolve :: "'s source_ops \<Rightarrow> ('s \<Rightarrow> bool) \<Rightarrow> 's list \<Rightarrow> 's list \<Rightarrow> bool" where
  "all_evolve ops ok = list_all2 (evolves ops ok)"

lemma all_evolve_refl [simp]: "all_evolve ops ok objs objs"
  by (simp add: all_evolve_def list_all2_refl)

lemma all_evolve_trans: "all_evolve ops ok a b \<Longrightarrow> all_evolve ops ok b c \<Longrightarrow> all_evolve ops ok a c"
  unfolding all_evolve_def by (rule list_all2_trans) (auto intro: evolves_trans)

lemma all_evolve_update:
  "evolves ops ok (objs ! i) s \<Longrightarrow> all_evolve ops ok objs (objs[i := s])"
  by (cases "i < length objs")
    (auto simp: all_evolve_def list_all2_conv_all_nth nth_list_update list_update_beyond)

lemma all_evolve_length: "all_evolve ops ok objs objs' \<Longrightarrow> length objs' = length objs"
  by (simp add: all_evolve_def list_all2_lengthD)

lemma all_evolve_nth: "all_evolve ops ok objs objs' \<Longrightarrow> i < length objs \<Longrightarrow> evolves ops ok (objs ! i) (objs' ! i)"
  by (simp add: all_evolve_def list_all2_nthD)

lemma all_evolve_ok: "all_evolve ops ok objs objs' \<Longrightarrow> list_all ok objs \<Longrightarrow> list_all ok objs'"
  by (auto simp: all_evolve_def list_all2_conv_all_nth list_all_length evolves_def)

lemma on_child_evolves:
  "(\<And>s. evolves ops ok s (snd (f s))) \<Longrightarrow> all_evolve ops ok objs (snd (on_child f i objs))"
  by (auto simp: on_child_def case_prod_beta intro: all_evolve_update)

lemma each_child_evolves:
  assumes "\<And>s. evolves ops ok s (snd (f s))"
  shows "all_evolve ops ok objs (snd (each_child f ids objs))"
proof (induction ids arbitrary: objs)
  case (Cons i ids)
  obtain r objs1 where c: "on_child f i objs = (r, objs1)" by fastforce
  have "all_evolve ops ok objs objs1" using on_child_evolves [OF assms, of objs i] c by simp
  with Cons.IH [of objs1] show ?case by (cases r) (auto simp: c intro: all_evolve_trans)
qed simp


section \<open>The wrappers\<close>

lemmas [source_simps] = video_source_delegate_def delegate_def delegate_wants_def

definition audio_media_ok :: "'s source_ops \<Rightarrow> ('s \<Rightarrow> bool) \<Rightarrow> 's AudioMediaSource \<Rightarrow> bool" where
  "audio_media_ok ops ok c \<longleftrightarrow> ok (am_original c)"

definition volume_ok :: "'s source_ops \<Rightarrow> ('s \<Rightarrow> bool) \<Rightarrow> 's MediaVolumeTransformer \<Rightarrow> bool" where
  "volume_ok ops ok c \<longleftrightarrow> ok (mv_source c) \<and> so_is_media ops (mv_source c)"

definition composite_ok :: "'s source_ops \<Rightarrow> ('s \<Rightarrow> bool) \<Rightarrow> 's CompositeMediaSource \<Rightarrow> bool" where
  "composite_ok ops ok c \<longleftrightarrow> list_all ok (cp_objects c)
     \<and> pred_option (\<lambda>i. i < length (cp_objects c)) (cp_audio c)
     \<and> pred_option (\<lambda>i. i < length (cp_objects c) \<and> so_is_media ops (cp_objects c ! i)) (cp_video c)"

definition multi_ok :: "'s source_ops \<Rightarrow> ('s \<Rightarrow> bool) \<Rightarrow> 's MultiMediaSource \<Rightarrow> bool" where
  "multi_ok ops ok m \<longleftrightarrow> list_all ok (mu_objects m)
     \<and> list_all (\<lambda>i. i < length (mu_objects m)) (mu_audio m)
     \<and> list_all (\<lambda>i. i < length (mu_objects m) \<and> so_is_media ops (mu_objects m ! i)) (mu_video m)
     \<and> (mu_cleaned m \<longrightarrow> set (mu_audio m) \<subseteq> mu_finished_audio m \<and> set (mu_video m) \<subseteq> mu_finished_video m)"

definition simulcast_ok :: "'s source_ops \<Rightarrow> ('s \<Rightarrow> bool) \<Rightarrow> 's SimulcastVideoSource \<Rightarrow> bool" where
  "simulcast_ok ops ok c \<longleftrightarrow> list_all ok (sm_objects c) \<and> sm_sources c \<noteq> []
     \<and> list_all (\<lambda>i. i < length (sm_objects c) \<and> so_is_media ops (sm_objects c ! i)) (vals (sm_sources c))"

lemma composite_sel:
  "so_read (composite_source ops) = composite_read ops"
  "so_read_video (composite_source ops) = delegate (composite_active ops) composite_put (so_read_video ops)"
  "so_read_video_streams (composite_source ops) rids = delegate (composite_active ops) composite_put (so_read_video_streams ops rids)"
  "so_read_preview (composite_source ops) = delegate (composite_active ops) composite_put (so_read_preview ops)"
  "so_on_media_sink_wants (composite_source ops) = composite_wants ops"
  "so_cleanup (composite_source ops) = composite_cleanup ops"
  by (simp_all add: composite_source_def video_source_delegate_def media_source_def)

lemma multi_sel:
  "so_read (multi_source ops) = multi_read ops"
  "so_read_video (multi_source ops) = (\<lambda>m. multi_video_loop ops (so_read_video ops) (mu_video m) m)"
  "so_read_video_streams (multi_source ops) = (\<lambda>rids m. multi_video_loop ops (so_read_video_streams ops rids) (mu_video m) m)"
  "so_read_preview (multi_source ops) = (\<lambda>m. multi_preview_loop ops (mu_video m) m)"
  "so_on_media_sink_wants (multi_source ops) = multi_wants ops"
  "so_cleanup (multi_source ops) = multi_cleanup ops"
  by (simp_all add: multi_source_def)

lemma simulcast_sel:
  "so_read (simulcast_source ops) = (\<lambda>c. (Inr [], c))"
  "so_read_video (simulcast_source ops) = delegate simulcast_primary simulcast_put (so_read_video ops)"
  "so_read_video_streams (simulcast_source ops) = simulcast_read_video_streams ops"
  "so_read_preview (simulcast_source ops) = delegate simulcast_primary simulcast_put (so_read_preview ops)"
  "so_on_media_sink_wants (simulcast_source ops) = (\<lambda>w. simulcast_each (so_on_media_sink_wants ops w))"
  "so_cleanup (simulcast_source ops) = (\<lambda>c. if sm_closed c then (Inr (), c)
                            else simulcast_each (so_cleanup ops) (c\<lparr>sm_closed := True\<rparr>))"
  by (simp_all add: simulcast_source_def video_source_delegate_def media_source_def video_only_source_def)

text \<open>Two states of a composite whose children evolved and whose flags only rose.\<close>

lemma composite_evolvesI:
  assumes "all_evolve ops ok (cp_objects c) (cp_objects c')"
    and "cp_audio c' = cp_audio c" "cp_video c' = cp_video c"
    and "cp_cleaned c \<longrightarrow> cp_cleaned c'" "cp_audio_finished c \<longrightarrow> cp_audio_finished c'"
  shows "evolves (composite_source ops) (composite_ok ops ok) c c'"
proof -
  have child: "evolves ops ok (cp_objects c ! i) (cp_objects c' ! i)" if "i < length (cp_objects c)" for i
    using all_evolve_nth [OF assms(1) that] .
  have okc: "ok (cp_objects c ! i)" if "i < length (cp_objects c)" "composite_ok ops ok c" for i
    using that by (simp add: composite_ok_def list_all_length)
  have "composite_ok ops ok c'" if k: "composite_ok ops ok c"
    using k all_evolve_ok [OF assms(1)] all_evolve_length [OF assms(1)] child okc
    by (auto simp: composite_ok_def assms(2,3) evolves_def pred_option_def list_all_length)
  moreover have "composite_is_finished ops c'" if k: "composite_ok ops ok c" "composite_is_finished ops c"
  proof (cases "cp_cleaned c'")
    case False
    with assms(4) k(2) have f: "composite_audio_done ops c" "composite_active ops c = None"
      by (auto simp: composite_is_finished_def)
    have "composite_audio_done ops c'"
      using f(1) k(1) child okc assms(2,5)
      by (auto simp: composite_audio_done_def composite_ok_def evolves_def split: option.splits)
    moreover have "composite_active ops c' = None"
      using f(2) k(1) child okc False assms(3,4)
      by (auto simp: composite_active_def composite_active_index_def composite_ok_def evolves_def
        split: option.splits if_splits)
    ultimately show ?thesis by (simp add: composite_is_finished_def)
  qed (simp add: composite_is_finished_def)
  ultimately show ?thesis by (simp add: evolves_def composite_source_def video_source_delegate_def media_source_def)
qed

lemma multi_evolvesI:
  assumes "all_evolve ops ok (mu_objects m) (mu_objects m')"
    and "mu_audio m' = mu_audio m" "mu_video m' = mu_video m"
    and "mu_finished_audio m \<subseteq> mu_finished_audio m'" "mu_finished_video m \<subseteq> mu_finished_video m'"
    and "mu_cleaned m' \<longrightarrow> mu_cleaned m
      \<or> set (mu_audio m) \<subseteq> mu_finished_audio m' \<and> set (mu_video m) \<subseteq> mu_finished_video m'"
  shows "evolves (multi_source ops) (multi_ok ops ok) m m'"
proof -
  have child: "evolves ops ok (mu_objects m ! i) (mu_objects m' ! i)" if "i < length (mu_objects m)" for i
    using all_evolve_nth [OF assms(1) that] .
  have okc: "ok (mu_objects m ! i)" if "i < length (mu_objects m)" "multi_ok ops ok m" for i
    using that by (simp add: multi_ok_def list_all_length)
  have "multi_ok ops ok m'" if k: "multi_ok ops ok m"
  proof -
    have "so_is_media ops (mu_objects m' ! i)" if "i \<in> set (mu_video m)" for i
      using that k child [of i] okc [of i] by (simp add: multi_ok_def list_all_iff evolves_def)
    then show ?thesis using k all_evolve_ok [OF assms(1)] assms(4-6)
      by (auto simp: multi_ok_def assms(2,3) all_evolve_length [OF assms(1)] list_all_iff)
  qed
  moreover have "multi_is_finished ops m'" if k: "multi_ok ops ok m" "multi_is_finished ops m"
  proof -
    have "multi_audio_done ops m' i" if "i \<in> set (mu_audio m)" for i
      using that k child [of i] okc [of i] assms(4)
      by (auto simp: multi_is_finished_def multi_audio_done_def multi_ok_def evolves_def list_all_iff)
    moreover have "multi_video_done ops m' i" if "i \<in> set (mu_video m)" for i
      using that k child [of i] okc [of i] assms(5)
      by (auto simp: multi_is_finished_def multi_video_done_def multi_ok_def evolves_def list_all_iff)
    ultimately show ?thesis by (simp add: multi_is_finished_def list_all_iff assms(2,3))
  qed
  ultimately show ?thesis by (simp add: evolves_def multi_source_def)
qed

lemma simulcast_evolvesI:
  assumes "all_evolve ops ok (sm_objects c) (sm_objects c')"
    and "sm_sources c' = sm_sources c" "sm_closed c \<longrightarrow> sm_closed c'"
  shows "evolves (simulcast_source ops) (simulcast_ok ops ok) c c'"
proof -
  have child: "evolves ops ok (sm_objects c ! i) (sm_objects c' ! i)" "ok (sm_objects c ! i)"
    if "i \<in> set (vals (sm_sources c))" "simulcast_ok ops ok c" for i
    using that all_evolve_nth [OF assms(1), of i] by (auto simp: simulcast_ok_def list_all_iff)
  have "simulcast_ok ops ok c'" if k: "simulcast_ok ops ok c"
    using k all_evolve_ok [OF assms(1)] all_evolve_length [OF assms(1)] child [OF _ k]
    by (auto simp: simulcast_ok_def assms(2) evolves_def list_all_iff)
  moreover have "simulcast_is_finished ops c'" if k: "simulcast_ok ops ok c" "simulcast_is_finished ops c"
    using k child [OF _ k(1)] assms(2,3)
    by (auto simp: simulcast_is_finished_def simulcast_ok_def evolves_def list_all_iff)
  ultimately show ?thesis
    by (simp add: evolves_def simulcast_source_def video_source_delegate_def media_source_def video_only_source_def)
qed

text \<open>The loops of \<open>MultiMediaSource\<close> only let children evolve and finished sets grow.\<close>

definition multi_grows :: "'s source_ops \<Rightarrow> ('s \<Rightarrow> bool) \<Rightarrow> 's MultiMediaSource \<Rightarrow> 's MultiMediaSource \<Rightarrow> bool" where
  "multi_grows ops ok m m' \<longleftrightarrow>
     all_evolve ops ok (mu_objects m) (mu_objects m') \<and> mu_audio m' = mu_audio m \<and> mu_video m' = mu_video m
     \<and> mu_finished_audio m \<subseteq> mu_finished_audio m' \<and> mu_finished_video m \<subseteq> mu_finished_video m'
     \<and> mu_cleaned m' = mu_cleaned m"

lemma multi_grows_refl [simp]: "multi_grows ops ok m m"
  by (simp add: multi_grows_def)

lemma multi_grows_trans: "multi_grows ops ok a b \<Longrightarrow> multi_grows ops ok b c \<Longrightarrow> multi_grows ops ok a c"
  by (auto simp: multi_grows_def intro: all_evolve_trans)

lemma multi_grows_finish [simp]: "multi_grows ops ok m (finish_audio i m)" "multi_grows ops ok m (finish_video i m)"
  by (auto simp: multi_grows_def finish_audio_def finish_video_def)

lemma multi_grows_child:
  "(\<And>s. evolves ops ok s (snd (f s))) \<Longrightarrow> multi_grows ops ok m (snd (multi_child f i m))"
  using on_child_evolves [of ops ok f "mu_objects m" i]
  by (auto simp: multi_grows_def multi_child_def case_prod_beta)

lemma multi_grows_bind:
  assumes "multi_grows ops ok m (snd q)" "\<And>v m'. multi_grows ops ok m' (snd (k v m'))"
  shows "multi_grows ops ok m (snd (bind_res q k))"
proof (cases q)
  case (Pair r m1)
  with assms show ?thesis by (cases r) (auto intro: multi_grows_trans)
qed

lemma multi_grows_finish_trans:
  "multi_grows ops ok (finish_audio i m) m' \<Longrightarrow> multi_grows ops ok m m'"
  "multi_grows ops ok (finish_video i m) m' \<Longrightarrow> multi_grows ops ok m m'"
  by (blast intro: multi_grows_trans multi_grows_finish)+

lemma multi_grows_evolves: "multi_grows ops ok m m' \<Longrightarrow> evolves (multi_source ops) (multi_ok ops ok) m m'"
  by (rule multi_evolvesI) (auto simp: multi_grows_def)

lemma multi_read_chunks_grows:
  assumes "\<And>s. evolves ops ok s (snd (so_read ops s))"
  shows "multi_grows ops ok m (snd (multi_read_chunks ops ids got m))"
proof (induction ids arbitrary: got m)
  case (Cons i ids)
  show ?case unfolding multi_read_chunks.simps
    by (rule multi_grows_bind [OF multi_grows_child [OF assms]])
      (auto intro: Cons.IH multi_grows_finish_trans)
qed simp

lemma multi_video_loop_grows:
  assumes "\<And>s. evolves ops ok s (snd (f s))"
  shows "multi_grows ops ok m (snd (multi_video_loop ops f ids m))"
proof (induction ids arbitrary: m)
  case (Cons i ids)
  have fin: "multi_grows ops ok m (snd (multi_video_loop ops f ids (finish_video i m)))" for m
    by (rule multi_grows_finish_trans(2) [OF Cons.IH])
  show ?case unfolding multi_video_loop.simps
    using Cons.IH fin by (auto intro!: multi_grows_bind multi_grows_child assms split: option.split)
qed simp

lemma multi_preview_loop_grows:
  assumes "\<And>s. evolves ops ok s (snd (so_read_preview ops s))"
  shows "multi_grows ops ok m (snd (multi_preview_loop ops ids m))"
proof (induction ids arbitrary: m)
  case (Cons i ids)
  then show ?case unfolding multi_preview_loop.simps
    by (auto intro!: multi_grows_bind multi_grows_child assms split: option.split list.split)
qed simp

lemma multi_read_grows:
  assumes "\<And>s. evolves ops ok s (snd (so_read ops s))"
  shows "multi_grows ops ok m (snd (multi_read ops m))"
  unfolding multi_read_def Let_def
  by (auto intro!: multi_grows_bind multi_grows_child multi_read_chunks_grows assms)


section \<open>The wrappers keep the contract\<close>

text \<open>The interface a wrapper relies on: its children are sources that keep the contract.\<close>

locale wrapped_sources = source_contract ops ok for ops :: "'s source_ops" and ok
begin

lemma child_put: "evolves ops ok s (snd (f s)) \<Longrightarrow> f s = (r, s') \<Longrightarrow> evolves ops ok s s'"
  by simp

lemma wants_if_media_evolves: "evolves ops ok s (snd (wants_if_media ops w s))"
  by (simp add: wants_if_media_def evolves_calls)

lemma audio_media_evolves:
  "evolves ops ok (am_original c) (am_original c') \<Longrightarrow> am_finished c \<longrightarrow> am_finished c'
    \<Longrightarrow> am_cleaned c \<longrightarrow> am_cleaned c' \<Longrightarrow> evolves (audio_media_source ops) (audio_media_ok ops ok) c c'"
  by (auto simp: evolves_def audio_media_source_def audio_media_ok_def media_source_def)

lemma audio_media_contract: "source_contract (audio_media_source ops) (audio_media_ok ops ok)"
proof (unfold_locales, goal_cases)
  case (1 c k)
  have "evolves ops ok (am_original c) (am_original (snd (call_source (audio_media_source ops) k c)))
    \<and> (am_finished c \<longrightarrow> am_finished (snd (call_source (audio_media_source ops) k c)))
    \<and> (am_cleaned c \<longrightarrow> am_cleaned (snd (call_source (audio_media_source ops) k c)))"
    using evolves_calls(1) [of "am_original c"] evolves_calls(6) [of "am_original c"]
    by (cases k; cases "fst (so_read ops (am_original c))")
      (auto simp: source_simps audio_media_source_def audio_media_read_def audio_media_cleanup_def
        case_prod_beta split: list.split)
  then show ?case by (blast intro: audio_media_evolves)
next
  case (2 c k)
  then show ?case
    by (cases k) (auto simp: source_simps audio_media_source_def audio_media_read_def split: list.split)
qed (simp_all add: source_simps audio_media_source_def audio_media_cleanup_def case_prod_beta)

lemma volume_evolves:
  "evolves ops ok (mv_source c) (mv_source c') \<Longrightarrow> mv_cleaned c \<longrightarrow> mv_cleaned c'
    \<Longrightarrow> evolves (volume_source ops) (volume_ok ops ok) c c'"
  by (auto simp: evolves_def volume_source_def volume_ok_def media_source_def video_source_delegate_def
      volume_active_def)

lemma volume_contract: "source_contract (volume_source ops) (volume_ok ops ok)"
proof (unfold_locales, goal_cases)
  case (1 c k)
  have "evolves ops ok (mv_source c) (mv_source (snd (call_source (volume_source ops) k c)))
    \<and> (mv_cleaned c \<longrightarrow> mv_cleaned (snd (call_source (volume_source ops) k c)))"
    using evolves_calls [of "mv_source c"]
    by (cases k; cases "mv_cleaned c"; cases "fst (so_read ops (mv_source c))")
      (simp_all add: source_simps volume_source_def volume_read_def volume_cleanup_def volume_active_def
        case_prod_beta)
  then show ?case by (blast intro: volume_evolves)
next
  case (2 c k)
  show ?case
  proof (cases "mv_cleaned c")
    case True
    then show ?thesis
      by (cases k) (simp_all add: source_simps volume_source_def volume_read_def volume_active_def)
  next
    case False
    then have q: "ok (mv_source c)" "so_is_media ops (mv_source c)" "so_is_finished ops (mv_source c)"
      using 2 by (simp_all add: volume_source_def volume_ok_def volume_active_def)
    note q = quiet_calls [OF q]
    show ?thesis using False q
      by (cases k; cases "fst (so_read ops (mv_source c))"; cases "fst (so_read_video ops (mv_source c))")
        (auto simp: source_simps volume_source_def volume_read_def volume_active_def case_prod_beta
          map_res_def split: sum.split)
  qed
next
  case (3 c)
  then show ?case using finished_lanes [of "mv_source c"]
    by (auto simp: source_simps volume_source_def volume_ok_def volume_active_def split: if_splits)
qed (simp_all add: volume_source_def volume_cleanup_def volume_active_def case_prod_beta)

lemma composite_call_evolves: "evolves (composite_source ops) (composite_ok ops ok) c (snd (call_source (composite_source ops) k c))"
proof (cases k)
  case Read
  show ?thesis
  proof (cases "cp_audio c")
    case (Some i)
    obtain r objs where o: "on_child (so_read ops) i (cp_objects c) = (r, objs)" by fastforce
    have "all_evolve ops ok (cp_objects c) objs"
      using on_child_evolves [OF evolves_calls(1), of "cp_objects c" i] o by simp
    then show ?thesis
      by (cases r) (auto simp: Read Some source_simps composite_sel composite_read_def o intro!: composite_evolvesI)
  qed (simp add: Read source_simps composite_sel composite_read_def)
next
  case (Wants w)
  have "all_evolve ops ok (cp_objects c) (snd (each_child (wants_if_media ops w) (composite_children c) (cp_objects c)))"
    by (rule each_child_evolves [OF wants_if_media_evolves])
  then show ?thesis
    by (auto simp: Wants source_simps composite_sel composite_wants_def case_prod_beta intro!: composite_evolvesI)
next
  case Cleanup
  have "all_evolve ops ok (cp_objects c) (snd (each_child (so_cleanup ops) ids (cp_objects c)))" for ids
    by (rule each_child_evolves [OF evolves_calls(6)])
  then show ?thesis
    by (auto simp: Cleanup source_simps composite_sel composite_cleanup_def Let_def case_prod_beta
      intro!: composite_evolvesI)
next
  have put: "evolves (composite_source ops) (composite_ok ops ok) c (composite_put s c)"
    if "composite_active ops c = Some x" "evolves ops ok x s" for s x
    using that by (intro composite_evolvesI)
      (auto simp: composite_put_def composite_active_def composite_active_index_def intro: all_evolve_update
        split: option.splits if_splits)
  { case ReadVideo
    then show ?thesis using evolves_calls(2)
      by (auto simp: source_simps composite_sel case_prod_beta intro: put split: option.split) }
  { case (ReadStreams rids)
    then show ?thesis using evolves_calls(3)
      by (auto simp: source_simps composite_sel case_prod_beta intro: put split: option.split) }
  { case ReadPreview
    then show ?thesis using evolves_calls(4)
      by (auto simp: source_simps composite_sel case_prod_beta intro: put split: option.split) }
qed

lemma composite_contract: "source_contract (composite_source ops) (composite_ok ops ok)"
proof (unfold_locales, goal_cases)
  case (1 c k)
  show ?case by (rule composite_call_evolves)
next
  case (2 c k)
  then have "composite_active ops c = None" "cp_cleaned c \<or> composite_audio_done ops c"
    by (auto simp: composite_source_def composite_is_finished_def composite_active_def composite_active_index_def
      split: option.split)
  then show ?case
    by (cases k) (auto simp: source_simps composite_source_def composite_read_def split: option.split)
next
  case (3 c)
  then show ?case
    by (auto simp: composite_source_def composite_is_finished_def composite_active_def composite_active_index_def
      source_simps split: option.split)
qed (simp add: composite_source_def composite_is_finished_def composite_cleanup_def Let_def case_prod_beta)

lemma multi_quiet:
  assumes "multi_is_finished ops m"
  shows "multi_read ops m = (Inr [], m)" and "multi_video_loop ops f (mu_video m) m = (Inr None, m)"
    and "multi_active_audio ops m = []" and "multi_active_video ops m = []"
proof -
  have loop: "list_all (multi_video_done ops m) ids \<Longrightarrow> multi_video_loop ops f ids m = (Inr None, m)" for ids
    by (induction ids) auto
  show "multi_video_loop ops f (mu_video m) m = (Inr None, m)"
    using assms loop by (simp add: multi_is_finished_def)
  show a: "multi_active_audio ops m = []" and "multi_active_video ops m = []"
    using assms by (auto simp: multi_is_finished_def multi_active_audio_def multi_active_video_def list_all_iff)
  show "multi_read ops m = (Inr [], m)" by (simp add: multi_read_def a)
qed

lemma multi_contract: "source_contract (multi_source ops) (multi_ok ops ok)"
proof (unfold_locales, goal_cases)
  case (1 m k)
  have g: "all_evolve ops ok objs (snd (each_child (wants_if_media ops w) ids objs))"
    "all_evolve ops ok objs (snd (each_child (so_cleanup ops) ids objs))" for w ids objs
    by (rule each_child_evolves, simp add: wants_if_media_evolves evolves_calls)+
  have v: "multi_grows ops ok m (snd (multi_video_loop ops (so_read_video_streams ops rids) (mu_video m) m))" for rids
    by (rule multi_video_loop_grows, rule evolves_calls)
  show ?case
    using multi_grows_evolves [OF multi_read_grows [OF evolves_calls(1)], of m]
      multi_grows_evolves [OF multi_video_loop_grows [OF evolves_calls(2)], of m "mu_video m"]
      multi_grows_evolves [OF v] multi_grows_evolves [OF multi_preview_loop_grows [OF evolves_calls(4)], of m "mu_video m"] g
    by (cases k) (auto simp: reply_def multi_sel multi_wants_def multi_cleanup_def Let_def case_prod_beta
      intro!: multi_evolvesI)
next
  case (2 m k)
  then have fin: "multi_is_finished ops m" by (simp add: multi_source_def)
  show ?case by (cases k) (simp_all add: reply_def multi_sel multi_quiet [OF fin])
next
  case (3 m)
  then show ?case using multi_quiet [of m] by (simp add: multi_source_def)
next
  case (4 m)
  then show ?case
    by (auto simp: multi_source_def multi_cleanup_def multi_is_finished_def Let_def case_prod_beta list_all_iff
      multi_audio_done_def multi_video_done_def multi_ok_def)
qed

lemma simulcast_each_evolves:
  assumes "\<And>s. evolves ops ok s (snd (f s))"
  shows "evolves (simulcast_source ops) (simulcast_ok ops ok) c (snd (simulcast_each f c))"
  using each_child_evolves [OF assms, of "sm_objects c"]
  by (auto simp: simulcast_each_def case_prod_beta intro!: simulcast_evolvesI)

lemma simulcast_read_loop_evolves:
  "all_evolve ops ok (sm_objects c) (sm_objects (snd (simulcast_read_loop ops rids frames c)))
    \<and> sm_sources (snd (simulcast_read_loop ops rids frames c)) = sm_sources c
    \<and> sm_closed (snd (simulcast_read_loop ops rids frames c)) = sm_closed c"
proof (induction rids arbitrary: frames c)
  case (Cons rid rids)
  show ?case
  proof (cases "map_of (sm_sources c) rid")
    case (Some i)
    obtain r objs where o: "on_child (so_read_video ops) i (sm_objects c) = (r, objs)" by fastforce
    have "all_evolve ops ok (sm_objects c) objs"
      using on_child_evolves [OF evolves_calls(2), of "sm_objects c" i] o by simp
    then show ?thesis using Some Cons.IH [of "c\<lparr>sm_objects := objs\<rparr>"] Cons.IH [of c]
      by (cases r) (auto simp: o split: option.split intro: all_evolve_trans)
  qed simp
qed simp

lemma simulcast_put_evolves:
  assumes "simulcast_primary c = Some x" "evolves ops ok x s"
  shows "evolves (simulcast_source ops) (simulcast_ok ops ok) c (simulcast_put s c)"
  using assms by (intro simulcast_evolvesI)
    (auto simp: simulcast_put_def simulcast_primary_def intro: all_evolve_update split: list.splits if_splits)

lemma simulcast_streams_evolves:
  "evolves (simulcast_source ops) (simulcast_ok ops ok) c (snd (simulcast_read_video_streams ops rids c))"
proof -
  obtain r c1 where l: "simulcast_read_loop ops rids [] c = (r, c1)" by fastforce
  then have "evolves (simulcast_source ops) (simulcast_ok ops ok) c c1"
    using simulcast_read_loop_evolves [of c rids "[]"] by (intro simulcast_evolvesI) simp_all
  then show ?thesis by (cases r) (simp_all add: simulcast_read_video_streams_def l)
qed

lemma simulcast_call_evolves:
  "evolves (simulcast_source ops) (simulcast_ok ops ok) c (snd (call_source (simulcast_source ops) k c))"
proof (cases k)
  case (Wants w)
  then show ?thesis by (simp add: reply_def simulcast_sel simulcast_each_evolves evolves_calls)
next
  case Cleanup
  have "evolves (simulcast_source ops) (simulcast_ok ops ok) c (c\<lparr>sm_closed := True\<rparr>)"
    by (rule simulcast_evolvesI) simp_all
  then show ?thesis
    using evolves_trans [OF _ simulcast_each_evolves [OF evolves_calls(6)]] by (simp add: Cleanup reply_def simulcast_sel)
qed (auto simp: reply_def simulcast_sel delegate_def case_prod_beta evolves_calls simulcast_streams_evolves
    intro: simulcast_put_evolves split: option.split)

lemma simulcast_finished_loop:
  assumes "simulcast_is_finished ops c" "\<not> sm_closed c"
  shows "simulcast_read_loop ops rids frames c = (Inr got, c') \<Longrightarrow> got = frames"
proof (induction rids)
  case (Cons rid rids)
  then show ?case using assms
    by (auto simp: simulcast_is_finished_def list_all_iff vals_def split: option.splits if_splits dest!: map_of_SomeD)
qed simp

lemma simulcast_contract: "source_contract (simulcast_source ops) (simulcast_ok ops ok)"
proof (unfold_locales, goal_cases)
  case (1 c k)
  show ?case by (rule simulcast_call_evolves)
next
  case (2 c k)
  then have fin: "simulcast_is_finished ops c" by (simp add: simulcast_source_def)
  show ?case
  proof (cases k)
    case ReadVideo
    have "frame = None" if "simulcast_primary c = Some x" "fst (so_read_video ops x) = Inr frame" for x frame
      using that fin 2(1) quiet_calls(2) [of x frame]
      by (cases "sm_sources c") (auto simp: simulcast_primary_def simulcast_is_finished_def simulcast_ok_def list_all_iff
        split: if_splits)
    then show ?thesis by (auto simp: ReadVideo reply_def simulcast_sel delegate_def case_prod_beta split: option.split)
  next
    case (ReadStreams rids)
    have "frames = None \<or> frames = Some []" if "fst (simulcast_read_video_streams ops rids c) = Inr frames" for frames
    proof (cases "sm_closed c \<or> rids = []")
      case False
      obtain r c1 where l: "simulcast_read_loop ops rids [] c = (r, c1)" by fastforce
      with that False simulcast_finished_loop [OF fin, of rids "[]"] show ?thesis
        by (cases r) (auto simp: simulcast_read_video_streams_def split: if_splits)
    qed (use that in \<open>auto simp: simulcast_read_video_streams_def split: if_splits\<close>)
    then show ?thesis by (simp add: ReadStreams reply_def simulcast_sel)
  qed (simp_all add: reply_def simulcast_sel)
next
  case (3 c)
  then show ?case
    by (auto simp: simulcast_source_def video_source_delegate_def video_only_source_def simulcast_is_finished_def
      list_all_iff list_ex_iff)
next
  case (4 c)
  then show ?case
    by (simp add: simulcast_source_def simulcast_is_finished_def simulcast_each_def case_prod_beta)
qed

end

sublocale wrapped_sources \<subseteq> wrapped_audio: source_contract "audio_media_source ops" "audio_media_ok ops ok"
  by (rule audio_media_contract)

sublocale wrapped_sources \<subseteq> volume: source_contract "volume_source ops" "volume_ok ops ok"
  by (rule volume_contract)

sublocale wrapped_sources \<subseteq> composite: source_contract "composite_source ops" "composite_ok ops ok"
  by (rule composite_contract)

sublocale wrapped_sources \<subseteq> multi: source_contract "multi_source ops" "multi_ok ops ok"
  by (rule multi_contract)

sublocale wrapped_sources \<subseteq> simulcast: source_contract "simulcast_source ops" "simulcast_ok ops ok"
  by (rule simulcast_contract)


section \<open>Objects of two classes\<close>

lemma either_sel:
  "so_is_media (either_source a b) (Inl x) = so_is_media a x"
  "so_is_media (either_source a b) (Inr y) = so_is_media b y"
  "so_is_finished (either_source a b) (Inl x) = so_is_finished a x"
  "so_is_finished (either_source a b) (Inr y) = so_is_finished b y"
  by (simp_all add: either_source_def)

locale two_classes = a: source_contract ops_a ok_a + b: source_contract ops_b ok_b
  for ops_a :: "'a source_ops" and ok_a and ops_b :: "'b source_ops" and ok_b
begin

lemma call_either:
  "call_source (either_source ops_a ops_b) k (Inl x) = map_prod id Inl (call_source ops_a k x)"
  "call_source (either_source ops_a ops_b) k (Inr y) = map_prod id Inr (call_source ops_b k y)"
  by (cases k; simp add: either_source_def either_call_def reply_def map_prod_def case_prod_beta)+

lemma either_contract: "source_contract (either_source ops_a ops_b) (case_sum ok_a ok_b)"
proof (unfold_locales, goal_cases)
  case (1 s k)
  show ?case using a.call_evolves [of _ k] b.call_evolves [of _ k]
    by (cases s) (auto simp: call_either evolves_def either_sel)
next
  case (2 s k)
  then show ?case using a.finished_quiet [of _ k] b.finished_quiet [of _ k]
    by (cases s) (auto simp: call_either either_sel)
next
  case (3 s)
  then show ?case using a.finished_lanes b.finished_lanes by (cases s) (auto simp: either_source_def)
next
  case (4 s)
  then show ?case using a.cleanup_finishes b.cleanup_finishes
    by (cases s) (auto simp: either_source_def either_call_def)
qed

end

sublocale two_classes \<subseteq> either: wrapped_sources "either_source ops_a ops_b" "case_sum ok_a ok_b"
  by (rule wrapped_sources.intro, rule either_contract)

text \<open>
  The classes of a typical mix: raw PCM and encoded video files, and a plain audio source beside them.
\<close>

abbreviation (input) "encoded_ok \<equiv> (\<lambda>s :: EncodedVideoSource. ev_file s = None \<longrightarrow> ev_closed s)"

definition media_files :: "nat \<Rightarrow> (PCMMediaSource + EncodedVideoSource) source_ops" where
  "media_files frame_size = either_source (pcm_source frame_size) encoded_video_source"

interpretation files: two_classes "pcm_source frame_size" "\<lambda>_. True" encoded_video_source encoded_ok
  by unfold_locales

interpretation pcm_wrapped: wrapped_sources "pcm_source frame_size" "\<lambda>_. True"
  by unfold_locales

interpretation video_wrapped: wrapped_sources video_frame_source "\<lambda>_. True"
  by unfold_locales

interpretation plain_wrapped: wrapped_sources audio_source "\<lambda>_. True"
  by unfold_locales


section \<open>Properties\<close>

lemma new_multi_ok:
  assumes "new_multi ops objects sources = Inr m" "list_all ok objects" "list_all (\<lambda>i. i < length objects) sources"
  shows "multi_ok ops ok m \<and> mu_objects m = objects"
  using assms by (auto simp: new_multi_def multi_ok_def Let_def list_all_iff split: if_splits)

text \<open>
  A \<open>MultiMediaSource\<close> over PCM and encoded video files that has been cleaned up is silent for
  good: whatever was called on it before, and whatever is called after, no call returns audio or
  video any more, and it reports that it is finished.
\<close>

theorem multi_silent_after_cleanup:
  assumes "new_multi (media_files frame_size) objects sources = Inr m"
    and "list_all (\<lambda>i. i < length objects) sources"
    and "list_all (case_sum (\<lambda>_. True) encoded_ok) objects"
    and "run_source (multi_source (media_files frame_size)) before m = (replies, m1)"
    and "so_cleanup (multi_source (media_files frame_size)) m1 = (r, m2)"
    and "run_source (multi_source (media_files frame_size)) after m2 = (later, m3)"
  shows "list_all quiet later \<and> multi_is_finished (media_files frame_size) m3"
proof -
  have ok: "multi_ok (media_files frame_size) (case_sum (\<lambda>_. True) encoded_ok) m"
    using new_multi_ok [OF assms(1,3,2)] by simp
  note mf = media_files_def [symmetric]
  have "multi_ok (media_files frame_size) (case_sum (\<lambda>_. True) encoded_ok) m1"
    using files.either.multi.run_ok [of frame_size m before, unfolded mf] ok assms(4) by simp
  then show ?thesis
    using files.either.multi.cleaned_up_quiet [of frame_size m1 after, unfolded mf] assms(5,6)
    by (simp add: multi_source_def)
qed


definition sample_children :: "(PCMMediaSource + EncodedVideoSource) list" where
  "sample_children = [Inl (new_pcm_source [[1, 0, 2, 0, 3, 0]] True), Inl (new_pcm_source [[5, 0]] False)]"

definition sample_multi :: "(PCMMediaSource + EncodedVideoSource) MultiMediaSource" where
  "sample_multi = \<lparr>mu_objects = sample_children, mu_sources = [0, 1], mu_audio = [0, 1], mu_video = [],
     mu_opus = [], mu_finished_audio = {}, mu_finished_video = {}, mu_cleaned = False\<rparr>"

lemma sample_multi_built: "new_multi (media_files 4) sample_children [0, 1] = Inr sample_multi"
  by (simp add: new_multi_def sample_multi_def sample_children_def media_files_def either_source_def pcm_source_def
    media_source_def new_pcm_source_def Let_def)

theorem multi_silent_after_cleanup_witness:
  "list_all quiet (fst (run_source (multi_source (media_files 4)) [Read, ReadVideo]
     (snd (so_cleanup (multi_source (media_files 4))
       (snd (run_source (multi_source (media_files 4)) [Read] sample_multi))))))"
  by (rule conjunct1 [OF multi_silent_after_cleanup [OF sample_multi_built _ _ prod.collapse [symmetric]
        prod.collapse [symmetric] prod.collapse [symmetric]]])
    (simp_all add: sample_children_def)

lemma multi_read_chunks_spec:
  assumes "distinct ids"
    and "\<forall>i \<in> set ids. i < length (mu_objects m) \<and> fst (so_read ops (mu_objects m ! i)) = Inr (chunk i)"
  shows "multi_read_chunks ops ids got m =
    (Inr (got @ filter (\<lambda>c. c \<noteq> []) (map chunk ids)),
     m\<lparr>mu_objects := fold (\<lambda>i objs. objs[i := snd (so_read ops (mu_objects m ! i))]) ids (mu_objects m),
       mu_finished_audio := mu_finished_audio m \<union> {i \<in> set ids. chunk i = []}\<rparr>)"
  using assms
proof (induction ids arbitrary: got m)
  case (Cons i ids)
  define m1 where "m1 = m\<lparr>mu_objects := (mu_objects m)[i := snd (so_read ops (mu_objects m ! i))]\<rparr>"
  have c: "multi_child (so_read ops) i m = (Inr (chunk i), m1)"
    using Cons.prems by (simp add: multi_child_def on_child_def case_prod_beta m1_def)
  have f: "fold (\<lambda>j objs. objs[j := snd (so_read ops (mu_objects m1 ! j))]) ids objs
      = fold (\<lambda>j objs. objs[j := snd (so_read ops (mu_objects m ! j))]) ids objs" for objs
  proof (intro fold_cong refl)
    fix j assume "j \<in> set ids"
    then have "j \<noteq> i" using Cons.prems(1) by auto
    then show "(\<lambda>objs. objs[j := snd (so_read ops (mu_objects m1 ! j))]) = (\<lambda>objs. objs[j := snd (so_read ops (mu_objects m ! j))])"
      by (simp add: m1_def)
  qed
  have p: "\<forall>j \<in> set ids. j < length (mu_objects m') \<and> fst (so_read ops (mu_objects m' ! j)) = Inr (chunk j)"
    if "mu_objects m' = mu_objects m1" for m'
    using Cons.prems that by (auto simp: m1_def nth_list_update)
  have d: "distinct ids" using Cons.prems(1) by simp
  have e: "{j \<in> set (i # ids). chunk j = []}
      = (if chunk i = [] then insert i {j \<in> set ids. chunk j = []} else {j \<in> set ids. chunk j = []})"
    by auto
  show ?case
  proof (cases "chunk i = []")
    case True
    then show ?thesis unfolding e using Cons.IH [OF d p [of "finish_audio i m1"], of got]
      by (simp add: c f finish_audio_def) (simp add: m1_def)
  next
    case False
    then show ?thesis using Cons.IH [OF d p [of m1], of "got @ [chunk i]"]
      unfolding e by (simp add: c f) (simp add: m1_def)
  qed
qed simp

lemma fold_update_nth:
  assumes "distinct ids" "\<forall>i \<in> set ids. i < length objs"
  shows "fold (\<lambda>i objs. objs[i := g i]) ids objs ! j = (if j \<in> set ids then g j else objs ! j)"
  using assms
proof (induction ids arbitrary: objs)
  case (Cons i ids)
  then show ?case by (auto simp: nth_list_update)
qed simp

lemma sum_samples_filter:
  "sum_list (map (\<lambda>b. sample_at b k) (filter (\<lambda>c. c \<noteq> []) bs)) = sum_list (map (\<lambda>b. sample_at b k) bs)"
  by (induction bs) (auto simp: sample_at_def)

text \<open>
  When no input is Opus, one read of a \<open>MultiMediaSource\<close> reads each input that has not ended
  exactly once and returns their mix: every 16-bit sample of the result is the sum of the inputs'
  samples, cut to the 16-bit range, an input that is shorter counting as silence. Exactly the inputs
  that returned no data are marked as ended, and no other object is touched.
\<close>

theorem multi_read_mixes:
  assumes "active = multi_active_audio ops m" and "distinct active" and "length active \<le> 65535"
    and "\<not> multi_is_opus ops m"
    and "\<forall>i \<in> set active. i < length (mu_objects m) \<and> fst (so_read ops (mu_objects m ! i)) = Inr (chunk i)"
    and "multi_read ops m = (Inr out, m')"
  shows "(\<forall>k. sample_at out k = clamp_i16 (\<Sum>i\<leftarrow>active. sample_at (chunk i) k))
    \<and> mu_finished_audio m' = mu_finished_audio m \<union> {i \<in> set active. chunk i = []}
    \<and> (\<forall>j. mu_objects m' ! j = (if j \<in> set active then snd (so_read ops (mu_objects m ! j)) else mu_objects m ! j))"
proof (cases "active = []")
  case True
  then have "out = []" "m' = m" using assms(1,6) by (simp_all add: multi_read_def)
  then show ?thesis using True by (simp add: sample_at_def)
next
  case False
  let ?got = "filter (\<lambda>c. c \<noteq> []) (map chunk active)"
  let ?m = "m\<lparr>mu_objects := fold (\<lambda>i objs. objs[i := snd (so_read ops (mu_objects m ! i))]) active (mu_objects m),
       mu_finished_audio := mu_finished_audio m \<union> {i \<in> set active. chunk i = []}\<rparr>"
  have r: "multi_read ops m = (if ?got = [] then (Inr [], ?m) else (pcm16_mix ?got, ?m))"
    using assms(4) False multi_read_chunks_spec [OF assms(2,5), of "[]"]
    by (simp add: multi_read_def Let_def assms(1) [symmetric])
  have len: "length ?got \<le> 65535"
    by (rule le_trans [OF length_filter_le]) (simp add: assms(3))
  have "sample_at out k = mixed_sample ?got k" for k
  proof (cases "?got = []")
    case True
    then have "out = []" using r assms(6) by simp
    then show ?thesis using True by (simp add: sample_at_def mixed_sample_def)
  next
    case ne: False
    then have "pcm16_mix ?got = Inr out" using r assms(6) by simp
    from mix_spec [OF this len ne] show ?thesis by blast
  qed
  moreover have "mixed_sample ?got k = clamp_i16 (\<Sum>i\<leftarrow>active. sample_at (chunk i) k)" for k
    unfolding mixed_sample_def sum_samples_filter by (simp add: comp_def)
  moreover have "m' = ?m" using r assms(6) by (simp split: if_splits)
  ultimately show ?thesis using assms(5)
      fold_update_nth [OF assms(2), of "mu_objects m" "\<lambda>i. snd (so_read ops (mu_objects m ! i))"] by simp
qed

theorem multi_read_mixes_witness:
  "\<exists>out m'. multi_read (media_files 6) sample_multi = (Inr out, m')
    \<and> sample_at out 0 = clamp_i16 (1 + (5 + 0)) \<and> sample_at out 1 = clamp_i16 (2 + (0 + 0))"
proof -
  have act: "[0, 1] = multi_active_audio (media_files 6) sample_multi"
    and opus: "\<not> multi_is_opus (media_files 6) sample_multi"
    by (simp_all add: multi_active_audio_def multi_audio_done_def multi_is_opus_def sample_multi_def sample_children_def
      media_files_def either_source_def pcm_source_def media_source_def new_pcm_source_def)
  have reads: "\<forall>i \<in> set [0, 1]. i < length (mu_objects sample_multi) \<and> fst (so_read (media_files 6) (mu_objects sample_multi ! i))
      = Inr (if i = 0 then [1, 0, 2, 0, 3, 0] else [5, 0, 0, 0, 0, 0])"
    by code_simp
  have run: "multi_read (media_files 6) sample_multi =
      (Inr [6, 0, 2, 0, 3, 0], snd (multi_read (media_files 6) sample_multi))"
    by code_simp
  from multi_read_mixes [OF act _ _ opus reads run]
  have m: "\<forall>k. sample_at [6, 0, 2, 0, 3, 0] k =
      clamp_i16 (\<Sum>i\<leftarrow>[0, 1]. sample_at (if i = (0 :: nat) then [1, 0, 2, 0, 3, 0] else [5, 0, 0, 0, 0, 0]) k)"
    by simp
  show ?thesis using m [rule_format, of 0] m [rule_format, of 1] run by (auto simp: sample_at_def i16_def)
qed


definition pad_frame :: "nat \<Rightarrow> bytes \<Rightarrow> bytes" where
  "pad_frame frame_size data = data @ replicate (frame_size - length data) 0"

lemma pcm_read_closed_run:
  "pm_closed s \<Longrightarrow> run_source (pcm_source n) (replicate k Read) s = (replicate k (Inr (Audio [])), s)"
  by (induction k) (simp_all add: pcm_source_def media_source_def pcm_read_def reply_def)

lemma pcm_step:
  "run_source (pcm_source n) (Read # cs) s =
     (let (r, s) = pcm_read n s; (rs, s) = run_source (pcm_source n) cs s in (map_res Audio r # rs, s))"
  by (simp add: pcm_source_def media_source_def reply_def case_prod_beta)

lemma pcm_read_one:
  assumes "0 < n"
  shows "pcm_read n (new_pcm_source [data] close) =
    (if data = [] then (Inr [], pcm_close_stream (new_pcm_source [] close\<lparr>pm_closed := True\<rparr>))
     else if length data < n then (Inr (pad_frame n data), pcm_close_stream (new_pcm_source [] close\<lparr>pm_closed := True\<rparr>))
     else (Inr (take n data), new_pcm_source (if length data = n then [] else [drop n data]) close))"
  using assms by (auto simp: pcm_read_def new_pcm_source_def stream_read_def pad_frame_def Let_def)

lemma pcm_read_end:
  "pcm_read n (new_pcm_source [] close) = (Inr [], pcm_close_stream (new_pcm_source [] close\<lparr>pm_closed := True\<rparr>))"
  by (simp add: pcm_read_def new_pcm_source_def stream_read_def)

lemma pcm_source_frames_run:
  assumes "0 < n"
  shows "run_source (pcm_source n) (replicate (length (chunks n data) + Suc k) Read) (new_pcm_source [data] close) =
    (map (\<lambda>c. Inr (Audio (pad_frame n c))) (chunks n data) @ replicate (Suc k) (Inr (Audio [])),
     pcm_close_stream (new_pcm_source [] close\<lparr>pm_closed := True\<rparr>))"
  using assms
proof (induction n data rule: chunks.induct)
  case (1 n data)
  have closed: "pm_closed (pcm_close_stream (new_pcm_source [] close\<lparr>pm_closed := True\<rparr>))" by simp
  note run = pcm_read_closed_run [OF closed]
  consider "data = []" | "data \<noteq> []" "length data < n" | "length data = n" | "n < length data" by linarith
  then show ?case
  proof cases
    case 1
    then show ?thesis using \<open>0 < n\<close> by (simp add: chunks.simps pcm_step pcm_read_one run del: run_source.simps)
  next
    case 2
    then have "chunks n data = [data]" using \<open>0 < n\<close> by (simp add: chunks.simps)
    then show ?thesis using 2 \<open>0 < n\<close> run [of n "Suc k"]
      by (simp add: pcm_step pcm_read_one del: run_source.simps)
  next
    case 3
    then have "chunks n data = [data]" "data \<noteq> []" using \<open>0 < n\<close> by (auto simp: chunks.simps)
    then show ?thesis using 3 \<open>0 < n\<close>
      by (simp add: pcm_step pcm_read_one pcm_read_end run pad_frame_def del: run_source.simps)
  next
    case 4
    then have c: "chunks n data = take n data # chunks n (drop n data)" "data \<noteq> []"
      using \<open>0 < n\<close> by (auto simp: chunks.simps [of n data])
    then show ?thesis using 4 \<open>0 < n\<close> "1.IH"
      by (simp add: pcm_step pcm_read_one pad_frame_def del: run_source.simps)
  qed
qed

text \<open>
  A raw PCM source yields its data in frames of \<open>OpusEncoder.FRAME_SIZE\<close> bytes, in order and
  without loss, the last one filled up with silence, and then nothing however often it is read; at
  the end the stream is closed exactly if the source was asked to close it.
\<close>

theorem pcm_source_frames:
  assumes "0 < frame_size"
    and "run_source (pcm_source frame_size) (replicate (length (chunks frame_size data) + Suc k) Read)
           (new_pcm_source [data] close) = (replies, s)"
  shows "replies = map (\<lambda>c. Inr (Audio (pad_frame frame_size c))) (chunks frame_size data)
      @ replicate (Suc k) (Inr (Audio []))
    \<and> list_all (\<lambda>c. length (pad_frame frame_size c) = frame_size) (chunks frame_size data)
    \<and> concat (chunks frame_size data) = data \<and> pm_closed s \<and> pm_stream_closed s = close"
proof -
  have "length (pad_frame frame_size c) = frame_size" if "c \<in> set (chunks frame_size data)" for c
    using chunks_nonempty [OF that] by (simp add: pad_frame_def)
  then show ?thesis using assms concat_chunks [OF assms(1), of data]
    unfolding pcm_source_frames_run [OF assms(1)]
    by (cases close) (auto simp: list_all_iff pcm_close_stream_def new_pcm_source_def)
qed

theorem pcm_source_frames_witness:
  "fst (run_source (pcm_source 4) [Read, Read, Read, Read] (new_pcm_source [[1, 2, 3, 4, 5, 6]] True)) =
     [Inr (Audio [1, 2, 3, 4]), Inr (Audio [5, 6, 0, 0]), Inr (Audio []), Inr (Audio [])]"
proof -
  have c: "chunks 4 [1, 2, 3, 4, 5, 6 :: byte] = [[1, 2, 3, 4], [5, 6]]" by (simp add: chunks.simps)
  have r: "replicate (length (chunks 4 [1, 2, 3, 4, 5, 6 :: byte]) + Suc 1) Read = [Read, Read, Read, Read]"
    by (simp add: c numeral_2_eq_2)
  show ?thesis
    using pcm_source_frames [of 4 "[1, 2, 3, 4, 5, 6]" 1 True, OF _ prod.collapse [symmetric], unfolded r c]
    by (simp add: pad_frame_def numeral_2_eq_2)
qed

end
