(* ===== verification/Sinks.thy ===== *)
theory Sinks
  imports Media Pcm
begin

text \<open>
  The sinks of \<open>media.py\<close> that route packets: the fan-out, the per-user sink, the filters and the
  callback sink. As for the sources, a class is a state type and a record of operations; a wrapper
  owns the state of its children. A clock read is the argument \<open>now\<close> of the call.
\<close>

section \<open>The interface\<close>

text \<open>What \<open>write\<close> returns is only passed on.\<close>

datatype py_value = PyNone | PyBool bool | PyList "py_value list"

record 'k sink_ops =
  si_closed :: "'k \<Rightarrow> bool"
  si_wants :: "string \<Rightarrow> string \<Rightarrow> 'k \<Rightarrow> bool"
  si_write :: "pyfloat \<Rightarrow> MediaPacket \<Rightarrow> 'k \<Rightarrow> py_value res \<times> 'k"
  si_cleanup :: "'k \<Rightarrow> unit res \<times> 'k"


section \<open>MultiSink\<close>

record 'k MultiSink =
  ms_children :: "'k list"
  ms_closed :: bool

definition new_multi_sink :: "'k list \<Rightarrow> 'k MultiSink" where
  "new_multi_sink destinations = \<lparr>ms_children = destinations, ms_closed = False\<rparr>"

text \<open>
  The list comprehension of \<open>write\<close>: children in order; what was written before a child raises stays
  written.
\<close>

fun fan_out ::
  "'k sink_ops \<Rightarrow> pyfloat \<Rightarrow> MediaPacket \<Rightarrow> 'k list \<Rightarrow> py_value list res \<times> 'k list"
where
  "fan_out ops now packet [] = (Inr [], [])"
| "fan_out ops now packet (k # ks) =
     (if si_wants ops (mp_media_type packet) (mp_codec packet) k
      then case si_write ops now packet k of
          (Inl e, k) \<Rightarrow> (Inl e, k # ks)
        | (Inr v, k) \<Rightarrow> (let (r, ks) = fan_out ops now packet ks in (map_res (Cons v) r, k # ks))
      else let (r, ks) = fan_out ops now packet ks in (r, k # ks))"

definition multi_sink_write ::
  "'k sink_ops \<Rightarrow> pyfloat \<Rightarrow> MediaPacket \<Rightarrow> 'k MultiSink \<Rightarrow> py_value res \<times> 'k MultiSink"
where
  "multi_sink_write ops now packet s =
     (if ms_closed s then (Inr (PyList []), s)
      else let (r, ks) = fan_out ops now packet (ms_children s)
           in (map_res PyList r, s\<lparr>ms_children := ks\<rparr>))"

text \<open>\<open>for child in children: child.cleanup()\<close>.\<close>

fun cleanup_each :: "'k sink_ops \<Rightarrow> 'k list \<Rightarrow> unit res \<times> 'k list" where
  "cleanup_each ops [] = (Inr (), [])"
| "cleanup_each ops (k # ks) =
     (case si_cleanup ops k of
        (Inl e, k) \<Rightarrow> (Inl e, k # ks)
      | (Inr _, k) \<Rightarrow> (let (r, ks) = cleanup_each ops ks in (r, k # ks)))"

definition multi_sink_cleanup :: "'k sink_ops \<Rightarrow> 'k MultiSink \<Rightarrow> unit res \<times> 'k MultiSink" where
  "multi_sink_cleanup ops s =
     (if ms_closed s then (Inr (), s)
      else let (r, ks) = cleanup_each ops (ms_children s)
           in (r, s\<lparr>ms_closed := True, ms_children := ks\<rparr>))"

definition multi_sink :: "'k sink_ops \<Rightarrow> 'k MultiSink sink_ops" where
  "multi_sink ops =
     \<lparr>si_closed = ms_closed,
      si_wants = (\<lambda>media_type codec s. \<not> ms_closed s),
      si_write = multi_sink_write ops,
      si_cleanup = multi_sink_cleanup ops\<rparr>"


section \<open>PerUserSink\<close>

datatype packet_key = UserKey int | SsrcKey int

fun key_id :: "packet_key \<Rightarrow> int" where
  "key_id (UserKey n) = n"
| "key_id (SsrcKey n) = n"

record 'k PerUserSink =
  pu_fallback_to_ssrc :: bool
  pu_children :: "(packet_key, 'k) odict"
  pu_user_ids :: "(int, int) odict"
  pu_closed :: bool

definition new_per_user_sink :: "bool \<Rightarrow> 'k PerUserSink" where
  "new_per_user_sink fallback =
     \<lparr>pu_fallback_to_ssrc = fallback, pu_children = [], pu_user_ids = [], pu_closed = False\<rparr>"

definition packet_key_of :: "MediaPacket \<Rightarrow> 'k PerUserSink \<Rightarrow> packet_key option \<times> 'k PerUserSink" where
  "packet_key_of packet s =
     (case mp_user_id packet of
        Some user_id \<Rightarrow>
          (let s = s\<lparr>pu_user_ids := AList.update (mp_ssrc packet) user_id (pu_user_ids s)\<rparr>;
               children = pu_children s;
               user_key = UserKey user_id;
               fallback_key = SsrcKey (mp_ssrc packet)
           in (Some user_key,
               case map_of children fallback_key of
                 Some child \<Rightarrow>
                   if user_key \<notin> set (keys children)
                   then s\<lparr>pu_children := AList.update user_key child (AList.delete fallback_key children)\<rparr>
                   else s
               | None \<Rightarrow> s))
      | None \<Rightarrow>
          (case map_of (pu_user_ids s) (mp_ssrc packet) of
             Some user_id \<Rightarrow> (Some (UserKey user_id), s)
           | None \<Rightarrow> (if pu_fallback_to_ssrc s then Some (SsrcKey (mp_ssrc packet)) else None, s)))"

text \<open>
  \<open>_get_child\<close>: the factory makes a sink or raises; a closed sink cannot be registered.
\<close>

definition get_child ::
  "'k sink_ops \<Rightarrow> (int \<Rightarrow> 'k res) \<Rightarrow> packet_key \<Rightarrow> 'k PerUserSink \<Rightarrow> 'k res \<times> 'k PerUserSink"
where
  "get_child ops factory key s =
     (case map_of (pu_children s) key of
        Some child \<Rightarrow> (Inr child, s)
      | None \<Rightarrow>
          (case factory (key_id key) of
             Inl e \<Rightarrow> (Inl e, s)
           | Inr child \<Rightarrow>
               if si_closed ops child then (Inl RuntimeError, s)
               else (Inr child, s\<lparr>pu_children := AList.update key child (pu_children s)\<rparr>)))"

definition per_user_write ::
  "'k sink_ops \<Rightarrow> (int \<Rightarrow> 'k res) \<Rightarrow> pyfloat \<Rightarrow> MediaPacket \<Rightarrow> 'k PerUserSink \<Rightarrow> py_value res \<times> 'k PerUserSink"
where
  "per_user_write ops factory now packet s =
     (if pu_closed s then (Inr PyNone, s)
      else
        let (key, s) = packet_key_of packet s
        in case key of
             None \<Rightarrow> (Inr PyNone, s)
           | Some key \<Rightarrow>
               bind_res (get_child ops factory key s) (\<lambda>child s.
                 if si_wants ops (mp_media_type packet) (mp_codec packet) child
                 then let (r, child) = si_write ops now packet child
                      in (r, s\<lparr>pu_children := AList.update key child (pu_children s)\<rparr>)
                 else (Inr PyNone, s)))"

definition per_user_cleanup :: "'k sink_ops \<Rightarrow> 'k PerUserSink \<Rightarrow> unit res \<times> 'k PerUserSink" where
  "per_user_cleanup ops s =
     (if pu_closed s then (Inr (), s)
      else
        let (r, ks) = cleanup_each ops (vals (pu_children s));
            s = s\<lparr>pu_closed := True, pu_children := zip (keys (pu_children s)) ks\<rparr>
        in bind_res (r, s) (\<lambda>_ s. (Inr (), s\<lparr>pu_children := [], pu_user_ids := []\<rparr>)))"

definition per_user_sink :: "'k sink_ops \<Rightarrow> (int \<Rightarrow> 'k res) \<Rightarrow> 'k PerUserSink sink_ops" where
  "per_user_sink ops factory =
     \<lparr>si_closed = pu_closed,
      si_wants = (\<lambda>media_type codec s. \<not> pu_closed s),
      si_write = per_user_write ops factory,
      si_cleanup = per_user_cleanup ops\<rparr>"


section \<open>Filters by media type and codec, and the callback sink\<close>

text \<open>\<open>_FilteredMediaSink._matches\<close> and the normalisation of the constructor's arguments.\<close>

definition lower_set :: "string list option \<Rightarrow> string set option" where
  "lower_set codecs = map_option (\<lambda>cs. set (map lower cs)) codecs"

definition media_matches :: "string set option \<Rightarrow> string set option \<Rightarrow> string \<Rightarrow> string \<Rightarrow> bool" where
  "media_matches media_types codecs media_type codec =
     (case media_types of
        Some ts \<Rightarrow> if media_type \<notin> ts then False
                   else (case codecs of None \<Rightarrow> True | Some cs \<Rightarrow> lower codec \<in> cs)
      | None \<Rightarrow> (case codecs of None \<Rightarrow> True | Some cs \<Rightarrow> lower codec \<in> cs))"

record 'c BasicSink =
  bs_media_types :: "string set option"
  bs_codecs :: "string set option"
  bs_closed :: bool
  bs_seen :: 'c \<comment> \<open>the state the callback works on\<close>

definition new_basic_sink :: "string list option \<Rightarrow> string list option \<Rightarrow> 'c \<Rightarrow> 'c BasicSink" where
  "new_basic_sink media_types codecs seen =
     \<lparr>bs_media_types = map_option set media_types, bs_codecs = lower_set codecs, bs_closed = False,
      bs_seen = seen\<rparr>"

definition basic_sink :: "(MediaPacket \<Rightarrow> 'c \<Rightarrow> py_value res \<times> 'c) \<Rightarrow> 'c BasicSink sink_ops" where
  "basic_sink callback =
     \<lparr>si_closed = bs_closed,
      si_wants = (\<lambda>media_type codec s. if bs_closed s then False
                    else media_matches (bs_media_types s) (bs_codecs s) media_type codec),
      si_write = (\<lambda>now packet s. if bs_closed s then (Inr PyNone, s)
                    else let (r, seen) = callback packet (bs_seen s) in (r, s\<lparr>bs_seen := seen\<rparr>)),
      si_cleanup = (\<lambda>s. (Inr (), s\<lparr>bs_closed := True\<rparr>))\<rparr>"


section \<open>Conditional filters\<close>

text \<open>
  A sink with one destination and the state \<open>'p\<close> of its class. \<open>cleanup\<close> is \<open>MediaSink.cleanup\<close>.
\<close>

record ('k, 'p) DestinationSink =
  ds_destination :: 'k
  ds_closed :: bool
  ds_state :: 'p

definition new_destination_sink :: "'k \<Rightarrow> 'p \<Rightarrow> ('k, 'p) DestinationSink" where
  "new_destination_sink destination state =
     \<lparr>ds_destination = destination, ds_closed = False, ds_state = state\<rparr>"

definition destination_cleanup :: "'k sink_ops \<Rightarrow> ('k, 'p) DestinationSink \<Rightarrow> unit res \<times> ('k, 'p) DestinationSink" where
  "destination_cleanup ops s =
     (if ds_closed s then (Inr (), s)
      else let (r, k) = si_cleanup ops (ds_destination s)
           in (r, s\<lparr>ds_closed := True, ds_destination := k\<rparr>))"

definition destination_write ::
  "'k sink_ops \<Rightarrow> pyfloat \<Rightarrow> MediaPacket \<Rightarrow> ('k, 'p) DestinationSink \<Rightarrow> py_value res \<times> ('k, 'p) DestinationSink"
where
  "destination_write ops now packet s =
     (let (r, k) = si_write ops now packet (ds_destination s) in (r, s\<lparr>ds_destination := k\<rparr>))"

text \<open>\<open>predicate\<close> may change the filter's state; for a caller's own predicate that state is the caller's.\<close>

definition conditional_filter ::
  "'k sink_ops \<Rightarrow> (pyfloat \<Rightarrow> MediaPacket \<Rightarrow> 'p \<Rightarrow> bool res \<times> 'p) \<Rightarrow> ('k, 'p) DestinationSink sink_ops"
where
  "conditional_filter ops predicate =
     \<lparr>si_closed = ds_closed,
      si_wants = (\<lambda>media_type codec s. if ds_closed s then False else si_wants ops media_type codec (ds_destination s)),
      si_write = (\<lambda>now packet s. if ds_closed s then (Inr PyNone, s)
         else let (r, p) = predicate now packet (ds_state s)
              in bind_res (r, s\<lparr>ds_state := p\<rparr>) (\<lambda>accepted s.
                   if accepted then destination_write ops now packet s else (Inr PyNone, s))),
      si_cleanup = destination_cleanup ops\<rparr>"

text \<open>\<open>TimedFilter\<close>; the two clock reads of one call of the predicate are the same instant.\<close>

record TimedFilter =
  tf_duration :: pyfloat
  tf_start_time :: "pyfloat option"

definition new_timed_filter :: "pyfloat \<Rightarrow> 'k \<Rightarrow> pyfloat \<Rightarrow> bool \<Rightarrow> ('k, TimedFilter) DestinationSink" where
  "new_timed_filter now destination duration start_on_init =
     new_destination_sink destination
       \<lparr>tf_duration = max 0 duration, tf_start_time = (if start_on_init then Some now else None)\<rparr>"

definition timed_predicate :: "pyfloat \<Rightarrow> MediaPacket \<Rightarrow> TimedFilter \<Rightarrow> bool res \<times> TimedFilter" where
  "timed_predicate now packet f =
     (let start = (case tf_start_time f of None \<Rightarrow> now | Some t \<Rightarrow> t)
      in (Inr (now - start < tf_duration f), f\<lparr>tf_start_time := Some start\<rparr>))"

definition timed_filter :: "'k sink_ops \<Rightarrow> ('k, TimedFilter) DestinationSink sink_ops" where
  "timed_filter ops = conditional_filter ops timed_predicate"

text \<open>\<open>UserFilter\<close>: its state is the accepted user's ID.\<close>

definition user_predicate :: "pyfloat \<Rightarrow> MediaPacket \<Rightarrow> int \<Rightarrow> bool res \<times> int" where
  "user_predicate now packet user_id = (Inr (mp_user_id packet = Some user_id), user_id)"

definition user_filter :: "'k sink_ops \<Rightarrow> ('k, int) DestinationSink sink_ops" where
  "user_filter ops = conditional_filter ops user_predicate"

record MediaFilter =
  mf_media_types :: "string set option"
  mf_codecs :: "string set option"
  mf_user_ids :: "int set option"

definition new_media_filter ::
  "'k \<Rightarrow> string list option \<Rightarrow> string list option \<Rightarrow> int list option \<Rightarrow> ('k, MediaFilter) DestinationSink"
where
  "new_media_filter destination media_types codecs users =
     new_destination_sink destination
       \<lparr>mf_media_types = map_option set media_types, mf_codecs = lower_set codecs, mf_user_ids = map_option set users\<rparr>"

definition media_predicate :: "pyfloat \<Rightarrow> MediaPacket \<Rightarrow> MediaFilter \<Rightarrow> bool res \<times> MediaFilter" where
  "media_predicate now packet f =
     (Inr (if \<not> media_matches (mf_media_types f) (mf_codecs f) (mp_media_type packet) (mp_codec packet) then False
           else (case mf_user_ids f of
                   None \<Rightarrow> True
                 | Some ids \<Rightarrow> (case mp_user_id packet of None \<Rightarrow> False | Some u \<Rightarrow> u \<in> ids))), f)"

definition media_filter :: "'k sink_ops \<Rightarrow> ('k, MediaFilter) DestinationSink sink_ops" where
  "media_filter ops =
     (conditional_filter ops media_predicate)\<lparr>
        si_wants := (\<lambda>media_type codec s.
          if \<not> si_wants (conditional_filter ops media_predicate) media_type codec s then False
          else media_matches (mf_media_types (ds_state s)) (mf_codecs (ds_state s)) media_type codec)\<rparr>"


section \<open>Decoding Opus\<close>

text \<open>
  \<open>discord.opus.Decoder\<close> is the third-party library's: its operations are a record over the state of
  a decoder.
\<close>

record 'd opus_decoder =
  od_new :: 'd
  od_decode :: "bytes \<Rightarrow> bool \<Rightarrow> 'd \<Rightarrow> bytes res \<times> 'd"
  od_nb_frames :: "bytes \<Rightarrow> int res"
  od_samples_per_frame :: "bytes \<Rightarrow> int res"
  od_sampling_rate :: int
  od_channels :: int
  od_sample_size :: int

record 'd OpusDecodeState =
  os_decoder :: 'd
  os_sequence :: "int option"
  os_timestamp :: "int option"

type_synonym 'd decoder_cache = "(int, 'd OpusDecodeState) odict"

definition state_for :: "'d opus_decoder \<Rightarrow> MediaPacket \<Rightarrow> 'd decoder_cache \<Rightarrow> 'd OpusDecodeState \<times> 'd decoder_cache" where
  "state_for opus packet cache =
     (case map_of cache (mp_ssrc packet) of
        Some state \<Rightarrow> (state, cache)
      | None \<Rightarrow>
          (let state = \<lparr>os_decoder = od_new opus, os_sequence = None, os_timestamp = None\<rparr>
           in (state, AList.update (mp_ssrc packet) state cache)))"

definition packet_samples :: "'d opus_decoder \<Rightarrow> MediaPacket \<Rightarrow> int res" where
  "packet_samples opus packet =
     and_then (od_nb_frames opus (mp_payload packet)) (\<lambda>frames.
       and_then (od_samples_per_frame opus (mp_payload packet)) (\<lambda>samples_per_frame.
         Inr (max 1 (frames * samples_per_frame))))"

text \<open>One call of a decoder of the cache; the decoder object changes even when it raises.\<close>

definition run_decoder ::
  "'d opus_decoder \<Rightarrow> int \<Rightarrow> bytes \<Rightarrow> bool \<Rightarrow> 'd OpusDecodeState \<Rightarrow> 'd decoder_cache
     \<Rightarrow> (bytes \<times> 'd OpusDecodeState) res \<times> 'd decoder_cache"
where
  "run_decoder opus ssrc payload fec state cache =
     (let (r, decoder) = od_decode opus payload fec (os_decoder state);
          state = state\<lparr>os_decoder := decoder\<rparr>
      in (map_res (\<lambda>pcm. (pcm, state)) r, AList.update ssrc state cache))"

definition remember_position ::
  "MediaPacket \<Rightarrow> 'd OpusDecodeState \<Rightarrow> 'd decoder_cache \<Rightarrow> 'd decoder_cache"
where
  "remember_position packet state cache =
     AList.update (mp_ssrc packet)
       (state\<lparr>os_sequence := Some (mp_sequence packet), os_timestamp := Some (mp_timestamp packet)\<rparr>) cache"

definition decoder_decode :: "'d opus_decoder \<Rightarrow> MediaPacket \<Rightarrow> 'd decoder_cache \<Rightarrow> bytes res \<times> 'd decoder_cache" where
  "decoder_decode opus packet cache =
     (if mp_codec packet = ''pcm'' then (Inr (mp_payload packet), cache)
      else if mp_media_type packet \<noteq> ''audio'' \<or> mp_codec packet \<noteq> ''opus'' then (Inl TypeError, cache)
      else
        let (state, cache) = state_for opus packet cache
        in bind_res (run_decoder opus (mp_ssrc packet) (mp_payload packet) False state cache)
             (\<lambda>(pcm, state) cache. (Inr pcm, remember_position packet state cache)))"

text \<open>The packet that in-band FEC recovers: the one before \<open>packet\<close>.\<close>

definition recovered_packet :: "MediaPacket \<Rightarrow> int \<Rightarrow> bytes \<Rightarrow> MediaPacket" where
  "recovered_packet packet samples pcm =
     packet\<lparr>mp_codec := ''pcm'', mp_payload := pcm, mp_sequence := (mp_sequence packet - 1) AND 0xFFFF,
            mp_timestamp := (mp_timestamp packet - samples) AND 0xFFFFFFFF, mp_raw := [], mp_extension_payload := [],
            mp_rtp_extended := False, mp_rtp_extensions := [], mp_rtp_packets := [], mp_speaking_flags := None,
            mp_audio_level := None, mp_audio_voice_activity := None\<rparr>"

definition fec_applies :: "bool \<Rightarrow> MediaPacket \<Rightarrow> int \<Rightarrow> 'd OpusDecodeState \<Rightarrow> bool" where
  "fec_applies fec packet samples state =
     (case (os_sequence state, os_timestamp state) of
        (Some s, Some t) \<Rightarrow> fec \<and> sequence_delta (mp_sequence packet) s = 2
          \<and> rtp_timestamp_delta (mp_timestamp packet) t = Some (samples * 2)
      | _ \<Rightarrow> False)"

definition decoder_decode_packets ::
  "'d opus_decoder \<Rightarrow> MediaPacket \<Rightarrow> bool \<Rightarrow> 'd decoder_cache \<Rightarrow> MediaPacket list res \<times> 'd decoder_cache"
where
  "decoder_decode_packets opus packet fec cache =
     (if mp_codec packet = ''pcm'' then (Inr [packet], cache)
      else if mp_media_type packet \<noteq> ''audio'' \<or> mp_codec packet \<noteq> ''opus'' then (Inl TypeError, cache)
      else
        let (state, cache) = state_for opus packet cache
        in bind_res (packet_samples opus packet, cache) (\<lambda>samples cache.
             let (recovered, state, cache) =
                   (if fec_applies fec packet samples state
                    then case run_decoder opus (mp_ssrc packet) (mp_payload packet) True state cache of
                        (Inr (pcm, state), cache) \<Rightarrow> ([recovered_packet packet samples pcm], state, cache)
                      | (Inl _, cache) \<Rightarrow>
                          ([], state\<lparr>os_decoder := snd (od_decode opus (mp_payload packet) True (os_decoder state))\<rparr>, cache)
                    else ([], state, cache))
             in bind_res (run_decoder opus (mp_ssrc packet) (mp_payload packet) False state cache)
                  (\<lambda>(pcm, state) cache.
                    (Inr (recovered @ [packet\<lparr>mp_codec := ''pcm'', mp_payload := pcm\<rparr>]),
                     remember_position packet state cache))))"


section \<open>Sinks that transform audio\<close>

record 'd VolumeSink =
  vo_volume :: pyfloat
  vo_decoder :: "'d decoder_cache"

definition new_volume_sink :: "'k \<Rightarrow> pyfloat \<Rightarrow> ('k, 'd VolumeSink) DestinationSink" where
  "new_volume_sink destination volume =
     new_destination_sink destination \<lparr>vo_volume = max volume 0, vo_decoder = []\<rparr>"

definition wants_as_pcm :: "'k sink_ops \<Rightarrow> string \<Rightarrow> string \<Rightarrow> ('k, 'p) DestinationSink \<Rightarrow> bool" where
  "wants_as_pcm ops media_type codec s =
     (if ds_closed s then False
      else if media_type = ''audio'' \<and> codec = ''opus'' then si_wants ops ''audio'' ''pcm'' (ds_destination s)
      else si_wants ops media_type codec (ds_destination s))"

definition volume_sink_write ::
  "'k sink_ops \<Rightarrow> 'd opus_decoder \<Rightarrow> pyfloat \<Rightarrow> MediaPacket \<Rightarrow> ('k, 'd VolumeSink) DestinationSink
     \<Rightarrow> py_value res \<times> ('k, 'd VolumeSink) DestinationSink"
where
  "volume_sink_write ops opus now packet s =
     (if ds_closed s then (Inr PyNone, s)
      else if mp_media_type packet \<noteq> ''audio'' \<or> mp_codec packet \<notin> {''opus'', ''pcm''}
      then destination_write ops now packet s
      else
        let v = ds_state s;
            (pcm, cache) = (if mp_codec packet = ''opus'' then decoder_decode opus packet (vo_decoder v)
                            else (Inr (mp_payload packet), vo_decoder v))
        in bind_res (pcm, s\<lparr>ds_state := v\<lparr>vo_decoder := cache\<rparr>\<rparr>) (\<lambda>pcm s.
             case (if pcm \<noteq> [] then pcm16_mul pcm (min (vo_volume v) 2) else Inr pcm) of
               Inl e \<Rightarrow> (Inl e, s)
             | Inr payload \<Rightarrow>
                 destination_write ops now (packet\<lparr>mp_codec := ''pcm'', mp_payload := payload\<rparr>) s))"

definition volume_sink :: "'k sink_ops \<Rightarrow> 'd opus_decoder \<Rightarrow> ('k, 'd VolumeSink) DestinationSink sink_ops" where
  "volume_sink ops opus =
     \<lparr>si_closed = ds_closed, si_wants = wants_as_pcm ops, si_write = volume_sink_write ops opus,
      si_cleanup = (\<lambda>s. destination_cleanup ops (s\<lparr>ds_state := (ds_state s)\<lparr>vo_decoder := []\<rparr>\<rparr>))\<rparr>"

record 'd DecodeSink =
  dk_fec :: bool
  dk_decoder :: "'d decoder_cache"

definition new_decode_sink :: "'k \<Rightarrow> bool \<Rightarrow> ('k, 'd DecodeSink) DestinationSink" where
  "new_decode_sink destination fec = new_destination_sink destination \<lparr>dk_fec = fec, dk_decoder = []\<rparr>"

fun write_decoded ::
  "'k sink_ops \<Rightarrow> pyfloat \<Rightarrow> MediaPacket list \<Rightarrow> py_value \<Rightarrow> ('k, 'p) DestinationSink
     \<Rightarrow> py_value res \<times> ('k, 'p) DestinationSink"
where
  "write_decoded ops now [] result s = (Inr result, s)"
| "write_decoded ops now (p # ps) result s =
     bind_res (destination_write ops now p s) (\<lambda>result s. write_decoded ops now ps result s)"

definition decode_sink_write ::
  "'k sink_ops \<Rightarrow> 'd opus_decoder \<Rightarrow> pyfloat \<Rightarrow> MediaPacket \<Rightarrow> ('k, 'd DecodeSink) DestinationSink
     \<Rightarrow> py_value res \<times> ('k, 'd DecodeSink) DestinationSink"
where
  "decode_sink_write ops opus now packet s =
     (if ds_closed s then (Inr PyNone, s)
      else if mp_media_type packet = ''audio'' \<and> mp_codec packet = ''opus''
      then
        let d = ds_state s
        in if \<not> dk_fec d
           then let (r, cache) = decoder_decode opus packet (dk_decoder d)
                in bind_res (r, s\<lparr>ds_state := d\<lparr>dk_decoder := cache\<rparr>\<rparr>) (\<lambda>pcm s.
                     destination_write ops now (packet\<lparr>mp_codec := ''pcm'', mp_payload := pcm\<rparr>) s)
           else let (r, cache) = decoder_decode_packets opus packet (dk_fec d) (dk_decoder d)
                in bind_res (r, s\<lparr>ds_state := d\<lparr>dk_decoder := cache\<rparr>\<rparr>) (\<lambda>decoded s.
                     write_decoded ops now decoded PyNone s)
      else destination_write ops now packet s)"

definition decode_sink :: "'k sink_ops \<Rightarrow> 'd opus_decoder \<Rightarrow> ('k, 'd DecodeSink) DestinationSink sink_ops" where
  "decode_sink ops opus =
     \<lparr>si_closed = ds_closed, si_wants = wants_as_pcm ops, si_write = decode_sink_write ops opus,
      si_cleanup = (\<lambda>s. destination_cleanup ops (s\<lparr>ds_state := (ds_state s)\<lparr>dk_decoder := []\<rparr>\<rparr>))\<rparr>"

end
