(* ===== verification/SinkContract.thy ===== *)
theory SinkContract
  imports Sinks
begin

text \<open>
  The contract of a sink, the proof that the routing sinks keep it for whatever children keep it,
  and what the fan-out and the per-user sink guarantee.
\<close>

section \<open>The contract\<close>

locale sink_contract =
  fixes ops :: "'k sink_ops"
  assumes closed_write: "si_closed ops s \<Longrightarrow> snd (si_write ops now packet s) = s"
    and closed_wants: "si_closed ops s \<Longrightarrow> \<not> si_wants ops media_type codec s"
    and cleanup_closes: "si_closed ops (snd (si_cleanup ops s))"

fun write_all :: "'k sink_ops \<Rightarrow> (pyfloat \<times> MediaPacket) list \<Rightarrow> 'k \<Rightarrow> py_value res list \<times> 'k" where
  "write_all ops [] s = ([], s)"
| "write_all ops ((now, packet) # ps) s =
     (let (r, s) = si_write ops now packet s; (rs, s) = write_all ops ps s in (r # rs, s))"

context sink_contract
begin

lemma closed_write_all: "si_closed ops s \<Longrightarrow> snd (write_all ops ps s) = s"
  by (induction ps) (auto simp: case_prod_beta closed_write)

lemma cleaned_up_write_all: "snd (write_all ops ps (snd (si_cleanup ops s))) = snd (si_cleanup ops s)"
  by (rule closed_write_all [OF cleanup_closes])

lemma cleanup_each_closes:
  "fst (cleanup_each ops ks) = Inr () \<Longrightarrow> list_all (si_closed ops) (snd (cleanup_each ops ks))"
proof (induction ks)
  case (Cons k ks)
  then show ?case using cleanup_closes [of k]
    by (auto simp: case_prod_beta split: prod.splits sum.splits)
qed simp

lemma multi_sink_contract: "sink_contract (multi_sink ops)"
  by unfold_locales (auto simp: multi_sink_def multi_sink_write_def multi_sink_cleanup_def case_prod_beta)

lemma per_user_contract: "sink_contract (per_user_sink ops factory)"
proof (unfold_locales, goal_cases)
  case (3 s)
  show ?case
    by (cases "fst (cleanup_each ops (vals (pu_children s)))")
      (auto simp: per_user_sink_def per_user_cleanup_def case_prod_beta)
qed (auto simp: per_user_sink_def per_user_write_def)

lemma conditional_contract: "sink_contract (conditional_filter ops predicate)"
  by unfold_locales (auto simp: conditional_filter_def destination_cleanup_def case_prod_beta)

lemma media_filter_contract: "sink_contract (media_filter ops)"
  by unfold_locales (auto simp: media_filter_def conditional_filter_def destination_cleanup_def case_prod_beta)

lemma volume_sink_contract: "sink_contract (volume_sink ops opus)"
  by unfold_locales (auto simp: volume_sink_def volume_sink_write_def wants_as_pcm_def destination_cleanup_def case_prod_beta)

lemma decode_sink_contract: "sink_contract (decode_sink ops opus)"
  by unfold_locales (auto simp: decode_sink_def decode_sink_write_def wants_as_pcm_def destination_cleanup_def case_prod_beta)

end

text \<open>The sinks over one kind of child.\<close>

locale sink_children = sink_contract ops for ops :: "'k sink_ops"

sublocale sink_children \<subseteq> multi: sink_contract "multi_sink ops"
  by (rule multi_sink_contract)

sublocale sink_children \<subseteq> per_user: sink_contract "per_user_sink ops factory" for factory
  by (rule per_user_contract)

sublocale sink_children \<subseteq> timed: sink_contract "timed_filter ops"
  unfolding timed_filter_def by (rule conditional_contract)

sublocale sink_children \<subseteq> user: sink_contract "user_filter ops"
  unfolding user_filter_def by (rule conditional_contract)

sublocale sink_children \<subseteq> media: sink_contract "media_filter ops"
  by (rule media_filter_contract)

interpretation callback: sink_children "basic_sink callback"
  by unfold_locales (auto simp: basic_sink_def case_prod_beta)



section \<open>The per-user sink\<close>

text \<open>Children that record what they are given: the callback appends to a list.\<close>

definition recorder :: "MediaPacket list BasicSink sink_ops" where
  "recorder = basic_sink (\<lambda>packet seen. (Inr PyNone, seen @ [packet]))"

definition recording :: "MediaPacket list \<Rightarrow> MediaPacket list BasicSink" where
  "recording seen = new_basic_sink None None seen"

definition fresh_recorder :: "int \<Rightarrow> MediaPacket list BasicSink res" where
  "fresh_recorder _ = Inr (recording [])"

lemma recorder_simps [simp]:
  "si_write recorder now packet (recording seen) = (Inr PyNone, recording (seen @ [packet]))"
  "si_wants recorder media_type codec (recording seen)" "\<not> si_closed recorder (recording seen)"
  by (simp_all add: recorder_def recording_def basic_sink_def new_basic_sink_def media_matches_def lower_set_def)

definition of_ssrc :: "int \<Rightarrow> MediaPacket list \<Rightarrow> MediaPacket list" where
  "of_ssrc ssrc ps = filter (\<lambda>p. mp_ssrc p = ssrc) ps"

definition identified :: "int \<Rightarrow> MediaPacket list \<Rightarrow> bool" where
  "identified ssrc ps \<longleftrightarrow> list_ex (\<lambda>p. mp_ssrc p = ssrc \<and> mp_user_id p \<noteq> None) ps"

lemma of_ssrc_snoc [simp]: "of_ssrc ssrc (ps @ [p]) = of_ssrc ssrc ps @ (if mp_ssrc p = ssrc then [p] else [])"
  by (simp add: of_ssrc_def)

lemma identified_snoc [simp]:
  "identified ssrc (ps @ [p]) \<longleftrightarrow> identified ssrc ps \<or> mp_ssrc p = ssrc \<and> mp_user_id p \<noteq> None"
  by (simp add: identified_def)

lemma identified_nonempty: "identified ssrc ps \<Longrightarrow> of_ssrc ssrc ps \<noteq> []"
  by (auto simp: identified_def of_ssrc_def list_ex_iff filter_empty_conv)

text \<open>The child that holds the packets of a source: under its user once the user is known.\<close>

definition routed ::
  "(int \<Rightarrow> int) \<Rightarrow> MediaPacket list \<Rightarrow> MediaPacket list BasicSink PerUserSink \<Rightarrow> bool"
where
  "routed owner ps s \<longleftrightarrow>
     pu_fallback_to_ssrc s \<and> \<not> pu_closed s \<and> odict_ok (pu_children s)
     \<and> (\<forall>ssrc. map_of (pu_user_ids s) ssrc = (if identified ssrc ps then Some (owner ssrc) else None))
     \<and> (\<forall>ssrc. map_of (pu_children s) (UserKey (owner ssrc)) =
           (if identified ssrc ps then Some (recording (of_ssrc ssrc ps)) else None))
     \<and> (\<forall>ssrc. map_of (pu_children s) (SsrcKey ssrc) =
           (if \<not> identified ssrc ps \<and> of_ssrc ssrc ps \<noteq> [] then Some (recording (of_ssrc ssrc ps)) else None))"

lemma map_of_odict [simp]:
  "map_of (AList.update k v d) = (map_of d)(k \<mapsto> v)" "map_of (AList.delete k d) = (map_of d)(k := None)"
  by (auto simp: update_conv' delete_conv')

lemma per_user_write_child:
  assumes "\<not> pu_closed s" "packet_key_of p s = (Some key, s1)"
    and "map_of (pu_children s1) key = (if seen = [] then None else Some (recording seen))"
  shows "pu_children (snd (per_user_write recorder fresh_recorder now p s)) =
      (if seen = [] then AList.update key (recording [p]) (AList.update key (recording []) (pu_children s1))
       else AList.update key (recording (seen @ [p])) (pu_children s1))
    \<and> pu_user_ids (snd (per_user_write recorder fresh_recorder now p s)) = pu_user_ids s1
    \<and> pu_fallback_to_ssrc (snd (per_user_write recorder fresh_recorder now p s)) = pu_fallback_to_ssrc s1
    \<and> pu_closed (snd (per_user_write recorder fresh_recorder now p s)) = pu_closed s1"
  using assms by (simp add: per_user_write_def get_child_def fresh_recorder_def)

lemma routed_step:
  assumes "routed owner ps s" "inj owner" "mp_user_id p = None \<or> mp_user_id p = Some (owner (mp_ssrc p))"
  shows "routed owner (ps @ [p]) (snd (per_user_write recorder fresh_recorder now p s))"
proof -
  let ?r = "mp_ssrc p"
  let ?seen = "of_ssrc ?r ps"
  let ?s = "snd (per_user_write recorder fresh_recorder now p s)"
  have st: "\<not> pu_closed s" "pu_fallback_to_ssrc s" "odict_ok (pu_children s)"
    and ids: "\<And>x. map_of (pu_user_ids s) x = (if identified x ps then Some (owner x) else None)"
    and us: "\<And>x. map_of (pu_children s) (UserKey (owner x)) =
           (if identified x ps then Some (recording (of_ssrc x ps)) else None)"
    and ss: "\<And>x. map_of (pu_children s) (SsrcKey x) =
           (if \<not> identified x ps \<and> of_ssrc x ps \<noteq> [] then Some (recording (of_ssrc x ps)) else None)"
    using assms(1) by (auto simp: routed_def)
  have own: "owner x = owner ?r \<longleftrightarrow> x = ?r" for x using assms(2) by (auto dest: injD)
  consider (id) "mp_user_id p = Some (owner ?r)" | (known) "mp_user_id p = None" "identified ?r ps"
    | (unknown) "mp_user_id p = None" "\<not> identified ?r ps" using assms(3) by (cases "identified ?r ps") auto
  then show ?thesis
  proof cases
    case id
    define s1 where "s1 = snd (packet_key_of p s)"
    have k: "packet_key_of p s = (Some (UserKey (owner ?r)), s1)"
      by (simp add: s1_def packet_key_of_def id Let_def)
    have s1: "pu_user_ids s1 = AList.update ?r (owner ?r) (pu_user_ids s)" "\<not> pu_closed s1" "pu_fallback_to_ssrc s1"
      using st by (simp_all add: s1_def packet_key_of_def id Let_def split: option.split)
    have ch: "pu_children s1 = (case map_of (pu_children s) (SsrcKey ?r) of None \<Rightarrow> pu_children s
        | Some child \<Rightarrow> AList.update (UserKey (owner ?r)) child (AList.delete (SsrcKey ?r) (pu_children s)))"
      using us [of ?r] ss [of ?r]
      by (auto simp: s1_def packet_key_of_def id Let_def map_of_None_keys [symmetric] split: option.split if_splits)
    have c1: "map_of (pu_children s1) (UserKey (owner ?r)) = (if ?seen = [] then None else Some (recording ?seen))"
      using us [of ?r] ss [of ?r] identified_nonempty [of ?r ps] by (auto simp: ch split: option.split if_splits)
    have c2: "map_of (pu_children s1) (UserKey (owner x)) = map_of (pu_children s) (UserKey (owner x))" if "x \<noteq> ?r" for x
      using that own by (auto simp: ch split: option.split)
    have c3: "map_of (pu_children s1) (SsrcKey x) = (if x = ?r then None else map_of (pu_children s) (SsrcKey x))" for x
      by (auto simp: ch split: option.split)
    have c4: "odict_ok (pu_children s1)" using st(3) by (auto simp: ch split: option.split)
    show ?thesis
      using per_user_write_child [OF st(1) k c1] c2 c3 c4 s1 us ss ids own by (auto simp: routed_def id)
  next
    case known
    have k: "packet_key_of p s = (Some (UserKey (owner ?r)), s)" using ids [of ?r] known by (simp add: packet_key_of_def)
    have c: "map_of (pu_children s) (UserKey (owner ?r)) = (if ?seen = [] then None else Some (recording ?seen))"
      using us [of ?r] known identified_nonempty by simp
    show ?thesis using per_user_write_child [OF st(1) k c] us ss ids own st known identified_nonempty [OF known(2)]
      by (auto simp: routed_def)
  next
    case unknown
    have k: "packet_key_of p s = (Some (SsrcKey ?r), s)" using ids [of ?r] unknown st by (simp add: packet_key_of_def)
    have c: "map_of (pu_children s) (SsrcKey ?r) = (if ?seen = [] then None else Some (recording ?seen))"
      using ss [of ?r] unknown by simp
    show ?thesis using per_user_write_child [OF st(1) k c] us ss ids own st unknown
      by (auto simp: routed_def)
  qed
qed

lemma routed_all:
  assumes "inj owner" "list_all (\<lambda>(now, p). mp_user_id p = None \<or> mp_user_id p = Some (owner (mp_ssrc p))) ps"
    and "routed owner qs s"
  shows "routed owner (qs @ map snd ps) (snd (write_all (per_user_sink recorder fresh_recorder) ps s))"
  using assms(2,3)
proof (induction ps arbitrary: qs s)
  case (Cons x ps)
  obtain now p where x: "x = (now, p)" by fastforce
  have "routed owner (qs @ [p]) (snd (per_user_write recorder fresh_recorder now p s))"
    using routed_step [OF Cons.prems(2) assms(1)] Cons.prems(1) by (simp add: x)
  from Cons.IH [OF _ this] Cons.prems(1) show ?case by (simp add: x case_prod_beta per_user_sink_def)
qed simp

text \<open>
  C13. A per-user sink keeps recordings together: when every source (SSRC) belongs to one user of its
  own and packets carry either no user ID or that user's, then, whatever the order in which packets
  with and without an ID arrive, all packets of an identified source are in one child, in order,
  under its user, also those that came before the user was known, and all packets of a source that
  was never identified are in one child under its SSRC.
\<close>

theorem per_user_recordings_together:
  assumes "inj owner" and "list_all (\<lambda>(now, p). mp_user_id p = None \<or> mp_user_id p = Some (owner (mp_ssrc p))) ps"
    and "write_all (per_user_sink recorder fresh_recorder) ps (new_per_user_sink True) = (results, s)"
    and "of_ssrc ssrc (map snd ps) \<noteq> []"
  shows "map_of (pu_children s) (if identified ssrc (map snd ps) then UserKey (owner ssrc) else SsrcKey ssrc)
      = Some (recording (of_ssrc ssrc (map snd ps)))"
proof -
  have "routed owner [] (new_per_user_sink True)"
    by (simp add: routed_def new_per_user_sink_def identified_def of_ssrc_def)
  from routed_all [OF assms(1,2) this] assms(3,4) show ?thesis by (simp add: routed_def)
qed

definition sample_speech :: "int option \<Rightarrow> MediaPacket" where
  "sample_speech user = new_media_packet ''audio'' ''pcm'' [1] 0 False 0 0 5 user []"

theorem per_user_recordings_together_witness:
  "map_of (pu_children (snd (write_all (per_user_sink recorder fresh_recorder)
       [(0, sample_speech None), (0, sample_speech (Some 105)), (0, sample_speech None)] (new_per_user_sink True))))
     (UserKey 105) = Some (recording [sample_speech None, sample_speech (Some 105), sample_speech None])"
  using per_user_recordings_together [of "\<lambda>x. x + 100" _ _ _ 5, OF _ _ prod.collapse [symmetric],
    of "[(0, sample_speech None), (0, sample_speech (Some 105)), (0, sample_speech None)]"]
  by (simp add: identified_def of_ssrc_def sample_speech_def new_media_packet_def)

end
