(* ===== verification/SinkTree.thy ===== *)
theory SinkTree
  imports Prelude
begin

text \<open>
  The parent and child pointers of \<open>MediaSink\<close>: registration, \<open>root\<close>, \<open>walk_children\<close> and the base
  class's \<open>cleanup\<close>, on a heap of sink objects. The recursive methods take the interpreter's recursion
  limit as their first argument and raise \<open>RecursionError\<close> when it is used up.
\<close>

section \<open>The heap and its operations\<close>

record sink_node =
  sn_parent :: "nat option"
  sn_children :: "nat list"
  sn_fan_out :: bool \<comment> \<open>\<open>MultiSink\<close> and \<open>PerUserSink\<close> add a child, \<open>MediaSink\<close> replaces it\<close>
  sn_closed :: bool

type_synonym sink_heap = "sink_node list"

definition new_node :: "bool \<Rightarrow> sink_node" where
  "new_node fan_out = \<lparr>sn_parent = None, sn_children = [], sn_fan_out = fan_out, sn_closed = False\<rparr>"

abbreviation (input) "parent_of h i \<equiv> sn_parent (h ! i)"
abbreviation (input) "children_of h i \<equiv> sn_children (h ! i)"

fun sink_root :: "nat \<Rightarrow> sink_heap \<Rightarrow> nat \<Rightarrow> nat res" where
  "sink_root 0 h i = Inl RecursionError"
| "sink_root (Suc n) h i = (case parent_of h i of None \<Rightarrow> Inr i | Some p \<Rightarrow> sink_root n h p)"

text \<open>Depth first: a child, then what is below it, then the next child.\<close>

fun walk_children :: "nat \<Rightarrow> sink_heap \<Rightarrow> nat \<Rightarrow> nat list res" where
  "walk_children 0 h i = Inl RecursionError"
| "walk_children (Suc n) h i =
     map_res concat (sequence_res (map (\<lambda>c. map_res (Cons c) (walk_children n h c)) (children_of h i)))"

definition check_child :: "nat \<Rightarrow> sink_heap \<Rightarrow> nat \<Rightarrow> nat \<Rightarrow> unit res" where
  "check_child limit h self child =
     (if child = self \<or> parent_of h child \<noteq> None then Inl RuntimeError
      else and_then (sink_root limit h self) (\<lambda>root.
        and_then (walk_children limit h root) (\<lambda>below.
          if child \<in> set below then Inl RuntimeError
          else if sn_closed (h ! child) then Inl RuntimeError else Inr ())))"

definition link_child :: "sink_heap \<Rightarrow> nat \<Rightarrow> nat \<Rightarrow> sink_heap" where
  "link_child h self child =
     (let node = h ! self;
          children = (if sn_fan_out node then sn_children node @ [child] else [child]);
          h = h[self := node\<lparr>sn_children := children\<rparr>]
      in h[child := (h ! child)\<lparr>sn_parent := Some self\<rparr>])"

definition register_child :: "nat \<Rightarrow> nat \<Rightarrow> nat \<Rightarrow> sink_heap \<Rightarrow> unit res \<times> sink_heap" where
  "register_child limit self child h =
     bind_res (check_child limit h self child, h) (\<lambda>_ h. (Inr (), link_child h self child))"

fun register_each :: "nat \<Rightarrow> nat \<Rightarrow> nat list \<Rightarrow> sink_heap \<Rightarrow> unit res \<times> sink_heap" where
  "register_each limit self [] h = (Inr (), h)"
| "register_each limit self (c # cs) h =
     bind_res (register_child limit self c h) (\<lambda>_ h. register_each limit self cs h)"

text \<open>\<open>MediaSink.__init__\<close> and \<open>MultiSink.__init__\<close>: a new object that registers its destinations.\<close>

definition construct_sink :: "nat \<Rightarrow> bool \<Rightarrow> nat list \<Rightarrow> sink_heap \<Rightarrow> unit res \<times> sink_heap" where
  "construct_sink limit fan_out destinations h =
     register_each limit (length h) destinations (h @ [new_node fan_out])"

text \<open>\<open>MediaSink.cleanup\<close>.\<close>

fun cleanup_tree :: "nat \<Rightarrow> nat \<Rightarrow> sink_heap \<Rightarrow> unit res \<times> sink_heap"
  and cleanup_children :: "nat \<Rightarrow> nat list \<Rightarrow> sink_heap \<Rightarrow> unit res \<times> sink_heap"
where
  "cleanup_tree 0 i h = (Inl RecursionError, h)"
| "cleanup_tree (Suc n) i h =
     (if sn_closed (h ! i) then (Inr (), h)
      else cleanup_children n (children_of h i) (h[i := (h ! i)\<lparr>sn_closed := True\<rparr>]))"
| "cleanup_children n [] h = (Inr (), h)"
| "cleanup_children n (c # cs) h =
     bind_res (cleanup_tree n c h) (\<lambda>_ h. cleanup_children n cs h)"


section \<open>Forests\<close>

definition parent_rel :: "sink_heap \<Rightarrow> (nat \<times> nat) set" where
  "parent_rel h = {(i, p). i < length h \<and> parent_of h i = Some p}"

text \<open>
  Every child exists and points back to the one sink that lists it, once, and no sink is its own
  ancestor.
\<close>

definition forest :: "sink_heap \<Rightarrow> bool" where
  "forest h \<longleftrightarrow> acyclic (parent_rel h)
     \<and> (\<forall>i < length h. distinct (children_of h i) \<and> (\<forall>c \<in> set (children_of h i). c < length h \<and> parent_of h c = Some i))
     \<and> (\<forall>i < length h. \<forall>p. parent_of h i = Some p \<longrightarrow> p < length h \<and> i \<in> set (children_of h p))"

lemma forestD:
  assumes "forest h"
  shows "acyclic (parent_rel h)" and "i < length h \<Longrightarrow> distinct (children_of h i)"
    and "i < length h \<Longrightarrow> c \<in> set (children_of h i) \<Longrightarrow> c < length h \<and> parent_of h c = Some i"
    and "i < length h \<Longrightarrow> parent_of h i = Some p \<Longrightarrow> p < length h \<and> i \<in> set (children_of h p)"
  using assms unfolding forest_def by blast+

lemma forestI:
  assumes "acyclic (parent_rel h)" and "\<And>i. i < length h \<Longrightarrow> distinct (children_of h i)"
    and "\<And>i c. i < length h \<Longrightarrow> c \<in> set (children_of h i) \<Longrightarrow> c < length h \<and> parent_of h c = Some i"
    and "\<And>i p. i < length h \<Longrightarrow> parent_of h i = Some p \<Longrightarrow> p < length h \<and> i \<in> set (children_of h p)"
  shows "forest h"
  using assms unfolding forest_def by blast

lemma new_node_simps [simp]:
  "sn_parent (new_node f) = None" "sn_children (new_node f) = []" "sn_fan_out (new_node f) = f" "\<not> sn_closed (new_node f)"
  by (simp_all add: new_node_def)

lemma finite_parent_rel: "finite (parent_rel h)"
proof -
  have "parent_rel h \<subseteq> (\<lambda>i. (i, the (parent_of h i))) ` {..<length h}" by (force simp: parent_rel_def)
  then show ?thesis by (rule finite_subset) simp
qed

lemma forest_wf:
  assumes "forest h"
  shows "wf (parent_rel h)" and "wf ((parent_rel h)\<inverse>)"
proof -
  have "acyclic (parent_rel h)" by (rule forestD(1) [OF assms])
  then show "wf (parent_rel h)" and "wf ((parent_rel h)\<inverse>)"
    by (rule finite_acyclic_wf [OF finite_parent_rel], rule finite_acyclic_wf_converse [OF finite_parent_rel])
qed

lemma sink_root_mono: "sink_root n h i = Inr r \<Longrightarrow> n \<le> m \<Longrightarrow> sink_root m h i = Inr r"
proof (induction n arbitrary: i m)
  case (Suc n)
  then obtain k where "m = Suc k" "n \<le> k" by (cases m) auto
  with Suc show ?case by (auto split: option.splits)
qed simp

lemma forest_parent: "forest h \<Longrightarrow> i < length h \<Longrightarrow> parent_of h i = Some p \<Longrightarrow> p < length h"
  using forestD(4) by blast

text \<open>In a forest \<open>root\<close> and \<open>walk_children\<close> return, given a recursion limit that is large enough.\<close>

lemma forest_root:
  assumes "forest h" "i < length h"
  shows "\<exists>n r. sink_root n h i = Inr r \<and> r < length h \<and> parent_of h r = None \<and> (i, r) \<in> (parent_rel h)\<^sup>*"
  using forest_wf(2) [OF assms(1)] assms(2)
proof (induction i rule: wf_induct_rule)
  case (less i)
  show ?case
  proof (cases "parent_of h i")
    case None
    then have "sink_root (Suc 0) h i = Inr i" by simp
    then show ?thesis using None less.prems by blast
  next
    case (Some p)
    then have p: "(p, i) \<in> (parent_rel h)\<inverse>" "p < length h"
      using less.prems forest_parent [OF assms(1)] by (auto simp: parent_rel_def)
    from less.IH [OF this] obtain n r where
      r: "sink_root n h p = Inr r" "r < length h" "parent_of h r = None" "(p, r) \<in> (parent_rel h)\<^sup>*" by blast
    then have "sink_root (Suc n) h i = Inr r" using Some by simp
    moreover have "(i, r) \<in> (parent_rel h)\<^sup>*" using p(1) r(4) by (auto intro: converse_rtrancl_into_rtrancl)
    ultimately show ?thesis using r by blast
  qed
qed

lemma sink_root_sound:
  assumes "forest h"
  shows "sink_root n h i = Inr r \<Longrightarrow> i < length h \<Longrightarrow> (i, r) \<in> (parent_rel h)\<^sup>* \<and> parent_of h r = None \<and> r < length h"
proof (induction n arbitrary: i)
  case (Suc n)
  show ?case
  proof (cases "parent_of h i")
    case (Some p)
    then have "p < length h" "(i, p) \<in> parent_rel h"
      using forest_parent [OF assms Suc.prems(2)] Suc.prems(2) by (auto simp: parent_rel_def)
    with Suc.IH [of p] Suc.prems(1) Some show ?thesis by (auto intro: converse_rtrancl_into_rtrancl)
  qed (use Suc.prems in simp)
qed simp


text \<open>A sink without a parent is the only ancestor of itself.\<close>

lemma no_parent_ancestor: "parent_of h i = None \<Longrightarrow> (i, x) \<in> (parent_rel h)\<^sup>* \<Longrightarrow> x = i"
  by (erule converse_rtranclE) (auto simp: parent_rel_def)

lemma link_child_simps [simp]: "length (link_child h self child) = length h"
  by (simp add: link_child_def Let_def)

lemma link_child_parent:
  "self < length h \<Longrightarrow> child < length h \<Longrightarrow> child \<noteq> self \<Longrightarrow>
    parent_of (link_child h self child) i = (if i = child then Some self else parent_of h i)"
  by (auto simp: link_child_def Let_def nth_list_update)

lemma link_child_children:
  "self < length h \<Longrightarrow> child < length h \<Longrightarrow> child \<noteq> self \<Longrightarrow>
    children_of (link_child h self child) i =
      (if i = self then (if sn_fan_out (h ! self) then children_of h self @ [child] else [child]) else children_of h i)"
  by (auto simp: link_child_def Let_def nth_list_update)

lemma link_child_fan_out:
  "self < length h \<Longrightarrow> child < length h \<Longrightarrow> sn_fan_out (link_child h self child ! i) = sn_fan_out (h ! i)"
  by (simp add: link_child_def Let_def nth_list_update)

lemma forest_link:
  assumes f: "forest h" and l: "self < length h" "child < length h" "child \<noteq> self"
    and c: "parent_of h child = None" and a: "(self, child) \<notin> (parent_rel h)\<^sup>*"
    and k: "sn_fan_out (h ! self) \<or> children_of h self = []"
  shows "forest (link_child h self child)"
proof -
  note p = link_child_parent [OF l] and ch = link_child_children [OF l]
  have "parent_rel (link_child h self child) = insert (child, self) (parent_rel h)"
    using l(2) c by (auto simp: parent_rel_def p split: if_splits)
  then have acyc: "acyclic (parent_rel (link_child h self child))"
    using forestD(1) [OF f] a by (simp add: acyclic_insert)
  have fresh: "child \<notin> set (children_of h i)" if "i < length h" for i
    using forestD(3) [OF f that] c by force
  show ?thesis
  proof (rule forestI [OF acyc], goal_cases)
    case (1 i)
    then show ?case using forestD(2) [OF f, of i] k fresh [of i] by (auto simp: ch)
  next
    case (2 i x)
    then have "x = child \<and> i = self \<or> i < length h \<and> x \<in> set (children_of h i)"
      using k by (auto simp: ch split: if_splits)
    then show ?case using forestD(3) [OF f, of i x] fresh [of i] l(2) by (auto simp: p)
  next
    case (3 i q)
    then have "i = child \<and> q = self \<or> i < length h \<and> parent_of h i = Some q" by (auto simp: p split: if_splits)
    then show ?case using forestD(4) [OF f, of i q] l(1) k by (auto simp: ch)
  qed
qed

lemma forest_append:
  assumes "forest h"
  shows "forest (h @ [new_node fan_out])"
proof -
  have n: "i < Suc (length h) \<Longrightarrow> (h @ [new_node fan_out]) ! i = (if i < length h then h ! i else new_node fan_out)" for i
    by (auto simp: nth_append less_Suc_eq)
  have p: "parent_rel (h @ [new_node fan_out]) = parent_rel h"
    by (auto simp: parent_rel_def n split: if_splits)
  show ?thesis
  proof (rule forestI, unfold p, goal_cases)
    case 1
    show ?case by (rule forestD(1) [OF assms])
  next
    case (2 i)
    then show ?case using forestD(2) [OF assms] by (simp add: n)
  next
    case (3 i c)
    then have "i < length h" "c \<in> set (children_of h i)" by (auto simp: n split: if_splits)
    then show ?case using forestD(3) [OF assms, of i c] by (simp add: n)
  next
    case (4 i q)
    then have "i < length h" "parent_of h i = Some q" by (auto simp: n split: if_splits)
    then show ?case using forestD(4) [OF assms, of i q] by (simp add: n)
  qed
qed

text \<open>What \<open>check_child\<close> establishes.\<close>

lemma check_childD:
  assumes "forest h" "check_child limit h self child = Inr ()" "self < length h"
  shows "child \<noteq> self \<and> parent_of h child = None \<and> sn_closed (h ! child) = False
    \<and> (\<exists>root. sink_root limit h self = Inr root \<and> (child \<noteq> root \<longrightarrow> (self, child) \<notin> (parent_rel h)\<^sup>*))"
proof -
  obtain root where r: "sink_root limit h self = Inr root"
    and c: "child \<noteq> self" "parent_of h child = None" "\<not> sn_closed (h ! child)"
    using assms(2) by (cases "sink_root limit h self"; cases "walk_children limit h (projr (sink_root limit h self))")
      (auto simp: check_child_def split: if_splits)
  have "(self, root) \<in> (parent_rel h)\<^sup>*" "parent_of h root = None"
    using sink_root_sound [OF assms(1) r assms(3)] by auto
  moreover have "single_valued (parent_rel h)" by (auto simp: parent_rel_def single_valued_def)
  ultimately have "child = root" if "(self, child) \<in> (parent_rel h)\<^sup>*"
    using that c(2) single_valued_confluent [of "parent_rel h" self root child] no_parent_ancestor by blast
  then show ?thesis using r c by blast
qed


section \<open>Reachable heaps are forests\<close>

text \<open>
  Constructors register existing sinks under the new object, at most one unless it fans out; a
  \<open>PerUserSink\<close> registers what its factory returns, here any sink but the root of its own tree.
\<close>

inductive sink_built :: "nat \<Rightarrow> sink_heap \<Rightarrow> bool" for limit where
  built_none: "sink_built limit []"
| built_construct: "sink_built limit h \<Longrightarrow> list_all (\<lambda>c. c < length h) destinations \<Longrightarrow>
    fan_out \<or> length destinations \<le> 1 \<Longrightarrow> sink_built limit (snd (construct_sink limit fan_out destinations h))"
| built_per_user: "sink_built limit h \<Longrightarrow> self < length h \<Longrightarrow> child < length h \<Longrightarrow> sn_fan_out (h ! self) \<Longrightarrow>
    sink_root limit h self \<noteq> Inr child \<Longrightarrow> sink_built limit (snd (register_child limit self child h))"
| built_cleanup: "sink_built limit h \<Longrightarrow> sink_built limit (snd (cleanup_tree limit i h))"

definition same_links :: "sink_heap \<Rightarrow> sink_heap \<Rightarrow> bool" where
  "same_links h h' \<longleftrightarrow> length h' = length h \<and> (\<forall>i. parent_of h' i = parent_of h i \<and> children_of h' i = children_of h i)"

lemma same_links_refl [simp]: "same_links h h"
  by (simp add: same_links_def)

lemma same_links_trans: "same_links a b \<Longrightarrow> same_links b c \<Longrightarrow> same_links a c"
  by (simp add: same_links_def)

lemma same_links_close: "same_links h (h[i := (h ! i)\<lparr>sn_closed := b\<rparr>])"
  by (cases "i < length h") (auto simp: same_links_def nth_list_update list_update_beyond)

lemma cleanup_same_links:
  "same_links h (snd (cleanup_tree n i h))" "same_links h (snd (cleanup_children n cs h))"
proof (induction n i h and n cs h rule: cleanup_tree_cleanup_children.induct)
  case (2 n i h)
  then show ?case using same_links_close [of h i True] by (auto intro: same_links_trans)
next
  case (4 n c cs h)
  obtain r h1 where t: "cleanup_tree n c h = (r, h1)" by fastforce
  then show ?case using 4 by (cases r) (auto intro: same_links_trans)
qed simp_all

lemma forest_same_links:
  assumes "same_links h h'" "forest h"
  shows "forest h'"
proof -
  have l: "length h' = length h" "\<And>i. parent_of h' i = parent_of h i" "\<And>i. children_of h' i = children_of h i"
    using assms(1) by (simp_all add: same_links_def)
  have r: "parent_rel h' = parent_rel h" by (simp add: parent_rel_def l)
  show ?thesis
  proof (rule forestI, unfold l r, goal_cases)
    case 1
    show ?case by (rule forestD(1) [OF assms(2)])
  next
    case (2 i)
    then show ?case by (rule forestD(2) [OF assms(2)])
  next
    case (3 i c)
    then show ?case by (rule forestD(3) [OF assms(2)])
  next
    case (4 i p)
    then show ?case by (rule forestD(4) [OF assms(2)])
  qed
qed

lemma register_child_forest:
  assumes "forest h" "self < length h" "child < length h" "sink_root limit h self \<noteq> Inr child"
    and "sn_fan_out (h ! self) \<or> children_of h self = []" "register_child limit self child h = (r, h')"
  shows "forest h' \<and> length h' = length h \<and> parent_of h' self = parent_of h self
    \<and> sn_fan_out (h' ! self) = sn_fan_out (h ! self)"
proof (cases "check_child limit h self child")
  case (Inr u)
  then have c: "check_child limit h self child = Inr ()" by simp
  have h': "h' = link_child h self child" using assms(6) c by (simp add: register_child_def)
  from check_childD [OF assms(1) c assms(2)] assms
  have "forest h'" "child \<noteq> self" unfolding h' by (auto intro!: forest_link)
  then show ?thesis using link_child_parent [of self h child self] assms(2,3)
    by (simp add: h' link_child_fan_out)
qed (use assms in \<open>simp add: register_child_def\<close>)

lemma register_each_forest:
  assumes "forest h" "self < length h" "parent_of h self = None" "list_all (\<lambda>c. c < length h) cs"
    and "sn_fan_out (h ! self) \<or> children_of h self = [] \<and> length cs \<le> 1"
  shows "forest (snd (register_each limit self cs h))"
  using assms
proof (induction cs arbitrary: h)
  case (Cons c cs)
  obtain r h1 where r: "register_child limit self c h = (r, h1)" by fastforce
  show ?case
  proof (cases "check_child limit h self c")
    case Inl
    then show ?thesis using Cons.prems by (simp add: register_child_def)
  next
    case (Inr u)
    then have "c \<noteq> self" using check_childD [OF Cons.prems(1) _ Cons.prems(2)] by simp
    then have "sink_root limit h self \<noteq> Inr c" using Cons.prems(3) by (cases limit) auto
    from register_child_forest [OF Cons.prems(1,2) _ this _ r] Cons.prems(4,5)
    have f: "forest h1" "length h1 = length h" "parent_of h1 self = parent_of h self"
      "sn_fan_out (h1 ! self) = sn_fan_out (h ! self)" by auto
    then show ?thesis using Cons.IH [of h1] Cons.prems
      by (cases r; cases cs) (auto simp: r)
  qed
qed simp

lemma sink_built_forest: "sink_built limit h \<Longrightarrow> forest h"
proof (induction rule: sink_built.induct)
  case built_none
  show ?case by (simp add: forest_def parent_rel_def acyclic_def)
next
  case (built_construct h destinations fan_out)
  then show ?case 
    using register_each_forest [OF forest_append [OF built_construct.IH], of "length h" _ destinations limit]
    by (auto simp: construct_sink_def list_all_iff less_SucI)
next
  case (built_per_user h self child)
  then show ?case using register_child_forest [of h self child limit] by (metis prod.collapse)
next
  case (built_cleanup h i)
  then show ?case using forest_same_links cleanup_same_links(1) by blast
qed


definition sample_tree :: sink_heap where
  "sample_tree = snd (construct_sink 9 True [0, 1] (snd (construct_sink 9 False [] (snd (construct_sink 9 False [] [])))))"


definition cyclic_tree :: sink_heap where
  "cyclic_tree = snd (register_child 9 0 1 (snd (construct_sink 9 True [0] (snd (construct_sink 9 True [] [])))))"

lemma cyclic_root: "sink_root n cyclic_tree 0 = Inl RecursionError \<and> sink_root n cyclic_tree 1 = Inl RecursionError"
proof (induction n)
  case (Suc n)
  have "parent_of cyclic_tree 0 = Some 1" "parent_of cyclic_tree 1 = Some 0" by code_simp+
  then show ?case using Suc by simp
qed simp

text \<open>
  C39. The check misses one case: \<open>walk_children\<close> does not yield the root itself, so a sink can be
  registered under its own descendant (when the factory of a \<open>PerUserSink\<close> returns the root of the
  tree it is in). The registration succeeds, and from then on \<open>root\<close> raises \<open>RecursionError\<close> on both
  sinks whatever the limit is.
\<close>

theorem root_registered_below_itself:
  "fst (register_child 9 0 1 (snd (construct_sink 9 True [0] (snd (construct_sink 9 True [] []))))) = Inr ()
    \<and> sink_root n cyclic_tree 0 = Inl RecursionError \<and> sink_root n cyclic_tree 1 = Inl RecursionError"
  using cyclic_root by (intro conjI) (code_simp, auto)

end
