(* ===== verification/QueueSinks.thy ===== *)
theory QueueSinks
  imports SinkContract
begin

text \<open>
  The sinks with a life of their own: \<open>SilenceFillSink\<close>, whose thread pads gaps with silence, and the
  queue sinks, which hand packets to another thread or to an event loop. Each entry of the thread's
  loop, each callback the loop runs and each call of a consumer is a step of its own.
\<close>

section \<open>SilenceFillSink\<close>

record SilenceTrack =
  st_packet :: MediaPacket
  st_next_due :: pyfloat
  st_sequence :: int
  st_timestamp :: int
  st_emitted_for :: pyfloat

record 'd SilenceFill =
  sf_silence_after :: pyfloat
  sf_frame_duration :: pyfloat
  sf_max_silence :: "pyfloat option"
  sf_samples_per_frame :: int
  sf_silence :: bytes
  sf_silence_level :: int
  sf_decoder :: "'d decoder_cache"
  sf_tracks :: "(packet_key, SilenceTrack) odict"

text \<open>\<open>level\<close> is the library's \<open>RTP_AUDIO_LEVEL_SILENCE\<close>.\<close>

definition new_silence_fill ::
  "'d opus_decoder \<Rightarrow> int \<Rightarrow> 'k \<Rightarrow> pyfloat \<Rightarrow> pyfloat \<Rightarrow> pyfloat option \<Rightarrow> ('k, 'd SilenceFill) DestinationSink"
where
  "new_silence_fill opus level destination silence_after frame_duration max_silence =
     (let duration = max (1 / 1000) frame_duration;
          samples = max 1 (py_round (of_int (od_sampling_rate opus) * duration))
      in new_destination_sink destination
           \<lparr>sf_silence_after = max 0 silence_after, sf_frame_duration = duration,
            sf_max_silence = map_option (max 0) max_silence, sf_samples_per_frame = samples,
            sf_silence = replicate (nat (samples * od_sample_size opus)) 0, sf_silence_level = level,
            sf_decoder = [], sf_tracks = []\<rparr>)"

definition silence_wants :: "'k sink_ops \<Rightarrow> string \<Rightarrow> string \<Rightarrow> ('k, 'd SilenceFill) DestinationSink \<Rightarrow> bool" where
  "silence_wants ops media_type codec s =
     (if ds_closed s then False
      else if media_type = ''audio''
      then si_wants ops media_type codec (ds_destination s) \<or> si_wants ops ''audio'' ''pcm'' (ds_destination s)
      else si_wants ops media_type codec (ds_destination s))"

definition track_key :: "MediaPacket \<Rightarrow> packet_key" where
  "track_key packet = (case mp_user_id packet of Some u \<Rightarrow> UserKey u | None \<Rightarrow> SsrcKey (mp_ssrc packet))"

definition new_track :: "'d SilenceFill \<Rightarrow> pyfloat \<Rightarrow> MediaPacket \<Rightarrow> SilenceTrack" where
  "new_track f now packet =
     \<lparr>st_packet = packet, st_next_due = now + sf_silence_after f,
      st_sequence = (mp_sequence packet + 1) AND 0xFFFF,
      st_timestamp = (mp_timestamp packet + sf_samples_per_frame f) AND 0xFFFFFFFF, st_emitted_for = 0\<rparr>"

definition remember_audio_packet ::
  "'k sink_ops \<Rightarrow> pyfloat \<Rightarrow> MediaPacket \<Rightarrow> ('k, 'd SilenceFill) DestinationSink \<Rightarrow> ('k, 'd SilenceFill) DestinationSink"
where
  "remember_audio_packet ops now packet s =
     (if mp_media_type packet \<noteq> ''audio'' then s
      else if \<not> si_wants ops ''audio'' ''pcm'' (ds_destination s) then s
      else s\<lparr>ds_state := (ds_state s)\<lparr>sf_tracks :=
             AList.update (track_key packet) (new_track (ds_state s) now packet) (sf_tracks (ds_state s))\<rparr>\<rparr>)"

definition silence_write ::
  "'k sink_ops \<Rightarrow> 'd opus_decoder \<Rightarrow> pyfloat \<Rightarrow> MediaPacket \<Rightarrow> ('k, 'd SilenceFill) DestinationSink
     \<Rightarrow> py_value res \<times> ('k, 'd SilenceFill) DestinationSink"
where
  "silence_write ops opus now packet s =
     (if ds_closed s then (Inr PyNone, s)
      else
        bind_res
          (if si_wants ops (mp_media_type packet) (mp_codec packet) (ds_destination s)
           then destination_write ops now packet s
           else if mp_media_type packet = ''audio'' \<and> mp_codec packet = ''opus''
             \<and> si_wants ops ''audio'' ''pcm'' (ds_destination s)
           then let (r, cache) = decoder_decode opus packet (sf_decoder (ds_state s))
                in bind_res (r, s\<lparr>ds_state := (ds_state s)\<lparr>sf_decoder := cache\<rparr>\<rparr>) (\<lambda>pcm s.
                     destination_write ops now (packet\<lparr>mp_codec := ''pcm'', mp_payload := pcm\<rparr>) s)
           else (Inr PyNone, s))
          (\<lambda>result s. (Inr result, remember_audio_packet ops now packet s)))"

definition make_silence_packet :: "'d SilenceFill \<Rightarrow> SilenceTrack \<Rightarrow> MediaPacket \<times> SilenceTrack" where
  "make_silence_packet f track =
     ((st_packet track)\<lparr>mp_codec := ''pcm'', mp_payload := sf_silence f, mp_marker := False,
          mp_sequence := st_sequence track, mp_timestamp := st_timestamp track, mp_raw := [],
          mp_extension_payload := [], mp_rtp_extended := False, mp_rtp_extensions := [],
          mp_speaking_flags := Some 0, mp_audio_level := Some (sf_silence_level f),
          mp_audio_voice_activity := Some False\<rparr>,
      track\<lparr>st_sequence := (st_sequence track + 1) AND 0xFFFF,
            st_timestamp := (st_timestamp track + sf_samples_per_frame f) AND 0xFFFFFFFF,
            st_next_due := st_next_due track + sf_frame_duration f,
            st_emitted_for := st_emitted_for track + sf_frame_duration f\<rparr>)"

text \<open>\<open>_collect_silence_packets\<close>, over the tracks in the order of the dictionary.\<close>

definition silence_spent :: "'d SilenceFill \<Rightarrow> SilenceTrack \<Rightarrow> bool" where
  "silence_spent f track = (case sf_max_silence f of None \<Rightarrow> False | Some m \<Rightarrow> st_emitted_for track \<ge> m)"

fun collect_tracks ::
  "'d SilenceFill \<Rightarrow> pyfloat \<Rightarrow> (packet_key, SilenceTrack) odict \<Rightarrow> MediaPacket list \<times> (packet_key, SilenceTrack) odict"
where
  "collect_tracks f now [] = ([], [])"
| "collect_tracks f now ((key, track) # tracks) =
     (let (packets, rest) = collect_tracks f now tracks
      in if silence_spent f track then (packets, rest)
         else if st_next_due track > now then (packets, (key, track) # rest)
         else let (packet, track) = make_silence_packet f track in (packet # packets, (key, track) # rest))"

definition collect_silence :: "pyfloat \<Rightarrow> 'd SilenceFill \<Rightarrow> MediaPacket list \<times> 'd SilenceFill" where
  "collect_silence now f = (let (packets, tracks) = collect_tracks f now (sf_tracks f) in (packets, f\<lparr>sf_tracks := tracks\<rparr>))"

text \<open>One round of \<open>_run\<close>; an exception of the destination is logged.\<close>

fun write_silence ::
  "'k sink_ops \<Rightarrow> pyfloat \<Rightarrow> MediaPacket list \<Rightarrow> ('k, 'd SilenceFill) DestinationSink \<Rightarrow> ('k, 'd SilenceFill) DestinationSink"
where
  "write_silence ops now [] s = s"
| "write_silence ops now (p # ps) s =
     (if ds_closed s then s else write_silence ops now ps (snd (destination_write ops now p s)))"

definition silence_round ::
  "'k sink_ops \<Rightarrow> pyfloat \<Rightarrow> ('k, 'd SilenceFill) DestinationSink \<Rightarrow> ('k, 'd SilenceFill) DestinationSink"
where
  "silence_round ops now s =
     (if ds_closed s then s
      else if \<not> si_wants ops ''audio'' ''pcm'' (ds_destination s) then s
      else let (packets, f) = collect_silence now (ds_state s)
           in write_silence ops now packets (s\<lparr>ds_state := f\<rparr>))"

definition silence_cleanup ::
  "'k sink_ops \<Rightarrow> ('k, 'd SilenceFill) DestinationSink \<Rightarrow> unit res \<times> ('k, 'd SilenceFill) DestinationSink"
where
  "silence_cleanup ops s =
     (if ds_closed s then (Inr (), s)
      else destination_cleanup ops (s\<lparr>ds_state := (ds_state s)\<lparr>sf_tracks := [], sf_decoder := []\<rparr>\<rparr>))"

definition silence_fill_sink :: "'k sink_ops \<Rightarrow> 'd opus_decoder \<Rightarrow> ('k, 'd SilenceFill) DestinationSink sink_ops" where
  "silence_fill_sink ops opus =
     \<lparr>si_closed = ds_closed, si_wants = silence_wants ops, si_write = silence_write ops opus,
      si_cleanup = silence_cleanup ops\<rparr>"

section \<open>How much silence is sent\<close>

fun collect_rounds ::
  "pyfloat list \<Rightarrow> 'd SilenceFill \<Rightarrow> (pyfloat \<times> MediaPacket) list \<times> 'd SilenceFill"
where
  "collect_rounds [] f = ([], f)"
| "collect_rounds (now # nows) f =
     (let (packets, f) = collect_silence now f; (later, f) = collect_rounds nows f
      in (map (Pair now) packets @ later, f))"

text \<open>The track of a packet after \<open>k\<close> packets of silence, and the next of them.\<close>

definition track_after :: "'d SilenceFill \<Rightarrow> pyfloat \<Rightarrow> MediaPacket \<Rightarrow> nat \<Rightarrow> SilenceTrack" where
  "track_after f t0 packet k =
     \<lparr>st_packet = packet, st_next_due = t0 + sf_silence_after f + of_nat k * sf_frame_duration f,
      st_sequence = (mp_sequence packet + 1 + int k) mod 65536,
      st_timestamp = (mp_timestamp packet + (1 + int k) * sf_samples_per_frame f) mod 4294967296,
      st_emitted_for = of_nat k * sf_frame_duration f\<rparr>"

definition silence_number :: "'d SilenceFill \<Rightarrow> MediaPacket \<Rightarrow> nat \<Rightarrow> MediaPacket" where
  "silence_number f packet k =
     packet\<lparr>mp_codec := ''pcm'', mp_payload := sf_silence f, mp_marker := False,
        mp_sequence := (mp_sequence packet + 1 + int k) mod 65536,
        mp_timestamp := (mp_timestamp packet + (1 + int k) * sf_samples_per_frame f) mod 4294967296, mp_raw := [],
        mp_extension_payload := [], mp_rtp_extended := False, mp_rtp_extensions := [],
        mp_speaking_flags := Some 0, mp_audio_level := Some (sf_silence_level f),
        mp_audio_voice_activity := Some False\<rparr>"

lemma new_track_after: "new_track f t0 packet = track_after f t0 packet 0"
  by (simp add: new_track_def track_after_def)

lemma make_silence_after:
  "make_silence_packet f (track_after f t0 packet k) = (silence_number f packet k, track_after f t0 packet (Suc k))"
proof -
  have step: "(x mod m + n) mod m = y mod m" if "x + n = y" for x y n m :: int
    using that mod_add_left_eq [of x m n] by simp
  have s1: "((mp_sequence packet + 1 + int k) mod 65536 + 1) mod 65536 = (mp_sequence packet + 1 + int (Suc k)) mod 65536"
    by (rule step) simp
  have s2: "((mp_timestamp packet + (1 + int k) * sf_samples_per_frame f) mod 4294967296 + sf_samples_per_frame f) mod 4294967296
      = (mp_timestamp packet + (1 + int (Suc k)) * sf_samples_per_frame f) mod 4294967296"
    by (rule step) (simp add: algebra_simps)
  have s3: "x + of_nat k * sf_frame_duration f + sf_frame_duration f = x + of_nat (Suc k) * sf_frame_duration f"
    "of_nat k * sf_frame_duration f + sf_frame_duration f = of_nat (Suc k) * sf_frame_duration f" for x
    by (simp_all add: algebra_simps)
  show ?thesis
    by (simp only: make_silence_packet_def track_after_def silence_number_def SilenceTrack.simps and_FFFF and_FFFFFFFF s1 s2 s3)
qed

lemma collect_one:
  assumes "sf_tracks f = [(key, track_after f t0 packet k)]"
  shows "collect_silence now f =
    (if silence_spent f (track_after f t0 packet k) then ([], f\<lparr>sf_tracks := []\<rparr>)
     else if st_next_due (track_after f t0 packet k) > now then ([], f)
     else ([silence_number f packet k], f\<lparr>sf_tracks := [(key, track_after f t0 packet (Suc k))]\<rparr>))"
proof -
  have self: "f\<lparr>sf_tracks := [(key, track_after f t0 packet k)]\<rparr> = f" unfolding assms [symmetric] by simp
  show ?thesis by (simp add: collect_silence_def assms make_silence_after self)
qed

lemma track_after_cong [simp]:
  "track_after (f\<lparr>sf_tracks := ts\<rparr>) = track_after f" "silence_number (f\<lparr>sf_tracks := ts\<rparr>) = silence_number f"
  "silence_spent (f\<lparr>sf_tracks := ts\<rparr>) = silence_spent f"
  by (auto simp: fun_eq_iff track_after_def silence_number_def silence_spent_def)

lemma collect_rounds_none:
  assumes "sf_tracks f = []"
  shows "collect_rounds nows f = ([], f)"
proof -
  have "f\<lparr>sf_tracks := []\<rparr> = f" unfolding assms [symmetric] by simp
  then have "collect_silence now f = ([], f)" for now unfolding collect_silence_def assms by simp
  then show ?thesis by (induction nows) simp_all
qed

lemma collect_rounds_track:
  assumes "sf_tracks f = [(key, track_after f t0 packet k)]"
  shows "\<exists>n. map snd (fst (collect_rounds nows f)) = map (silence_number f packet) [k..<k + n]
    \<and> (\<forall>i < n. st_next_due (track_after f t0 packet (k + i)) \<le> fst (fst (collect_rounds nows f) ! i)
         \<and> \<not> silence_spent f (track_after f t0 packet (k + i)))"
  using assms
proof (induction nows arbitrary: f k)
  case (Cons now nows)
  note one = collect_one [OF Cons.prems, of now]
  consider (spent) "silence_spent f (track_after f t0 packet k)"
    | (wait) "\<not> silence_spent f (track_after f t0 packet k)" "st_next_due (track_after f t0 packet k) > now"
    | (emit) "\<not> silence_spent f (track_after f t0 packet k)" "st_next_due (track_after f t0 packet k) \<le> now"
    by linarith
  then show ?case
  proof cases
    case spent
    then show ?thesis by (intro exI [of _ 0]) (simp add: one collect_rounds_none)
  next
    case wait
    then show ?thesis using Cons.IH [OF Cons.prems] by (simp add: one case_prod_beta)
  next
    case emit
    let ?f = "f\<lparr>sf_tracks := [(key, track_after f t0 packet (Suc k))]\<rparr>"
    obtain n where n: "map snd (fst (collect_rounds nows ?f)) = map (silence_number f packet) [Suc k..<Suc k + n]"
      and due: "\<forall>i < n. st_next_due (track_after f t0 packet (Suc k + i)) \<le> fst (fst (collect_rounds nows ?f) ! i)
         \<and> \<not> silence_spent f (track_after f t0 packet (Suc k + i))"
      using Cons.IH [of ?f "Suc k"] by auto
    have c: "collect_silence now f = ([silence_number f packet k], ?f)" using emit by (simp add: one)
    have "st_next_due (track_after f t0 packet (k + i)) \<le> fst (fst (collect_rounds (now # nows) f) ! i)
         \<and> \<not> silence_spent f (track_after f t0 packet (k + i))" if "i < Suc n" for i
      using that due emit by (cases i) (auto simp: c case_prod_beta)
    moreover have "map snd (fst (collect_rounds (now # nows) f)) = map (silence_number f packet) [k..<k + Suc n]"
      using n by (simp add: c case_prod_beta upt_conv_Cons del: upt_Suc)
    ultimately show ?thesis by blast
  qed
next
  case Nil
  show ?case by (intro exI [of _ 0]) simp
qed

text \<open>
  The silence that follows a packet is bounded and on time: whenever the thread wakes up, the
  packets it adds for a source continue its sequence numbers and its timestamps one frame at a time,
  the one numbered \<open>i\<close> never before \<open>silence_after\<close> and \<open>i\<close> frames have passed since the packet, and
  at most until \<open>max_silence\<close> is filled, so that no more than that plus one frame is ever added.
\<close>

theorem silence_is_bounded:
  assumes "0 < sf_frame_duration f" and "sf_max_silence f = Some m" and "0 \<le> m"
    and "sf_tracks f = [(track_key packet, new_track f t0 packet)]"
    and "collect_rounds nows f = (sent, f')"
  shows "map snd sent = map (silence_number f packet) [0..<length sent]
    \<and> of_nat (length sent) * sf_frame_duration f < m + sf_frame_duration f
    \<and> (\<forall>i < length sent. t0 + sf_silence_after f + of_nat i * sf_frame_duration f \<le> fst (sent ! i))"
proof -
  have tr: "sf_tracks f = [(track_key packet, track_after f t0 packet 0)]" using assms(4) by (simp add: new_track_after)
  obtain n where n: "map snd sent = map (silence_number f packet) [0..<n]"
    and due: "\<forall>i < n. st_next_due (track_after f t0 packet i) \<le> fst (sent ! i) \<and> \<not> silence_spent f (track_after f t0 packet i)"
    using collect_rounds_track [OF tr, of nows] assms(5) by auto
  have len: "length sent = n" using arg_cong [OF n, of length] by simp
  have "of_nat n * sf_frame_duration f < m + sf_frame_duration f"
  proof (cases n)
    case 0
    then show ?thesis using assms(1,3) by simp
  next
    case (Suc k)
    then have "\<not> silence_spent f (track_after f t0 packet k)" using due by simp
    then show ?thesis using assms(2) Suc by (simp add: silence_spent_def track_after_def algebra_simps)
  qed
  then show ?thesis using n due by (simp add: len track_after_def)
qed


definition sample_fill :: "unit SilenceFill" where
  "sample_fill = \<lparr>sf_silence_after = 3 / 50, sf_frame_duration = 1 / 50, sf_max_silence = Some (1 / 20),
     sf_samples_per_frame = 960, sf_silence = [0, 0], sf_silence_level = 127, sf_decoder = [], sf_tracks = []\<rparr>"

definition sample_filling :: "unit SilenceFill" where
  "sample_filling = sample_fill\<lparr>sf_tracks :=
     [(track_key (sample_speech None), new_track sample_fill 0 (sample_speech None))]\<rparr>"

theorem silence_is_bounded_witness:
  "map snd (fst (collect_rounds [1, 1, 1, 1, 1] sample_filling)) =
     map (silence_number sample_fill (sample_speech None)) [0, 1, 2]"
proof -
  have len: "length (fst (collect_rounds [1, 1, 1, 1, 1] sample_filling)) = 3" by code_simp
  have u: "[0..<3] = [0, 1, 2]" by (simp add: upt_rec)
  have "silence_number sample_filling = silence_number sample_fill" by (simp add: sample_filling_def)
  moreover have "map snd (fst (collect_rounds [1, 1, 1, 1, 1] sample_filling)) =
      map (silence_number sample_filling (sample_speech None)) [0..<length (fst (collect_rounds [1, 1, 1, 1, 1] sample_filling))]"
    by (rule conjunct1 [OF silence_is_bounded [of _ "1 / 20" _ 0, OF _ _ _ _ prod.collapse [symmetric]]])
      (simp_all add: sample_filling_def sample_fill_def new_track_def)
  ultimately show ?thesis by (simp only: len u)
qed


section \<open>Queues\<close>

text \<open>
  \<open>queue.Queue\<close> and \<open>asyncio.Queue\<close> as far as the sinks use them: a size limit that counts when it is
  positive, and the number of unfinished tasks.
\<close>

record pyqueue =
  pq_maxsize :: int
  pq_items :: "MediaPacket list"
  pq_unfinished :: int

definition new_queue :: "int \<Rightarrow> pyqueue" where
  "new_queue maxsize = \<lparr>pq_maxsize = maxsize, pq_items = [], pq_unfinished = 0\<rparr>"

definition queue_full :: "pyqueue \<Rightarrow> bool" where
  "queue_full q \<longleftrightarrow> 0 < pq_maxsize q \<and> pq_maxsize q \<le> int (length (pq_items q))"

definition put_nowait :: "MediaPacket \<Rightarrow> pyqueue \<Rightarrow> unit res \<times> pyqueue" where
  "put_nowait packet q =
     (if queue_full q then (Inl QueueFull, q)
      else (Inr (), q\<lparr>pq_items := pq_items q @ [packet], pq_unfinished := pq_unfinished q + 1\<rparr>))"

definition get_nowait :: "pyqueue \<Rightarrow> MediaPacket res \<times> pyqueue" where
  "get_nowait q =
     (case pq_items q of [] \<Rightarrow> (Inl QueueEmpty, q) | p # ps \<Rightarrow> (Inr p, q\<lparr>pq_items := ps\<rparr>))"

definition task_done :: "pyqueue \<Rightarrow> unit res \<times> pyqueue" where
  "task_done q =
     (if pq_unfinished q \<le> 0 then (Inl ValueError, q) else (Inr (), q\<lparr>pq_unfinished := pq_unfinished q - 1\<rparr>))"

text \<open>The \<open>destination\<close> argument: left out (\<open>MISSING\<close>), \<open>None\<close>, a queue, or something else.\<close>

datatype queue_argument = MissingQueue | NoneQueue | AQueue pyqueue | NotAQueue

record QueueSink =
  qs_media_types :: "string set option"
  qs_codecs :: "string set option"
  qs_queue :: "pyqueue option" \<comment> \<open>\<open>None\<close>: the attribute holds \<open>None\<close>\<close>
  qs_drop_oldest :: bool
  qs_dropped :: int
  qs_closed :: bool

definition queue_sink_of ::
  "string list option \<Rightarrow> string list option \<Rightarrow> bool \<Rightarrow> pyqueue option \<Rightarrow> QueueSink"
where
  "queue_sink_of media_types codecs drop_oldest q =
     \<lparr>qs_media_types = map_option set media_types, qs_codecs = lower_set codecs, qs_queue = q,
      qs_drop_oldest = drop_oldest, qs_dropped = 0, qs_closed = False\<rparr>"

text \<open>
  The constructors' check \<open>destination is not None and not isinstance(destination, Queue)\<close> comes
  before the default is looked at.
\<close>

definition new_queue_sink ::
  "queue_argument \<Rightarrow> string list option \<Rightarrow> string list option \<Rightarrow> int \<Rightarrow> bool \<Rightarrow> QueueSink res"
where
  "new_queue_sink destination media_types codecs maxsize drop_oldest =
     (case destination of
        AQueue q \<Rightarrow> Inr (queue_sink_of media_types codecs drop_oldest (Some q))
      | NoneQueue \<Rightarrow> Inr (queue_sink_of media_types codecs drop_oldest None)
      | MissingQueue \<Rightarrow> Inl TypeError
      | NotAQueue \<Rightarrow> Inl TypeError)"

definition new_async_queue_sink ::
  "queue_argument \<Rightarrow> string list option \<Rightarrow> string list option \<Rightarrow> int \<Rightarrow> bool \<Rightarrow> QueueSink res"
where
  "new_async_queue_sink destination media_types codecs maxsize drop_oldest =
     (case destination of
        AQueue q \<Rightarrow> Inr (queue_sink_of media_types codecs drop_oldest (Some q))
      | NoneQueue \<Rightarrow> Inr (queue_sink_of media_types codecs drop_oldest (Some (new_queue maxsize)))
      | MissingQueue \<Rightarrow> Inl TypeError
      | NotAQueue \<Rightarrow> Inl TypeError)"

text \<open>\<open>write\<close>; on an attribute that is \<open>None\<close> the first access raises.\<close>

definition drop_one :: "pyqueue \<Rightarrow> pyqueue" where
  "drop_one q = (case get_nowait q of (Inl _, q) \<Rightarrow> q | (Inr _, q) \<Rightarrow> snd (task_done q))"

definition queue_sink_write :: "MediaPacket \<Rightarrow> QueueSink \<Rightarrow> bool res \<times> QueueSink" where
  "queue_sink_write packet s =
     (if qs_closed s then (Inr False, s)
      else case qs_queue s of
          None \<Rightarrow> (Inl AttributeError, s)
        | Some q \<Rightarrow>
            (case put_nowait packet q of
               (Inr _, q) \<Rightarrow> (Inr True, s\<lparr>qs_queue := Some q\<rparr>)
             | (Inl _, q) \<Rightarrow>
                 if \<not> qs_drop_oldest s then (Inr False, s\<lparr>qs_dropped := qs_dropped s + 1\<rparr>)
                 else case put_nowait packet (drop_one q) of
                     (Inr _, q) \<Rightarrow> (Inr True, s\<lparr>qs_queue := Some q, qs_dropped := qs_dropped s + 1\<rparr>)
                   | (Inl _, q) \<Rightarrow> (Inr False, s\<lparr>qs_queue := Some q, qs_dropped := qs_dropped s + 1\<rparr>)))"

definition queue_sink :: "QueueSink sink_ops" where
  "queue_sink =
     \<lparr>si_closed = qs_closed,
      si_wants = (\<lambda>media_type codec s. if qs_closed s then False
                    else media_matches (qs_media_types s) (qs_codecs s) media_type codec),
      si_write = (\<lambda>now packet s. let (r, s) = queue_sink_write packet s in (map_res PyBool r, s)),
      si_cleanup = (\<lambda>s. (Inr (), s\<lparr>qs_closed := True\<rparr>))\<rparr>"

interpretation queue: sink_children queue_sink
  by unfold_locales (auto simp: queue_sink_def queue_sink_write_def case_prod_beta)

text \<open>
  \<open>AsyncQueueSink.write\<close> asks the event loop to run \<open>_put_packet\<close>; \<open>loop\<close> is the result of
  \<open>_resolve_loop\<close> and of \<open>call_soon_threadsafe\<close>, which raises \<open>RuntimeError\<close> when the loop is closed.
\<close>

datatype loop_state = NoLoop | ClosedLoop | RunningLoop

record async_sink =
  aq_sink :: QueueSink
  aq_scheduled :: "MediaPacket list"

definition async_write :: "loop_state \<Rightarrow> MediaPacket \<Rightarrow> async_sink \<Rightarrow> bool res \<times> async_sink" where
  "async_write loop packet s =
     (if qs_closed (aq_sink s) then (Inr False, s)
      else case loop of
          NoLoop \<Rightarrow> (Inl ClientException, s)
        | ClosedLoop \<Rightarrow> (Inr False, s\<lparr>aq_sink := (aq_sink s)\<lparr>qs_dropped := qs_dropped (aq_sink s) + 1\<rparr>\<rparr>)
        | RunningLoop \<Rightarrow> (Inr True, s\<lparr>aq_scheduled := aq_scheduled s @ [packet]\<rparr>))"

text \<open>\<open>_put_packet\<close> does what \<open>QueueSink.write\<close> does, without a result; the loop runs callbacks in order.\<close>

definition run_callback :: "async_sink \<Rightarrow> async_sink" where
  "run_callback s =
     (case aq_scheduled s of
        [] \<Rightarrow> s
      | packet # rest \<Rightarrow> s\<lparr>aq_scheduled := rest, aq_sink := snd (queue_sink_write packet (aq_sink s))\<rparr>)"


section \<open>What a queue sink keeps\<close>

fun queue_writes :: "MediaPacket list \<Rightarrow> QueueSink \<Rightarrow> bool res list \<times> QueueSink" where
  "queue_writes [] s = ([], s)"
| "queue_writes (p # ps) s = (let (r, s) = queue_sink_write p s; (rs, s) = queue_writes ps s in (r # rs, s))"

definition holding :: "bool \<Rightarrow> int \<Rightarrow> int \<Rightarrow> MediaPacket list \<Rightarrow> QueueSink \<Rightarrow> bool" where
  "holding oldest n dropped items s \<longleftrightarrow>
     qs_queue s = Some \<lparr>pq_maxsize = n, pq_items = items, pq_unfinished = int (length items)\<rparr>
     \<and> qs_drop_oldest s = oldest \<and> qs_dropped s = dropped \<and> \<not> qs_closed s"

lemma holding_write:
  assumes "holding oldest n d items s" "0 < n" "int (length items) \<le> n"
  shows "queue_sink_write p s =
      (Inr (oldest \<or> int (length items) < n), snd (queue_sink_write p s))"
    and "holding oldest n (if int (length items) < n then d else d + 1)
      (if int (length items) < n then items @ [p] else if oldest then tl items @ [p] else items)
      (snd (queue_sink_write p s))"
  using assms
  by (cases items; auto simp: holding_def queue_sink_write_def put_nowait_def queue_full_def drop_one_def
      get_nowait_def task_done_def)+

lemma queue_writes_append:
  "queue_writes (ps @ qs) s =
    (let (rs, s) = queue_writes ps s; (rs', s) = queue_writes qs s in (rs @ rs', s))"
  by (induction ps arbitrary: s) (simp_all add: case_prod_beta Let_def)

lemma newest_step:
  "0 < m \<Longrightarrow> drop (Suc (length ps) - m) (ps @ [p]) =
    (if length ps < m then ps @ [p] else tl (drop (length ps - m) ps) @ [p])"
  by (cases "length ps < m") (simp_all add: Suc_diff_le drop_Suc tl_drop [symmetric] not_less drop_tl)

lemma replicate_snoc: "replicate n x @ [x] = replicate (Suc n) x"
  by (induction n) auto

lemma queue_writes_holding:
  assumes "holding oldest n 0 [] s0" "0 < n"
  shows "holding oldest n (int (length ps - nat n))
      (if oldest then drop (length ps - nat n) ps else take (nat n) ps) (snd (queue_writes ps s0))
    \<and> fst (queue_writes ps s0) = (if oldest then replicate (length ps) (Inr True)
        else replicate (min (length ps) (nat n)) (Inr True) @ replicate (length ps - nat n) (Inr False))"
    (is "?held ps \<and> ?said ps")
proof (induction ps rule: rev_induct)
  case Nil
  then show ?case using assms by (cases oldest) simp_all
next
  case (snoc p ps)
  let ?items = "if oldest then drop (length ps - nat n) ps else take (nat n) ps"
  let ?s = "snd (queue_writes ps s0)"
  have held: "holding oldest n (int (length ps - nat n)) ?items ?s" using snoc by blast
  have fits: "int (length ?items) \<le> n" using assms(2) by auto
  note step = holding_write [OF held assms(2) fits]
  have size: "int (length ?items) < n \<longleftrightarrow> length ps < nat n" using assms(2) by auto
  have run: "queue_writes (ps @ [p]) s0 =
      (fst (queue_writes ps s0) @ [fst (queue_sink_write p ?s)], snd (queue_sink_write p ?s))" for p
    by (simp add: queue_writes_append case_prod_beta Let_def)
  have "fst (queue_sink_write p ?s) = Inr (oldest \<or> length ps < nat n)"
    using step(1) [of p] unfolding size by (metis fst_conv)
  moreover have "0 < nat n" using assms(2) by simp
  ultimately have "?said (ps @ [p])"
    using snoc run [of p]
    by (cases "length ps < nat n") (auto simp: replicate_snoc Suc_diff_le not_less simp flip: replicate_Suc)
  moreover have "?held (ps @ [p])"
    using step(2) [of p] run [of p] newest_step [OF \<open>0 < nat n\<close>, of ps p]
    unfolding size by (cases "length ps < nat n") (auto simp: Suc_diff_le not_less add.commute)
  ultimately show ?case by simp
qed

text \<open>
  C19. A bounded queue sink that nobody reads keeps, with \<open>drop_oldest\<close>, the last \<open>maxsize\<close> packets it was
  given and accepts every one of them; without it, the first \<open>maxsize\<close>, and refuses the rest. Either
  way \<open>dropped\<close> counts exactly the packets that are gone, and the queue has as many unfinished tasks as
  packets.
\<close>

theorem queue_sink_keeps:
  assumes "new_queue_sink (AQueue (new_queue n)) media_types codecs maxsize oldest = Inr s0" and "0 < n"
    and "queue_writes ps s0 = (results, s)"
  shows "qs_queue s = Some \<lparr>pq_maxsize = n,
        pq_items = (if oldest then drop (length ps - nat n) ps else take (nat n) ps),
        pq_unfinished = int (min (length ps) (nat n))\<rparr>
    \<and> qs_dropped s = int (length ps - nat n)
    \<and> results = (if oldest then replicate (length ps) (Inr True)
        else replicate (min (length ps) (nat n)) (Inr True) @ replicate (length ps - nat n) (Inr False))"
proof -
  have "holding oldest n 0 [] s0"
    using assms(1) by (auto simp: new_queue_sink_def queue_sink_of_def new_queue_def holding_def)
  from queue_writes_holding [OF this assms(2), of ps] show ?thesis
    using assms(3) by (auto simp: holding_def)
qed

theorem queue_sink_keeps_witness:
  "qs_queue (snd (queue_writes (replicate 3 (sample_speech None))
       (queue_sink_of None None True (Some (new_queue 2))))) =
     Some \<lparr>pq_maxsize = 2, pq_items = replicate 2 (sample_speech None), pq_unfinished = 2\<rparr>"
  using queue_sink_keeps [of 2 None None 0 True "queue_sink_of None None True (Some (new_queue 2))"
      "replicate 3 (sample_speech None)"
      "fst (queue_writes (replicate 3 (sample_speech None)) (queue_sink_of None None True (Some (new_queue 2))))"
      "snd (queue_writes (replicate 3 (sample_speech None)) (queue_sink_of None None True (Some (new_queue 2))))"]
  by (simp add: new_queue_sink_def)

text \<open>
  Both constructors refuse their own default argument, for which the documentation promises a queue
  of \<open>maxsize\<close>; only \<open>AsyncQueueSink(None)\<close> makes one, and \<open>QueueSink(None)\<close> makes a sink whose first write raises.
\<close>

lemma queue_sinks_refuse_their_default:
  "new_queue_sink MissingQueue media_types codecs maxsize drop_oldest = Inl TypeError
   \<and> new_async_queue_sink MissingQueue media_types codecs maxsize drop_oldest = Inl TypeError
   \<and> (\<exists>s. new_queue_sink NoneQueue media_types codecs maxsize drop_oldest = Inr s
        \<and> queue_sink_write packet s = (Inl AttributeError, s))"
  by (simp add: new_queue_sink_def new_async_queue_sink_def queue_sink_of_def queue_sink_write_def)

end
