(* ===== verification/Recorders.thy ===== *)
theory Recorders
  imports SinkContract Frames
begin

text \<open>
  The sinks of \<open>media.py\<close> that record audio and multiplexed streams: \<open>WaveSink\<close>, \<open>MixedWaveSink\<close>,
  \<open>FFmpegSink\<close> and \<open>FFmpegMuxSink\<close>. A file the program writes is the list of its bytes; \<open>ffmpeg\<close>
  and the operating system's choices are parameters.
\<close>

section \<open>Wave files\<close>

text \<open>
  What \<open>wave.open(..., 'wb')\<close> leaves in a seekable file after \<open>writeframes\<close> of \<open>data\<close>, with the sinks'
  two channels of two bytes at 48000 Hz.
\<close>

abbreviation (input) "CHANNELS \<equiv> 2 :: int"
abbreviation (input) "SAMPLE_WIDTH \<equiv> 2 :: int"
abbreviation (input) "SAMPLING_RATE \<equiv> 48000 :: int"

definition ascii :: "string \<Rightarrow> bytes" where
  "ascii s = map (\<lambda>c. word_of_nat (of_char c)) s"

definition wave_file :: "bytes \<Rightarrow> bytes res" where
  "wave_file data =
     (if in_u 32 (36 + int (length data))
      then Inr (ascii ''RIFF'' @ le_bytes 4 (36 + int (length data)) @ ascii ''WAVEfmt '' @ le_bytes 4 16
                @ le_bytes 2 1 @ le_bytes 2 CHANNELS @ le_bytes 4 SAMPLING_RATE
                @ le_bytes 4 (CHANNELS * SAMPLING_RATE * SAMPLE_WIDTH) @ le_bytes 2 (CHANNELS * SAMPLE_WIDTH)
                @ le_bytes 2 (8 * SAMPLE_WIDTH) @ ascii ''data'' @ le_bytes 4 (int (length data)) @ data)
      else Inl StructError)"

definition wants_audio :: "bool \<Rightarrow> string \<Rightarrow> string \<Rightarrow> bool" where
  "wants_audio is_closed media_type codec \<longleftrightarrow>
     \<not> is_closed \<and> media_type = ''audio'' \<and> codec \<in> {''opus'', ''pcm''}"

record 'd WaveSink =
  wv_frames :: bytes
  wv_decoder :: "'d decoder_cache"
  wv_closed :: bool

definition new_wave_sink :: "'d WaveSink" where
  "new_wave_sink = \<lparr>wv_frames = [], wv_decoder = [], wv_closed = False\<rparr>"

definition write_frames :: "bytes \<Rightarrow> 'd WaveSink \<Rightarrow> unit res \<times> 'd WaveSink" where
  "write_frames data s =
     (let s = s\<lparr>wv_frames := wv_frames s @ data\<rparr> in (map_res (\<lambda>_. ()) (wave_file (wv_frames s)), s))"

definition wave_sink_write :: "'d opus_decoder \<Rightarrow> MediaPacket \<Rightarrow> 'd WaveSink \<Rightarrow> unit res \<times> 'd WaveSink" where
  "wave_sink_write opus packet s =
     (if wv_closed s then (Inr (), s)
      else if mp_codec packet = ''pcm'' then write_frames (mp_payload packet) s
      else let (r, cache) = decoder_decode opus packet (wv_decoder s)
           in bind_res (r, s\<lparr>wv_decoder := cache\<rparr>) write_frames)"

definition wave_sink_cleanup :: "'d WaveSink \<Rightarrow> unit res \<times> 'd WaveSink" where
  "wave_sink_cleanup s =
     (if wv_closed s then (Inr (), s)
      else bind_res (map_res (\<lambda>_. ()) (wave_file (wv_frames s)), s\<lparr>wv_closed := True\<rparr>)
             (\<lambda>_ s. (Inr (), s\<lparr>wv_decoder := []\<rparr>)))"

definition wave_sink :: "'d opus_decoder \<Rightarrow> 'd WaveSink sink_ops" where
  "wave_sink opus =
     \<lparr>si_closed = wv_closed, si_wants = (\<lambda>media_type codec s. wants_audio (wv_closed s) media_type codec),
      si_write = (\<lambda>now packet s. let (r, s) = wave_sink_write opus packet s in (map_res (\<lambda>_. PyNone) r, s)),
      si_cleanup = wave_sink_cleanup\<rparr>"


section \<open>MixedWaveSink\<close>

record 'd MixedWaveSink =
  mx_users :: "int set option"
  mx_base :: "int option"
  mx_mix :: bytes
  mx_decoder :: "'d decoder_cache"
  mx_closed :: bool
  mx_output :: "bytes option" \<comment> \<open>the destination, once \<open>cleanup\<close> has written it\<close>

definition new_mixed_wave_sink :: "int list option \<Rightarrow> 'd MixedWaveSink" where
  "new_mixed_wave_sink users =
     \<lparr>mx_users = map_option set users, mx_base = None, mx_mix = [], mx_decoder = [], mx_closed = False,
      mx_output = None\<rparr>"

definition mixed_timestamp_delta :: "int \<Rightarrow> 'd MixedWaveSink \<Rightarrow> int option \<times> 'd MixedWaveSink" where
  "mixed_timestamp_delta timestamp s =
     (case mx_base s of
        None \<Rightarrow> (Some 0, s\<lparr>mx_base := Some timestamp\<rparr>)
      | Some base \<Rightarrow> (rtp_timestamp_delta timestamp base, s))"

text \<open>The end of \<open>write\<close>: the buffer grows with silence, and its slice is replaced by the sum.\<close>

definition mix_at :: "nat \<Rightarrow> bytes \<Rightarrow> bytes \<Rightarrow> unit res \<times> bytes" where
  "mix_at start pcm mix =
     (let stop = start + length pcm;
          mix = mix @ replicate (stop - length mix) 0
      in case pcm16_add (take (length pcm) (drop start mix)) pcm of
           Inl e \<Rightarrow> (Inl e, mix)
         | Inr mixed \<Rightarrow> (Inr (), take start mix @ mixed @ drop stop mix))"

definition mixed_wave_write ::
  "'d opus_decoder \<Rightarrow> MediaPacket \<Rightarrow> 'd MixedWaveSink \<Rightarrow> unit res \<times> 'd MixedWaveSink"
where
  "mixed_wave_write opus packet s =
     (if mx_closed s then (Inr (), s)
      else if (case mx_users s of None \<Rightarrow> False
                 | Some users \<Rightarrow> (case mp_user_id packet of None \<Rightarrow> True | Some u \<Rightarrow> u \<notin> users)) then (Inr (), s)
      else
        let (delta, s) = mixed_timestamp_delta (mp_timestamp packet) s
        in case delta of
             None \<Rightarrow> (Inr (), s)
           | Some d \<Rightarrow>
               let (pcm, cache) = (if mp_codec packet = ''pcm'' then (Inr (mp_payload packet), mx_decoder s)
                                   else decoder_decode opus packet (mx_decoder s))
               in bind_res (pcm, s\<lparr>mx_decoder := cache\<rparr>) (\<lambda>pcm s.
                    if pcm = [] then (Inr (), s)
                    else let (r, mix) = mix_at (nat (d * CHANNELS * SAMPLE_WIDTH)) pcm (mx_mix s)
                         in (r, s\<lparr>mx_mix := mix\<rparr>)))"

definition mixed_wave_cleanup :: "'d MixedWaveSink \<Rightarrow> unit res \<times> 'd MixedWaveSink" where
  "mixed_wave_cleanup s =
     (if mx_closed s then (Inr (), s)
      else
        let file = wave_file (mx_mix s);
            s = s\<lparr>mx_closed := True, mx_mix := [], mx_decoder := []\<rparr>
        in case file of
             Inl e \<Rightarrow> (Inl e, s)
           | Inr content \<Rightarrow> (Inr (), s\<lparr>mx_output := Some content\<rparr>))"

definition mixed_wave_sink :: "'d opus_decoder \<Rightarrow> 'd MixedWaveSink sink_ops" where
  "mixed_wave_sink opus =
     \<lparr>si_closed = mx_closed, si_wants = (\<lambda>media_type codec s. wants_audio (mx_closed s) media_type codec),
      si_write = (\<lambda>now packet s. let (r, s) = mixed_wave_write opus packet s in (map_res (\<lambda>_. PyNone) r, s)),
      si_cleanup = mixed_wave_cleanup\<rparr>"

interpretation wave: sink_children "wave_sink opus"
  by unfold_locales
    (auto simp: wave_sink_def wave_sink_write_def wave_sink_cleanup_def wants_audio_def write_frames_def wave_file_def Let_def
      split: prod.splits)

interpretation mixed_wave: sink_children "mixed_wave_sink opus"
  by unfold_locales
    (auto simp: mixed_wave_sink_def mixed_wave_write_def mixed_wave_cleanup_def wants_audio_def Let_def
      split: sum.splits prod.splits)


section \<open>The timeline of a mixed recording\<close>

text \<open>Where the accepted packets go, in samples from the first one, and what is heard at sample \<open>i\<close>.\<close>

definition accepted_by :: "int list option \<Rightarrow> MediaPacket \<Rightarrow> bool" where
  "accepted_by users p =
     (case users of None \<Rightarrow> True
      | Some us \<Rightarrow> (case mp_user_id p of None \<Rightarrow> False | Some u \<Rightarrow> u \<in> set us))"

fun placement :: "int \<Rightarrow> MediaPacket \<Rightarrow> (nat \<times> bytes) list" where
  "placement base p =
     (case rtp_timestamp_delta (mp_timestamp p) base of
        None \<Rightarrow> []
      | Some d \<Rightarrow> if mp_payload p = [] then [] else [(2 * nat d, mp_payload p)])"

definition placements :: "MediaPacket list \<Rightarrow> (nat \<times> bytes) list" where
  "placements ps = concat (map (placement (mp_timestamp (hd ps))) ps)"

definition add_sample :: "nat \<Rightarrow> nat \<times> bytes \<Rightarrow> int \<Rightarrow> int" where
  "add_sample i = (\<lambda>(start, pcm) v.
     if start \<le> i \<and> i < start + length pcm div 2 then clamp_i16 (v + sample_at pcm (i - start)) else v)"

definition timeline_sample :: "(nat \<times> bytes) list \<Rightarrow> nat \<Rightarrow> int" where
  "timeline_sample pl i = fold (add_sample i) pl 0"

definition timeline_end :: "(nat \<times> bytes) list \<Rightarrow> nat" where
  "timeline_end pl = fold (\<lambda>(start, pcm) n. max n (start + length pcm div 2)) pl 0"

lemma pcm_samples_append: "even (length a) \<Longrightarrow> pcm_samples (a @ b) = pcm_samples a @ pcm_samples b"
  by (induction a rule: pcm_samples.induct) auto

lemma pcm_samples_take: "pcm_samples (take (2 * n) b) = take n (pcm_samples b)"
proof (induction b arbitrary: n rule: pcm_samples.induct)
  case (1 lo hi rest)
  then show ?case by (cases n) auto
qed (auto simp: take_Cons')

lemma pcm_samples_drop: "pcm_samples (drop (2 * n) b) = drop n (pcm_samples b)"
proof (induction b arbitrary: n rule: pcm_samples.induct)
  case (1 lo hi rest)
  then show ?case by (cases n) auto
qed (auto simp: drop_Cons')

lemma pcm_samples_silence: "pcm_samples (replicate (2 * n) 0) = replicate n 0"
  by (induction n) (auto simp: i16_def)

lemma sample_at_silence: "even (length b) \<Longrightarrow> sample_at (b @ replicate (2 * n) 0) i = sample_at b i"
  by (auto simp: sample_at_def pcm_samples_append pcm_samples_silence nth_append)

lemma mix_at_spec:
  assumes "even (length mix)" "even (length pcm)"
  obtains out where "mix_at (2 * start) pcm mix = (Inr (), out)"
    and "length out = max (length mix) (2 * start + length pcm)"
    and "\<And>i. sample_at out i = add_sample i (start, pcm) (sample_at mix i)"
proof -
  obtain n k where n: "length mix = 2 * n" and k: "length pcm = 2 * k" using assms by (auto elim!: evenE)
  define grown where "grown = mix @ replicate (2 * (start + k - n)) 0"
  have g: "length grown = 2 * max n (start + k)" unfolding grown_def by (auto simp: n max_def)
  define m where "m = pcm_samples grown"
  have ml: "length m = max n (start + k)" by (simp add: m_def g)
  define sum where "sum = map2 (\<lambda>l r. clamp_i16 (l + r)) (take k (drop start m)) (pcm_samples pcm)"
  have sl: "length sum = k" by (simp add: sum_def ml k)
  have "take (2 * k) (drop (2 * start) grown) = pcm_bytes (pcm_samples (take (2 * k) (drop (2 * start) grown)))"
    by (rule pcm_bytes_samples [symmetric]) (auto simp: g min_def)
  then have old: "take (length pcm) (drop (2 * start) grown) = pcm_bytes (take k (drop start m))"
    unfolding k pcm_samples_take pcm_samples_drop m_def .
  define out where "out = take (2 * start) grown @ pcm_bytes sum @ drop (2 * start + length pcm) grown"
  have add: "pcm16_add (take (length pcm) (drop (2 * start) grown)) pcm = Inr (pcm_bytes sum)"
  proof -
    have "list_all (\<lambda>v. - 32768 \<le> v \<and> v \<le> 32767) (take k (drop start m))"
      using pcm_samples_bounds [of grown] unfolding m_def list_all_iff by (meson in_set_dropD in_set_takeD)
    then show ?thesis unfolding old
      by (simp add: pcm16_add_def pcm_samples_bytes sum_def ml k)
  qed
  have run: "mix_at (2 * start) pcm mix = (Inr (), out)"
    using add unfolding mix_at_def Let_def by (simp add: out_def grown_def n k right_diff_distrib' algebra_simps)
  have len: "length out = max (length mix) (2 * start + length pcm)"
    by (auto simp: out_def g sl k n max_def)
  have so: "pcm_samples out = take start m @ sum @ drop (start + k) m"
  proof -
    have "list_all (\<lambda>v. - 32768 \<le> v \<and> v \<le> 32767) sum"
      by (auto simp: sum_def list_all_iff clamp_i16_bounds)
    moreover have "pcm_samples (drop (2 * start + length pcm) grown) = drop (start + k) m"
      using pcm_samples_drop [of "start + k" grown] by (simp add: k m_def)
    ultimately show ?thesis unfolding out_def
      by (simp add: pcm_samples_append pcm_samples_bytes pcm_samples_take m_def g sl del: mult_Suc_right)
  qed
  have "sample_at out i = add_sample i (start, pcm) (sample_at grown i)" for i
  proof -
    have lo: "length out div 2 = length m" by (simp add: len n k ml)
    consider "i < start" | "start \<le> i" "i < start + k" | "start + k \<le> i" by linarith
    then show ?thesis
    proof cases
      case 1
      then have "i < length m" "i < max n (start + k)" by (auto simp: ml)
      with 1 show ?thesis using lo
        by (simp add: sample_at_def so nth_append ml g m_def [symmetric] add_sample_def)
    next
      case 2
      then have "i < length m" "i - start < k" by (auto simp: ml)
      with 2 show ?thesis using lo
        by (simp add: sample_at_def so nth_append ml g k m_def [symmetric] add_sample_def sum_def)
    next
      case 3
      then have "\<not> i - start < k" "i < max n (start + k) \<longleftrightarrow> i < n" by auto
      with 3 show ?thesis using lo
        by (simp add: sample_at_def so nth_append ml sl g k m_def [symmetric] add_sample_def)
    qed
  qed
  moreover have "sample_at grown i = sample_at mix i" for i
    unfolding grown_def by (rule sample_at_silence) (simp add: assms)
  ultimately show thesis using that [OF run len] by simp
qed

fun mixed_writes :: "'d opus_decoder \<Rightarrow> MediaPacket list \<Rightarrow> 'd MixedWaveSink \<Rightarrow> unit res list \<times> 'd MixedWaveSink" where
  "mixed_writes opus [] s = ([], s)"
| "mixed_writes opus (p # ps) s =
     (let (r, s) = mixed_wave_write opus p s; (rs, s) = mixed_writes opus ps s in (r # rs, s))"

definition whole_pcm :: "MediaPacket \<Rightarrow> bool" where
  "whole_pcm p \<longleftrightarrow> mp_codec p = ''pcm'' \<and> even (length (mp_payload p))"

lemma mixed_writes_append:
  "mixed_writes opus (ps @ qs) s =
    (let (rs, s) = mixed_writes opus ps s; (rs', s) = mixed_writes opus qs s in (rs @ rs', s))"
  by (induction ps arbitrary: s) (simp_all add: case_prod_beta Let_def)

text \<open>The state after the accepted packets \<open>ps\<close>: what the invariant of the recording says.\<close>

definition mixing :: "int list option \<Rightarrow> MediaPacket list \<Rightarrow> 'd MixedWaveSink \<Rightarrow> bool" where
  "mixing users ps s \<longleftrightarrow>
     mx_users s = map_option set users \<and> \<not> mx_closed s
     \<and> mx_base s = (if ps = [] then None else Some (mp_timestamp (hd ps)))
     \<and> length (mx_mix s) = 2 * timeline_end (placements ps)
     \<and> (\<forall>i. sample_at (mx_mix s) i = timeline_sample (placements ps) i)"

lemma delta_same [simp]: "rtp_timestamp_delta t t = Some 0"
  by (simp add: rtp_timestamp_delta_def)

lemma placements_snoc:
  "placements (ps @ [p]) =
     (if ps = [] then [] else placements ps) @ placement (mp_timestamp (hd (ps @ [p]))) p"
  by (cases ps) (simp_all add: placements_def)

lemma mixing_write:
  assumes "mixing users ps s" "whole_pcm p" "accepted_by users p"
  shows "fst (mixed_wave_write opus p s) = Inr () \<and> mixing users (ps @ [p]) (snd (mixed_wave_write opus p s))"
proof -
  let ?base = "mp_timestamp (hd (ps @ [p]))"
  define s1 where "s1 = s\<lparr>mx_base := Some ?base\<rparr>"
  have m: "mixed_timestamp_delta (mp_timestamp p) s = (rtp_timestamp_delta (mp_timestamp p) ?base, s1)"
    using assms(1) by (cases ps) (auto simp: mixing_def mixed_timestamp_delta_def s1_def)
  have w: "mixed_wave_write opus p s =
      (case rtp_timestamp_delta (mp_timestamp p) ?base of
         None \<Rightarrow> (Inr (), s1)
       | Some d \<Rightarrow> if mp_payload p = [] then (Inr (), s1)
           else let (r, mix) = mix_at (nat (d * 2 * 2)) (mp_payload p) (mx_mix s1) in (r, s1\<lparr>mx_mix := mix\<rparr>))"
    using assms m by (auto simp: mixing_def mixed_wave_write_def whole_pcm_def accepted_by_def split: option.splits)
  show ?thesis
  proof (cases "placement ?base p = []")
    case True
    then have "mixed_wave_write opus p s = (Inr (), s1)"
      unfolding w by (auto split: option.splits if_splits)
    moreover have "placements (ps @ [p]) = (if ps = [] then [] else placements ps)"
      unfolding placements_snoc True by simp
    ultimately show ?thesis using assms(1)
      by (cases "ps = []") (auto simp: mixing_def s1_def placements_def)
  next
    case False
    then obtain d where d: "rtp_timestamp_delta (mp_timestamp p) ?base = Some d" and ne: "mp_payload p \<noteq> []"
      by (auto split: option.splits if_splits)
    have "even (length (mx_mix s1))" "even (length (mp_payload p))"
      using assms by (auto simp: mixing_def s1_def whole_pcm_def)
    from mix_at_spec [OF this, of "2 * nat d"] obtain out
      where out: "mix_at (2 * (2 * nat d)) (mp_payload p) (mx_mix s1) = (Inr (), out)"
        and len: "length out = max (length (mx_mix s1)) (2 * (2 * nat d) + length (mp_payload p))"
        and at: "\<And>i. sample_at out i = add_sample i (2 * nat d, mp_payload p) (sample_at (mx_mix s1) i)"
      by blast
    have "nat (d * 2 * 2) = 2 * (2 * nat d)" by (simp add: nat_mult_distrib mult.assoc)
    with out have run: "mixed_wave_write opus p s = (Inr (), s1\<lparr>mx_mix := out\<rparr>)"
      unfolding w d using ne by simp
    have pl: "placements (ps @ [p]) = (if ps = [] then [] else placements ps) @ [(2 * nat d, mp_payload p)]"
      unfolding placements_snoc using d ne by simp
    have "length out = 2 * timeline_end (placements (ps @ [p]))"
      using assms len unfolding pl
      by (cases "ps = []") (auto simp: mixing_def s1_def timeline_end_def placements_def whole_pcm_def max_def elim!: evenE)
    moreover have "sample_at out i = timeline_sample (placements (ps @ [p])) i" for i
      using assms(1) at [of i] unfolding pl
      by (cases "ps = []") (auto simp: mixing_def s1_def timeline_sample_def placements_def)
    ultimately show ?thesis using assms(1) unfolding run by (simp add: mixing_def s1_def)
  qed
qed

lemma mixing_skip:
  assumes "mixing users ps s" "\<not> accepted_by users p"
  shows "mixed_wave_write opus p s = (Inr (), s)"
  using assms by (auto simp: mixing_def mixed_wave_write_def accepted_by_def split: option.splits)

lemma mixing_writes:
  assumes "mixing users [] s0" "list_all whole_pcm ps"
  shows "fst (mixed_writes opus ps s0) = replicate (length ps) (Inr ())
    \<and> mixing users (filter (accepted_by users) ps) (snd (mixed_writes opus ps s0))"
  using assms(2)
proof (induction ps rule: rev_induct)
  case Nil
  then show ?case using assms by simp
next
  case (snoc p ps)
  then have held: "mixing users (filter (accepted_by users) ps) (snd (mixed_writes opus ps s0))"
    and ok: "fst (mixed_writes opus ps s0) = replicate (length ps) (Inr ())" and p: "whole_pcm p"
    by auto
  show ?case
    using mixing_write [OF held p, of opus] mixing_skip [OF held, of p opus] ok held
    by (cases "accepted_by users p")
      (auto simp: mixed_writes_append case_prod_beta Let_def replicate_append_same)
qed


definition mute_opus :: "unit opus_decoder" where
  "mute_opus =
     \<lparr>od_new = (), od_decode = (\<lambda>_ _ d. (Inl NativeError, d)), od_nb_frames = (\<lambda>_. Inr 1),
      od_samples_per_frame = (\<lambda>_. Inr 960), od_sampling_rate = 48000, od_channels = 2, od_sample_size = 4\<rparr>"

definition pcm_packet :: "int \<Rightarrow> bytes \<Rightarrow> MediaPacket" where
  "pcm_packet timestamp pcm =
     new_media_packet ''audio'' ''pcm'' pcm 120 False 1 timestamp 5 (Some 7) []"

definition sample_mix :: "unit res list \<times> unit MixedWaveSink" where
  "sample_mix = mixed_writes mute_opus
     [pcm_packet 4294967295 [0xFF, 0x7F, 1, 0], pcm_packet 0 [2, 0, 3, 0], pcm_packet 4294967295 [1, 0, 1, 0]]
     (new_mixed_wave_sink (Some [7]))"


end
