(* ===== verification/FFmpegSinks.thy ===== *)
theory FFmpegSinks
  imports Recorders
begin

text \<open>
  The sinks of \<open>media.py\<close> that run \<open>ffmpeg\<close>: \<open>FFmpegSink\<close> feeds a running process, \<open>FFmpegMuxSink\<close>
  writes elementary streams to temporary files and muxes them when it is cleaned up. What the process
  does with its input is a parameter, and so are the choices of \<open>mkstemp\<close> and of the file system.
\<close>

section \<open>FFmpegSink\<close>

datatype destination = PathDestination string | FileDestination

datatype popen_outcome = PopenStarted | PopenNotFound | PopenFailed

text \<open>What one \<open>ffmpeg\<close> process does, by its arguments and by what it has been fed so far.\<close>

record ffmpeg_process =
  fp_start :: "string list \<Rightarrow> popen_outcome"
  fp_running :: "string list \<Rightarrow> bytes \<Rightarrow> bool"
  fp_accepts :: "string list \<Rightarrow> bytes \<Rightarrow> bytes \<Rightarrow> bool"
  fp_output :: "string list \<Rightarrow> bytes \<Rightarrow> bytes"
  fp_exit :: "string list \<Rightarrow> bytes \<Rightarrow> int"

record 'd FFmpegSink =
  fk_args :: "string list"
  fk_buffer :: "bytes option" \<comment> \<open>what a file-like destination has received\<close>
  fk_running :: bool \<comment> \<open>\<open>_process\<close> is not \<open>MISSING\<close>\<close>
  fk_stdin :: "bytes option"
  fk_returncode :: "int option"
  fk_decoder :: "'d decoder_cache"
  fk_closed :: bool

abbreviation (input) "DEFAULT_BUFFER_SIZE \<equiv> ''8192''"

definition ffmpeg_sink_args :: "destination \<Rightarrow> string \<Rightarrow> argv \<Rightarrow> argv \<Rightarrow> string list res" where
  "ffmpeg_sink_args destination executable before_options options =
     and_then (argv_options before_options) (\<lambda>before.
       and_then (argv_options options) (\<lambda>after.
         Inr ([executable, ''-hide_banner''] @ before
           @ [''-f'', ''s16le'', ''-ar'', str_of_int SAMPLING_RATE, ''-ac'', str_of_int CHANNELS, ''-i'', ''pipe:0'',
              ''-loglevel'', ''warning'', ''-blocksize'', DEFAULT_BUFFER_SIZE]
           @ after @ [case destination of PathDestination path \<Rightarrow> path | FileDestination \<Rightarrow> ''pipe:1''])))"

definition new_ffmpeg_sink ::
  "ffmpeg_process \<Rightarrow> destination \<Rightarrow> string \<Rightarrow> argv \<Rightarrow> argv \<Rightarrow> 'd FFmpegSink res"
where
  "new_ffmpeg_sink process destination executable before_options options =
     and_then (ffmpeg_sink_args destination executable before_options options) (\<lambda>args.
       case fp_start process args of
         PopenStarted \<Rightarrow>
           Inr \<lparr>fk_args = args, fk_buffer = (if destination = FileDestination then Some [] else None),
                fk_running = True, fk_stdin = Some [], fk_returncode = None, fk_decoder = [], fk_closed = False\<rparr>
       | _ \<Rightarrow> Inl ClientException)"

text \<open>
  \<open>cleanup\<close>: the pipe is closed, the process ends with its exit code and the copying thread has passed
  its output on.
\<close>

definition ffmpeg_sink_cleanup :: "ffmpeg_process \<Rightarrow> 'd FFmpegSink \<Rightarrow> unit res \<times> 'd FFmpegSink" where
  "ffmpeg_sink_cleanup process s =
     (if fk_closed s then (Inr (), s)
      else
        let s = s\<lparr>fk_closed := True\<rparr>
        in if \<not> fk_running s then (Inr (), s)
           else
             let input = (case fk_stdin s of None \<Rightarrow> [] | Some written \<Rightarrow> written);
                 code = fp_exit process (fk_args s) input;
                 s = s\<lparr>fk_running := False, fk_returncode := Some code,
                       fk_buffer := map_option (\<lambda>b. b @ fp_output process (fk_args s) input) (fk_buffer s),
                       fk_stdin := None, fk_decoder := []\<rparr>
             in (if code \<noteq> 0 then Inl ClientException else Inr (), s))"

definition ffmpeg_sink_write ::
  "ffmpeg_process \<Rightarrow> 'd opus_decoder \<Rightarrow> MediaPacket \<Rightarrow> 'd FFmpegSink \<Rightarrow> unit res \<times> 'd FFmpegSink"
where
  "ffmpeg_sink_write process opus packet s =
     (if fk_closed s then (Inr (), s)
      else case fk_stdin s of
          None \<Rightarrow> (Inr (), s)
        | Some written \<Rightarrow>
            if \<not> fk_running s \<or> \<not> fp_running process (fk_args s) written then (Inr (), s)
            else
              let (r, cache) = decoder_decode opus packet (fk_decoder s);
                  s = s\<lparr>fk_decoder := cache\<rparr>
              in case r of
                   Inr pcm \<Rightarrow>
                     if fp_accepts process (fk_args s) written pcm
                     then (Inr (), s\<lparr>fk_stdin := Some (written @ pcm)\<rparr>)
                     else ffmpeg_sink_cleanup process s
                 | Inl e \<Rightarrow> if e \<in> {OSError, ValueError} then ffmpeg_sink_cleanup process s else (Inl e, s))"

definition ffmpeg_sink :: "ffmpeg_process \<Rightarrow> 'd opus_decoder \<Rightarrow> 'd FFmpegSink sink_ops" where
  "ffmpeg_sink process opus =
     \<lparr>si_closed = fk_closed, si_wants = (\<lambda>media_type codec s. wants_audio (fk_closed s) media_type codec),
      si_write = (\<lambda>now packet s. let (r, s) = ffmpeg_sink_write process opus packet s in (map_res (\<lambda>_. PyNone) r, s)),
      si_cleanup = ffmpeg_sink_cleanup process\<rparr>"

interpretation ffmpeg: sink_children "ffmpeg_sink process opus"
  by unfold_locales
    (auto simp: ffmpeg_sink_def ffmpeg_sink_write_def ffmpeg_sink_cleanup_def wants_audio_def Let_def)


section \<open>FFmpegMuxSink\<close>

subsection \<open>State\<close>

type_synonym fs = "(string \<rightharpoonup> bytes)"

datatype mux_outcome = MuxNotFound | MuxFailed | MuxTimedOut int | MuxExited int bytes

text \<open>
  The operating system: the path \<open>mkstemp\<close> picks for a suffix, whether a file can be created,
  whether \<open>os.replace\<close> works, whether the executable can be found, and one run of \<open>ffmpeg\<close>.
\<close>

record mux_env =
  me_mkstemp :: "string \<Rightarrow> fs \<Rightarrow> string"
  me_creatable :: "string \<Rightarrow> bool"
  me_replaceable :: "string \<Rightarrow> string \<Rightarrow> bool"
  me_found :: "string \<Rightarrow> bool"
  me_run :: "string list \<Rightarrow> fs \<Rightarrow> mux_outcome \<times> fs"

record mux_config =
  mc_destination_path :: "string option"
  mc_width :: int
  mc_height :: int
  mc_fps :: int
  mc_audio :: bool
  mc_video :: bool
  mc_executable :: string
  mc_before_options :: argv
  mc_options :: argv
  mc_output_format :: "string option"
  mc_audio_codec :: "string option"
  mc_shortest :: bool
  mc_keep_temp :: bool

record 'd FFmpegMuxSink =
  mu_config :: mux_config
  mu_buffer :: "bytes option"
  mu_video_codec :: "string option"
  mu_decoder :: "'d decoder_cache"
  mu_audio_path :: "string option"
  mu_audio_file :: bool \<comment> \<open>the file at \<open>mu_audio_path\<close> is open\<close>
  mu_audio_base :: "int option"
  mu_audio_start :: "int option"
  mu_audio_packets :: int
  mu_video_path :: "string option"
  mu_video_sink :: "EncodedVideoSink option"
  mu_video_first :: "pyfloat option"
  mu_video_last :: "pyfloat option"
  mu_video_packets :: int
  mu_recording_start :: "pyfloat option"
  mu_rtcp_offset :: "pyfloat option"
  mu_returncode :: "int option"
  mu_closed :: bool
  mu_fs :: fs \<comment> \<open>the file system the sink works in\<close>

definition new_ffmpeg_mux_sink :: "mux_env \<Rightarrow> fs \<Rightarrow> mux_config \<Rightarrow> string option \<Rightarrow> 'd FFmpegMuxSink res" where
  "new_ffmpeg_mux_sink env files config video_codec =
     (if \<not> mc_audio config \<and> \<not> mc_video config then Inl ValueError
      else if \<not> me_found env (mc_executable config) then Inl ClientException
      else
        and_then (case video_codec of None \<Rightarrow> Inr None | Some c \<Rightarrow> map_res Some (coerce_video_codec c)) (\<lambda>codec.
          if mc_video config \<and> (case codec of None \<Rightarrow> False | Some c \<Rightarrow> ivf_fourcc c \<noteq> None) \<and> (mc_width config \<le> 0 \<or> mc_height config \<le> 0)
          then Inl ValueError
          else Inr \<lparr>mu_config = config\<lparr>mc_fps := max 1 (mc_fps config)\<rparr>,
                    mu_buffer = (if mc_destination_path config = None then Some [] else None),
                    mu_video_codec = codec, mu_decoder = [], mu_audio_path = None, mu_audio_file = False,
                    mu_audio_base = None, mu_audio_start = None, mu_audio_packets = 0, mu_video_path = None,
                    mu_video_sink = None, mu_video_first = None, mu_video_last = None, mu_video_packets = 0,
                    mu_recording_start = None, mu_rtcp_offset = None, mu_returncode = None, mu_closed = False,
                    mu_fs = files\<rparr>))"

definition mux_wants :: "string \<Rightarrow> string \<Rightarrow> 'd FFmpegMuxSink \<Rightarrow> bool" where
  "mux_wants media_type codec s =
     (if mu_closed s then False
      else if media_type = ''audio'' then mc_audio (mu_config s) \<and> codec \<in> {''opus'', ''pcm''}
      else if media_type = ''video''
      then mc_video (mu_config s) \<and> upper codec \<in> set (keys VIDEO_OUTPUT_FORMAT)
           \<and> (mu_video_codec s = None \<or> mu_video_codec s = Some (upper codec))
      else False)"

subsection \<open>Writing\<close>

definition VIDEO_SUFFIXES :: "(string \<times> string) list" where
  "VIDEO_SUFFIXES =
     [(''H264'', ''.h264''), (''H265'', ''.h265''), (''VP8'', ''.ivf''), (''VP9'', ''.ivf''), (''AV1'', ''.ivf'')]"

definition ensure_video_sink :: "mux_env \<Rightarrow> string \<Rightarrow> 'd FFmpegMuxSink \<Rightarrow> EncodedVideoSink res \<times> 'd FFmpegMuxSink" where
  "ensure_video_sink env codec s =
     (let normalized = upper codec;
          config = mu_config s;
          s' = (if mu_video_codec s = None then s\<lparr>mu_video_codec := Some normalized\<rparr> else s)
      in if mu_video_codec s \<noteq> None \<and> mu_video_codec s \<noteq> Some normalized then (Inl ClientException, s)
         else if ivf_fourcc normalized \<noteq> None \<and> (mc_width config \<le> 0 \<or> mc_height config \<le> 0)
         then (Inl ClientException, s')
         else case mu_video_sink s' of
             Some sink \<Rightarrow> (Inr sink, s')
           | None \<Rightarrow>
               (case map_of VIDEO_SUFFIXES normalized of
                  None \<Rightarrow> (Inl KeyError, s')
                | Some suffix \<Rightarrow>
                    let path = me_mkstemp env suffix (mu_fs s');
                        s' = s'\<lparr>mu_video_path := Some path, mu_fs := (mu_fs s')(path \<mapsto> [])\<rparr>
                    in case new_encoded_video_sink normalized (mc_width config) (mc_height config) (mc_fps config) True of
                         Inl e \<Rightarrow> (Inl e, s')
                       | Inr sink \<Rightarrow> (Inr sink, s'\<lparr>mu_video_sink := Some sink\<rparr>)))"

definition mux_timestamp_delta :: "int \<Rightarrow> 'd FFmpegMuxSink \<Rightarrow> int option \<times> 'd FFmpegMuxSink" where
  "mux_timestamp_delta timestamp s =
     (case mu_audio_base s of
        None \<Rightarrow> (Some 0, s\<lparr>mu_audio_base := Some timestamp\<rparr>)
      | Some base \<Rightarrow> (rtp_timestamp_delta timestamp base, s))"

definition packet_time_offset :: "MediaPacket \<Rightarrow> pyfloat \<Rightarrow> 'd FFmpegMuxSink \<Rightarrow> pyfloat \<times> 'd FFmpegMuxSink" where
  "packet_time_offset packet received_at s =
     (case mu_recording_start s of
        None \<Rightarrow> (0, s\<lparr>mu_recording_start := Some received_at\<rparr>)
      | Some base \<Rightarrow>
          let received_offset = max 0 (received_at - base)
          in case mp_rtcp_time packet of
               None \<Rightarrow> (received_offset, s)
             | Some rtcp_time \<Rightarrow>
                 (case mu_rtcp_offset s of
                    None \<Rightarrow> (max 0 (rtcp_time + (received_offset - rtcp_time)),
                             s\<lparr>mu_rtcp_offset := Some (received_offset - rtcp_time)\<rparr>)
                  | Some offset \<Rightarrow> (max 0 (rtcp_time + offset), s)))"

abbreviation (input) "AUDIO_TIMELINE_RESET_THRESHOLD \<equiv> 151 / 1000 :: pyfloat"

text \<open>Where the track starts after a packet that is \<open>delta\<close> samples in and arrived at \<open>offset\<close> seconds.\<close>

definition audio_start_offset :: "int option \<Rightarrow> int \<Rightarrow> pyfloat \<Rightarrow> int" where
  "audio_start_offset start delta offset =
     (case start of
        None \<Rightarrow> py_round (offset * of_int SAMPLING_RATE)
      | Some start \<Rightarrow>
          let current = of_int (start + delta) / of_int SAMPLING_RATE
          in if \<bar>offset - current\<bar> > AUDIO_TIMELINE_RESET_THRESHOLD
             then py_round (offset * of_int SAMPLING_RATE) - delta else start)"

text \<open>A seekable binary file: \<open>seek\<close> refuses negative positions, a write past the end fills with zeros.\<close>

definition file_write :: "nat \<Rightarrow> bytes \<Rightarrow> bytes \<Rightarrow> bytes" where
  "file_write pos data content =
     take pos (content @ replicate (pos - length content) 0) @ data @ drop (pos + length data) content"

definition place_pcm :: "int \<Rightarrow> bytes \<Rightarrow> bytes \<Rightarrow> bytes res" where
  "place_pcm start pcm content =
     (if start < int (length content)
      then if start < 0 then Inl OSError
           else let existing = take (length pcm) (drop (nat start) content);
                    existing = existing @ replicate (length pcm - length existing) 0
                in map_res (\<lambda>mixed. file_write (nat start) mixed content) (pcm16_add existing pcm)
      else Inr (file_write (nat start) pcm content))"

definition open_audio_file :: "mux_env \<Rightarrow> 'd FFmpegMuxSink \<Rightarrow> 'd FFmpegMuxSink" where
  "open_audio_file env s =
     (if mu_audio_file s then s
      else let path = me_mkstemp env ''.pcm'' (mu_fs s)
           in s\<lparr>mu_audio_path := Some path, mu_audio_file := True, mu_fs := (mu_fs s)(path \<mapsto> [])\<rparr>)"

definition write_audio_packet ::
  "mux_env \<Rightarrow> 'd opus_decoder \<Rightarrow> MediaPacket \<Rightarrow> pyfloat \<Rightarrow> 'd FFmpegMuxSink \<Rightarrow> unit res \<times> 'd FFmpegMuxSink"
where
  "write_audio_packet env opus packet received_at s =
     (let s = open_audio_file env s;
          path = the (mu_audio_path s);
          (r, cache) = (if mp_codec packet = ''pcm'' then (Inr (mp_payload packet), mu_decoder s)
                        else decoder_decode opus packet (mu_decoder s))
      in bind_res (r, s\<lparr>mu_decoder := cache\<rparr>) (\<lambda>pcm s.
           if pcm = [] then (Inr (), s)
           else
             let (delta, s) = mux_timestamp_delta (mp_timestamp packet) s
             in case delta of
                  None \<Rightarrow> (Inr (), s)
                | Some delta \<Rightarrow>
                    let (offset, s) = packet_time_offset packet received_at s;
                        sample_offset = audio_start_offset (mu_audio_start s) delta offset;
                        s = s\<lparr>mu_audio_start := Some sample_offset\<rparr>
                    in case place_pcm ((sample_offset + delta) * CHANNELS * SAMPLE_WIDTH) pcm (the (mu_fs s path)) of
                         Inl e \<Rightarrow> (Inl e, s)
                       | Inr content \<Rightarrow>
                           (Inr (), s\<lparr>mu_fs := (mu_fs s)(path \<mapsto> content), mu_audio_packets := mu_audio_packets s + 1\<rparr>)))"

definition write_video_packet ::
  "mux_env \<Rightarrow> MediaPacket \<Rightarrow> pyfloat \<Rightarrow> 'd FFmpegMuxSink \<Rightarrow> unit res \<times> 'd FFmpegMuxSink"
where
  "write_video_packet env packet received_at s =
     bind_res (ensure_video_sink env (mp_codec packet) s) (\<lambda>sink s.
       let (r, sink) = encoded_sink_write packet sink
       in bind_res (r, s\<lparr>mu_video_sink := Some sink\<rparr>) (\<lambda>written s.
            if \<not> written then (Inr (), s)
            else
              let (offset, s) = packet_time_offset packet received_at s;
                  s = (if mu_video_first s = None then s\<lparr>mu_video_first := Some offset\<rparr> else s)
              in (Inr (), s\<lparr>mu_video_last := Some offset, mu_video_packets := mu_video_packets s + 1\<rparr>)))"

definition mux_write ::
  "mux_env \<Rightarrow> 'd opus_decoder \<Rightarrow> pyfloat \<Rightarrow> MediaPacket \<Rightarrow> 'd FFmpegMuxSink \<Rightarrow> unit res \<times> 'd FFmpegMuxSink"
where
  "mux_write env opus now packet s =
     (if mu_closed s then (Inr (), s)
      else
        let received_at = (case mp_received_at packet of None \<Rightarrow> now | Some t \<Rightarrow> t)
        in if mp_media_type packet = ''audio'' then write_audio_packet env opus packet received_at s
           else if mp_media_type packet = ''video'' then write_video_packet env packet received_at s
           else (Inr (), s))"


subsection \<open>Muxing\<close>

definition video_effective_fps :: "'d FFmpegMuxSink \<Rightarrow> pyfloat" where
  "video_effective_fps s =
     (case (mu_video_first s, mu_video_last s) of
        (Some t0, Some t1) \<Rightarrow>
          if mu_video_packets s \<ge> 2 \<and> t1 - t0 > 0
          then max 1 (of_int (mu_video_packets s - 1) / (t1 - t0)) else of_int (mc_fps (mu_config s))
      | _ \<Rightarrow> of_int (mc_fps (mu_config s)))"

text \<open>\<open>f'{value:.6f}'\<close> of a nonnegative value, and \<open>rstrip\<close>.\<close>

definition zero_padded :: "nat \<Rightarrow> nat \<Rightarrow> string" where
  "zero_padded width n = (let ds = digits_of n in replicate (width - length ds) (CHR ''0'') @ ds)"

definition format_6f :: "pyfloat \<Rightarrow> string" where
  "format_6f v =
     (let n = nat (py_round (v * 1000000))
      in digits_of (n div 1000000) @ ''.'' @ zero_padded 6 (n mod 1000000))"

definition rstrip :: "char \<Rightarrow> string \<Rightarrow> string" where
  "rstrip c text = rev (dropWhile (\<lambda>d. d = c) (rev text))"

definition video_effective_fps_arg :: "'d FFmpegMuxSink \<Rightarrow> string" where
  "video_effective_fps_arg s = rstrip (CHR ''.'') (rstrip (CHR ''0'') (format_6f (video_effective_fps s)))"

definition time_offset_arg :: "pyfloat \<Rightarrow> string" where
  "time_offset_arg v =
     (let arg = rstrip (CHR ''.'') (rstrip (CHR ''0'') (format_6f v)) in if arg = [] then ''0'' else arg)"

text \<open>\<open>os.path.splitext\<close>: the last dot of the last component, unless only dots come before it.\<close>

definition splitext :: "string \<Rightarrow> string \<times> string" where
  "splitext path =
     (let name = rev (takeWhile (\<lambda>c. c \<noteq> CHR ''/'') (rev path));
          ext = rev (takeWhile (\<lambda>c. c \<noteq> CHR ''.'') (rev name));
          stem = take (length name - length ext - 1) name
      in if CHR ''.'' \<in> set name \<and> list_ex (\<lambda>c. c \<noteq> CHR ''.'') stem
         then (take (length path - length ext - 1) path, ''.'' @ ext) else (path, []))"

definition temp_candidate :: "string \<Rightarrow> int \<Rightarrow> string" where
  "temp_candidate path attempt =
     (let (root, ext) = splitext path
      in if ext \<noteq> [] then root @ ''.'' @ str_of_int attempt @ ''.tmp'' @ ext
         else path @ ''.'' @ str_of_int attempt @ ''.tmp'')"

function reserve_candidate :: "mux_env \<Rightarrow> string \<Rightarrow> int \<Rightarrow> fs \<Rightarrow> string res \<times> fs" where
  "reserve_candidate env path attempt files =
     (if attempt \<ge> 1000 then (Inl ClientException, files)
      else
        let candidate = temp_candidate path attempt
        in if files candidate \<noteq> None then reserve_candidate env path (attempt + 1) files
           else if \<not> me_creatable env candidate then (Inl ClientException, files)
           else (Inr candidate, files(candidate \<mapsto> [])))"
  by pat_completeness auto
termination by (relation "measure (\<lambda>(env, path, attempt, files). nat (1000 - attempt))") auto

declare reserve_candidate.simps [simp del]

definition reserve_destination_temp_path :: "mux_env \<Rightarrow> 'd FFmpegMuxSink \<Rightarrow> string option res \<times> 'd FFmpegMuxSink" where
  "reserve_destination_temp_path env s =
     (case mc_destination_path (mu_config s) of
        None \<Rightarrow> (Inr None, s)
      | Some path \<Rightarrow>
          let (r, files) = reserve_candidate env path 0 (mu_fs s)
          in (map_res Some r, s\<lparr>mu_fs := files\<rparr>))"

definition close_inputs :: "'d FFmpegMuxSink \<Rightarrow> unit res \<times> 'd FFmpegMuxSink" where
  "close_inputs s =
     (let s = s\<lparr>mu_audio_file := False\<rparr>
      in case mu_video_sink s of
           None \<Rightarrow> (Inr (), s)
         | Some sink \<Rightarrow>
             let (r, sink) = encoded_sink_cleanup sink
             in (r, s\<lparr>mu_video_sink := None, mu_fs := (mu_fs s)(the (mu_video_path s) \<mapsto> vk_written sink)\<rparr>))"

definition audio_input :: "'d FFmpegMuxSink \<Rightarrow> string option" where
  "audio_input s = (if mu_audio_packets s > 0 then mu_audio_path s else None)"

definition video_input :: "'d FFmpegMuxSink \<Rightarrow> (string \<times> string) option" where
  "video_input s =
     (case (mu_video_path s, mu_video_codec s) of
        (Some path, Some codec) \<Rightarrow> if mu_video_packets s > 0 then Some (path, codec) else None
      | _ \<Rightarrow> None)"

definition build_ffmpeg_args :: "string option \<Rightarrow> 'd FFmpegMuxSink \<Rightarrow> string list option res" where
  "build_ffmpeg_args output_path s =
     (let config = mu_config s; audio = audio_input s; video = video_input s
      in if audio = None \<and> video = None then Inr None
         else and_then (argv_options (mc_before_options config)) (\<lambda>before.
           let sync_start = (if audio \<noteq> None \<and> video \<noteq> None
                 then (case mu_video_first s of None \<Rightarrow> 0 | Some t \<Rightarrow> t) else 0);
               audio_args = (case audio of
                   None \<Rightarrow> []
                 | Some path \<Rightarrow>
                     (if sync_start > 0 then [''-ss'', time_offset_arg sync_start] else [])
                     @ [''-f'', ''s16le'', ''-ar'', str_of_int SAMPLING_RATE, ''-ac'', str_of_int CHANNELS, ''-i'', path])
           in and_then (case video of
                  None \<Rightarrow> Inr []
                | Some (path, codec) \<Rightarrow>
                    (case map_of VIDEO_OUTPUT_FORMAT codec of
                       None \<Rightarrow> Inl KeyError
                     | Some demuxer \<Rightarrow>
                         Inr ((if demuxer \<noteq> ''ivf'' then [''-r'', video_effective_fps_arg s] else [])
                              @ [''-f'', demuxer, ''-i'', path, ''-c:v'', ''copy''])))
                (\<lambda>video_args.
             and_then (argv_options (mc_options config)) (\<lambda>options.
               Inr (Some ([mc_executable config, ''-hide_banner'', ''-y''] @ before @ audio_args @ video_args
                 @ (case mc_audio_codec config of
                      Some codec \<Rightarrow> if audio \<noteq> None then [''-c:a'', codec] else []
                    | None \<Rightarrow> [])
                 @ (if mc_shortest config \<and> audio \<noteq> None \<and> video \<noteq> None then [''-shortest''] else [])
                 @ (case mc_output_format config of
                      Some f \<Rightarrow> [''-f'', f]
                    | None \<Rightarrow> if mu_buffer s \<noteq> None then [''-f'', ''matroska''] else [])
                 @ options
                 @ [case output_path of
                      Some path \<Rightarrow> path
                    | None \<Rightarrow> (case mc_destination_path config of Some path \<Rightarrow> path | None \<Rightarrow> ''pipe:1'')]))))))"

definition run_ffmpeg :: "mux_env \<Rightarrow> string list \<Rightarrow> 'd FFmpegMuxSink \<Rightarrow> unit res \<times> 'd FFmpegMuxSink" where
  "run_ffmpeg env args s =
     (let (outcome, files) = me_run env args (mu_fs s); s = s\<lparr>mu_fs := files\<rparr>
      in case outcome of
           MuxNotFound \<Rightarrow> (Inl ClientException, s)
         | MuxFailed \<Rightarrow> (Inl ClientException, s)
         | MuxTimedOut code \<Rightarrow> (Inl ClientException, s\<lparr>mu_returncode := Some code\<rparr>)
         | MuxExited code stdout \<Rightarrow>
             let s = s\<lparr>mu_returncode := Some code\<rparr>
             in if code \<noteq> 0 then (Inl ClientException, s)
                else (Inr (), s\<lparr>mu_buffer := map_option (\<lambda>b. b @ stdout) (mu_buffer s)\<rparr>))"

definition unlink :: "string \<Rightarrow> fs \<Rightarrow> fs" where
  "unlink path files = files(path := None)"

definition unlink_temp_files :: "'d FFmpegMuxSink \<Rightarrow> 'd FFmpegMuxSink" where
  "unlink_temp_files s =
     (if mc_keep_temp (mu_config s) then s
      else s\<lparr>mu_fs := fold (\<lambda>path files. case path of None \<Rightarrow> files | Some p \<Rightarrow> unlink p files)
                         [mu_audio_path s, mu_video_path s] (mu_fs s),
             mu_audio_path := None, mu_video_path := None, mu_video_first := None, mu_video_last := None\<rparr>)"

text \<open>\<open>os.replace\<close> and the two \<open>finally\<close> clauses.\<close>

definition replace_file :: "mux_env \<Rightarrow> string \<Rightarrow> string \<Rightarrow> 'd FFmpegMuxSink \<Rightarrow> unit res \<times> 'd FFmpegMuxSink" where
  "replace_file env src dst s =
     (case mu_fs s src of
        Some content \<Rightarrow>
          if me_replaceable env src dst then (Inr (), s\<lparr>mu_fs := (mu_fs s)(dst \<mapsto> content, src := None)\<rparr>)
          else (Inl OSError, s)
      | None \<Rightarrow> (Inl OSError, s))"

definition mux_into :: "mux_env \<Rightarrow> string list \<Rightarrow> string option \<Rightarrow> 'd FFmpegMuxSink \<Rightarrow> unit res \<times> 'd FFmpegMuxSink" where
  "mux_into env args output_path s =
     (let (r, s) = bind_res (run_ffmpeg env args s) (\<lambda>_ s.
            case (output_path, mc_destination_path (mu_config s)) of
              (Some src, Some dst) \<Rightarrow> replace_file env src dst s
            | _ \<Rightarrow> (Inr (), s))
      in case output_path of
           None \<Rightarrow> (r, s)
         | Some src \<Rightarrow> if is_ok r then (r, s) else (r, s\<lparr>mu_fs := unlink src (mu_fs s)\<rparr>))"

text \<open>The outer \<open>try\<close> of \<open>cleanup\<close>: once the inputs are closed, and the whole of it.\<close>

definition mux_inputs :: "mux_env \<Rightarrow> 'd FFmpegMuxSink \<Rightarrow> unit res \<times> 'd FFmpegMuxSink" where
  "mux_inputs env s =
     bind_res (reserve_destination_temp_path env s) (\<lambda>output_path s.
       bind_res (build_ffmpeg_args output_path s, s) (\<lambda>args s.
         case args of None \<Rightarrow> (Inr (), s) | Some args \<Rightarrow> mux_into env args output_path s))"

definition mux_finish :: "mux_env \<Rightarrow> 'd FFmpegMuxSink \<Rightarrow> unit res \<times> 'd FFmpegMuxSink" where
  "mux_finish env s = bind_res (close_inputs s) (\<lambda>_ s. mux_inputs env s)"

definition mux_cleanup :: "mux_env \<Rightarrow> 'd FFmpegMuxSink \<Rightarrow> unit res \<times> 'd FFmpegMuxSink" where
  "mux_cleanup env s =
     (if mu_closed s then (Inr (), s)
      else
        let s = s\<lparr>mu_closed := True\<rparr>
        in if mu_audio_path s = None \<and> mu_video_path s = None then (Inr (), s\<lparr>mu_decoder := []\<rparr>)
           else let (r, s) = mux_finish env s in (r, unlink_temp_files (s\<lparr>mu_decoder := []\<rparr>)))"

definition mux_sink :: "mux_env \<Rightarrow> 'd opus_decoder \<Rightarrow> 'd FFmpegMuxSink sink_ops" where
  "mux_sink env opus =
     \<lparr>si_closed = mu_closed, si_wants = mux_wants,
      si_write = (\<lambda>now packet s. let (r, s) = mux_write env opus now packet s in (map_res (\<lambda>_. PyNone) r, s)),
      si_cleanup = mux_cleanup env\<rparr>"

lemma mux_sel [simp]:
  "mu_closed (snd (close_inputs s)) = mu_closed s"
  "mu_closed (snd (reserve_destination_temp_path env s)) = mu_closed s"
  "mu_closed (snd (run_ffmpeg env args s)) = mu_closed s"
  "mu_closed (snd (replace_file env src dst s)) = mu_closed s"
  "mu_closed (unlink_temp_files s) = mu_closed s"
  by (simp_all add: close_inputs_def reserve_destination_temp_path_def run_ffmpeg_def replace_file_def
      unlink_temp_files_def Let_def split: option.splits prod.splits mux_outcome.splits)

lemma unlink_returncode [simp]: "mu_returncode (unlink_temp_files s) = mu_returncode s"
  by (simp add: unlink_temp_files_def)

lemma mux_config_sel [simp]:
  "mu_config (snd (close_inputs s)) = mu_config s"
  "mu_config (snd (reserve_destination_temp_path env s)) = mu_config s"
  "mu_config (snd (run_ffmpeg env args s)) = mu_config s"
  by (simp_all add: close_inputs_def reserve_destination_temp_path_def run_ffmpeg_def
      Let_def split: option.splits prod.splits mux_outcome.splits)

lemma mux_into_closed [simp]: "mu_closed (snd (mux_into env args output s)) = mu_closed s"
  using mux_sel(3) [of env args s]
  by (cases "run_ffmpeg env args s" rule: prod.exhaust; cases "fst (run_ffmpeg env args s)")
    (auto simp: mux_into_def case_prod_beta mux_sel split: option.splits)

interpretation mux: sink_contract "mux_sink env opus"
proof (unfold_locales, goal_cases)
  case (1 s now packet)
  then show ?case by (simp add: mux_sink_def mux_write_def)
next
  case (2 s media_type codec)
  then show ?case by (simp add: mux_sink_def mux_wants_def)
next
  case (3 s)
  have keep: "mu_closed (snd (bind_res m f))"
    if "mu_closed (snd m)" "\<And>v t. mu_closed t \<Longrightarrow> mu_closed (snd (f v t))"
    for m :: "'x res \<times> 'd FFmpegMuxSink" and f :: "'x \<Rightarrow> 'd FFmpegMuxSink \<Rightarrow> 'y res \<times> 'd FFmpegMuxSink"
    using that by (cases m; cases "fst m") auto
  show ?case
    by (auto simp: mux_sink_def mux_cleanup_def mux_finish_def mux_inputs_def Let_def case_prod_beta
        intro!: keep split: option.splits)
qed


section \<open>What cleaning up a recording does to the file system\<close>

lemma length_splitext: "length (fst (splitext path)) + length (snd (splitext path)) = length path"
proof -
  define name where "name = rev (takeWhile (\<lambda>c. c \<noteq> CHR ''/'') (rev path))"
  define ext where "ext = rev (takeWhile (\<lambda>c. c \<noteq> CHR ''.'') (rev name))"
  have "length name \<le> length path" using length_takeWhile_le [of _ "rev path"] by (simp add: name_def)
  moreover have "length ext < length name" if "CHR ''.'' \<in> set name"
  proof -
    have "takeWhile (\<lambda>c. c \<noteq> CHR ''.'') (rev name) \<noteq> rev name"
      using that by (metis (mono_tags, lifting) set_rev set_takeWhileD)
    then show ?thesis unfolding ext_def
      by (metis length_rev length_takeWhile_le nat_less_le takeWhile_eq_take take_all order_refl)
  qed
  ultimately show ?thesis by (auto simp: splitext_def Let_def name_def [symmetric] ext_def [symmetric])
qed

lemma temp_candidate_longer: "length path < length (temp_candidate path attempt)"
  using length_splitext [of path] by (auto simp: temp_candidate_def case_prod_beta)

lemma reserve_candidate_cases:
  assumes "reserve_candidate env path attempt files = (r, files')"
  shows "(r = Inl ClientException \<and> files' = files)
    \<or> (\<exists>n. r = Inr (temp_candidate path n) \<and> files (temp_candidate path n) = None
          \<and> files' = files(temp_candidate path n \<mapsto> []))"
  using assms
proof (induction env path attempt files rule: reserve_candidate.induct)
  case (1 env path attempt files)
  show ?case
  proof (cases "attempt \<ge> 1000 \<or> files (temp_candidate path attempt) = None")
    case True
    then show ?thesis using 1(2)
      by (subst (asm) reserve_candidate.simps) (auto simp: Let_def fun_upd_def split: if_splits)
  next
    case False
    then show ?thesis using 1 by (subst (asm) (2) reserve_candidate.simps) (auto simp: Let_def)
  qed
qed

text \<open>\<open>ffmpeg\<close> writes its last argument and nothing else, as its command line says.\<close>

definition writes_output_only :: "mux_env \<Rightarrow> bool" where
  "writes_output_only env \<longleftrightarrow>
     (\<forall>args files path. path \<noteq> last args \<longrightarrow> snd (me_run env args files) path = files path)"

text \<open>The recording has something to mux and options that parse.\<close>

definition mux_ready :: "'d FFmpegMuxSink \<Rightarrow> bool" where
  "mux_ready s \<longleftrightarrow>
     \<not> mu_closed s
     \<and> (audio_input s \<noteq> None \<or> video_input s \<noteq> None)
     \<and> (mu_video_sink s \<noteq> None \<longrightarrow> mu_video_path s \<noteq> None)
     \<and> (case mu_video_codec s of None \<Rightarrow> True | Some c \<Rightarrow> map_of VIDEO_OUTPUT_FORMAT c \<noteq> None)
     \<and> is_ok (argv_options (mc_before_options (mu_config s))) \<and> is_ok (argv_options (mc_options (mu_config s)))"

definition temp_paths :: "'d FFmpegMuxSink \<Rightarrow> string set" where
  "temp_paths s = set_option (mu_audio_path s) \<union> set_option (mu_video_path s)"

lemma close_inputs_frame:
  assumes "close_inputs s = (r, s')" "mu_video_sink s \<noteq> None \<longrightarrow> mu_video_path s \<noteq> None"
  shows "audio_input s' = audio_input s" "video_input s' = video_input s" "mu_video_codec s' = mu_video_codec s"
    "temp_paths s' = temp_paths s" "mu_config s' = mu_config s" "mu_buffer s' = mu_buffer s"
    "path \<notin> temp_paths s \<Longrightarrow> mu_fs s' path = mu_fs s path"
    "temp_paths s \<subseteq> dom (mu_fs s) \<Longrightarrow> temp_paths s \<subseteq> dom (mu_fs s')"
  using assms
  by (auto simp: close_inputs_def audio_input_def video_input_def temp_paths_def Let_def split: option.splits prod.splits)

lemma build_ffmpeg_args_ready:
  assumes "audio_input s \<noteq> None \<or> video_input s \<noteq> None"
    and "case mu_video_codec s of None \<Rightarrow> True | Some c \<Rightarrow> map_of VIDEO_OUTPUT_FORMAT c \<noteq> None"
    and "is_ok (argv_options (mc_before_options (mu_config s)))" "is_ok (argv_options (mc_options (mu_config s)))"
  obtains args where "build_ffmpeg_args (Some c) s = Inr (Some args)" "last args = c"
proof -
  obtain before options where b: "argv_options (mc_before_options (mu_config s)) = Inr before"
    and o: "argv_options (mc_options (mu_config s)) = Inr options"
    using assms by (auto simp: is_ok_iff)
  have v: "\<exists>d. map_of VIDEO_OUTPUT_FORMAT codec = Some d" if "video_input s = Some (path, codec)" for path codec
    using that assms(2) by (auto simp: video_input_def split: option.splits if_splits)
  show thesis
  proof (cases "video_input s")
    case None
    then show ?thesis using assms(1) that b o by (auto simp: build_ffmpeg_args_def Let_def)
  next
    case (Some pc)
    then obtain path codec d where "video_input s = Some (path, codec)" "map_of VIDEO_OUTPUT_FORMAT codec = Some d"
      using v by (cases pc) auto
    then show ?thesis using that b o by (auto simp: build_ffmpeg_args_def Let_def)
  qed
qed

lemma replace_file_frame:
  assumes "replace_file env src dst s = (r, s')" "src \<noteq> dst"
  shows "path \<notin> {src, dst} \<Longrightarrow> mu_fs s' path = mu_fs s path"
    "r \<noteq> Inr () \<Longrightarrow> s' = s" "r = Inr () \<Longrightarrow> mu_fs s' src = None \<and> mu_fs s' dst = mu_fs s src \<and> mu_fs s src \<noteq> None"
    "temp_paths s' = temp_paths s" "mu_config s' = mu_config s" "mu_returncode s' = mu_returncode s"
  using assms by (auto simp: replace_file_def temp_paths_def split: option.splits if_splits)

lemma run_ffmpeg_frame:
  assumes "run_ffmpeg env args s = (r, s')"
  shows "mu_fs s' = snd (me_run env args (mu_fs s))" "temp_paths s' = temp_paths s" "mu_config s' = mu_config s"
    "r = Inr () \<Longrightarrow> mu_returncode s' = Some 0 \<and> (\<exists>stdout. fst (me_run env args (mu_fs s)) = MuxExited 0 stdout)"
  using assms
  by (auto simp: run_ffmpeg_def temp_paths_def Let_def split: prod.splits mux_outcome.splits if_splits)

definition muxed :: "mux_env \<Rightarrow> string \<Rightarrow> 'd FFmpegMuxSink \<Rightarrow> bool" where
  "muxed env dst s' \<longleftrightarrow> mu_returncode s' = Some 0 \<and>
     (\<exists>args files stdout files'. me_run env args files = (MuxExited 0 stdout, files')
        \<and> mu_fs s' dst = files' (last args) \<and> files' (last args) \<noteq> None)"

lemma mux_into_frame:
  assumes env: "writes_output_only env" and last: "last args = c"
    and dst: "mc_destination_path (mu_config s) = Some dst" "c \<noteq> dst"
    and run: "mux_into env args (Some c) s = (r, s')"
  shows "mu_fs s' c = None \<and> (\<forall>path. path \<notin> {c, dst} \<longrightarrow> mu_fs s' path = mu_fs s path)
    \<and> (r \<noteq> Inr () \<longrightarrow> mu_fs s' dst = mu_fs s dst) \<and> (r = Inr () \<longrightarrow> muxed env dst s')
    \<and> temp_paths s' = temp_paths s \<and> mu_config s' = mu_config s"
proof -
  obtain r1 s1 where r1: "run_ffmpeg env args s = (r1, s1)" by fastforce
  note f1 = run_ffmpeg_frame [OF r1]
  have fs: "path \<noteq> c \<Longrightarrow> mu_fs s1 path = mu_fs s path" for path
    using env last f1(1) by (auto simp: writes_output_only_def)
  show ?thesis
  proof (cases r1)
    case (Inl e)
    then show ?thesis using run r1 f1 fs dst by (auto simp: mux_into_def unlink_def temp_paths_def)
  next
    case (Inr u)
    obtain r2 s2 where r2: "replace_file env c dst s1 = (r2, s2)" by fastforce
    note f2 = replace_file_frame [OF r2 dst(2)]
    have m: "mux_into env args (Some c) s = (if is_ok r2 then (r2, s2) else (r2, s2\<lparr>mu_fs := unlink c (mu_fs s2)\<rparr>))"
      using Inr r1 r2 f1(3) dst(1) by (simp add: mux_into_def case_prod_beta)
    show ?thesis
    proof (cases r2)
      case e: (Inl e)
      then have "s2 = s1" using f2(2) by simp
      then show ?thesis using run m e f1 fs dst by (auto simp: unlink_def temp_paths_def)
    next
      case ok: (Inr w)
      obtain stdout where out: "fst (me_run env args (mu_fs s)) = MuxExited 0 stdout" and code: "mu_returncode s1 = Some 0"
        using f1(4) Inr by auto
      have "s' = s2" "r = Inr ()" using run m ok by auto
      moreover have "me_run env args (mu_fs s) = (MuxExited 0 stdout, mu_fs s1)" using out f1(1) by (metis prod.collapse)
      ultimately have "muxed env dst s'"
        using f2(3,6) ok code last unfolding muxed_def by (metis old.unit.exhaust)
      then show ?thesis using f1 f2 fs ok \<open>s' = s2\<close> \<open>r = Inr ()\<close> dst by auto
    qed
  qed
qed

lemma unlink_temp_files_fs:
  "mu_fs (unlink_temp_files s) path = (if \<not> mc_keep_temp (mu_config s) \<and> path \<in> temp_paths s then None else mu_fs s path)"
  by (auto simp: unlink_temp_files_def unlink_def temp_paths_def split: option.splits)


definition sample_env :: mux_env where
  "sample_env =
     \<lparr>me_mkstemp = (\<lambda>suffix _. ''/tmp/x'' @ suffix), me_creatable = (\<lambda>_. True), me_replaceable = (\<lambda>_ _. True),
      me_found = (\<lambda>_. True),
      me_run = (\<lambda>args files. (MuxExited 0 [], files(last args \<mapsto> [42])))\<rparr>"

definition sample_config :: mux_config where
  "sample_config =
     \<lparr>mc_destination_path = Some ''out.mkv'', mc_width = 0, mc_height = 0, mc_fps = 30, mc_audio = True,
      mc_video = True, mc_executable = ''ffmpeg'', mc_before_options = ArgvNone, mc_options = ArgvNone,
      mc_output_format = None, mc_audio_codec = None, mc_shortest = True, mc_keep_temp = False\<rparr>"

fun mux_writes :: "mux_env \<Rightarrow> unit opus_decoder \<Rightarrow> (pyfloat \<times> MediaPacket) list \<Rightarrow> unit FFmpegMuxSink \<Rightarrow> unit res list \<times> unit FFmpegMuxSink" where
  "mux_writes env opus [] s = ([], s)"
| "mux_writes env opus ((now, p) # ps) s =
     (let (r, s) = mux_write env opus now p s; (rs, s) = mux_writes env opus ps s in (r # rs, s))"

definition new_sample_mux :: "unit FFmpegMuxSink" where
  "new_sample_mux =
     (case new_ffmpeg_mux_sink sample_env (Map.empty(''out.mkv'' \<mapsto> [7])) sample_config None of
        Inr s \<Rightarrow> s | Inl _ \<Rightarrow> undefined)"

definition sample_recording :: "unit FFmpegMuxSink" where
  "sample_recording = snd (mux_writes sample_env mute_opus [(0, pcm_packet 0 [1, 0, 1, 0])] new_sample_mux)"


text \<open>
  A recording into which nothing was muxable (every packet refused or empty) ends without an error
  but leaves the empty file it reserved beside its destination: the file is only removed once there
  is a command to run.
\<close>

theorem empty_recording_leaves_file:
  assumes "\<not> mu_closed s" "mu_audio_packets s = 0" "mu_video_packets s = 0" "temp_paths s \<noteq> {}"
    and "mu_video_sink s = None \<or> (\<exists>sink. mu_video_sink s = Some sink \<and> \<not> vk_ivf sink \<and> mu_video_path s \<noteq> None)"
    and "mc_destination_path (mu_config s) = Some dst" "temp_candidate dst 0 \<notin> temp_paths s"
    and "mu_fs s (temp_candidate dst 0) = None" "me_creatable env (temp_candidate dst 0)"
  shows "fst (mux_cleanup env s) = Inr () \<and> mu_fs (snd (mux_cleanup env s)) (temp_candidate dst 0) = Some []"
proof -
  define s0 where "s0 = s\<lparr>mu_closed := True\<rparr>"
  obtain r1 s1 where r1: "close_inputs s0 = (r1, s1)" by fastforce
  have ok: "r1 = Inr ()"
    using r1 assms(5) by (auto simp: close_inputs_def s0_def encoded_sink_cleanup_def split: if_splits)
  have s0: "temp_paths s0 = temp_paths s" "mu_fs s0 = mu_fs s" "mu_config s0 = mu_config s"
    "audio_input s0 = None" "video_input s0 = None"
    using assms(2,3) by (auto simp: s0_def temp_paths_def audio_input_def video_input_def split: option.splits)
  have "mu_video_sink s0 \<noteq> None \<longrightarrow> mu_video_path s0 \<noteq> None" using assms(5) by (auto simp: s0_def)
  note f1 = close_inputs_frame [OF r1 this, unfolded s0]
  have free: "mu_fs s1 (temp_candidate dst 0) = None" using f1(7) assms(7,8) by simp
  define s2 where "s2 = s1\<lparr>mu_fs := (mu_fs s1)(temp_candidate dst 0 \<mapsto> [])\<rparr>"
  have "reserve_candidate env dst 0 (mu_fs s1) = (Inr (temp_candidate dst 0), (mu_fs s1)(temp_candidate dst 0 \<mapsto> []))"
    using free assms(9) by (subst reserve_candidate.simps) (simp add: Let_def)
  then have "reserve_destination_temp_path env s1 = (Inr (Some (temp_candidate dst 0)), s2)"
    using assms(6) f1(5) by (simp add: reserve_destination_temp_path_def s2_def)
  moreover have "build_ffmpeg_args (Some (temp_candidate dst 0)) s2 = Inr None"
    using f1(1,2) by (auto simp: build_ffmpeg_args_def s2_def audio_input_def video_input_def split: option.splits)
  ultimately have inner: "mux_finish env s0 = (Inr (), s2)" using r1 ok by (simp add: mux_finish_def mux_inputs_def)
  have "\<not> (mu_audio_path s = None \<and> mu_video_path s = None)" using assms(4) by (auto simp: temp_paths_def)
  then have "mux_cleanup env s = (Inr (), unlink_temp_files (s2\<lparr>mu_decoder := []\<rparr>))"
    using inner assms(1) by (auto simp: mux_cleanup_def s0_def Let_def)
  moreover have "temp_paths (s2\<lparr>mu_decoder := []\<rparr>) = temp_paths s" using f1(4) by (simp add: s2_def temp_paths_def)
  ultimately show ?thesis using assms(7) by (simp add: unlink_temp_files_fs) (simp add: s2_def)
qed

definition h264_packet :: "bytes \<Rightarrow> MediaPacket" where
  "h264_packet payload = new_media_packet ''video'' ''H264'' payload 101 True 1 0 6 (Some 7) []"

definition sample_refused :: "unit FFmpegMuxSink" where
  "sample_refused = snd (mux_writes sample_env mute_opus [(0, h264_packet [0, 0, 0, 1, 0x41])] new_sample_mux)"

theorem empty_recording_leaves_file_witness:
  "mu_fs (snd (mux_cleanup sample_env sample_refused)) ''out.0.tmp.mkv'' = Some []"
proof -
  have c: "temp_candidate ''out.mkv'' 0 = ''out.0.tmp.mkv''" by code_simp
  have "\<not> mu_closed sample_refused" "mu_audio_packets sample_refused = 0" "mu_video_packets sample_refused = 0"
    "temp_paths sample_refused = {''/tmp/x.h264''}" "mc_destination_path (mu_config sample_refused) = Some ''out.mkv''"
    "mu_fs sample_refused ''out.0.tmp.mkv'' = None" "me_creatable sample_env ''out.0.tmp.mkv''"
    "map_option vk_ivf (mu_video_sink sample_refused) = Some False" "mu_video_path sample_refused = Some ''/tmp/x.h264''"
    by code_simp+
  then show ?thesis
    using empty_recording_leaves_file [of sample_refused "''out.mkv''" sample_env, unfolded c] by auto
qed

lemma mux_write_pcm:
  assumes "mp_media_type p = ''audio''" "mp_codec p = ''pcm''" "mp_payload p \<noteq> []" "mp_received_at p = None"
    "mp_rtcp_time p = None" and "\<not> mu_closed s" "mu_audio_file s" "mu_audio_path s = Some path"
    "mu_audio_base s = Some base" "mu_recording_start s = Some began" "rtp_timestamp_delta (mp_timestamp p) base = Some d"
    and "audio_start_offset (mu_audio_start s) d (max 0 (now - began)) = start"
  shows "mux_write env opus now p s =
     (case place_pcm ((start + d) * 2 * 2) (mp_payload p) (the (mu_fs s path)) of
        Inl e \<Rightarrow> (Inl e, s\<lparr>mu_audio_start := Some start\<rparr>)
      | Inr content \<Rightarrow> (Inr (), s\<lparr>mu_audio_start := Some start, mu_fs := (mu_fs s)(path \<mapsto> content),
                                  mu_audio_packets := mu_audio_packets s + 1\<rparr>))"
  using assms
  by (simp add: mux_write_def write_audio_packet_def open_audio_file_def mux_timestamp_delta_def
      packet_time_offset_def Let_def split: sum.split)

text \<open>
  Three PCM packets that arrive at once, the last one sent before the second: the jump of the second
  packet moves the track back by 9600 samples, so the third belongs 4800 samples before the start of
  the file, and writing it raises \<open>OSError\<close> out of the receiver instead of dropping it.
\<close>

theorem mux_write_seeks_before_start:
  "fst (mux_writes sample_env mute_opus
      [(0, pcm_packet 0 [1, 0, 1, 0]), (0, pcm_packet 9600 [1, 0, 1, 0]), (0, pcm_packet 4800 [1, 0, 1, 0])]
      new_sample_mux) = [Inr (), Inr (), Inl OSError]"
proof -
  define s1 where "s1 = snd (mux_write sample_env mute_opus 0 (pcm_packet 0 [1, 0, 1, 0]) new_sample_mux)"
  have s1: "\<not> mu_closed s1" "mu_audio_file s1" "mu_audio_path s1 = Some ''/tmp/x.pcm''" "mu_audio_base s1 = Some 0"
    "mu_recording_start s1 = Some 0" "mu_audio_start s1 = Some 0" "the (mu_fs s1 ''/tmp/x.pcm'') = [1, 0, 1, 0]"
    "fst (mux_write sample_env mute_opus 0 (pcm_packet 0 [1, 0, 1, 0]) new_sample_mux) = Inr ()"
    unfolding s1_def by code_simp+
  have p: "mp_media_type (pcm_packet t b) = ''audio''" "mp_codec (pcm_packet t b) = ''pcm''" "mp_payload (pcm_packet t b) = b"
    "mp_received_at (pcm_packet t b) = None" "mp_rtcp_time (pcm_packet t b) = None" "mp_timestamp (pcm_packet t b) = t" for t b
    by (simp_all add: pcm_packet_def new_media_packet_def)
  have second: "audio_start_offset (Some 0) 9600 (max 0 (0 - 0)) = - 9600"
    "rtp_timestamp_delta 9600 0 = Some 9600" by code_simp+
  have third: "audio_start_offset (Some (- 9600)) 4800 (max 0 (0 - 0)) = - 9600"
    "rtp_timestamp_delta 4800 0 = Some 4800" by code_simp+
  have mixed: "place_pcm ((- 9600 + 9600) * 2 * 2) [1, 0, 1, 0] [1, 0, 1, 0] = Inr [2, 0, 2, 0]" by code_simp
  define s2 where "s2 = s1\<lparr>mu_audio_start := Some (- 9600), mu_fs := (mu_fs s1)(''/tmp/x.pcm'' \<mapsto> [2, 0, 2, 0]),
      mu_audio_packets := mu_audio_packets s1 + 1\<rparr>"
  have run2: "mux_write sample_env mute_opus 0 (pcm_packet 9600 [1, 0, 1, 0]) s1 = (Inr (), s2)"
    by (subst mux_write_pcm [where path = "''/tmp/x.pcm''" and base = 0 and began = 0 and d = 9600 and start = "- 9600"])
      (use s1 second mixed in \<open>simp_all add: p s2_def\<close>)
  have "place_pcm ((- 9600 + 4800) * 2 * 2) [1, 0, 1, 0] [2, 0, 2, 0] = Inl OSError" by code_simp
  then have "fst (mux_write sample_env mute_opus 0 (pcm_packet 4800 [1, 0, 1, 0]) s2) = Inl OSError"
    by (subst mux_write_pcm [where path = "''/tmp/x.pcm''" and base = 0 and began = 0 and d = 4800 and start = "- 9600"])
      (use s1 third in \<open>simp_all add: p s2_def\<close>)
  then show ?thesis using s1(8) run2 by (simp add: case_prod_beta s1_def [symmetric])
qed


definition failing_process :: ffmpeg_process where
  "failing_process =
     \<lparr>fp_start = (\<lambda>_. PopenStarted), fp_running = (\<lambda>_ _. True), fp_accepts = (\<lambda>_ _ _. True),
      fp_output = (\<lambda>_ _. []), fp_exit = (\<lambda>args _. if ''bad.ogg'' \<in> set args then 1 else 0)\<rparr>"

definition sample_ffmpeg :: "string \<Rightarrow> unit FFmpegSink" where
  "sample_ffmpeg path =
     (case new_ffmpeg_sink failing_process (PathDestination path) ''ffmpeg'' ArgvNone ArgvNone of
        Inr s \<Rightarrow> s | Inl _ \<Rightarrow> undefined)"

definition sample_fan_out :: "unit res \<times> unit FFmpegSink MultiSink" where
  "sample_fan_out = multi_sink_cleanup (ffmpeg_sink failing_process mute_opus)
     (new_multi_sink [sample_ffmpeg ''bad.ogg'', sample_ffmpeg ''good.ogg''])"


end
