(* ===== verification/Player.thy ===== *)
theory Player
  imports SourceContract
begin

text \<open>
  \<open>MediaPlayer\<close> of \<open>player.py\<close>: the thread that reads a source and sends what it reads through the
  client, on time. The loop's state is one record: the player's attributes, the local variables of
  \<open>_do_run\<close> and what the outside has seen. Everything the thread asks the outside (the clock, the
  client, events other threads set) is the answer to the \<open>n\<close>-th question of an environment; between two
  questions any time may pass.
\<close>

section \<open>Statistics\<close>

record player_stats =
  st_started_at :: pyfloat
  st_audio_frames_sent :: int
  st_audio_total_ms :: pyfloat
  st_audio_max_ms :: pyfloat
  st_batches_sent :: int
  st_frames_sent :: int
  st_packets_sent :: int
  st_video_total_ms :: pyfloat
  st_video_max_ms :: pyfloat
  st_last_video :: "pyfloat option"
  st_intervals :: "pyfloat list"
  st_late_frames :: int
  st_max_late_ms :: pyfloat
  st_sleep_count :: int
  st_sleep_total_ms :: pyfloat
  st_sleep_max_ms :: pyfloat

definition new_player_stats :: "pyfloat \<Rightarrow> player_stats" where
  "new_player_stats now =
     \<lparr>st_started_at = now, st_audio_frames_sent = 0, st_audio_total_ms = 0, st_audio_max_ms = 0,
      st_batches_sent = 0, st_frames_sent = 0, st_packets_sent = 0, st_video_total_ms = 0,
      st_video_max_ms = 0, st_last_video = None, st_intervals = [], st_late_frames = 0,
      st_max_late_ms = 0, st_sleep_count = 0, st_sleep_total_ms = 0, st_sleep_max_ms = 0\<rparr>"

definition record_audio_send :: "pyfloat \<Rightarrow> player_stats \<Rightarrow> player_stats" where
  "record_audio_send elapsed_ms st =
     st\<lparr>st_audio_frames_sent := st_audio_frames_sent st + 1, st_audio_total_ms := st_audio_total_ms st + elapsed_ms,
        st_audio_max_ms := max (st_audio_max_ms st) elapsed_ms\<rparr>"

definition video_send_interval_p95_ms :: "player_stats \<Rightarrow> pyfloat" where
  "video_send_interval_p95_ms st =
     (let samples = st_intervals st
      in if samples = [] then 0
         else let ordered = sort samples;
                  last_index = int (length ordered) - 1
              in ordered ! nat (min last_index (py_trunc (of_int last_index * (95 / 100)))))"

text \<open>A \<open>deque(maxlen=2048)\<close> drops its oldest element.\<close>

definition deque_append :: "nat \<Rightarrow> 'a \<Rightarrow> 'a list \<Rightarrow> 'a list" where
  "deque_append n x xs = (let xs = xs @ [x] in drop (length xs - n) xs)"

definition record_video_send :: "pyfloat \<Rightarrow> pyfloat \<Rightarrow> int \<Rightarrow> int \<Rightarrow> player_stats \<Rightarrow> player_stats" where
  "record_video_send started_at elapsed_ms frames packets st =
     (let st = (case st_last_video st of
                  None \<Rightarrow> st
                | Some t \<Rightarrow>
                    let interval_ms = (started_at - t) * 1000
                    in if interval_ms \<ge> 0 then st\<lparr>st_intervals := deque_append 2048 interval_ms (st_intervals st)\<rparr>
                       else st)
      in st\<lparr>st_last_video := Some started_at, st_batches_sent := st_batches_sent st + 1,
            st_frames_sent := st_frames_sent st + frames, st_packets_sent := st_packets_sent st + packets,
            st_video_total_ms := st_video_total_ms st + elapsed_ms,
            st_video_max_ms := max (st_video_max_ms st) elapsed_ms\<rparr>)"

definition record_video_late :: "pyfloat \<Rightarrow> player_stats \<Rightarrow> player_stats" where
  "record_video_late elapsed_ms st =
     (if elapsed_ms < 1 then st
      else st\<lparr>st_late_frames := st_late_frames st + 1, st_max_late_ms := max (st_max_late_ms st) elapsed_ms\<rparr>)"

definition record_sleep :: "pyfloat \<Rightarrow> player_stats \<Rightarrow> player_stats" where
  "record_sleep elapsed_ms st =
     st\<lparr>st_sleep_count := st_sleep_count st + 1, st_sleep_total_ms := st_sleep_total_ms st + elapsed_ms,
        st_sleep_max_ms := max (st_sleep_max_ms st) elapsed_ms\<rparr>"

text \<open>The fields of \<open>MediaPlayerStats\<close> that the property \<open>stats\<close> computes, by name.\<close>

definition player_snapshot :: "player_stats \<Rightarrow> (string, pyfloat) odict" where
  "player_snapshot st =
     [(''started_at'', st_started_at st),
      (''audio_frames_sent'', of_int (st_audio_frames_sent st)),
      (''video_frame_batches_sent'', of_int (st_batches_sent st)),
      (''video_frames_sent'', of_int (st_frames_sent st)),
      (''video_packets_sent'', of_int (st_packets_sent st)),
      (''late_video_frames'', of_int (st_late_frames st)),
      (''max_video_late_ms'', st_max_late_ms st),
      (''audio_send_mean_ms'', st_audio_total_ms st / of_int (max 1 (st_audio_frames_sent st))),
      (''audio_send_max_ms'', st_audio_max_ms st),
      (''video_send_mean_ms'', st_video_total_ms st / of_int (max 1 (st_batches_sent st))),
      (''video_send_max_ms'', st_video_max_ms st),
      (''video_send_interval_mean_ms'',
         sum_list (st_intervals st) / of_int (max 1 (int (length (st_intervals st))))),
      (''video_send_interval_p95_ms'', video_send_interval_p95_ms st),
      (''video_send_interval_max_ms'', if st_intervals st = [] then 0 else Max (set (st_intervals st))),
      (''sleep_mean_ms'', st_sleep_total_ms st / of_int (max 1 (st_sleep_count st))),
      (''sleep_max_ms'', st_sleep_max_ms st)]"


section \<open>Pacing\<close>

definition next_video_time :: "bool \<Rightarrow> pyfloat \<Rightarrow> pyfloat \<Rightarrow> pyfloat \<Rightarrow> pyfloat" where
  "next_video_time realtime now next_video frame_time =
     (let target = next_video + frame_time
      in if realtime
         then if now \<le> target then target
              else if now - target > frame_time * 2 then now + frame_time
              else target + of_int (\<lfloor>(now - target) / frame_time\<rfloor> + 1) * frame_time
         else if now - target > frame_time then now else target)"

text \<open>Here the attribute is a number; \<open>float(delay)\<close> of another value falls back to 0.02.\<close>

definition video_retry_delay :: "pyfloat option \<Rightarrow> pyfloat" where
  "video_retry_delay delay =
     (case delay of Some d \<Rightarrow> max (1 / 1000) (min d (2 / 100)) | None \<Rightarrow> 2 / 100)"

definition video_catchup_frames :: "bool \<Rightarrow> int option \<Rightarrow> int" where
  "video_catchup_frames realtime frames =
     (if \<not> realtime then 1 else case frames of Some n \<Rightarrow> max 1 (min n 16) | None \<Rightarrow> 4)"

definition video_pacing_time :: "bool \<Rightarrow> VideoConfig option \<Rightarrow> (string, VideoFrame) odict \<Rightarrow> pyfloat" where
  "video_pacing_time realtime config frames =
     (let by_frames = max (1 / 1000) (Max (set (map vf_frame_time_ms (vals frames)))) / 1000
      in if realtime
         then case config of Some c \<Rightarrow> 1 / of_int (max 1 (vc_fps c)) | None \<Rightarrow> by_frames
         else by_frames)"

text \<open>\<open>SpeakingFlags\<close> by value: bit 1 is \<open>soundshare\<close>.\<close>

definition audio_silence_speaking_flags :: "int \<Rightarrow> int" where
  "audio_silence_speaking_flags flags = (if bit flags 1 then 2 else 0)"


section \<open>The thread\<close>

text \<open>What the outside sees, with the time at which it happens.\<close>

datatype player_event =
    Spoke int | Silence | SentAudio bytes bool | SentVideo "(string, VideoFrame) odict"
  | StoppedVideo | StartedVideo | CancelledStart | SourceChanged | PlayerFinished | CalledAfter "exn option"

record 's playback =
  pl_source :: 's
  pl_generation :: int \<comment> \<open>\<open>_source_generation\<close>\<close>
  pl_transport :: bool \<comment> \<open>\<open>_video_transport_start\<close> is not \<open>None\<close>\<close>
  pl_stop_video :: bool
  pl_ended :: bool
  pl_error :: "exn option"
  pl_loops :: int
  pl_stats :: player_stats
  lv_has_audio :: bool
  lv_flags :: int
  lv_audio_done :: bool
  lv_video_done :: bool
  lv_generation :: int
  lv_next_audio :: pyfloat
  lv_next_video :: pyfloat
  lv_silence_sent :: bool
  pw_time :: pyfloat
  pw_calls :: nat
  pw_log :: "(pyfloat \<times> player_event) list"

text \<open>
  The answers of the outside. \<open>pe_ticks n\<close> is the time that passes before the \<open>n\<close>-th question;
  \<open>pe_ended\<close> is whether another thread has called \<open>stop\<close>; the transport future is pending
  (\<open>None\<close>), done or failed.
\<close>

record 's player_env =
  pe_ticks :: "nat \<Rightarrow> pyfloat"
  pe_ended :: "nat \<Rightarrow> bool"
  pe_resumed :: "nat \<Rightarrow> bool"
  pe_connected :: "nat \<Rightarrow> bool"
  pe_reconnects :: "nat \<Rightarrow> bool"
  pe_transport :: "nat \<Rightarrow> unit res option"
  pe_streams :: "nat \<Rightarrow> string list"
  pe_keyframes :: "nat \<Rightarrow> bool res"
  pe_audio :: "nat \<Rightarrow> unit res"
  pe_video :: "nat \<Rightarrow> int res"
  pe_flags :: "'s \<Rightarrow> int"
  pe_realtime :: "'s \<Rightarrow> bool"
  pe_retry_delay :: "'s \<Rightarrow> pyfloat option"
  pe_catchup :: "'s \<Rightarrow> int option"
  pe_notified :: bool \<comment> \<open>the client has a method \<open>_media_player_finished\<close>\<close>

definition ask :: "'s player_env \<Rightarrow> (nat \<Rightarrow> 'a) \<Rightarrow> 's playback \<Rightarrow> 'a \<times> 's playback" where
  "ask env f s =
     (f (pw_calls s), s\<lparr>pw_time := pw_time s + pe_ticks env (pw_calls s), pw_calls := pw_calls s + 1\<rparr>)"

definition read_clock :: "'s player_env \<Rightarrow> 's playback \<Rightarrow> pyfloat \<times> 's playback" where
  "read_clock env s = (let s = snd (ask env (\<lambda>_. ()) s) in (pw_time s, s))"

definition emit :: "player_event \<Rightarrow> 's playback \<Rightarrow> 's playback" where
  "emit e s = s\<lparr>pw_log := pw_log s @ [(pw_time s, e)]\<rparr>"

definition is_ended :: "'s player_env \<Rightarrow> 's playback \<Rightarrow> bool \<times> 's playback" where
  "is_ended env s = (let (stopped, s) = ask env (pe_ended env) s in (pl_ended s \<or> stopped, s))"

definition player_sleep :: "'s player_env \<Rightarrow> pyfloat \<Rightarrow> 's playback \<Rightarrow> 's playback" where
  "player_sleep env delay s =
     (let (started, s) = read_clock env s;
          s = s\<lparr>pw_time := pw_time s + delay\<rparr>;
          (now, s) = read_clock env s
      in s\<lparr>pl_stats := record_sleep ((now - started) * 1000) (pl_stats s)\<rparr>)"

text \<open>\<open>next_audio = next_video = time.perf_counter()\<close>.\<close>

definition reset_schedule :: "'s player_env \<Rightarrow> 's playback \<Rightarrow> 's playback" where
  "reset_schedule env s =
     (let (now, s) = read_clock env s in s\<lparr>lv_next_audio := now, lv_next_video := now\<rparr>)"

definition take_source :: "'s source_ops \<Rightarrow> 's player_env \<Rightarrow> 's playback \<Rightarrow> 's playback" where
  "take_source ops env s =
     (if lv_generation s = pl_generation s then s
      else
        let src = pl_source s; has_audio = so_has_audio ops src;
            s = reset_schedule env (s\<lparr>lv_has_audio := has_audio, lv_flags := pe_flags env src,
                  lv_audio_done := \<not> has_audio, lv_video_done := \<not> so_has_video ops src,
                  lv_silence_sent := \<not> has_audio, lv_generation := pl_generation s\<rparr>)
        in emit (Spoke (pe_flags env src)) (s\<lparr>pl_stats := (pl_stats s)\<lparr>st_last_video := None\<rparr>\<rparr>))"

definition silence_once :: "'s playback \<Rightarrow> 's playback" where
  "silence_once s = (emit Silence s)\<lparr>lv_silence_sent := True\<rparr>"

text \<open>One frame of audio, when it is due.\<close>

definition audio_turn :: "'s source_ops \<Rightarrow> 's player_env \<Rightarrow> pyfloat \<Rightarrow> 's playback \<Rightarrow> unit res \<times> 's playback" where
  "audio_turn ops env now s =
     (if lv_audio_done s \<or> now < lv_next_audio s then (Inr (), s)
      else
        let (r, src) = so_read ops (pl_source s)
        in bind_res (r, s\<lparr>pl_source := src\<rparr>) (\<lambda>data s.
             if data \<noteq> []
             then
               let (started, s) = read_clock env s;
                   s = emit (SentAudio data (\<not> so_is_opus ops (pl_source s))) s;
                   (sent, s) = ask env (pe_audio env) s
               in bind_res (sent, s) (\<lambda>_ s.
                    let (ended, s) = read_clock env s
                    in (Inr (), s\<lparr>pl_stats := record_audio_send ((ended - started) * 1000) (pl_stats s),
                                  pl_loops := pl_loops s + 1, lv_silence_sent := False,
                                  lv_next_audio := lv_next_audio s + 2 / 100\<rparr>))
             else
               let s = s\<lparr>lv_audio_done := True\<rparr>
               in if lv_video_done s \<or> lv_silence_sent s then (Inr (), s)
                  else
                    let s = s\<lparr>lv_flags := audio_silence_speaking_flags (lv_flags s)\<rparr>;
                        (connected, s) = ask env (pe_connected env) s;
                        s = (if connected then emit Silence (emit (Spoke (lv_flags s)) s) else s)
                    in (Inr (), s\<lparr>lv_silence_sent := True\<rparr>)))"

text \<open>\<open>_video_transport_started\<close>.\<close>

definition video_transport_started :: "'s player_env \<Rightarrow> 's playback \<Rightarrow> bool \<times> 's playback" where
  "video_transport_started env s =
     (if \<not> pl_transport s then (True, s)
      else case ask env (pe_transport env) s of
          (None, s) \<Rightarrow> (False, s)
        | (Some (Inl e), s) \<Rightarrow> (False, s\<lparr>pl_transport := False, pl_error := Some e, pl_ended := True\<rparr>)
        | (Some (Inr _), s) \<Rightarrow> (True, s\<lparr>pl_transport := False\<rparr>))"

text \<open>\<open>next_video = ... + delay\<close> with the time now, and the reads of the clock that \<open>_next_video_time\<close> makes.\<close>

definition video_later :: "'s player_env \<Rightarrow> pyfloat \<Rightarrow> 's playback \<Rightarrow> 's playback" where
  "video_later env delay s = (let (now, s) = read_clock env s in s\<lparr>lv_next_video := now + delay\<rparr>)"

definition video_paced :: "'s player_env \<Rightarrow> pyfloat \<Rightarrow> 's playback \<Rightarrow> 's playback" where
  "video_paced env frame_time s =
     (let (now, s) = read_clock env s
      in s\<lparr>lv_next_video := next_video_time (pe_realtime env (pl_source s)) now (lv_next_video s) frame_time\<rparr>)"

text \<open>How the loop over \<open>range(catchup)\<close> goes on after one batch: next batch, \<open>break\<close>, or \<open>return\<close>.\<close>

datatype video_flow = NextBatch | LeaveBatches | ReturnNow

definition send_batch ::
  "'s source_ops \<Rightarrow> 's player_env \<Rightarrow> string list \<Rightarrow> 's playback \<Rightarrow> video_flow res \<times> 's playback"
where
  "send_batch ops env streams s =
     (let (r, src) = so_read_video_streams ops streams (pl_source s)
      in bind_res (r, s\<lparr>pl_source := src\<rparr>) (\<lambda>frames s.
           case frames of
             None \<Rightarrow> (Inr LeaveBatches, s\<lparr>lv_video_done := True\<rparr>)
           | Some frames \<Rightarrow>
               if frames = []
               then (Inr LeaveBatches, video_later env (video_retry_delay (pe_retry_delay env (pl_source s))) s)
               else
                 let (started, s) = read_clock env s;
                     s = emit (SentVideo frames) s;
                     (sent, s) = ask env (pe_video env) s
                 in bind_res (sent, s) (\<lambda>packets s.
                      let (ended, s) = read_clock env s;
                          s = s\<lparr>pl_stats := record_video_send started ((ended - started) * 1000)
                                  (int (length frames)) packets (pl_stats s)\<rparr>;
                          frame_time = video_pacing_time (pe_realtime env (pl_source s))
                                         (so_video_config ops (pl_source s)) frames
                      in (Inr NextBatch, video_paced env frame_time s))))"

definition ready_batch ::
  "'s source_ops \<Rightarrow> 's player_env \<Rightarrow> 's playback \<Rightarrow> video_flow res \<times> 's playback"
where
  "ready_batch ops env s =
     (let (ready, s) = video_transport_started env s
      in if \<not> ready then (Inr LeaveBatches, video_later env (2 / 100) s)
         else
           let (ended, s) = is_ended env s
           in if ended then (Inr ReturnNow, s)
              else
                let (streams, s) = ask env (pe_streams env) s
                in if streams = [] then (Inr LeaveBatches, video_later env (2 / 100) s)
                   else bind_res (ask env (pe_keyframes env) s) (\<lambda>keyframe s.
                     if keyframe
                     then let frame_time = (case so_video_config ops (pl_source s) of
                                 Some c \<Rightarrow> 1 / of_int (max 1 (vc_fps c)) | None \<Rightarrow> 2 / 100)
                          in (Inr LeaveBatches, video_paced env frame_time s)
                     else send_batch ops env streams s))"

fun video_batches ::
  "'s source_ops \<Rightarrow> 's player_env \<Rightarrow> nat \<Rightarrow> bool \<Rightarrow> 's playback \<Rightarrow> video_flow res \<times> 's playback"
where
  "video_batches ops env 0 is_first s = (Inr LeaveBatches, s)"
| "video_batches ops env (Suc n) is_first s =
     (let (now, s) = read_clock env s
      in if now < lv_next_video s then (Inr LeaveBatches, s)
         else if \<not> is_first \<and> \<not> lv_audio_done s \<and> now \<ge> lv_next_audio s then (Inr LeaveBatches, s)
         else
           let s = (if now > lv_next_video s
                    then s\<lparr>pl_stats := record_video_late ((now - lv_next_video s) * 1000) (pl_stats s)\<rparr> else s)
           in bind_res (ready_batch ops env s) (\<lambda>flow s.
                if flow = NextBatch then video_batches ops env n False s else (Inr flow, s)))"

definition video_turn ::
  "'s source_ops \<Rightarrow> 's player_env \<Rightarrow> pyfloat \<Rightarrow> 's playback \<Rightarrow> video_flow res \<times> 's playback"
where
  "video_turn ops env now s =
     (if lv_video_done s \<or> now < lv_next_video s then (Inr LeaveBatches, s)
      else video_batches ops env
             (nat (video_catchup_frames (pe_realtime env (pl_source s)) (pe_catchup env (pl_source s)))) True s)"

text \<open>The end of an iteration: stop when the source is done, else sleep until the next frame is due.\<close>

definition rest_turn :: "'s player_env \<Rightarrow> 's playback \<Rightarrow> 's playback" where
  "rest_turn env s =
     (let wakeups = (if lv_audio_done s then [] else [lv_next_audio s])
                    @ (if lv_video_done s then [] else [lv_next_video s]);
          (remaining, s) = (if wakeups = [] then (2 / 100, s)
             else let (now, s) = read_clock env s in (Min (set wakeups) - now, s));
          delay = min (max remaining 0) (2 / 100)
      in if delay = 0 then s else player_sleep env delay s)"

datatype loop_flow = GoOn | BreakLoop | ReturnRun

definition play_turn :: "'s source_ops \<Rightarrow> 's player_env \<Rightarrow> 's playback \<Rightarrow> loop_flow res \<times> 's playback" where
  "play_turn ops env s =
     (let (now, s) = read_clock env s
      in bind_res (audio_turn ops env now s) (\<lambda>_ s.
           bind_res (video_turn ops env now s) (\<lambda>flow s.
             if flow = ReturnNow then (Inr ReturnRun, s)
             else if lv_audio_done s \<and> lv_video_done s \<or> so_is_finished ops (pl_source s)
             then (Inr BreakLoop, s\<lparr>pl_ended := True\<rparr>)
             else (Inr GoOn, rest_turn env s))))"

definition play_step :: "'s source_ops \<Rightarrow> 's player_env \<Rightarrow> 's playback \<Rightarrow> loop_flow res \<times> 's playback" where
  "play_step ops env s =
     (let s = take_source ops env s;
          (resumed, s) = ask env (pe_resumed env) s
      in if \<not> resumed
         then (Inr GoOn, reset_schedule env
                 (if lv_has_audio s \<and> \<not> lv_silence_sent s then silence_once s else s))
         else
           let (connected, s) = ask env (pe_connected env) s
           in if connected then play_turn ops env s
              else
                let (back, s) = ask env (pe_reconnects env) s; (ended, s) = is_ended env s
                in if ended \<or> \<not> back then (Inr ReturnRun, s)
                   else play_turn ops env (reset_schedule env (emit (Spoke (lv_flags s)) s)))"

text \<open>The loop itself, with a bound on its iterations; \<open>None\<close> is a loop that has not ended by then.\<close>

definition last_silence :: "'s player_env \<Rightarrow> 's playback \<Rightarrow> 's playback" where
  "last_silence env s =
     (if lv_has_audio s \<and> \<not> lv_silence_sent s
      then let (connected, s) = ask env (pe_connected env) s in if connected then emit Silence s else s
      else s)"

fun play_loop :: "nat \<Rightarrow> 's source_ops \<Rightarrow> 's player_env \<Rightarrow> 's playback \<Rightarrow> (unit res \<times> 's playback) option" where
  "play_loop 0 ops env s = None"
| "play_loop (Suc n) ops env s =
     (let (ended, s) = is_ended env s
      in if ended then Some (Inr (), last_silence env s)
         else case play_step ops env s of
             (Inl e, s) \<Rightarrow> Some (Inl e, s)
           | (Inr ReturnRun, s) \<Rightarrow> Some (Inr (), s)
           | (Inr BreakLoop, s) \<Rightarrow> Some (Inr (), last_silence env s)
           | (Inr GoOn, s) \<Rightarrow> play_loop n ops env s)"

definition do_run :: "nat \<Rightarrow> 's source_ops \<Rightarrow> 's player_env \<Rightarrow> 's playback \<Rightarrow> (unit res \<times> 's playback) option" where
  "do_run fuel ops env s =
     (let (now, s) = read_clock env s;
          s = s\<lparr>pl_loops := 0, pl_stats := (pl_stats s)\<lparr>st_started_at := now\<rparr>, lv_has_audio := False, lv_flags := 0,
                lv_audio_done := True, lv_video_done := True, lv_generation := - 1, lv_next_audio := now,
                lv_next_video := now, lv_silence_sent := True\<rparr>
      in map_option (\<lambda>(r, s).
             let s = (if pl_stop_video s then emit StoppedVideo s else s)
             in (r, if pe_notified env then emit PlayerFinished s else s))
           (play_loop fuel ops env s))"

definition player_run :: "nat \<Rightarrow> 's source_ops \<Rightarrow> 's player_env \<Rightarrow> 's playback \<Rightarrow> (unit res \<times> 's playback) option" where
  "player_run fuel ops env s =
     map_option (\<lambda>(r, s).
        let s = (case r of Inl e \<Rightarrow> s\<lparr>pl_error := Some e, pl_ended := True\<rparr> | Inr _ \<Rightarrow> s);
            s = emit (CalledAfter (pl_error s)) s;
            (r, src) = so_cleanup ops (pl_source s)
        in (r, s\<lparr>pl_source := src\<rparr>)) (do_run fuel ops env s)"


section \<open>Operations of other threads\<close>

definition new_player :: "pyfloat \<Rightarrow> 's \<Rightarrow> bool \<Rightarrow> 's playback" where
  "new_player now source video_start =
     \<lparr>pl_source = source, pl_generation = 0, pl_transport = video_start, pl_stop_video = video_start,
      pl_ended = False, pl_error = None, pl_loops = 0, pl_stats = new_player_stats now, lv_has_audio = False,
      lv_flags = 0, lv_audio_done = True, lv_video_done = True, lv_generation = - 1, lv_next_audio = now,
      lv_next_video = now, lv_silence_sent = True, pw_time = now, pw_calls = 0, pw_log = []\<rparr>"

definition player_resume :: "'s player_env \<Rightarrow> bool \<Rightarrow> 's playback \<Rightarrow> 's playback" where
  "player_resume env update_speaking s =
     (let (now, s) = read_clock env s;
          s = s\<lparr>pl_loops := 0, pl_stats := (pl_stats s)\<lparr>st_started_at := now, st_last_video := None\<rparr>\<rparr>
      in if update_speaking then emit (Spoke (pe_flags env (pl_source s))) s else s)"

text \<open>
  \<open>set_source\<close>; \<open>no_codec\<close> is \<open>client._video_codec is None\<close>, \<open>pending\<close> that a start of the transport is
  still under way.
\<close>

definition player_set_source ::
  "'s source_ops \<Rightarrow> 's player_env \<Rightarrow> bool \<Rightarrow> bool \<Rightarrow> 's \<Rightarrow> 's playback \<Rightarrow> 's playback"
where
  "player_set_source ops env no_codec pending source s =
     (let cancel = (\<lambda>s. if pl_transport s \<and> pending then emit CancelledStart s else s);
          s = (if so_has_video ops source
               then if no_codec \<or> pl_stop_video s
                    then (emit StartedVideo (cancel s))\<lparr>pl_transport := True, pl_stop_video := True\<rparr> else s
               else if pl_stop_video s
               then (emit StoppedVideo (cancel s))\<lparr>pl_transport := False, pl_stop_video := False\<rparr> else s)
      in player_resume env False
           (emit SourceChanged (s\<lparr>pl_source := source, pl_generation := pl_generation s + 1\<rparr>)))"



section \<open>Video frames are paced\<close>

text \<open>
  When the next video frame is sent. For a real-time source it is never in the past and at most one
  frame time after now (or where the schedule already was), and it stays on the grid of frame times
  unless playback has fallen more than two frames behind. For other sources the schedule never falls
  more than a frame behind: a frame is skipped ahead to now rather than sent in a burst.
\<close>

theorem next_video_on_time:
  assumes "0 < frame_time"
  shows "let target = next_video + frame_time; r = next_video_time realtime now next_video frame_time
    in (realtime \<longrightarrow> now \<le> r \<and> r \<le> max target (now + frame_time)
          \<and> (now - target \<le> 2 * frame_time \<longrightarrow> (\<exists>k \<ge> 1. r = next_video + of_nat k * frame_time)))
       \<and> (\<not> realtime \<longrightarrow> r \<in> {target, now} \<and> target \<le> r \<and> now - frame_time \<le> r)"
proof -
  define target where "target = next_video + frame_time"
  define q where "q = \<lfloor>(now - target) / frame_time\<rfloor>"
  have "of_int q \<le> (now - target) / frame_time" "(now - target) / frame_time < of_int q + 1"
    unfolding q_def by linarith+
  then have q: "of_int q * frame_time \<le> now - target" "now - target < (of_int q + 1) * frame_time"
    using assms by (simp_all add: field_simps)
  have grid: "\<exists>k \<ge> 1. target + of_int (q + 1) * frame_time = next_video + of_nat k * frame_time" if "target < now"
  proof -
    have "0 \<le> q" using that assms by (simp add: q_def)
    then have "target + of_int (q + 1) * frame_time = next_video + of_nat (nat (q + 2)) * frame_time"
      by (simp add: target_def distrib_right)
    then show ?thesis using \<open>0 \<le> q\<close> by (intro exI [of _ "nat (q + 2)"]) simp
  qed
  have base: "\<exists>k \<ge> 1. target = next_video + of_nat k * frame_time"
    by (intro exI [of _ 1]) (simp add: target_def)
  show ?thesis
    unfolding Let_def next_video_time_def target_def [symmetric] q_def [symmetric]
    using assms q grid base by (auto simp: algebra_simps not_le)
qed

theorem next_video_on_time_witness:
  "next_video_time True (17 / 100) 0 (1 / 10) = 2 / 10
   \<and> (\<exists>k \<ge> 1. next_video_time True (17 / 100) 0 (1 / 10) = of_nat k * (1 / 10))"
proof -
  have "next_video_time True (17 / 100) 0 (1 / 10) = 2 / 10" by code_simp
  then show ?thesis using next_video_on_time [of "1 / 10" 0 True "17 / 100"] by (simp add: Let_def)
qed


section \<open>Playing audio to its end\<close>

text \<open>
  An undisturbed run: time does not go back, nobody stops or pauses the player, the connection holds
  and every packet is sent.
\<close>

definition calm :: "'s player_env \<Rightarrow> bool" where
  "calm env \<longleftrightarrow> (\<forall>n. 0 \<le> pe_ticks env n \<and> \<not> pe_ended env n \<and> pe_resumed env n \<and> pe_connected env n
     \<and> pe_audio env n = Inr ())"

text \<open>The source gives these frames and then \<open>b''\<close>, and does not say that it is finished before that.\<close>

fun plays :: "'s source_ops \<Rightarrow> bytes list \<Rightarrow> 's \<Rightarrow> bool" where
  "plays ops [] s \<longleftrightarrow> \<not> so_is_finished ops s \<and> fst (so_read ops s) = Inr []"
| "plays ops (c # cs) s \<longleftrightarrow>
     \<not> so_is_finished ops s \<and> c \<noteq> [] \<and> fst (so_read ops s) = Inr c \<and> plays ops cs (snd (so_read ops s))"

lemma plays_unfinished: "plays ops cs s \<Longrightarrow> \<not> so_is_finished ops s"
  by (cases cs) auto

definition playing :: "'s source_ops \<Rightarrow> bytes list \<Rightarrow> pyfloat \<Rightarrow> 's playback \<Rightarrow> bool" where
  "playing ops cs due s \<longleftrightarrow>
     lv_generation s = pl_generation s \<and> lv_has_audio s \<and> \<not> lv_audio_done s \<and> lv_video_done s
     \<and> \<not> pl_ended s \<and> \<not> lv_silence_sent s \<and> plays ops cs (pl_source s) \<and> lv_next_audio s = due"

text \<open>What only time passing changes.\<close>

definition elapsed :: "'s playback \<Rightarrow> 's playback \<Rightarrow> bool" where
  "elapsed s s' \<longleftrightarrow> (\<exists>t n st. pw_time s \<le> t \<and> s' = s\<lparr>pw_time := t, pw_calls := n, pl_stats := st\<rparr>)"

lemma elapsed_trans: "elapsed s s' \<Longrightarrow> elapsed s' s'' \<Longrightarrow> elapsed s s''"
  by (auto simp: elapsed_def) (metis order_trans)

lemma elapsed_refl: "elapsed s s"
  unfolding elapsed_def by (intro exI [of _ "pw_time s"] exI [of _ "pw_calls s"] exI [of _ "pl_stats s"]) simp

lemma elapsedI: "pw_time s \<le> t \<Longrightarrow> elapsed s (s\<lparr>pw_time := t, pw_calls := n\<rparr>)"
  unfolding elapsed_def by (cases s) auto

lemma elapsed_sel:
  assumes "elapsed s s'"
  shows "pw_time s \<le> pw_time s'" "pw_log s' = pw_log s" "playing ops cs due s' = playing ops cs due s"
    "pl_source s' = pl_source s" "lv_next_audio s' = lv_next_audio s" "lv_audio_done s' = lv_audio_done s"
    "lv_video_done s' = lv_video_done s"
  using assms by (auto simp: elapsed_def playing_def)

lemma ask_calm:
  assumes "calm env"
  shows "elapsed s (snd (ask env f s))" "fst (ask env f s) = f (pw_calls s)"
  using assms unfolding ask_def calm_def by (auto intro!: elapsedI)

lemma calm_answers:
  assumes "calm env"
  shows "fst (ask env (pe_audio env) s) = Inr ()" "fst (ask env (pe_resumed env) s)"
    "fst (ask env (pe_connected env) s)" "\<not> fst (ask env (pe_ended env) s)"
  using assms by (simp_all add: ask_def calm_def)

lemma read_clock_calm:
  assumes "calm env"
  shows "elapsed s (snd (read_clock env s))" "fst (read_clock env s) = pw_time (snd (read_clock env s))"
  using ask_calm(1) [OF assms] by (simp_all add: read_clock_def Let_def)

lemma player_sleep_calm:
  assumes "calm env" "0 \<le> delay"
  shows "elapsed s (player_sleep env delay s)" "pw_time s + delay \<le> pw_time (player_sleep env delay s)"
proof -
  have "0 \<le> pe_ticks env n" for n using assms by (simp add: calm_def)
  then have t: "pw_time s + delay \<le> pw_time s + pe_ticks env (pw_calls s) + delay + pe_ticks env (pw_calls s + 1)"
    by (simp add: add_mono add.assoc)
  then show "pw_time s + delay \<le> pw_time (player_sleep env delay s)"
    by (simp add: player_sleep_def read_clock_def ask_def Let_def)
  with assms(2) show "elapsed s (player_sleep env delay s)"
    unfolding elapsed_def player_sleep_def read_clock_def ask_def Let_def
    by (auto intro!: exI [of _ "pw_time s + pe_ticks env (pw_calls s) + delay + pe_ticks env (pw_calls s + 1)"])
      (intro exI, rule refl)
qed

lemma rest_turn_calm:
  assumes "calm env" "lv_video_done s" "\<not> lv_audio_done s"
  shows "elapsed s (rest_turn env s)"
    "lv_next_audio s \<le> pw_time (rest_turn env s) \<or> pw_time s + 2 / 100 \<le> pw_time (rest_turn env s)"
proof -
  define s1 where "s1 = snd (read_clock env s)"
  define delay where "delay = min (max (lv_next_audio s - pw_time s1) 0) (2 / 100)"
  have e: "elapsed s s1" unfolding s1_def by (rule read_clock_calm [OF assms(1)])
  have r: "rest_turn env s = (if delay = 0 then s1 else player_sleep env delay s1)"
    using assms read_clock_calm(2) [OF assms(1), of s]
    by (simp add: rest_turn_def case_prod_beta s1_def [symmetric] delay_def Let_def elapsed_sel(5) [OF e])
  have "0 \<le> delay" by (simp add: delay_def)
  note sleep = player_sleep_calm [OF assms(1) this, of s1]
  show "elapsed s (rest_turn env s)" using e sleep(1) unfolding r by (auto intro: elapsed_trans)
  show "lv_next_audio s \<le> pw_time (rest_turn env s) \<or> pw_time s + 2 / 100 \<le> pw_time (rest_turn env s)"
    using elapsed_sel(1) [OF e] sleep(2) unfolding r delay_def by (auto simp: min_def max_def split: if_splits)
qed

text \<open>One turn of the loop while audio is playing: it waits, sends one frame, or ends the loop.\<close>

lemma audio_turn_due:
  assumes "calm env" "playing ops (c # cs) due s" "due \<le> now"
  obtains s' where "audio_turn ops env now s = (Inr (), s')" "playing ops cs (due + 2 / 100) s'"
    "pw_time s \<le> pw_time s'"
    "\<exists>t \<ge> pw_time s. pw_log s' = pw_log s @ [(t, SentAudio c (\<not> so_is_opus ops (pl_source s')))]"
    "pl_error s' = pl_error s" "pl_stop_video s' = pl_stop_video s"
proof -
  define s1 where "s1 = s\<lparr>pl_source := snd (so_read ops (pl_source s))\<rparr>"
  define s2 where "s2 = snd (read_clock env s1)"
  define s3 where "s3 = emit (SentAudio c (\<not> so_is_opus ops (pl_source s2))) s2"
  define s4 where "s4 = snd (ask env (pe_audio env) s3)"
  define s5 where "s5 = snd (read_clock env s4)"
  define st where "st = record_audio_send ((pw_time s5 - pw_time s2) * 1000) (pl_stats s5)"
  define s' where "s' = s5\<lparr>pl_stats := st, pl_loops := pl_loops s5 + 1, lv_silence_sent := False,
      lv_next_audio := lv_next_audio s5 + 2 / 100\<rparr>"
  have p: "so_read ops (pl_source s) = (Inr c, snd (so_read ops (pl_source s)))" "c \<noteq> []"
    "plays ops cs (snd (so_read ops (pl_source s)))"
    using assms(2) by (auto simp: playing_def prod_eq_iff)
  have e: "elapsed s1 s2" "elapsed s3 s4" "elapsed s4 s5"
    unfolding s2_def s4_def s5_def using assms(1) by (auto intro: read_clock_calm ask_calm)
  have sent: "fst (ask env (pe_audio env) s3) = Inr ()"
    by (rule calm_answers [OF assms(1)])
  have "audio_turn ops env now s = (Inr (), s')"
  proof -
    have "audio_turn ops env now s =
        bind_res (ask env (pe_audio env) s3) (\<lambda>_ s. let (ended, s) = read_clock env s
           in (Inr (), s\<lparr>pl_stats := record_audio_send ((ended - pw_time s2) * 1000) (pl_stats s),
                pl_loops := pl_loops s + 1, lv_silence_sent := False, lv_next_audio := lv_next_audio s + 2 / 100\<rparr>))"
      using assms(2,3) p read_clock_calm(2) [OF assms(1), of s1]
      by (simp add: audio_turn_def playing_def case_prod_beta s1_def [symmetric] s2_def [symmetric] s3_def Let_def)
    also have "\<dots> = (Inr (), s')"
    proof -
      have "ask env (pe_audio env) s3 = (Inr (), s4)" using sent by (simp add: s4_def prod_eq_iff)
      moreover have "read_clock env s4 = (pw_time s5, s5)"
        using read_clock_calm(2) [OF assms(1), of s4] by (simp add: s5_def prod_eq_iff)
      ultimately show ?thesis by (simp add: s'_def st_def)
    qed
    finally show ?thesis .
  qed
  moreover have "playing ops cs (due + 2 / 100) s'"
    using assms(2) e p(3) by (auto simp: playing_def elapsed_def s1_def s3_def s'_def emit_def)
  moreover have "pw_time s \<le> pw_time s2" "pw_time s2 \<le> pw_time s'"
    using elapsed_sel(1) [OF e(1)] elapsed_sel(1) [OF e(2)] elapsed_sel(1) [OF e(3)]
    by (simp_all add: s1_def s3_def s'_def emit_def)
  moreover have "pw_log s' = pw_log s @ [(pw_time s2, SentAudio c (\<not> so_is_opus ops (pl_source s')))]"
    using e by (auto simp: elapsed_def s1_def s3_def s'_def emit_def)
  moreover have "pl_error s' = pl_error s" "pl_stop_video s' = pl_stop_video s"
    using e by (auto simp: elapsed_def s1_def s3_def s'_def emit_def)
  ultimately show thesis using that by (meson order_trans)
qed

lemma play_step_playing:
  assumes "calm env" "playing ops cs due s"
  shows "play_step ops env s = play_turn ops env (snd (ask env (pe_connected env) (snd (ask env (pe_resumed env) s))))"
    "elapsed s (snd (ask env (pe_connected env) (snd (ask env (pe_resumed env) s))))"
proof -
  have "take_source ops env s = s" using assms(2) by (simp add: take_source_def playing_def)
  then show "play_step ops env s = play_turn ops env (snd (ask env (pe_connected env) (snd (ask env (pe_resumed env) s))))"
    by (simp add: play_step_def case_prod_beta Let_def calm_answers [OF assms(1)])
  show "elapsed s (snd (ask env (pe_connected env) (snd (ask env (pe_resumed env) s))))"
    using ask_calm(1) [OF assms(1)] by (meson elapsed_trans)
qed

lemma play_turn_wait:
  assumes "calm env" "playing ops cs due s" "pw_time (snd (read_clock env s)) < due"
  obtains s' where "play_turn ops env s = (Inr GoOn, s')" "elapsed s s'"
    "due \<le> pw_time s' \<or> pw_time s + 2 / 100 \<le> pw_time s'"
proof -
  define s1 where "s1 = snd (read_clock env s)"
  have e: "elapsed s s1" unfolding s1_def by (rule read_clock_calm [OF assms(1)])
  then have p: "playing ops cs due s1" using assms(2) elapsed_sel(3) by blast
  then have f: "\<not> so_is_finished ops (pl_source s1)" by (auto simp: playing_def dest: plays_unfinished)
  have "play_turn ops env s = (Inr GoOn, rest_turn env s1)"
    using p f assms(3) read_clock_calm(2) [OF assms(1), of s]
    by (simp add: play_turn_def case_prod_beta s1_def [symmetric] audio_turn_def video_turn_def playing_def Let_def)
  moreover have r: "elapsed s1 (rest_turn env s1)"
    "lv_next_audio s1 \<le> pw_time (rest_turn env s1) \<or> pw_time s1 + 2 / 100 \<le> pw_time (rest_turn env s1)"
    using rest_turn_calm [OF assms(1), of s1] p by (simp_all add: playing_def)
  moreover have "lv_next_audio s1 = due" using p by (simp add: playing_def)
  ultimately show thesis
    using that [of "rest_turn env s1"] elapsed_trans [OF e r(1)] elapsed_sel(1) [OF e] by linarith
qed

lemma play_turn_send:
  assumes "calm env" "playing ops (c # cs) due s" "due \<le> pw_time (snd (read_clock env s))"
  obtains s' where "play_turn ops env s = (Inr GoOn, s')" "playing ops cs (due + 2 / 100) s'"
    "\<exists>t \<ge> due. pw_log s' = pw_log s @ [(t, SentAudio c (\<not> so_is_opus ops (pl_source s')))]"
    "pl_error s' = pl_error s" "pl_stop_video s' = pl_stop_video s"
proof -
  define s1 where "s1 = snd (read_clock env s)"
  have e: "elapsed s s1" unfolding s1_def by (rule read_clock_calm [OF assms(1)])
  then have p: "playing ops (c # cs) due s1" using assms(2) elapsed_sel(3) by blast
  obtain s2 where t: "audio_turn ops env (pw_time s1) s1 = (Inr (), s2)" "playing ops cs (due + 2 / 100) s2"
    "\<exists>t \<ge> pw_time s1. pw_log s2 = pw_log s1 @ [(t, SentAudio c (\<not> so_is_opus ops (pl_source s2)))]"
    "pl_error s2 = pl_error s1" "pl_stop_video s2 = pl_stop_video s1"
    using audio_turn_due [OF assms(1) p, of "pw_time s1"] assms(3) by (metis s1_def)
  then have f: "\<not> so_is_finished ops (pl_source s2)" by (auto simp: playing_def dest: plays_unfinished)
  have "play_turn ops env s = (Inr GoOn, rest_turn env s2)"
    using t f read_clock_calm(2) [OF assms(1), of s]
    by (simp add: play_turn_def case_prod_beta s1_def [symmetric] video_turn_def playing_def Let_def)
  moreover have r: "elapsed s2 (rest_turn env s2)"
    using rest_turn_calm [OF assms(1), of s2] t(2) by (simp add: playing_def)
  moreover have "playing ops cs (due + 2 / 100) (rest_turn env s2)" using t(2) elapsed_sel(3) [OF r] by blast
  moreover obtain u where "pw_time s1 \<le> u" "pw_log s2 = pw_log s1 @ [(u, SentAudio c (\<not> so_is_opus ops (pl_source s2)))]"
    using t(3) by blast
  then have "due \<le> u \<and> pw_log (rest_turn env s2) = pw_log s @
      [(u, SentAudio c (\<not> so_is_opus ops (pl_source (rest_turn env s2))))]"
    using assms(3) elapsed_sel(2,4) [OF r] elapsed_sel(2) [OF e] by (simp add: s1_def [symmetric])
  moreover have "pl_error (rest_turn env s2) = pl_error s" "pl_stop_video (rest_turn env s2) = pl_stop_video s"
    using t(4,5) r e by (auto simp: elapsed_def)
  ultimately show thesis using that by blast
qed

lemma play_turn_end:
  assumes "calm env" "playing ops [] due s" "due \<le> pw_time (snd (read_clock env s))"
  obtains s' where "play_turn ops env s = (Inr BreakLoop, s')" "lv_has_audio s'" "\<not> lv_silence_sent s'"
    "pw_log s' = pw_log s" "pl_ended s'" "pl_error s' = pl_error s" "pl_stop_video s' = pl_stop_video s"
proof -
  define s1 where "s1 = snd (read_clock env s)"
  have e: "elapsed s s1" unfolding s1_def by (rule read_clock_calm [OF assms(1)])
  then have p: "playing ops [] due s1" using assms(2) elapsed_sel(3) by blast
  define s2 where "s2 = s1\<lparr>pl_source := snd (so_read ops (pl_source s1)), lv_audio_done := True\<rparr>"
  have "so_read ops (pl_source s1) = (Inr [], snd (so_read ops (pl_source s1)))"
    using p by (auto simp: playing_def prod_eq_iff)
  then have "audio_turn ops env (pw_time s1) s1 = (Inr (), s2)"
    using p assms(3) by (simp add: audio_turn_def playing_def case_prod_beta s2_def s1_def [symmetric] Let_def)
  then have "play_turn ops env s = (Inr BreakLoop, s2\<lparr>pl_ended := True\<rparr>)"
    using p read_clock_calm(2) [OF assms(1), of s]
    by (simp add: play_turn_def case_prod_beta s1_def [symmetric] video_turn_def playing_def s2_def Let_def)
  moreover have "pl_error s1 = pl_error s" "pl_stop_video s1 = pl_stop_video s" using e by (auto simp: elapsed_def)
  ultimately show thesis using that p elapsed_sel(2) [OF e] by (auto simp: s2_def playing_def)
qed

text \<open>The loop ends, whatever time the clock says between its questions.\<close>

definition audio_log :: "bool \<Rightarrow> bytes list \<Rightarrow> player_event list" where
  "audio_log encode cs = map (\<lambda>c. SentAudio c encode) cs"

fun not_before :: "pyfloat \<Rightarrow> (pyfloat \<times> player_event) list \<Rightarrow> bool" where
  "not_before due [] \<longleftrightarrow> True"
| "not_before due ((t, e) # sent) \<longleftrightarrow> due \<le> t \<and> not_before (due + 2 / 100) sent"

definition loop_body :: "nat \<Rightarrow> 's source_ops \<Rightarrow> 's player_env \<Rightarrow> 's playback \<Rightarrow> (unit res \<times> 's playback) option" where
  "loop_body n ops env s =
     (case play_step ops env s of
        (Inl e, s) \<Rightarrow> Some (Inl e, s) | (Inr ReturnRun, s) \<Rightarrow> Some (Inr (), s)
      | (Inr BreakLoop, s) \<Rightarrow> Some (Inr (), last_silence env s)
      | (Inr GoOn, s) \<Rightarrow> play_loop n ops env s)"

lemma play_loop_body:
  assumes "calm env" "\<not> pl_ended s"
  shows "play_loop (Suc n) ops env s = loop_body n ops env (snd (is_ended env s))"
    "elapsed s (snd (is_ended env s))"
proof -
  show e: "elapsed s (snd (is_ended env s))"
    using ask_calm(1) [OF assms(1), of s "pe_ended env"] by (simp add: is_ended_def case_prod_beta Let_def)
  have "\<not> fst (is_ended env s)"
    using assms(2) calm_answers(4) [OF assms(1), of s] e by (auto simp: is_ended_def case_prod_beta Let_def elapsed_def)
  then obtain s1 where "is_ended env s = (False, s1)" by (cases "is_ended env s") simp
  then show "play_loop (Suc n) ops env s = loop_body n ops env (snd (is_ended env s))"
    by (simp add: loop_body_def)
qed

lemma loop_body_ends:
  assumes "calm env" "\<And>src. so_is_opus ops src = opus"
    and "playing ops cs due s" "due \<le> pw_time s + of_nat k * (2 / 100)"
  shows "\<exists>n s' sent t. (\<forall>m \<ge> n. loop_body m ops env s = Some (Inr (), s'))
    \<and> pw_log s' = pw_log s @ sent @ [(t, Silence)] \<and> map snd sent = audio_log (\<not> opus) cs
    \<and> not_before due sent \<and> pl_ended s' \<and> pl_error s' = pl_error s \<and> pl_stop_video s' = pl_stop_video s"
  using assms(3,4)
proof (induction "length cs" arbitrary: cs due s k rule: less_induct)
  case (less cs due s k)
  note after_frame = less.hyps
  show ?case using less.prems
  proof (induction k arbitrary: s rule: less_induct)
    case (less k s)
    define s2 where "s2 = snd (ask env (pe_connected env) (snd (ask env (pe_resumed env) s)))"
    note step = play_step_playing [OF assms(1) less.prems(1), folded s2_def]
    have p2: "playing ops cs due s2" using less.prems(1) elapsed_sel(3) [OF step(2)] by blast
    have body: "loop_body n ops env s = (case play_turn ops env s2 of
             (Inl e, s) \<Rightarrow> Some (Inl e, s) | (Inr ReturnRun, s) \<Rightarrow> Some (Inr (), s)
           | (Inr BreakLoop, s) \<Rightarrow> Some (Inr (), last_silence env s)
           | (Inr GoOn, s) \<Rightarrow> play_loop n ops env s)" for n
      by (simp add: loop_body_def step(1))
    note time = elapsed_sel(1) [OF step(2)] elapsed_sel(1) [OF read_clock_calm(1) [OF assms(1)], of s2]
    show ?case
    proof (cases "pw_time (snd (read_clock env s2)) < due")
      case True
      from play_turn_wait [OF assms(1) p2 True] obtain s3
        where turn: "play_turn ops env s2 = (Inr GoOn, s3)" and e3: "elapsed s2 s3"
          and later: "due \<le> pw_time s3 \<or> pw_time s2 + 2 / 100 \<le> pw_time s3" by blast
      have p3: "playing ops cs due s3" using p2 elapsed_sel(3) [OF e3] by blast
      then have "\<not> pl_ended s3" by (simp add: playing_def)
      note loop = play_loop_body [OF assms(1) this]
      define s4 where "s4 = snd (is_ended env s3)"
      have e: "elapsed s s4" unfolding s4_def by (meson elapsed_trans step(2) e3 loop(2))
      have p4: "playing ops cs due s4" using less.prems(1) elapsed_sel(3) [OF e] by blast
      have "k \<noteq> 0" using True time less.prems(2) by (cases k) auto
      then obtain j where j: "k = Suc j" by (cases k) auto
      have "pw_time s3 \<le> pw_time s4" using elapsed_sel(1) [OF loop(2)] by (simp add: s4_def)
      moreover have "due \<le> pw_time s3 + of_nat j * (2 / 100)"
      proof (cases "due \<le> pw_time s3")
        case True
        then show ?thesis by (simp add: add_increasing2)
      next
        case False
        then show ?thesis using later time(1) less.prems(2) unfolding j of_nat_Suc distrib_right by linarith
      qed
      ultimately have "due \<le> pw_time s4 + of_nat j * (2 / 100)" by linarith
      from less.IH [OF _ p4 this] j obtain n s' sent t
        where r: "\<forall>m \<ge> n. loop_body m ops env s4 = Some (Inr (), s')" "pw_log s' = pw_log s4 @ sent @ [(t, Silence)]"
          "map snd sent = audio_log (\<not> opus) cs" "not_before due sent" "pl_ended s'" "pl_error s' = pl_error s4"
          "pl_stop_video s' = pl_stop_video s4" by auto
      have "loop_body m ops env s = Some (Inr (), s')" if "m \<ge> Suc n" for m
        using that r(1) body turn loop(1) by (cases m) (auto simp: s4_def)
      moreover have "pl_error s4 = pl_error s" "pl_stop_video s4 = pl_stop_video s" using e by (auto simp: elapsed_def)
      ultimately show ?thesis using r(2-) elapsed_sel(2) [OF e] by metis
    next
      case False
      then have due: "due \<le> pw_time (snd (read_clock env s2))" by simp
      show ?thesis
      proof (cases cs)
        case Nil
        from play_turn_end [OF assms(1) p2 [unfolded Nil] due] obtain s3
          where turn: "play_turn ops env s2 = (Inr BreakLoop, s3)" "lv_has_audio s3" "\<not> lv_silence_sent s3"
            "pw_log s3 = pw_log s2" "pl_ended s3" "pl_error s3 = pl_error s2" "pl_stop_video s3 = pl_stop_video s2"
          by blast
        have l: "last_silence env s3 = emit Silence (snd (ask env (pe_connected env) s3))"
          using turn calm_answers(3) [OF assms(1), of s3] by (simp add: last_silence_def case_prod_beta)
        have "elapsed s3 (snd (ask env (pe_connected env) s3))" by (rule ask_calm(1) [OF assms(1)])
        then have "pw_log (last_silence env s3) = pw_log s @ [(pw_time (snd (ask env (pe_connected env) s3)), Silence)]"
          "pl_ended (last_silence env s3)" "pl_error (last_silence env s3) = pl_error s"
          "pl_stop_video (last_silence env s3) = pl_stop_video s"
          unfolding l using turn(4-7) step(2) by (auto simp: emit_def elapsed_def)
        moreover have "loop_body m ops env s = Some (Inr (), last_silence env s3)" for m
          using body turn(1) by simp
        ultimately show ?thesis unfolding Nil
          by (intro exI [of _ 0] exI [of _ "last_silence env s3"] exI [of _ "[]"]
              exI [of _ "pw_time (snd (ask env (pe_connected env) s3))"]) (auto simp: audio_log_def)
      next
        case (Cons c cs')
        from play_turn_send [OF assms(1) p2 [unfolded Cons] due] obtain s3 t
          where turn: "play_turn ops env s2 = (Inr GoOn, s3)" "playing ops cs' (due + 2 / 100) s3"
            "pl_error s3 = pl_error s2" "pl_stop_video s3 = pl_stop_video s2"
            and sent1: "due \<le> t" "pw_log s3 = pw_log s2 @ [(t, SentAudio c (\<not> opus))]"
          unfolding assms(2) by blast
        from turn(2) have "\<not> pl_ended s3" by (simp add: playing_def)
        note loop = play_loop_body [OF assms(1) this]
        define s4 where "s4 = snd (is_ended env s3)"
        have e4: "elapsed s3 s4" using loop(2) by (simp add: s4_def)
        have p4: "playing ops cs' (due + 2 / 100) s4" using turn(2) elapsed_sel(3) [OF e4] by blast
        obtain k' :: nat where "(due + 2 / 100 - pw_time s4) / (2 / 100) \<le> of_nat k'" using real_arch_simple by blast
        then have "due + 2 / 100 \<le> pw_time s4 + of_nat k' * (2 / 100)" by (simp add: field_simps)
        from after_frame [OF _ p4 this] obtain n s' sent t'
          where r: "\<forall>m \<ge> n. loop_body m ops env s4 = Some (Inr (), s')" "pw_log s' = pw_log s4 @ sent @ [(t', Silence)]"
            "map snd sent = audio_log (\<not> opus) cs'" "not_before (due + 2 / 100) sent" "pl_ended s'"
            "pl_error s' = pl_error s4" "pl_stop_video s' = pl_stop_video s4"
          unfolding Cons by auto
        have "loop_body m ops env s = Some (Inr (), s')" if "m \<ge> Suc n" for m
          using that r(1) body turn(1) loop(1) by (cases m) (auto simp: s4_def)
        moreover have "pw_log s' = pw_log s @ ((t, SentAudio c (\<not> opus)) # sent) @ [(t', Silence)]"
          using r(2) sent1(2) elapsed_sel(2) [OF step(2)] elapsed_sel(2) [OF e4] by simp
        moreover have "map snd ((t, SentAudio c (\<not> opus)) # sent) = audio_log (\<not> opus) cs"
          using r(3) by (simp add: Cons audio_log_def)
        moreover have "not_before due ((t, SentAudio c (\<not> opus)) # sent)" using r(4) sent1(1) by simp
        moreover have "pl_error s' = pl_error s" "pl_stop_video s' = pl_stop_video s"
          using r(6,7) turn(3,4) e4 step(2) by (auto simp: elapsed_def)
        ultimately show ?thesis using r(5) by metis
      qed
    qed
  qed
qed

text \<open>The first turn takes the source up.\<close>

lemma take_source_idem: "take_source ops env (take_source ops env s) = take_source ops env s"
  by (simp add: take_source_def reset_schedule_def read_clock_def ask_def emit_def Let_def)

lemma play_step_take_source: "play_step ops env (take_source ops env s) = play_step ops env s"
  by (simp add: play_step_def take_source_idem)

definition begun :: "'s player_env \<Rightarrow> 's playback \<Rightarrow> 's playback" where
  "begun env s =
     (let (now, s) = read_clock env s
      in s\<lparr>pl_loops := 0, pl_stats := (pl_stats s)\<lparr>st_started_at := now\<rparr>, lv_has_audio := False, lv_flags := 0,
           lv_audio_done := True, lv_video_done := True, lv_generation := - 1, lv_next_audio := now,
           lv_next_video := now, lv_silence_sent := True\<rparr>)"

lemma do_run_begun:
  "do_run fuel ops env s =
     map_option (\<lambda>(r, s).
        let s = (if pl_stop_video s then emit StoppedVideo s else s)
        in (r, if pe_notified env then emit PlayerFinished s else s)) (play_loop fuel ops env (begun env s))"
  by (simp add: do_run_def begun_def case_prod_beta Let_def)

lemma begun_new:
  assumes "calm env"
  shows "pw_time (new_player now source False) \<le> pw_time (begun env (new_player now source False))"
    "pw_log (begun env (new_player now source False)) = []" "pl_source (begun env (new_player now source False)) = source"
    "\<not> pl_ended (begun env (new_player now source False))" "lv_generation (begun env (new_player now source False)) = - 1"
    "pl_generation (begun env (new_player now source False)) = 0" "pl_error (begun env (new_player now source False)) = None"
    "\<not> pl_stop_video (begun env (new_player now source False))"
  using assms by (simp_all add: begun_def new_player_def read_clock_def ask_def calm_def Let_def)

lemma take_source_playing:
  assumes "calm env" "so_has_audio ops (pl_source s)" "\<not> so_has_video ops (pl_source s)" "plays ops cs (pl_source s)"
    and "\<not> pl_ended s" "lv_generation s \<noteq> pl_generation s"
  shows "playing ops cs (pw_time (take_source ops env s)) (take_source ops env s)"
    "pw_time s \<le> pw_time (take_source ops env s)"
    "pw_log (take_source ops env s) = pw_log s @ [(pw_time (take_source ops env s), Spoke (pe_flags env (pl_source s)))]"
    "pl_error (take_source ops env s) = pl_error s" "pl_stop_video (take_source ops env s) = pl_stop_video s"
  using assms
  by (simp_all add: take_source_def reset_schedule_def read_clock_def ask_def emit_def calm_def playing_def Let_def)


definition sample_player_env :: "AudioSource player_env" where
  "sample_player_env =
     \<lparr>pe_ticks = (\<lambda>n. 1 / 1000), pe_ended = (\<lambda>_. False), pe_resumed = (\<lambda>_. True), pe_connected = (\<lambda>_. True),
      pe_reconnects = (\<lambda>_. True), pe_transport = (\<lambda>_. None), pe_streams = (\<lambda>_. []), pe_keyframes = (\<lambda>_. Inr False),
      pe_audio = (\<lambda>_. Inr ()), pe_video = (\<lambda>_. Inr 0), pe_flags = (\<lambda>_. 1), pe_realtime = (\<lambda>_. False),
      pe_retry_delay = (\<lambda>_. Some (2 / 100)), pe_catchup = (\<lambda>_. Some 4), pe_notified = False\<rparr>"

definition sample_audio_ops :: "AudioSource source_ops" where
  "sample_audio_ops = audio_source\<lparr>so_is_opus := (\<lambda>_. True)\<rparr>"

definition sample_audio :: AudioSource where
  "sample_audio = \<lparr>as_reads = [Inr [1], Inr [2]], as_opus = True, as_cleaned = False\<rparr>"


end
