(* ===== verification/Codecs.thy ===== *)
theory Codecs
  imports Transcoding "HOL-Library.Product_Lexorder" "HOL-Library.Multiset"
begin

text \<open>
  Which codecs the client offers: the capabilities that \<open>codecs.py\<close> finds out from \<open>ffmpeg\<close>, the
  list \<open>VoiceClient\<close> builds from them, the configuration of client classes, and the tables by payload
  type that the receiver looks packets up in. \<open>VoiceCodec\<close> and \<open>VoiceStream\<close> are value classes of the
  third-party library, with the fields this program reads and writes.
\<close>

section \<open>Capabilities\<close>

record VideoCodecCapability =
  cap_encode :: bool
  cap_decode :: bool
  cap_encoder :: "string option"
  cap_decoder :: "string option"
  cap_encoders :: "string list"
  cap_decoders :: "string list"
  cap_hardware_encode :: bool
  cap_hardware_decode :: bool
  cap_score :: int

definition first_hardware :: "string list \<Rightarrow> string list \<Rightarrow> string option" where
  "first_hardware hardware names = List.find (\<lambda>name. name \<in> set hardware) names"

definition preferred :: "string option \<Rightarrow> string list \<Rightarrow> string option" where
  "preferred hardware names =
     (case hardware of Some h \<Rightarrow> Some h | None \<Rightarrow> (case names of [] \<Rightarrow> None | n # _ \<Rightarrow> Some n))"

definition capability_score :: "int \<Rightarrow> bool \<Rightarrow> bool \<Rightarrow> bool \<Rightarrow> bool \<Rightarrow> int" where
  "capability_score performance encode decode hardware_encode hardware_decode =
     performance + (if encode then 100000 else 0) + (if decode then 20000 else 0)
     + (if hardware_encode then 10000 else if encode then 1000 else 0)
     + (if hardware_decode then 5000 else if decode then 500 else 0)"

definition capability_of :: "string \<Rightarrow> string list \<Rightarrow> string list \<Rightarrow> VideoCodecCapability" where
  "capability_of codec usable_encoders available_decoders =
     (let hardware_encoder = first_hardware HARDWARE_ENCODERS usable_encoders;
          hardware_decoder = first_hardware HARDWARE_DECODERS available_decoders;
          encoder = preferred hardware_encoder usable_encoders;
          decoder = preferred hardware_decoder available_decoders
      in \<lparr>cap_encode = (encoder \<noteq> None), cap_decode = (decoder \<noteq> None), cap_encoder = encoder, cap_decoder = decoder,
          cap_encoders = usable_encoders, cap_decoders = available_decoders,
          cap_hardware_encode = (hardware_encoder \<noteq> None), cap_hardware_decode = (hardware_decoder \<noteq> None),
          cap_score = capability_score (the (map_of VIDEO_CODEC_SOFTWARE_PERFORMANCE codec)) (encoder \<noteq> None)
            (decoder \<noteq> None) (hardware_encoder \<noteq> None) (hardware_decoder \<noteq> None)\<rparr>)"

text \<open>
  The caches of \<open>transcoding.py\<close> and the cache of results. The operating system: \<open>which\<close> is
  \<open>shutil.which\<close>, \<open>run\<close> and \<open>succeeds\<close> are the subprocesses.
\<close>

record codec_caches =
  cc_names :: "(string, string set) odict \<times> (string, string set) odict"
  cc_usable :: "(usable_key, bool) odict"
  cc_capabilities :: "(string, (string, VideoCodecCapability) odict) odict"

record ffmpeg_system =
  fs_which :: "string \<Rightarrow> string option"
  fs_run :: "string list \<Rightarrow> (int \<times> string list) option"
  fs_succeeds :: "string list \<Rightarrow> bool"

fun usable_encoders_of ::
  "(string list \<Rightarrow> bool) \<Rightarrow> string \<Rightarrow> string \<Rightarrow> string list \<Rightarrow> (usable_key, bool) odict
     \<Rightarrow> string list res \<times> (usable_key, bool) odict"
where
  "usable_encoders_of succeeds ffmpeg codec [] cache = (Inr [], cache)"
| "usable_encoders_of succeeds ffmpeg codec (name # names) cache =
     bind_res (ffmpeg_encoder_is_usable succeeds ffmpeg codec name 640 360 None cache) (\<lambda>usable cache.
       let (r, cache) = usable_encoders_of succeeds ffmpeg codec names cache
       in (map_res (\<lambda>rest. if usable then name # rest else rest) r, cache))"

fun probe_codecs ::
  "ffmpeg_system \<Rightarrow> string option \<Rightarrow> string set \<Rightarrow> string set \<Rightarrow> (string \<times> string list \<times> string list) list
     \<Rightarrow> (usable_key, bool) odict \<Rightarrow> (string, VideoCodecCapability) odict res \<times> (usable_key, bool) odict"
where
  "probe_codecs sys ffmpeg encoders decoders [] cache = (Inr [], cache)"
| "probe_codecs sys ffmpeg encoders decoders ((codec, encoder_names, decoder_names) # rest) cache =
     (let available_encoders = filter (\<lambda>n. n \<in> encoders) encoder_names;
          available_decoders = filter (\<lambda>n. n \<in> decoders) decoder_names
      in bind_res (case ffmpeg of
                     None \<Rightarrow> (Inr [], cache)
                   | Some f \<Rightarrow> usable_encoders_of (fs_succeeds sys) f codec available_encoders cache)
           (\<lambda>usable cache.
              let (r, cache) = probe_codecs sys ffmpeg encoders decoders rest cache
              in (map_res (Cons (codec, capability_of codec usable available_decoders)) r, cache)))"

definition get_local_video_codec_capabilities ::
  "ffmpeg_system \<Rightarrow> string \<Rightarrow> bool \<Rightarrow> codec_caches \<Rightarrow> (string, VideoCodecCapability) odict res \<times> codec_caches"
where
  "get_local_video_codec_capabilities sys executable refresh caches =
     (let caches = (if refresh
            then \<lparr>cc_names = ([], []), cc_usable = [], cc_capabilities = AList.delete executable (cc_capabilities caches)\<rparr>
            else caches)
      in case map_of (cc_capabilities caches) executable of
           Some cached \<Rightarrow> (Inr cached, caches)
         | None \<Rightarrow>
             let ffmpeg = (if executable = ''ffmpeg'' then fs_which sys executable else Some executable);
                 (encoders, names) = (case ffmpeg of None \<Rightarrow> ({}, cc_names caches)
                    | Some f \<Rightarrow> ffmpeg_video_codec_names (fs_run sys) f ''encoders'' (cc_names caches));
                 (decoders, names) = (case ffmpeg of None \<Rightarrow> ({}, names)
                    | Some f \<Rightarrow> ffmpeg_video_codec_names (fs_run sys) f ''decoders'' names);
                 (r, usable) = probe_codecs sys ffmpeg encoders decoders VIDEO_CODEC_CAPABILITY_NAMES (cc_usable caches)
             in bind_res (r, caches\<lparr>cc_names := names, cc_usable := usable\<rparr>) (\<lambda>capabilities caches.
                  (Inr capabilities,
                   caches\<lparr>cc_capabilities := AList.update executable capabilities (cc_capabilities caches)\<rparr>)))"


section \<open>Client classes and the codecs they offer\<close>

record VoiceCodec =
  cd_type :: string
  cd_name :: string
  cd_priority :: int
  cd_payload_type :: int
  cd_rtx_payload_type :: "int option"
  cd_encode :: bool
  cd_decode :: bool

record VoiceStream =
  vs_type :: string
  vs_rid :: string
  vs_quality :: int
  vs_active :: bool
  vs_ssrc :: "int option"
  vs_rtx_ssrc :: "int option"
  vs_max_bitrate :: "int option"
  vs_max_framerate :: "int option"
  vs_max_resolution :: "(string \<times> int \<times> int) option" \<comment> \<open>type, width, height\<close>

record client_class =
  cls_suffixes :: "string list" \<comment> \<open>of the class's name\<close>
  cls_stream_type :: string
  cls_rtx :: bool
  cls_qos :: bool
  cls_specs :: "VoiceCodec list"
  cls_auto_capabilities :: bool
  cls_auto_priority :: bool
  cls_streams :: "VoiceStream list"
  cls_ffmpeg :: string
  cls_debug :: bool

text \<open>
  The class attributes of \<open>VoiceClient\<close>. \<open>VoiceCodec.opus(payload_type=120)\<close> and
  \<open>VoiceStream.video(quality=100)\<close> are arguments: their defaults are the library's.
\<close>

definition video_spec :: "string \<Rightarrow> int \<Rightarrow> int \<Rightarrow> int \<Rightarrow> VoiceCodec" where
  "video_spec name priority payload rtx =
     \<lparr>cd_type = ''video'', cd_name = name, cd_priority = priority, cd_payload_type = payload,
      cd_rtx_payload_type = Some rtx, cd_encode = False, cd_decode = False\<rparr>"

definition voice_codec_specs :: "VoiceCodec \<Rightarrow> VoiceCodec list" where
  "voice_codec_specs opus =
     [opus\<lparr>cd_payload_type := 120\<rparr>,
      video_spec ''AV1'' 1000 101 102, video_spec ''H265'' 2000 103 104, video_spec ''H264'' 3000 105 106,
      video_spec ''VP8'' 4000 107 108, video_spec ''VP9'' 5000 109 110]"

definition voice_client_class :: "VoiceCodec \<Rightarrow> VoiceStream \<Rightarrow> client_class" where
  "voice_client_class opus stream =
     \<lparr>cls_suffixes = [], cls_stream_type = ''video'', cls_rtx = True, cls_qos = False,
      cls_specs = voice_codec_specs opus, cls_auto_capabilities = True, cls_auto_priority = True,
      cls_streams = [stream\<lparr>vs_quality := 100\<rparr>], cls_ffmpeg = ''ffmpeg'', cls_debug = False\<rparr>"

definition codec_score :: "(string, VideoCodecCapability) odict \<Rightarrow> VoiceCodec \<Rightarrow> int" where
  "codec_score capabilities codec =
     (case map_of capabilities (upper (cd_name codec)) of Some c \<Rightarrow> cap_score c | None \<Rightarrow> 0)"

text \<open>One turn of the loop over the specifications: what becomes of a codec.\<close>

definition offered_codec ::
  "client_class \<Rightarrow> bool \<Rightarrow> (string, VideoCodecCapability) odict \<Rightarrow> VoiceCodec \<Rightarrow> VoiceCodec"
where
  "offered_codec cls rtx capabilities spec =
     (if cd_type spec \<noteq> ''video'' then spec
      else
        let found = map_of capabilities (upper (cd_name spec));
            codec = (if cls_auto_capabilities cls
                     then spec\<lparr>cd_encode := (case found of Some c \<Rightarrow> cap_encode c | None \<Rightarrow> False),
                               cd_decode := (case found of Some c \<Rightarrow> cap_decode c | None \<Rightarrow> False)\<rparr>
                     else spec)
        in if \<not> rtx \<and> cd_rtx_payload_type codec \<noteq> None then codec\<lparr>cd_rtx_payload_type := None\<rparr> else codec)"

fun renumber :: "int \<Rightarrow> VoiceCodec list \<Rightarrow> VoiceCodec list" where
  "renumber index [] = []"
| "renumber index (c # cs) = c\<lparr>cd_priority := index * 1000\<rparr> # renumber (index + 1) cs"

definition voice_codecs_from ::
  "client_class \<Rightarrow> bool \<Rightarrow> (string, VideoCodecCapability) odict \<Rightarrow> VoiceCodec list"
where
  "voice_codecs_from cls rtx capabilities =
     (let offered = filter (\<lambda>c. cd_encode c \<or> cd_decode c) (map (offered_codec cls rtx capabilities) (cls_specs cls));
          audio = filter (\<lambda>c. cd_type c \<noteq> ''video'') offered;
          video = filter (\<lambda>c. cd_type c = ''video'') offered;
          video = (if cls_auto_priority cls then sort_key (\<lambda>c. - codec_score capabilities c) video else video)
      in renumber 1 audio @ renumber 1 video)"

definition get_voice_codecs ::
  "ffmpeg_system \<Rightarrow> client_class \<Rightarrow> bool \<Rightarrow> bool option \<Rightarrow> string option \<Rightarrow> codec_caches
     \<Rightarrow> VoiceCodec list res \<times> codec_caches"
where
  "get_voice_codecs sys cls refresh rtx executable caches =
     (let rtx = (case rtx of None \<Rightarrow> cls_rtx cls | Some r \<Rightarrow> r);
          executable = (case executable of None \<Rightarrow> cls_ffmpeg cls | Some e \<Rightarrow> e)
      in bind_res (if cls_auto_capabilities cls \<or> cls_auto_priority cls
                   then get_local_video_codec_capabilities sys executable refresh caches else (Inr [], caches))
           (\<lambda>capabilities caches. (Inr (voice_codecs_from cls rtx capabilities), caches)))"

definition normalize_voice_codecs :: "VoiceCodec list \<Rightarrow> VoiceCodec list res" where
  "normalize_voice_codecs codecs =
     (if list_ex (\<lambda>c. cd_type c = ''audio'' \<and> lower (cd_name c) = ''opus'') codecs then Inr codecs else Inl ValueError)"

definition normalize_video_streams :: "client_class \<Rightarrow> VoiceStream list \<Rightarrow> VoiceStream list" where
  "normalize_video_streams cls streams = map (\<lambda>s. s\<lparr>vs_type := cls_stream_type cls\<rparr>) streams"

text \<open>
  \<open>_configured_client_subclass\<close>: the class itself when nothing changes, else a subclass with the new
  attributes and the suffixes, each once, after its name.
\<close>

definition configured_client_subclass :: "client_class \<Rightarrow> client_class \<Rightarrow> string list \<Rightarrow> client_class" where
  "configured_client_subclass cls attrs suffixes =
     (if attrs = cls then cls else attrs\<lparr>cls_suffixes := cls_suffixes cls @ unique_order suffixes\<rparr>)"

definition with_config ::
  "client_class \<Rightarrow> bool option \<Rightarrow> bool option \<Rightarrow> VoiceCodec list option \<Rightarrow> VoiceStream list option
     \<Rightarrow> string option \<Rightarrow> bool option \<Rightarrow> client_class res"
where
  "with_config cls rtx qos codecs streams executable debug =
     (if rtx = None \<and> qos = None \<and> codecs = None \<and> streams = None \<and> executable = None \<and> debug = None then Inr cls
      else
        and_then (case codecs of None \<Rightarrow> Inr (cls_specs cls) | Some cs \<Rightarrow> normalize_voice_codecs cs) (\<lambda>specs.
          let manual = codecs \<noteq> None;
              attrs = cls\<lparr>cls_rtx := (case rtx of None \<Rightarrow> cls_rtx cls | Some r \<Rightarrow> r),
                          cls_qos := (case qos of None \<Rightarrow> cls_qos cls | Some q \<Rightarrow> q),
                          cls_specs := specs,
                          cls_auto_capabilities := cls_auto_capabilities cls \<and> \<not> manual,
                          cls_auto_priority := cls_auto_priority cls \<and> \<not> manual,
                          cls_streams := (case streams of None \<Rightarrow> cls_streams cls
                                            | Some ss \<Rightarrow> normalize_video_streams cls ss),
                          cls_ffmpeg := (case executable of None \<Rightarrow> cls_ffmpeg cls | Some e \<Rightarrow> e),
                          cls_debug := (case debug of None \<Rightarrow> cls_debug cls | Some d \<Rightarrow> d)\<rparr>;
              suffixes =
                (if cls_rtx attrs \<noteq> cls_rtx cls then [if cls_rtx attrs then ''WithRTX'' else ''WithoutRTX''] else [])
                @ (if cls_qos attrs \<noteq> cls_qos cls then [if cls_qos attrs then ''WithQoS'' else ''WithoutQoS''] else [])
                @ (if manual \<or> cls_specs attrs \<noteq> cls_specs cls then [''WithCodecs''] else [])
                @ (if cls_streams attrs \<noteq> cls_streams cls then [''WithVideoStreams''] else [])
                @ (if cls_ffmpeg attrs \<noteq> cls_ffmpeg cls then [''WithFFmpeg''] else [])
                @ (if cls_debug attrs \<noteq> cls_debug cls
                   then [if cls_debug attrs then ''WithDebugStats'' else ''WithoutDebugStats''] else [])
          in Inr (configured_client_subclass cls attrs suffixes)))"


section \<open>Tables by payload type\<close>

record codec_lookups =
  cl_payload_types :: "(int, string \<times> string) odict"
  cl_rtx_payload_types :: "(int, string \<times> string \<times> int) odict"
  cl_video_payload_types :: "(string, int) odict"
  cl_video_rtx_payload_types :: "(string, int option) odict"

definition add_codec_lookup :: "VoiceCodec \<Rightarrow> codec_lookups \<Rightarrow> codec_lookups" where
  "add_codec_lookup codec l =
     (let l = l\<lparr>cl_payload_types := AList.update (cd_payload_type codec) (cd_type codec, cd_name codec) (cl_payload_types l)\<rparr>
      in if cd_type codec \<noteq> ''video'' then l
         else
           let normalized = upper (cd_name codec);
               l = l\<lparr>cl_video_payload_types := AList.update normalized (cd_payload_type codec) (cl_video_payload_types l),
                     cl_video_rtx_payload_types :=
                       AList.update normalized (cd_rtx_payload_type codec) (cl_video_rtx_payload_types l)\<rparr>
           in case cd_rtx_payload_type codec of
                None \<Rightarrow> l
              | Some rtx \<Rightarrow> l\<lparr>cl_rtx_payload_types :=
                    AList.update rtx (cd_type codec, cd_name codec, cd_payload_type codec) (cl_rtx_payload_types l)\<rparr>)"

definition codec_lookups_of :: "VoiceCodec list \<Rightarrow> codec_lookups" where
  "codec_lookups_of codecs =
     fold add_codec_lookup codecs
       \<lparr>cl_payload_types = [], cl_rtx_payload_types = [], cl_video_payload_types = [], cl_video_rtx_payload_types = []\<rparr>"

text \<open>\<open>_get_codec_lookups\<close>: the tables are kept with the class attributes they were made for.\<close>

definition codec_cache_key :: "client_class \<Rightarrow> VoiceCodec list \<times> bool \<times> bool \<times> string \<times> bool" where
  "codec_cache_key cls = (cls_specs cls, cls_auto_capabilities cls, cls_auto_priority cls, cls_ffmpeg cls, cls_rtx cls)"

type_synonym lookup_cache = "((VoiceCodec list \<times> bool \<times> bool \<times> string \<times> bool) \<times> codec_lookups) option"

definition get_codec_lookups ::
  "ffmpeg_system \<Rightarrow> client_class \<Rightarrow> lookup_cache \<Rightarrow> codec_caches \<Rightarrow> codec_lookups res \<times> lookup_cache \<times> codec_caches"
where
  "get_codec_lookups sys cls cached caches =
     (let compute = (let (r, caches) = get_voice_codecs sys cls False (Some (cls_rtx cls)) None caches
                     in case r of
                          Inl e \<Rightarrow> (Inl e, cached, caches)
                        | Inr codecs \<Rightarrow> (Inr (codec_lookups_of codecs),
                                         Some (codec_cache_key cls, codec_lookups_of codecs), caches))
      in case cached of
           Some (key, lookups) \<Rightarrow> if key = codec_cache_key cls then (Inr lookups, cached, caches) else compute
         | None \<Rightarrow> compute)"

definition payload_type_for_codec :: "string \<Rightarrow> codec_lookups \<Rightarrow> int res" where
  "payload_type_for_codec codec lookups =
     (case map_of (cl_video_payload_types lookups) (upper codec) of Some p \<Rightarrow> Inr p | None \<Rightarrow> Inl ClientException)"


section \<open>Scores rank capabilities\<close>

definition capability_rank :: "string \<Rightarrow> VideoCodecCapability \<Rightarrow> int \<times> int \<times> int \<times> int \<times> int" where
  "capability_rank codec c =
     (of_bool (cap_encode c), of_bool (cap_decode c), of_bool (cap_hardware_encode c),
      of_bool (cap_hardware_decode c), the (map_of VIDEO_CODEC_SOFTWARE_PERFORMANCE codec))"

lemma find_hardware_preferred: "first_hardware hw names \<noteq> None \<Longrightarrow> preferred (first_hardware hw names) names \<noteq> None"
  by (auto simp: preferred_def)

lemma capability_score_lex:
  assumes "0 < p" "p \<le> 500" "0 < p'" "p' \<le> 500" "he \<longrightarrow> e" "hwd \<longrightarrow> d" "he' \<longrightarrow> e'" "hwd' \<longrightarrow> d'"
  shows "capability_score p e d he hwd < capability_score p' e' d' he' hwd' \<longleftrightarrow>
     (of_bool e :: int, of_bool d :: int, of_bool he :: int, of_bool hwd :: int, p)
       < (of_bool e', of_bool d', of_bool he', of_bool hwd', p')"
  using assms unfolding capability_score_def by (cases e; cases e'; cases d; cases d'; auto)

lemma software_performance:
  assumes "codec \<in> set SUPPORTED_VIDEO_CODECS"
  shows "0 < the (map_of VIDEO_CODEC_SOFTWARE_PERFORMANCE codec)" "the (map_of VIDEO_CODEC_SOFTWARE_PERFORMANCE codec) \<le> 500"
proof -
  have "\<forall>c \<in> set SUPPORTED_VIDEO_CODECS. 0 < the (map_of VIDEO_CODEC_SOFTWARE_PERFORMANCE c)
      \<and> the (map_of VIDEO_CODEC_SOFTWARE_PERFORMANCE c) \<le> 500"
    by code_simp
  then show "0 < the (map_of VIDEO_CODEC_SOFTWARE_PERFORMANCE codec)"
    "the (map_of VIDEO_CODEC_SOFTWARE_PERFORMANCE codec) \<le> 500"
    using assms by auto
qed

text \<open>
  The score is a lexicographic ranking: a codec the machine can encode is above every codec it
  cannot, among those decoding counts before hardware encoding, that before hardware decoding, and the
  built-in order of software performance only breaks ties.
\<close>

theorem capability_score_ranks:
  assumes "codec \<in> set SUPPORTED_VIDEO_CODECS" "codec' \<in> set SUPPORTED_VIDEO_CODECS"
  shows "cap_score (capability_of codec encoders decoders) < cap_score (capability_of codec' encoders' decoders') \<longleftrightarrow>
     capability_rank codec (capability_of codec encoders decoders)
       < capability_rank codec' (capability_of codec' encoders' decoders')"
  unfolding capability_rank_def capability_of_def Let_def VideoCodecCapability.simps
  by (rule capability_score_lex)
    (use software_performance [OF assms(1)] software_performance [OF assms(2)] in \<open>auto simp: preferred_def\<close>)

theorem capability_score_ranks_witness:
  "cap_score (capability_of ''AV1'' [''libsvtav1''] [''av1'']) < cap_score (capability_of ''H264'' [''h264_nvenc''] [''h264''])"
  by (subst capability_score_ranks) code_simp+


section \<open>The codecs offered\<close>

lemma renumber_priorities: "map cd_priority (renumber i cs) = map (\<lambda>k. (i + int k) * 1000) [0..<length cs]"
proof (induction cs arbitrary: i)
  case (Cons c cs)
  have "[0..<length (c # cs)] = 0 # map Suc [0..<length cs]" by (simp add: upt_conv_Cons map_Suc_upt del: upt_Suc)
  then show ?case using Cons [of "i + 1"] by (simp add: comp_def algebra_simps del: upt_Suc)
qed simp

lemma renumber_props:
  "map (\<lambda>c. c\<lparr>cd_priority := 0\<rparr>) (renumber i cs) = map (\<lambda>c. c\<lparr>cd_priority := 0\<rparr>) cs"
  "map cd_type (renumber i cs) = map cd_type cs" "length (renumber i cs) = length cs"
  by (induction cs arbitrary: i) simp_all

definition without_priority :: "VoiceCodec list \<Rightarrow> VoiceCodec multiset" where
  "without_priority codecs = mset (map (\<lambda>c. c\<lparr>cd_priority := 0\<rparr>) codecs)"

lemma offered_codec_type [simp]: "cd_type (offered_codec cls rtx capabilities c) = cd_type c"
  by (simp add: offered_codec_def Let_def)

lemma codec_score_priority [simp]: "codec_score capabilities (c\<lparr>cd_priority := i\<rparr>) = codec_score capabilities c"
  by (simp add: codec_score_def)

lemma renumber_scores: "map (codec_score capabilities) (renumber i cs) = map (codec_score capabilities) cs"
  by (induction cs arbitrary: i) simp_all

lemma mset_filter_split: "mset (filter P xs) + mset (filter (\<lambda>x. \<not> P x) xs) = mset xs"
  by (induction xs) auto


definition sample_opus :: VoiceCodec where
  "sample_opus = \<lparr>cd_type = ''audio'', cd_name = ''opus'', cd_priority = 1000, cd_payload_type = 120,
     cd_rtx_payload_type = None, cd_encode = True, cd_decode = True\<rparr>"

definition sample_stream :: VoiceStream where
  "sample_stream = \<lparr>vs_type = ''video'', vs_rid = ''100'', vs_quality = 100, vs_active = True, vs_ssrc = Some 7,
     vs_rtx_ssrc = None, vs_max_bitrate = None, vs_max_framerate = None, vs_max_resolution = None\<rparr>"

definition sample_capabilities :: "(string, VideoCodecCapability) odict" where
  "sample_capabilities =
     [(''VP8'', capability_of ''VP8'' [''libvpx''] [''vp8'']), (''H264'', capability_of ''H264'' [''libx264''] [''h264''])]"



section \<open>Looking payload types up\<close>

definition rtx_numbers :: "VoiceCodec list \<Rightarrow> int list" where
  "rtx_numbers codecs = List.map_filter (\<lambda>c. if cd_type c = ''video'' then cd_rtx_payload_type c else None) codecs"

lemma add_codec_lookup_payload:
  "cl_payload_types (add_codec_lookup c l) = AList.update (cd_payload_type c) (cd_type c, cd_name c) (cl_payload_types l)"
  by (simp add: add_codec_lookup_def Let_def split: option.split)

lemma add_codec_lookup_rtx:
  "cl_rtx_payload_types (add_codec_lookup c l) =
     (case (if cd_type c = ''video'' then cd_rtx_payload_type c else None) of None \<Rightarrow> cl_rtx_payload_types l
      | Some r \<Rightarrow> AList.update r (cd_type c, cd_name c, cd_payload_type c) (cl_rtx_payload_types l))"
  by (simp add: add_codec_lookup_def Let_def split: option.split)

lemma rtx_numbers_simps [simp]:
  "rtx_numbers [] = []"
  "rtx_numbers (c # cs) = (case (if cd_type c = ''video'' then cd_rtx_payload_type c else None) of
     None \<Rightarrow> rtx_numbers cs | Some r \<Rightarrow> r # rtx_numbers cs)"
  by (simp_all add: rtx_numbers_def List.map_filter_simps split: option.split)

lemma lookup_payload_other:
  "n \<notin> set (map cd_payload_type cs) \<Longrightarrow>
     map_of (cl_payload_types (fold add_codec_lookup cs l)) n = map_of (cl_payload_types l) n"
  by (induction cs arbitrary: l) (auto simp: add_codec_lookup_payload update_conv')

lemma lookup_rtx_other:
  "n \<notin> set (rtx_numbers cs) \<Longrightarrow>
     map_of (cl_rtx_payload_types (fold add_codec_lookup cs l)) n = map_of (cl_rtx_payload_types l) n"
  by (induction cs arbitrary: l) (auto simp: add_codec_lookup_rtx update_conv' split: option.splits if_splits)

lemma lookup_payload:
  "distinct (map cd_payload_type cs) \<Longrightarrow> c \<in> set cs \<Longrightarrow>
     map_of (cl_payload_types (fold add_codec_lookup cs l)) (cd_payload_type c) = Some (cd_type c, cd_name c)"
proof (induction cs arbitrary: l)
  case (Cons d cs)
  then show ?case
    by (cases "c \<in> set cs") (auto simp: lookup_payload_other add_codec_lookup_payload update_conv')
qed simp

lemma lookup_rtx:
  "distinct (rtx_numbers cs) \<Longrightarrow> c \<in> set cs \<Longrightarrow> cd_type c = ''video'' \<Longrightarrow> cd_rtx_payload_type c = Some r \<Longrightarrow>
     map_of (cl_rtx_payload_types (fold add_codec_lookup cs l)) r = Some (cd_type c, cd_name c, cd_payload_type c)"
proof (induction cs arbitrary: l)
  case (Cons d cs)
  show ?case
  proof (cases "c \<in> set cs")
    case True
    then show ?thesis using Cons by (auto split: option.splits if_splits)
  next
    case False
    then have "c = d" using Cons.prems by simp
    then show ?thesis using Cons.prems by (simp add: lookup_rtx_other add_codec_lookup_rtx update_conv')
  qed
qed simp

text \<open>
  When the payload numbers offered are all different, the receiver's tables invert the offer: a
  primary number leads to its codec and is never taken for RTX, an RTX number leads to the codec it
  repairs and to that codec's primary number, and is never taken for a primary one.
\<close>

theorem codec_lookups_invert_offer:
  assumes "distinct (map cd_payload_type codecs @ rtx_numbers codecs)" and "c \<in> set codecs"
  shows "map_of (cl_payload_types (codec_lookups_of codecs)) (cd_payload_type c) = Some (cd_type c, cd_name c)
    \<and> map_of (cl_rtx_payload_types (codec_lookups_of codecs)) (cd_payload_type c) = None
    \<and> (cd_type c = ''video'' \<longrightarrow> (\<forall>r. cd_rtx_payload_type c = Some r \<longrightarrow>
         map_of (cl_rtx_payload_types (codec_lookups_of codecs)) r = Some (''video'', cd_name c, cd_payload_type c)
         \<and> map_of (cl_payload_types (codec_lookups_of codecs)) r = None))"
proof -
  have d: "distinct (map cd_payload_type codecs)" "distinct (rtx_numbers codecs)"
    "set (map cd_payload_type codecs) \<inter> set (rtx_numbers codecs) = {}" using assms(1) by auto
  have p: "cd_payload_type c \<notin> set (rtx_numbers codecs)" using d(3) assms(2) by auto
  have r: "r \<in> set (rtx_numbers codecs)" if "cd_type c = ''video''" "cd_rtx_payload_type c = Some r" for r
    using assms(2) that by (induction codecs) (auto split: option.splits)
  have "r \<notin> set (map cd_payload_type codecs)" if "cd_type c = ''video''" "cd_rtx_payload_type c = Some r" for r
    using r [OF that] d(3) by blast
  then show ?thesis
    unfolding codec_lookups_of_def
    using lookup_payload [OF d(1) assms(2)] lookup_rtx [OF d(2) assms(2)] lookup_rtx_other [OF p]
    by (simp add: lookup_payload_other del: set_map)
qed

theorem codec_lookups_invert_offer_witness:
  "map_of (cl_rtx_payload_types (codec_lookups_of (voice_codec_specs sample_opus))) 106 = Some (''video'', ''H264'', 105)"
proof -
  have d: "distinct (map cd_payload_type (voice_codec_specs sample_opus) @ rtx_numbers (voice_codec_specs sample_opus))"
    by code_simp
  have "video_spec ''H264'' 3000 105 106 \<in> set (voice_codec_specs sample_opus)" by (simp add: voice_codec_specs_def)
  from codec_lookups_invert_offer [OF d this] show ?thesis by (simp add: video_spec_def)
qed

end
