(* ===== verification/VideoSend.thy ===== *)
theory VideoSend
  imports Codecs Nack Frames Sources
begin

text \<open>
  The sending half of the client (\<open>client.py\<close>): which simulcast streams are active, how they are
  announced, how frames are cached, encrypted, sent and replayed, and the RTCP sender reports.

  The native pipeline, the DAVE session, the clock, the gateway socket and the connection are not
  part of the model. The pipeline is a state of its own under an interface of operations; the
  others answer questions. \<open>sn_tick\<close> counts the questions asked, so that the answers may change
  from one to the next in any way. A coroutine runs to its end before the next call starts.
\<close>

section \<open>What the client asks for\<close>

record 'p pipeline_ops =
  po_configure :: "string \<Rightarrow> int \<Rightarrow> int \<Rightarrow> int option \<Rightarrow> int \<Rightarrow> string \<Rightarrow> 'p \<Rightarrow> unit res \<times> 'p"
  po_retain :: "int set \<Rightarrow> 'p \<Rightarrow> 'p"
  po_clear :: "'p \<Rightarrow> 'p"
  po_has_stream :: "int \<Rightarrow> 'p \<Rightarrow> bool"
  po_send_frame ::
    "int \<Rightarrow> bytes \<Rightarrow> bytes option \<Rightarrow> pyfloat \<Rightarrow> 'p \<Rightarrow> (int \<times> int \<times> int \<times> int \<times> int option) res \<times> 'p"
  po_send_rtx :: "int \<Rightarrow> int \<Rightarrow> 'p \<Rightarrow> (bool \<times> int \<times> int \<times> int) res \<times> 'p"
  po_send_rtx_for_nack :: "bytes \<Rightarrow> 'p \<Rightarrow> (int \<times> int \<times> int \<times> int \<times> int) res \<times> 'p"

datatype dave_codec = DaveVP8 | DaveVP9 | DaveH264 | DaveH265 | DaveAV1 | DaveUnknown

record dave_sender =
  ds_session :: bool
  ds_can_encrypt :: bool
  ds_encrypt_opus :: "bytes \<Rightarrow> bytes res"
  ds_encrypt :: "string \<Rightarrow> dave_codec \<Rightarrow> bytes \<Rightarrow> bytes res"

datatype ws_message =
    VideoState int int "VoiceStream list"
  | SinkWants "(int, int) odict" "int option" "(int, int) odict option"

record 'p send_env =
  ve_pipeline :: "'p pipeline_ops"
  ve_class :: client_class
  ve_system :: ffmpeg_system
  ve_replay_max :: int \<comment> \<open>\<open>video_keyframe_replay_max_frames\<close>\<close>
  ve_connected :: "nat \<Rightarrow> bool"
  ve_negotiated :: "nat \<Rightarrow> string option" \<comment> \<open>\<open>_connection.video_codec\<close>\<close>
  ve_streams :: "nat \<Rightarrow> VoiceStream list" \<comment> \<open>\<open>_connection.video_streams.values()\<close>\<close>
  ve_has_ws :: "nat \<Rightarrow> bool"
  ve_ws :: "nat \<Rightarrow> unit res" \<comment> \<open>the outcome of a message to the gateway\<close>
  ve_perf :: "nat \<Rightarrow> pyfloat"
  ve_time :: "nat \<Rightarrow> pyfloat"
  ve_dave :: "nat \<Rightarrow> dave_sender"
  ve_listening :: "nat \<Rightarrow> bool"
  ve_player :: "nat \<Rightarrow> (MediaSinkWants \<Rightarrow> unit res) option" \<comment> \<open>the media player's source, if there is one\<close>
  ve_strip :: "bytes \<Rightarrow> bytes" \<comment> \<open>\<open>strip_h264_filler_nalus\<close>\<close>
  ve_fails :: "rtcp_msg \<Rightarrow> exn option" \<comment> \<open>\<open>encrypt_rtcp\<close>\<close>
  ve_order :: "int set \<Rightarrow> int list" \<comment> \<open>the iteration order of a set\<close>

record video_params =
  par_width :: int
  par_height :: int
  par_fps :: int
  par_bitrate :: int

record 'p video_send =
  sn_tick :: nat
  sn_nack :: nack_state \<comment> \<open>\<open>rtx_enabled\<close>, the statistics and the RTCP packets sent\<close>
  sn_rtcp :: rtcp_state
  sn_send_stats :: "(int, RTPSendStats) odict"
  sn_lookup_cache :: lookup_cache
  sn_codec_caches :: codec_caches
  sn_pipeline :: 'p
  sn_codec :: "string option"
  sn_video_ssrc :: int
  sn_rtx_payload_type :: "int option"
  sn_rtx_ssrcs :: "(int, int) odict"
  sn_rids :: "(int, string) odict"
  sn_params :: "video_params option"
  sn_state_streams :: "VoiceStream list"
  sn_last_state :: "(int \<times> int \<times> VoiceStream list) option"
  sn_active_streams :: "VoiceStream list"
  sn_active_by_rid :: "(string, VoiceStream) odict"
  sn_simulcast :: bool
  sn_packet_counts :: "(int, int) odict"
  sn_octet_counts :: "(int, int) odict"
  sn_media_times :: "(int, pyfloat) odict"
  sn_last_reports :: "(int, pyfloat) odict" \<comment> \<open>\<open>_video_last_rtcp_media_times_ms\<close>\<close>
  sn_transport_sequence :: int
  sn_keyframes :: "(int, (bytes \<times> pyfloat \<times> VoiceStream) list) odict"
  sn_resend :: "int set"
  sn_replaying :: bool
  sn_remote_wants :: "(int, int) odict"
  sn_remote_any :: "int option"
  sn_remote_received :: bool
  sn_local_wants :: "(int, int) odict"
  sn_local_any :: "int option"
  sn_local_pixels :: "(int, int) odict"
  sn_feedback :: bool \<comment> \<open>\<open>_rtcp_listener\<close> is set\<close>
  sn_ws_log :: "ws_message list"

definition vask :: "(nat \<Rightarrow> 'a) \<Rightarrow> 'p video_send \<Rightarrow> 'a \<times> 'p video_send" where
  "vask question s = (question (sn_tick s), s\<lparr>sn_tick := sn_tick s + 1\<rparr>)"

definition get_or :: "'v \<Rightarrow> 'k \<Rightarrow> ('k, 'v) odict \<Rightarrow> 'v" where
  "get_or d k m = (case map_of m k of None \<Rightarrow> d | Some v \<Rightarrow> v)"

abbreviation rtx_enabled :: "'p video_send \<Rightarrow> bool" where
  "rtx_enabled s \<equiv> nk_rtx_enabled (sn_nack s)"


section \<open>Streams\<close>

definition negotiated_video_codec :: "'p send_env \<Rightarrow> 'p video_send \<Rightarrow> string option \<times> 'p video_send" where
  "negotiated_video_codec env s =
     (let (codec, s) = vask (ve_negotiated env) s in (map_option upper codec, s))"

definition negotiated_video_streams :: "VoiceStream list \<Rightarrow> VoiceStream list res" where
  "negotiated_video_streams available =
     (let streams = filter (\<lambda>stream. vs_ssrc stream \<noteq> None) available
      in if streams = [] then Inl ClientException else Inr streams)"

definition require_video_stream_ssrc :: "VoiceStream \<Rightarrow> int res" where
  "require_video_stream_ssrc stream =
     (case vs_ssrc stream of None \<Rightarrow> Inl ClientException | Some ssrc \<Rightarrow> Inr ssrc)"

definition rtx_ssrc_for_video_stream :: "VoiceStream \<Rightarrow> int res" where
  "rtx_ssrc_for_video_stream stream =
     (case vs_rtx_ssrc stream of
        Some rtx \<Rightarrow> Inr rtx
      | None \<Rightarrow> map_res (\<lambda>ssrc. ssrc + 1) (require_video_stream_ssrc stream))"

definition video_rtx_active_for_ssrc :: "'p video_send \<Rightarrow> int \<Rightarrow> bool" where
  "video_rtx_active_for_ssrc s media_ssrc \<longleftrightarrow>
     rtx_enabled s \<and> sn_rtx_payload_type s \<noteq> None \<and> get_or 0 media_ssrc (sn_rtx_ssrcs s) \<noteq> 0"

definition prune_reports :: "'p send_env \<Rightarrow> 'p video_send \<Rightarrow> 'p video_send" where
  "prune_reports env s =
     (if rc_receiver_reports (sn_rtcp s) = [] then s
      else let (now, s) = vask (ve_perf env) s
           in s\<lparr>sn_rtcp := prune_rtcp_receiver_reports now (sn_rtcp s)\<rparr>)"

definition video_stream_has_remote_receivers ::
  "'p send_env \<Rightarrow> VoiceStream \<Rightarrow> 'p video_send \<Rightarrow> bool \<times> 'p video_send"
where
  "video_stream_has_remote_receivers env stream s =
     (case vs_ssrc stream of
        None \<Rightarrow> (False, s)
      | Some ssrc \<Rightarrow>
          let s = prune_reports env s
          in if list_ex (\<lambda>report. rr_source_ssrc report = ssrc) (vals (rc_receiver_reports (sn_rtcp s)))
             then (True, s)
             else if \<not> sn_remote_received s then (False, s)
             else case map_of (sn_remote_wants s) ssrc of
                 Some want \<Rightarrow> (want > 0, s)
               | None \<Rightarrow> ((case sn_remote_any s of None \<Rightarrow> False | Some n \<Rightarrow> n > 0), s))"

definition video_stream_should_send ::
  "'p send_env \<Rightarrow> VoiceStream \<Rightarrow> 'p video_send \<Rightarrow> bool \<times> 'p video_send"
where
  "video_stream_should_send env stream s =
     (if \<not> vs_active stream then (False, s)
      else if vs_quality stream \<ge> 100 then (True, s)
      else video_stream_has_remote_receivers env stream s)"

fun streams_to_send ::
  "'p send_env \<Rightarrow> VoiceStream list \<Rightarrow> 'p video_send \<Rightarrow> VoiceStream list \<times> 'p video_send"
where
  "streams_to_send env [] s = ([], s)"
| "streams_to_send env (stream # streams) s =
     (let (send, s) = video_stream_should_send env stream s;
          (rest, s) = streams_to_send env streams s
      in (if send then stream # rest else rest, s))"

text \<open>\<open>max(streams, key=quality)\<close>: the first stream of the highest quality.\<close>

fun best_stream :: "VoiceStream list \<Rightarrow> VoiceStream res" where
  "best_stream [] = Inl ValueError"
| "best_stream (stream # streams) =
     Inr (foldl (\<lambda>best s. if vs_quality s > vs_quality best then s else best) stream streams)"

definition select_active_video_streams ::
  "'p send_env \<Rightarrow> VoiceStream list \<Rightarrow> 'p video_send \<Rightarrow> VoiceStream list res \<times> 'p video_send"
where
  "select_active_video_streams env streams s =
     (if \<not> sn_simulcast s then (map_res (\<lambda>best. [best]) (best_stream streams), s)
      else
        let (active, s) = streams_to_send env streams s
        in if active \<noteq> [] then (Inr active, s) else (map_res (\<lambda>best. [best]) (best_stream streams), s))"

definition state_stream :: "'p video_send \<Rightarrow> video_params \<Rightarrow> VoiceStream \<Rightarrow> VoiceStream res" where
  "state_stream s params stream =
     and_then (require_video_stream_ssrc stream) (\<lambda>_.
       let bitrate = (case vs_max_bitrate stream of
               Some b \<Rightarrow> b
             | None \<Rightarrow> if vs_quality stream \<ge> 100 then par_bitrate params else max 1 (par_bitrate params div 4));
           fps = (case vs_max_framerate stream of Some f \<Rightarrow> f | None \<Rightarrow> par_fps params);
           resolution = (case vs_max_resolution stream of
               Some r \<Rightarrow> r | None \<Rightarrow> (''fixed'', par_width params, par_height params))
       in map_res (\<lambda>rtx. stream\<lparr>vs_active := True, vs_rtx_ssrc := (if rtx = 0 then None else Some rtx),
                       vs_max_bitrate := Some bitrate, vs_max_framerate := Some fps,
                       vs_max_resolution := Some resolution\<rparr>)
            (if rtx_enabled s \<and> sn_rtx_payload_type s \<noteq> None then rtx_ssrc_for_video_stream stream else Inr 0))"

definition video_state_for_streams :: "'p video_send \<Rightarrow> video_params \<Rightarrow> VoiceStream list \<Rightarrow> VoiceStream list res" where
  "video_state_for_streams s params streams = sequence_res (map (state_stream s params) streams)"


section \<open>Counters and caches\<close>

definition reset_video_stream_counters :: "int \<Rightarrow> 'p video_send \<Rightarrow> 'p video_send" where
  "reset_video_stream_counters ssrc s =
     s\<lparr>sn_packet_counts := AList.update ssrc 0 (sn_packet_counts s),
       sn_octet_counts := AList.update ssrc 0 (sn_octet_counts s),
       sn_media_times := AList.update ssrc 0 (sn_media_times s),
       sn_last_reports := AList.update ssrc (- 1) (sn_last_reports s)\<rparr>"

definition clear_video_send_caches :: "'p send_env \<Rightarrow> 'p video_send \<Rightarrow> 'p video_send" where
  "clear_video_send_caches env s =
     s\<lparr>sn_pipeline := po_clear (ve_pipeline env) (sn_pipeline s), sn_packet_counts := [], sn_octet_counts := [],
       sn_media_times := [], sn_last_reports := [], sn_transport_sequence := 0\<rparr>"

definition record_video_packet_send :: "int \<Rightarrow> int \<Rightarrow> int \<Rightarrow> 'p video_send \<Rightarrow> 'p video_send" where
  "record_video_packet_send ssrc packets octets s =
     s\<lparr>sn_packet_counts := AList.update ssrc (get_or 0 ssrc (sn_packet_counts s) + packets) (sn_packet_counts s),
       sn_octet_counts := AList.update ssrc ((get_or 0 ssrc (sn_octet_counts s) + octets) AND 0xFFFFFFFF)
                            (sn_octet_counts s)\<rparr>"

definition record_rtp_send_stats ::
  "'p send_env \<Rightarrow> int \<Rightarrow> int \<Rightarrow> int option \<Rightarrow> 'p video_send \<Rightarrow> 'p video_send"
where
  "record_rtp_send_stats env ssrc sequence transport s =
     (let (now, s) = vask (ve_perf env) s
      in s\<lparr>sn_send_stats := AList.update ssrc
             \<lparr>ss_ssrc = ssrc, ss_sequence = sequence AND 0xFFFF,
              ss_transport_sequence = map_option (\<lambda>n. n AND 0xFFFF) transport, ss_updated_at = now\<rparr>
             (sn_send_stats s)\<rparr>)"

definition count_stat :: "string \<Rightarrow> int \<Rightarrow> 'p video_send \<Rightarrow> 'p video_send" where
  "count_stat key n s = s\<lparr>sn_nack := record_stat key n (sn_nack s)\<rparr>"

definition ensure_rtcp_feedback_listener :: "'p video_send \<Rightarrow> 'p video_send" where
  "ensure_rtcp_feedback_listener s = s\<lparr>sn_feedback := True\<rparr>"

definition stop_rtcp_feedback_listener :: "'p video_send \<Rightarrow> 'p video_send" where
  "stop_rtcp_feedback_listener s = s\<lparr>sn_feedback := False\<rparr>"

definition stop_rtcp_listener_if_idle :: "'p send_env \<Rightarrow> 'p video_send \<Rightarrow> 'p video_send" where
  "stop_rtcp_listener_if_idle env s =
     (let (listening, s) = vask (ve_listening env) s
      in if listening \<or> rtx_enabled s \<and> sn_active_streams s \<noteq> [] then s else stop_rtcp_feedback_listener s)"


section \<open>Starting, announcing and stopping video\<close>

definition codec_tables :: "'p send_env \<Rightarrow> 'p video_send \<Rightarrow> codec_lookups res \<times> 'p video_send" where
  "codec_tables env s =
     (let (lookups, cache, caches) =
        get_codec_lookups (ve_system env) ((ve_class env)\<lparr>cls_rtx := rtx_enabled s\<rparr>)
          (sn_lookup_cache s) (sn_codec_caches s)
      in (lookups, s\<lparr>sn_lookup_cache := cache, sn_codec_caches := caches\<rparr>))"

definition send_ws :: "'p send_env \<Rightarrow> ws_message \<Rightarrow> 'p video_send \<Rightarrow> unit res \<times> 'p video_send" where
  "send_ws env message s = vask (ve_ws env) (s\<lparr>sn_ws_log := sn_ws_log s @ [message]\<rparr>)"

definition announce_video_state :: "'p send_env \<Rightarrow> bool \<Rightarrow> 'p video_send \<Rightarrow> unit res \<times> 'p video_send" where
  "announce_video_state env force s =
     (let rtx = (if video_rtx_active_for_ssrc s (sn_video_ssrc s)
                 then get_or 0 (sn_video_ssrc s) (sn_rtx_ssrcs s) else 0);
          state = (sn_video_ssrc s, rtx, sn_state_streams s)
      in if \<not> force \<and> Some state = sn_last_state s then (Inr (), s)
         else send_ws env (VideoState (sn_video_ssrc s) rtx (sn_state_streams s)) (s\<lparr>sn_last_state := Some state\<rparr>))"

text \<open>The parts of \<open>_apply_selected_video_stream\<close>, in its order.\<close>

definition select_rtx_payload :: "'p send_env \<Rightarrow> string \<Rightarrow> 'p video_send \<Rightarrow> unit res \<times> 'p video_send" where
  "select_rtx_payload env codec s =
     (if rtx_enabled s
      then bind_res (codec_tables env s) (\<lambda>lookups s.
             (Inr (), s\<lparr>sn_rtx_payload_type :=
                (case map_of (cl_video_rtx_payload_types lookups) (upper codec) of Some p \<Rightarrow> p | None \<Rightarrow> None)\<rparr>))
      else (Inr (), s\<lparr>sn_rtx_payload_type := None\<rparr>))"

fun register_video_streams :: "VoiceStream list \<Rightarrow> 'p video_send \<Rightarrow> unit res \<times> 'p video_send" where
  "register_video_streams [] s = (Inr (), s)"
| "register_video_streams (stream # streams) s =
     bind_res (require_video_stream_ssrc stream, s) (\<lambda>ssrc s.
       bind_res (rtx_ssrc_for_video_stream stream, s\<lparr>sn_rids := AList.update ssrc (vs_rid stream) (sn_rids s)\<rparr>)
         (\<lambda>announced s.
           register_video_streams streams
             (s\<lparr>sn_rtx_ssrcs := AList.update ssrc
                 (if rtx_enabled s \<and> sn_rtx_payload_type s \<noteq> None then announced else 0) (sn_rtx_ssrcs s)\<rparr>)))"

definition client_payload_type :: "'p send_env \<Rightarrow> string \<Rightarrow> 'p video_send \<Rightarrow> int res \<times> 'p video_send" where
  "client_payload_type env codec s =
     bind_res (codec_tables env s) (\<lambda>lookups s. (payload_type_for_codec codec lookups, s))"

fun configure_video_streams ::
  "'p send_env \<Rightarrow> string \<Rightarrow> int \<Rightarrow> VoiceStream list \<Rightarrow> 'p video_send \<Rightarrow> unit res \<times> 'p video_send"
where
  "configure_video_streams env codec payload_type [] s = (Inr (), s)"
| "configure_video_streams env codec payload_type (stream # streams) s =
     bind_res (require_video_stream_ssrc stream, s) (\<lambda>ssrc s.
       let s = (if map_of (sn_packet_counts s) ssrc = None then reset_video_stream_counters ssrc s else s);
           (r, p) = po_configure (ve_pipeline env) codec ssrc payload_type (sn_rtx_payload_type s)
                      (get_or 0 ssrc (sn_rtx_ssrcs s)) (vs_rid stream) (sn_pipeline s)
       in bind_res (r, s\<lparr>sn_pipeline := p\<rparr>) (\<lambda>_ s. configure_video_streams env codec payload_type streams s))"

definition streams_by_rid :: "VoiceStream list \<Rightarrow> (string, VoiceStream) odict" where
  "streams_by_rid streams = fold (\<lambda>stream d. AList.update (vs_rid stream) stream d) streams []"

definition listen_for_feedback ::
  "'p send_env \<Rightarrow> VoiceStream list \<Rightarrow> 'p video_send \<Rightarrow> unit res \<times> 'p video_send"
where
  "listen_for_feedback env selected s =
     bind_res (sequence_res (map require_video_stream_ssrc selected), s) (\<lambda>ssrcs s.
       (Inr (), if list_ex (video_rtx_active_for_ssrc s) ssrcs
                then ensure_rtcp_feedback_listener s else stop_rtcp_listener_if_idle env s))"

definition apply_selected_video_stream ::
  "'p send_env \<Rightarrow> string \<Rightarrow> video_params \<Rightarrow> bool \<Rightarrow> 'p video_send \<Rightarrow> unit res \<times> 'p video_send"
where
  "apply_selected_video_stream env codec params reset s =
     (let (available, s) = vask (ve_streams env) s in
      bind_res (negotiated_video_streams available, s) (\<lambda>negotiated s.
      bind_res (select_active_video_streams env negotiated s) (\<lambda>selected s.
      bind_res (require_video_stream_ssrc (hd selected), s) (\<lambda>selected_ssrc s.
      bind_res (select_rtx_payload env codec (s\<lparr>sn_codec := Some codec\<rparr>)) (\<lambda>_ s.
      bind_res (sequence_res (map require_video_stream_ssrc selected), s\<lparr>sn_video_ssrc := selected_ssrc\<rparr>)
        (\<lambda>active s.
      let s = (if reset then clear_video_send_caches env s else s);
          s = s\<lparr>sn_pipeline := po_retain (ve_pipeline env) (set active) (sn_pipeline s),
                sn_rids := [], sn_rtx_ssrcs := []\<rparr> in
      bind_res (register_video_streams negotiated s) (\<lambda>_ s.
      bind_res (client_payload_type env codec s) (\<lambda>payload_type s.
      bind_res (configure_video_streams env codec payload_type selected s) (\<lambda>_ s.
      let s = s\<lparr>sn_active_streams := selected, sn_active_by_rid := streams_by_rid selected\<rparr>;
          state = (if sn_simulcast s then negotiated else selected) in
      bind_res (video_state_for_streams s params state, s) (\<lambda>state s.
      bind_res (announce_video_state env reset (s\<lparr>sn_state_streams := state\<rparr>)) (\<lambda>_ s.
        listen_for_feedback env selected s)))))))))))"

definition start_video ::
  "'p send_env \<Rightarrow> int \<Rightarrow> int \<Rightarrow> int \<Rightarrow> int \<Rightarrow> 'p video_send \<Rightarrow> unit res \<times> 'p video_send"
where
  "start_video env width height fps bitrate s =
     (let (connected, s) = vask (ve_connected env) s in
      if \<not> connected then (Inl ClientException, s) else
      let (codec, s) = negotiated_video_codec env s in
      case codec of
        None \<Rightarrow> (Inl ClientException, s)
      | Some codec \<Rightarrow>
          let params = \<lparr>par_width = width, par_height = height, par_fps = fps,
                par_bitrate = (if bitrate > 0 then bitrate else native_video_bitrate (Some height) (Some fps))\<rparr>
          in apply_selected_video_stream env codec params True (s\<lparr>sn_params := Some params\<rparr>))"

definition enable_video_receive :: "'p send_env \<Rightarrow> 'p video_send \<Rightarrow> unit res \<times> 'p video_send" where
  "enable_video_receive env s = send_ws env (VideoState 0 0 []) s"

definition stop_video :: "'p send_env \<Rightarrow> 'p video_send \<Rightarrow> unit res \<times> 'p video_send" where
  "stop_video env s =
     (let (has_ws, s) = vask (ve_has_ws env) (s\<lparr>sn_last_state := None\<rparr>) in
      bind_res (if has_ws then send_ws env (VideoState 0 0 []) s else (Inr (), s)) (\<lambda>_ s.
        let s = clear_video_send_caches env
              (s\<lparr>sn_codec := None, sn_params := None, sn_state_streams := [], sn_active_streams := [],
                 sn_active_by_rid := [], sn_video_ssrc := 0, sn_rtx_payload_type := None,
                 sn_rtx_ssrcs := [], sn_rids := []\<rparr>)
        in (Inr (), stop_rtcp_listener_if_idle env
              (s\<lparr>sn_keyframes := [], sn_resend := {}, sn_replaying := False\<rparr>))))"

definition send_media_sink_wants :: "'p send_env \<Rightarrow> 'p video_send \<Rightarrow> unit res \<times> 'p video_send" where
  "send_media_sink_wants env s =
     send_ws env (SinkWants (sn_local_wants s) (sn_local_any s)
       (if sn_local_pixels s = [] then None else Some (sn_local_pixels s))) s"

text \<open>\<open>any = None\<close> is the default \<open>MISSING\<close>.\<close>

definition request_video ::
  "'p send_env \<Rightarrow> int \<Rightarrow> int \<Rightarrow> int option option \<Rightarrow> int option \<Rightarrow> 'p video_send \<Rightarrow> unit res \<times> 'p video_send"
where
  "request_video env ssrc quality any_want pixel_count s =
     (let (connected, s) = vask (ve_connected env) s in
      if \<not> connected then (Inl ClientException, s) else
      let s = s\<lparr>sn_local_wants := AList.update ssrc quality (sn_local_wants s),
                sn_local_any := (case any_want of None \<Rightarrow> sn_local_any s | Some a \<Rightarrow> a),
                sn_local_pixels := (case pixel_count of
                    None \<Rightarrow> AList.delete ssrc (sn_local_pixels s)
                  | Some n \<Rightarrow> AList.update ssrc n (sn_local_pixels s))\<rparr>
      in send_media_sink_wants env s)"

definition on_media_sink_wants ::
  "'p send_env \<Rightarrow> MediaSinkWants \<Rightarrow> 'p video_send \<Rightarrow> unit res \<times> 'p video_send"
where
  "on_media_sink_wants env wants s =
     (let (player, s) = vask (ve_player env)
            (s\<lparr>sn_remote_wants := mw_wants wants, sn_remote_any := mw_any wants, sn_remote_received := True\<rparr>) in
      bind_res (case player of None \<Rightarrow> Inr () | Some f \<Rightarrow> f wants, s) (\<lambda>_ s.
        case (sn_params s, sn_codec s) of
          (Some params, Some codec) \<Rightarrow> apply_selected_video_stream env codec params False s
        | _ \<Rightarrow> (Inr (), s)))"


section \<open>Sending frames\<close>

definition apply_dave :: "dave_sender \<Rightarrow> string \<Rightarrow> string \<Rightarrow> bytes \<Rightarrow> bytes res" where
  "apply_dave dave media_type codec payload =
     (if \<not> ds_session dave \<or> \<not> ds_can_encrypt dave then Inr payload
      else if media_type = ''audio'' \<and> codec = ''opus'' then ds_encrypt_opus dave payload
      else ds_encrypt dave media_type
             (if codec = ''VP8'' then DaveVP8 else if codec = ''VP9'' then DaveVP9
              else if codec = ''H264'' then DaveH264 else if codec = ''H265'' then DaveH265
              else if codec = ''AV1'' then DaveAV1 else DaveUnknown) payload)"

definition resolve_video_send_stream :: "VoiceStream option \<Rightarrow> VoiceStream list \<Rightarrow> VoiceStream res" where
  "resolve_video_send_stream stream active =
     (case stream of
        None \<Rightarrow> if active = [] then Inl ClientException else Inr (hd active)
      | Some target \<Rightarrow>
          (case find (\<lambda>a. vs_ssrc a = vs_ssrc target \<or> vs_rid a = vs_rid target) active of
             None \<Rightarrow> Inl ClientException | Some a \<Rightarrow> Inr a))"

definition cache_video_frame ::
  "int \<Rightarrow> int \<Rightarrow> VoiceStream \<Rightarrow> bytes \<Rightarrow> pyfloat \<Rightarrow> 'p video_send \<Rightarrow> 'p video_send"
where
  "cache_video_frame replay_max media_ssrc stream frame frame_time_ms s =
     (case sn_codec s of
        None \<Rightarrow> s
      | Some codec \<Rightarrow>
          if sn_replaying s then s
          else if is_config_keyframe codec frame
          then s\<lparr>sn_keyframes := AList.update media_ssrc [(frame, frame_time_ms, stream)] (sn_keyframes s)\<rparr>
          else case map_of (sn_keyframes s) media_ssrc of
              None \<Rightarrow> s
            | Some frames \<Rightarrow>
                if int (length frames) \<ge> max 1 replay_max
                then s\<lparr>sn_keyframes := AList.delete media_ssrc (sn_keyframes s)\<rparr>
                else s\<lparr>sn_keyframes := AList.update media_ssrc (frames @ [(frame, frame_time_ms, stream)])
                                         (sn_keyframes s)\<rparr>)"

definition prepare_video_frame ::
  "'p send_env \<Rightarrow> string \<Rightarrow> int \<Rightarrow> VoiceStream \<Rightarrow> bytes \<Rightarrow> pyfloat \<Rightarrow> 'p video_send
     \<Rightarrow> (bytes \<times> bytes \<times> pyfloat) res \<times> 'p video_send"
where
  "prepare_video_frame env codec media_ssrc stream frame frame_time_ms s =
     (let original = (if upper codec = ''H264'' then ve_strip env frame else frame);
          s = cache_video_frame (ve_replay_max env) media_ssrc stream original frame_time_ms s;
          (dave, s) = vask (ve_dave env) s
      in (map_res (\<lambda>encrypted. (original, encrypted, max (1 / 1000) frame_time_ms))
            (apply_dave dave ''video'' codec original), s))"

definition send_sender_report ::
  "'p send_env \<Rightarrow> int \<Rightarrow> int \<Rightarrow> int option \<Rightarrow> int option \<Rightarrow> 'p video_send \<Rightarrow> unit res \<times> 'p video_send"
where
  "send_sender_report env ssrc rtp_timestamp packet_count octet_count s =
     (let packets = (case packet_count of None \<Rightarrow> get_or 0 ssrc (sn_packet_counts s) | Some n \<Rightarrow> n);
          octets = (case octet_count of None \<Rightarrow> get_or 0 ssrc (sn_octet_counts s) | Some n \<Rightarrow> n);
          (time, s) = vask (ve_time env) s
      in bind_res (send_rtcp_sender_report time ssrc rtp_timestamp packets octets, s) (\<lambda>packet s.
           let (r, nack) = send_packet (ve_fails env) packet (sn_nack s) in (r, s\<lparr>sn_nack := nack\<rparr>)))"

text \<open>The media second of a time in milliseconds, \<open>t // 1000\<close>.\<close>

definition media_second :: "pyfloat \<Rightarrow> int" where
  "media_second t = \<lfloor>t / 1000\<rfloor>"

definition maybe_send_video_rtcp_sender_report ::
  "'p send_env \<Rightarrow> int \<Rightarrow> int \<Rightarrow> 'p video_send \<Rightarrow> unit res \<times> 'p video_send"
where
  "maybe_send_video_rtcp_sender_report env media_ssrc rtp_timestamp s =
     (let media_time = get_or 0 media_ssrc (sn_media_times s);
          last_report = get_or (- 1) media_ssrc (sn_last_reports s)
      in if media_second media_time \<le> media_second last_report then (Inr (), s)
         else bind_res (send_sender_report env media_ssrc rtp_timestamp None None s) (\<lambda>_ s.
                (Inr (), s\<lparr>sn_last_reports := AList.update media_ssrc media_time (sn_last_reports s)\<rparr>)))"

definition send_video_frame_raw ::
  "'p send_env \<Rightarrow> string \<Rightarrow> int \<Rightarrow> bytes \<Rightarrow> bytes \<Rightarrow> pyfloat \<Rightarrow> 'p video_send \<Rightarrow> int res \<times> 'p video_send"
where
  "send_video_frame_raw env codec media_ssrc original frame frame_time_ms s =
     (let metadata = (if upper codec = ''VP9'' then Some original else None);
          (r, p) = po_send_frame (ve_pipeline env) media_ssrc frame metadata frame_time_ms (sn_pipeline s)
      in bind_res (r, s\<lparr>sn_pipeline := p\<rparr>) (\<lambda>(sent, octets, transport, rtp_timestamp, last_sequence) s.
           let s = s\<lparr>sn_transport_sequence := transport\<rparr> in
           if sent = 0 then (Inr sent, s)
           else bind_res (maybe_send_video_rtcp_sender_report env media_ssrc rtp_timestamp
                            (record_video_packet_send media_ssrc sent octets s)) (\<lambda>_ s.
             (Inr sent, case last_sequence of
                None \<Rightarrow> s
              | Some n \<Rightarrow> record_rtp_send_stats env media_ssrc n (Some ((transport - 1) AND 0xFFFF)) s))))"

definition send_video_frame ::
  "'p send_env \<Rightarrow> bytes \<Rightarrow> pyfloat \<Rightarrow> VoiceStream option \<Rightarrow> 'p video_send \<Rightarrow> int res \<times> 'p video_send"
where
  "send_video_frame env frame frame_time_ms stream s =
     (let (connected, s) = vask (ve_connected env) s in
      if \<not> connected then (Inl ClientException, s) else
      case sn_codec s of
        None \<Rightarrow> (Inl ClientException, s)
      | Some codec \<Rightarrow>
          bind_res (resolve_video_send_stream stream (sn_active_streams s), s) (\<lambda>stream s.
          bind_res (require_video_stream_ssrc stream, s) (\<lambda>media_ssrc s.
          bind_res (prepare_video_frame env codec media_ssrc stream frame frame_time_ms s)
            (\<lambda>(original, frame, frame_time_ms) s.
          let media_time = get_or 0 media_ssrc (sn_media_times s) in
          bind_res (send_video_frame_raw env codec media_ssrc original frame frame_time_ms s) (\<lambda>sent s.
            (Inr sent, s\<lparr>sn_media_times := AList.update media_ssrc (media_time + frame_time_ms)
                           (sn_media_times s)\<rparr>))))))"

fun send_video_frames_loop ::
  "'p send_env \<Rightarrow> (string, VoiceStream) odict \<Rightarrow> (string, VideoFrame) odict \<Rightarrow> int \<Rightarrow> 'p video_send
     \<Rightarrow> int res \<times> 'p video_send"
where
  "send_video_frames_loop env by_rid [] sent s = (Inr sent, s)"
| "send_video_frames_loop env by_rid ((rid, frame) # frames) sent s =
     (case map_of by_rid rid of
        None \<Rightarrow> send_video_frames_loop env by_rid frames sent s
      | Some stream \<Rightarrow>
          bind_res (send_video_frame env (vf_data frame) (max (1 / 1000) (vf_frame_time_ms frame)) (Some stream) s)
            (\<lambda>n s. send_video_frames_loop env by_rid frames (sent + n) s))"

definition send_video_frames ::
  "'p send_env \<Rightarrow> (string, VideoFrame) odict \<Rightarrow> 'p video_send \<Rightarrow> int res \<times> 'p video_send"
where
  "send_video_frames env frames s = send_video_frames_loop env (sn_active_by_rid s) frames 0 s"


section \<open>Retransmission and keyframe requests\<close>

definition send_video_rtx_packet ::
  "'p send_env \<Rightarrow> int \<Rightarrow> int option \<Rightarrow> 'p video_send \<Rightarrow> bool \<times> 'p video_send"
where
  "send_video_rtx_packet env sequence media_ssrc s =
     (let media_ssrc = (case media_ssrc of None \<Rightarrow> sn_video_ssrc s | Some n \<Rightarrow> n)
      in if \<not> rtx_enabled s \<or> sn_rtx_payload_type s = None \<or> get_or 0 media_ssrc (sn_rtx_ssrcs s) = 0
         then (False, s)
         else
           let (r, p) = po_send_rtx (ve_pipeline env) media_ssrc (sequence AND 0xFFFF) (sn_pipeline s);
               s = s\<lparr>sn_pipeline := p\<rparr>
           in case r of
                Inl _ \<Rightarrow> (False, s)
              | Inr (sent, rtx_ssrc, rtx_sequence, transport) \<Rightarrow>
                  if \<not> sent then (False, s)
                  else (True, record_rtp_send_stats env rtx_ssrc rtx_sequence (Some transport)
                                (s\<lparr>sn_transport_sequence := transport\<rparr>)))"

definition handle_rtcp_nack :: "'p send_env \<Rightarrow> bytes \<Rightarrow> 'p video_send \<Rightarrow> 'p video_send" where
  "handle_rtcp_nack env payload s =
     (if length payload < 8 \<or> \<not> po_has_stream (ve_pipeline env) (u32_at payload 0) (sn_pipeline s) then s
      else
        let s = count_stat ''rtcp_nack_sequences_received'' (nack_sequence_count payload)
                  (count_stat ''rtcp_nack_packets_received'' 1 s);
            (r, p) = po_send_rtx_for_nack (ve_pipeline env) payload (sn_pipeline s);
            s = s\<lparr>sn_pipeline := p\<rparr>
        in case r of
             Inl _ \<Rightarrow> s
           | Inr (resent, media_ssrc, rtx_ssrc, rtx_sequence, transport) \<Rightarrow>
               if resent = 0 then s
               else record_rtp_send_stats env rtx_ssrc rtx_sequence (Some transport)
                      ((count_stat ''rtx_packets_resent'' resent s)\<lparr>sn_transport_sequence := transport\<rparr>))"

definition request_keyframe :: "'p send_env \<Rightarrow> bytes \<Rightarrow> 'p video_send \<Rightarrow> 'p video_send" where
  "request_keyframe env payload s =
     s\<lparr>sn_resend := handle_rtcp_pli (\<lambda>ssrc. po_has_stream (ve_pipeline env) ssrc (sn_pipeline s)) payload (sn_resend s)\<rparr>"

fun replay_frames ::
  "'p send_env \<Rightarrow> (bytes \<times> pyfloat \<times> VoiceStream) list \<Rightarrow> 'p video_send \<Rightarrow> unit res \<times> 'p video_send"
where
  "replay_frames env [] s = (Inr (), s)"
| "replay_frames env ((frame, frame_time_ms, stream) # frames) s =
     bind_res (send_video_frame env frame frame_time_ms (Some stream) s) (\<lambda>_ s. replay_frames env frames s)"

fun replay_requests :: "'p send_env \<Rightarrow> int list \<Rightarrow> bool \<Rightarrow> 'p video_send \<Rightarrow> bool \<times> 'p video_send" where
  "replay_requests env [] sent s = (sent, s)"
| "replay_requests env (media_ssrc # requests) sent s =
     (case map_of (sn_keyframes s) media_ssrc of
        Some (frame # frames) \<Rightarrow>
          let (r, s) = replay_frames env (frame # frames) (s\<lparr>sn_replaying := True\<rparr>)
          in replay_requests env requests (if is_ok r then True else sent) (s\<lparr>sn_replaying := False\<rparr>)
      | _ \<Rightarrow> replay_requests env requests sent s)"

definition send_requested_video_keyframes :: "'p send_env \<Rightarrow> 'p video_send \<Rightarrow> bool \<times> 'p video_send" where
  "send_requested_video_keyframes env s =
     replay_requests env (ve_order env (sn_resend s)) False (s\<lparr>sn_resend := {}\<rparr>)"


section \<open>What the operations leave alone\<close>

text \<open>
  The part of the state that only \<open>send_video_frame\<close>, \<open>stop_video\<close> and the selection of streams
  write: every other operation keeps it.
\<close>

definition cache_part :: "'p video_send \<Rightarrow> bool \<times> (int, (bytes \<times> pyfloat \<times> VoiceStream) list) odict" where
  "cache_part s = (sn_replaying s, sn_keyframes s)"

definition active_part :: "'p video_send \<Rightarrow> VoiceStream list \<times> (string, VoiceStream) odict" where
  "active_part s = (sn_active_streams s, sn_active_by_rid s)"

definition times_part :: "'p video_send \<Rightarrow> (int, pyfloat) odict \<times> (int, pyfloat) odict \<times> rtcp_msg list" where
  "times_part s = (sn_media_times s, sn_last_reports s, nk_sent (sn_nack s))"

lemmas parts_defs = cache_part_def active_part_def times_part_def

named_theorems part_simps "the parts of the sending state an operation keeps"

lemma parts_of_fields [part_simps]:
  "cache_part (snd (vask q s)) = cache_part s"
  "active_part (snd (vask q s)) = active_part s"
  "times_part (snd (vask q s)) = times_part s"
  by (simp_all add: vask_def parts_defs)

lemma vask_fields [simp]:
  "snd (vask q s) = s\<lparr>sn_tick := Suc (sn_tick s)\<rparr>" "fst (vask q s) = q (sn_tick s)"
  by (simp_all add: vask_def)

lemma listener_parts [part_simps]:
  "cache_part (stop_rtcp_listener_if_idle env s) = cache_part s"
  "active_part (stop_rtcp_listener_if_idle env s) = active_part s"
  "times_part (stop_rtcp_listener_if_idle env s) = times_part s"
  by (simp_all add: stop_rtcp_listener_if_idle_def stop_rtcp_feedback_listener_def vask_def parts_defs)

lemma prune_parts [part_simps]:
  "cache_part (prune_reports env s) = cache_part s"
  "active_part (prune_reports env s) = active_part s"
  by (simp_all add: prune_reports_def vask_def parts_defs)

lemma receivers_parts [part_simps]:
  "cache_part (snd (video_stream_has_remote_receivers env st s)) = cache_part s"
  "active_part (snd (video_stream_has_remote_receivers env st s)) = active_part s"
  by (auto simp: video_stream_has_remote_receivers_def Let_def part_simps split: option.splits)

lemma should_send_parts [part_simps]:
  "cache_part (snd (video_stream_should_send env st s)) = cache_part s"
  "active_part (snd (video_stream_should_send env st s)) = active_part s"
  by (simp_all add: video_stream_should_send_def part_simps)

lemma streams_to_send_parts [part_simps]:
  "cache_part (snd (streams_to_send env streams s)) = cache_part s"
  "active_part (snd (streams_to_send env streams s)) = active_part s"
proof (induction streams arbitrary: s)
  case (Cons st sts)
  { case 1 show ?case using Cons.IH(1) should_send_parts(1) [of env st s]
      by (auto split: prod.splits) (metis snd_conv) }
  { case 2 show ?case using Cons.IH(2) should_send_parts(2) [of env st s]
      by (auto split: prod.splits) (metis snd_conv) }
qed simp_all

lemma select_parts [part_simps]:
  "cache_part (snd (select_active_video_streams env streams s)) = cache_part s"
  "active_part (snd (select_active_video_streams env streams s)) = active_part s"
  using streams_to_send_parts [of env streams s]
  by (auto simp: select_active_video_streams_def split: prod.splits)

lemma select_result:
  assumes "fst (select_active_video_streams env streams s) = Inr selected"
  shows "selected \<noteq> [] \<and> set selected \<subseteq> set streams"
proof -
  have best: "b \<in> set streams" if "best_stream streams = Inr b" for b
  proof -
    have "foldl (\<lambda>best s. if vs_quality s > vs_quality best then s else best) x xs \<in> set (x # xs)" for x xs
      by (induction xs arbitrary: x) (simp, smt (verit) foldl_Cons list.set_intros(1) set_ConsD list.set_intros(2))
    then show ?thesis using that by (cases streams) auto
  qed
  have "set (fst (streams_to_send env streams s)) \<subseteq> set streams" for s
  proof (induction streams arbitrary: s)
    case (Cons st sts)
    show ?case using Cons.IH by (auto split: prod.splits) (metis fst_conv subsetD)+
  qed simp
  then show ?thesis using assms best
    by (auto simp: select_active_video_streams_def map_res_Inr split: prod.splits if_splits)
       (metis fst_conv subsetD)
qed

lemma codec_tables_parts [part_simps]:
  "cache_part (snd (codec_tables env s)) = cache_part s"
  "active_part (snd (codec_tables env s)) = active_part s"
  by (simp_all add: codec_tables_def parts_defs split: prod.splits)

lemma send_ws_parts [part_simps]:
  "cache_part (snd (send_ws env m s)) = cache_part s"
  "active_part (snd (send_ws env m s)) = active_part s"
  by (simp_all add: send_ws_def vask_def parts_defs)

lemma announce_parts [part_simps]:
  "cache_part (snd (announce_video_state env force s)) = cache_part s"
  "active_part (snd (announce_video_state env force s)) = active_part s"
  using send_ws_parts [of env]
  by (simp_all add: announce_video_state_def Let_def part_simps) (simp_all add: parts_defs)

lemma select_rtx_parts [part_simps]:
  "cache_part (snd (select_rtx_payload env codec s)) = cache_part s"
  "active_part (snd (select_rtx_payload env codec s)) = active_part s"
proof -
  have "cache_part (snd (bind_res (codec_tables env s) k)) = cache_part s"
    "active_part (snd (bind_res (codec_tables env s) k)) = active_part s"
    if "\<And>v s. cache_part (snd (k v s)) = cache_part s \<and> active_part (snd (k v s)) = active_part s"
    for k :: "codec_lookups \<Rightarrow> 'a video_send \<Rightarrow> unit res \<times> 'a video_send"
    using bind_res_keeps [of cache_part k] bind_res_keeps [of active_part k] that codec_tables_parts by metis+
  then show "cache_part (snd (select_rtx_payload env codec s)) = cache_part s"
    "active_part (snd (select_rtx_payload env codec s)) = active_part s"
    unfolding select_rtx_payload_def by (auto simp: parts_defs)
qed

lemma register_parts [part_simps]:
  "cache_part (snd (register_video_streams streams s)) = cache_part s"
  "active_part (snd (register_video_streams streams s)) = active_part s"
proof (induction streams arbitrary: s)
  case (Cons st sts)
  { case 1 show ?case using Cons.IH(1)
      by (cases "require_video_stream_ssrc st"; cases "rtx_ssrc_for_video_stream st") (simp_all add: parts_defs) }
  { case 2 show ?case using Cons.IH(2)
      by (cases "require_video_stream_ssrc st"; cases "rtx_ssrc_for_video_stream st") (simp_all add: parts_defs) }
qed simp_all

lemma payload_type_parts [part_simps]:
  "cache_part (snd (client_payload_type env codec s)) = cache_part s"
  "active_part (snd (client_payload_type env codec s)) = active_part s"
  unfolding client_payload_type_def by (subst bind_res_keeps; simp add: part_simps)+

lemma reset_counters_parts:
  "cache_part (reset_video_stream_counters ssrc s) = cache_part s"
  "active_part (reset_video_stream_counters ssrc s) = active_part s"
  by (simp_all add: reset_video_stream_counters_def parts_defs)

lemma configure_keeps:
  assumes "\<And>s p. f (s\<lparr>sn_pipeline := p\<rparr>) = f s" "\<And>ssrc s. f (reset_video_stream_counters ssrc s) = f s"
  shows "f (snd (configure_video_streams env codec pt streams s)) = f s"
proof (induction streams arbitrary: s)
  case (Cons st sts)
  show ?case
  proof (cases "require_video_stream_ssrc st")
    case (Inr ssrc)
    let ?s = "if map_of (sn_packet_counts s) ssrc = None then reset_video_stream_counters ssrc s else s"
    obtain r p where rp: "po_configure (ve_pipeline env) codec ssrc pt (sn_rtx_payload_type ?s)
        (get_or 0 ssrc (sn_rtx_ssrcs ?s)) (vs_rid st) (sn_pipeline ?s) = (r, p)" by fastforce
    have "f (snd (bind_res (r, ?s\<lparr>sn_pipeline := p\<rparr>) (\<lambda>_. configure_video_streams env codec pt sts))) = f s"
      by (subst bind_res_keeps) (simp_all add: Cons.IH assms)
    then show ?thesis by (simp add: Inr rp Let_def del: bind_res.simps) (simp add: rp)
  qed simp
qed simp

lemma configure_parts [part_simps]:
  "cache_part (snd (configure_video_streams env codec pt streams s)) = cache_part s"
  "active_part (snd (configure_video_streams env codec pt streams s)) = active_part s"
  by (rule configure_keeps; simp add: parts_defs reset_video_stream_counters_def)+

lemma listen_parts [part_simps]:
  "cache_part (snd (listen_for_feedback env selected s)) = cache_part s"
  "active_part (snd (listen_for_feedback env selected s)) = active_part s"
  by (cases "sequence_res (map require_video_stream_ssrc selected)";
      simp add: listen_for_feedback_def ensure_rtcp_feedback_listener_def part_simps parts_defs
        stop_rtcp_listener_if_idle_def stop_rtcp_feedback_listener_def vask_def)+

lemma cache_updates [part_simps]:
  "cache_part (s\<lparr>sn_tick := a1\<rparr>) = cache_part s" "cache_part (s\<lparr>sn_nack := a2\<rparr>) = cache_part s"
  "cache_part (s\<lparr>sn_pipeline := a3\<rparr>) = cache_part s" "cache_part (s\<lparr>sn_codec := a4\<rparr>) = cache_part s"
  "cache_part (s\<lparr>sn_video_ssrc := a5\<rparr>) = cache_part s" "cache_part (s\<lparr>sn_rtx_ssrcs := a6\<rparr>) = cache_part s"
  "cache_part (s\<lparr>sn_rids := a7\<rparr>) = cache_part s" "cache_part (s\<lparr>sn_params := a8\<rparr>) = cache_part s"
  "cache_part (s\<lparr>sn_state_streams := a9\<rparr>) = cache_part s" "cache_part (s\<lparr>sn_last_state := b1\<rparr>) = cache_part s"
  "cache_part (s\<lparr>sn_active_streams := b2\<rparr>) = cache_part s" "cache_part (s\<lparr>sn_active_by_rid := b3\<rparr>) = cache_part s"
  "cache_part (s\<lparr>sn_media_times := b4\<rparr>) = cache_part s" "cache_part (s\<lparr>sn_last_reports := b5\<rparr>) = cache_part s"
  "cache_part (s\<lparr>sn_transport_sequence := b6\<rparr>) = cache_part s" "cache_part (s\<lparr>sn_resend := b7\<rparr>) = cache_part s"
  "cache_part (s\<lparr>sn_remote_wants := b8, sn_remote_any := b9, sn_remote_received := c1\<rparr>) = cache_part s"
  "cache_part (s\<lparr>sn_local_wants := c2, sn_local_any := c3, sn_local_pixels := c4\<rparr>) = cache_part s"
  by (simp_all add: cache_part_def)

lemma active_updates [part_simps]:
  "active_part (s\<lparr>sn_tick := a1\<rparr>) = active_part s" "active_part (s\<lparr>sn_nack := a2\<rparr>) = active_part s"
  "active_part (s\<lparr>sn_pipeline := a3\<rparr>) = active_part s" "active_part (s\<lparr>sn_codec := a4\<rparr>) = active_part s"
  "active_part (s\<lparr>sn_video_ssrc := a5\<rparr>) = active_part s" "active_part (s\<lparr>sn_rtx_ssrcs := a6\<rparr>) = active_part s"
  "active_part (s\<lparr>sn_rids := a7\<rparr>) = active_part s" "active_part (s\<lparr>sn_params := a8\<rparr>) = active_part s"
  "active_part (s\<lparr>sn_state_streams := a9\<rparr>) = active_part s" "active_part (s\<lparr>sn_last_state := b1\<rparr>) = active_part s"
  "active_part (s\<lparr>sn_keyframes := b2\<rparr>) = active_part s" "active_part (s\<lparr>sn_replaying := b3\<rparr>) = active_part s"
  "active_part (s\<lparr>sn_media_times := b4\<rparr>) = active_part s" "active_part (s\<lparr>sn_last_reports := b5\<rparr>) = active_part s"
  "active_part (s\<lparr>sn_transport_sequence := b6\<rparr>) = active_part s" "active_part (s\<lparr>sn_resend := b7\<rparr>) = active_part s"
  "active_part (s\<lparr>sn_remote_wants := b8, sn_remote_any := b9, sn_remote_received := c1\<rparr>) = active_part s"
  "active_part (s\<lparr>sn_local_wants := c2, sn_local_any := c3, sn_local_pixels := c4\<rparr>) = active_part s"
  by (simp_all add: active_part_def)

lemma clear_parts [part_simps]:
  "cache_part (clear_video_send_caches env s) = cache_part s"
  "active_part (clear_video_send_caches env s) = active_part s"
  by (simp_all add: clear_video_send_caches_def parts_defs)

lemmas keeps_cache = bind_res_keeps [where f = cache_part, THEN trans]
lemmas keeps_active = bind_res_keeps [where f = active_part, THEN trans]

lemma apply_cache [part_simps]:
  "cache_part (snd (apply_selected_video_stream env codec params reset s)) = cache_part s"
  unfolding apply_selected_video_stream_def Let_def case_prod_beta
  by (intro keeps_cache; simp add: part_simps; intro keeps_cache; simp add: part_simps)

text \<open>The selected streams have SSRCs, and the table by RID is the table of the selected streams.\<close>

definition streams_ok :: "VoiceStream list \<times> (string, VoiceStream) odict \<Rightarrow> bool" where
  "streams_ok a \<longleftrightarrow> snd a = streams_by_rid (fst a) \<and> (\<forall>stream \<in> set (fst a). vs_ssrc stream \<noteq> None)"

lemmas streams_ok_bind = bind_res_inv [where I = "\<lambda>s. streams_ok (active_part s)"]

lemma selected_have_ssrcs:
  assumes "negotiated_video_streams available = Inr negotiated"
    "fst (select_active_video_streams env negotiated t) = Inr selected"
  shows "\<forall>stream \<in> set selected. vs_ssrc stream \<noteq> None"
  using assms(1) select_result [OF assms(2)] by (auto simp: negotiated_video_streams_def Let_def split: if_splits)

lemma new_active_part [part_simps]:
  "active_part (s\<lparr>sn_active_streams := a, sn_active_by_rid := b\<rparr>) = (a, b)"
  by (simp add: active_part_def)

lemma apply_active:
  assumes "streams_ok (active_part s)"
  shows "streams_ok (active_part (snd (apply_selected_video_stream env codec params reset s)))"
  unfolding apply_selected_video_stream_def Let_def case_prod_beta
  by (intro streams_ok_bind; simp add: part_simps assms; drule (1) selected_have_ssrcs; simp add: streams_ok_def)


section \<open>The invariant of the sender\<close>

text \<open>
  What is cached for a stream is a group of pictures: it starts with a keyframe that carries its
  parameter sets, it is not longer than \<open>video_keyframe_replay_max_frames\<close> (or one frame), and
  every frame of it was sent on this stream.
\<close>

definition gop_ok :: "int \<Rightarrow> int \<Rightarrow> (bytes \<times> pyfloat \<times> VoiceStream) list \<Rightarrow> bool" where
  "gop_ok replay_max ssrc frames \<longleftrightarrow>
     frames \<noteq> [] \<and> int (length frames) \<le> max 1 replay_max
     \<and> (is_config_keyframe ''H264'' (fst (hd frames)) \<or> is_config_keyframe ''H265'' (fst (hd frames)))
     \<and> (\<forall>(frame, frame_time, stream) \<in> set frames. vs_ssrc stream = Some ssrc)"

definition cache_ok :: "int \<Rightarrow> (int, (bytes \<times> pyfloat \<times> VoiceStream) list) odict \<Rightarrow> bool" where
  "cache_ok replay_max cache \<longleftrightarrow>
     (\<forall>ssrc frames. map_of cache ssrc = Some frames \<longrightarrow> gop_ok replay_max ssrc frames)"

definition send_inv :: "'p send_env \<Rightarrow> 'p video_send \<Rightarrow> bool" where
  "send_inv env s \<longleftrightarrow> \<not> sn_replaying s \<and> cache_ok (ve_replay_max env) (sn_keyframes s) \<and> streams_ok (active_part s)"

lemma config_keyframe_codec:
  assumes "is_config_keyframe codec frame"
  shows "is_config_keyframe ''H264'' frame \<or> is_config_keyframe ''H265'' frame"
proof -
  have "upper codec = ''H264'' \<or> upper codec = ''H265''"
    using assms by (auto simp: is_config_keyframe_def Let_def parameter_set_types_def split: option.splits if_splits)
  moreover have "is_config_keyframe codec frame = is_config_keyframe (upper codec) frame"
    if "upper (upper codec) = upper codec" using that by (simp add: is_config_keyframe_def)
  moreover have "upper ''H264'' = ''H264''" "upper ''H265'' = ''H265''" by code_simp+
  ultimately show ?thesis using assms by metis
qed

lemma cache_frame_ok:
  assumes "cache_ok m (sn_keyframes s)" "vs_ssrc stream = Some ssrc"
  shows "cache_ok m (sn_keyframes (cache_video_frame m ssrc stream frame t s))"
  unfolding cache_video_frame_def
  using assms config_keyframe_codec [of _ frame]
  by (auto simp: cache_ok_def gop_ok_def map_of_update_eq delete_conv' hd_append split: option.splits if_splits)

lemma sender_report_parts [part_simps]:
  "cache_part (snd (send_sender_report env ssrc ts pc oc s)) = cache_part s"
  "active_part (snd (send_sender_report env ssrc ts pc oc s)) = active_part s"
  by (cases "send_rtcp_sender_report (ve_time env (sn_tick s)) ssrc ts
        (case pc of None \<Rightarrow> get_or 0 ssrc (sn_packet_counts s) | Some n \<Rightarrow> n)
        (case oc of None \<Rightarrow> get_or 0 ssrc (sn_octet_counts s) | Some n \<Rightarrow> n)";
      simp add: send_sender_report_def Let_def case_prod_beta parts_defs)+

lemma maybe_report_parts [part_simps]:
  "cache_part (snd (maybe_send_video_rtcp_sender_report env ssrc ts s)) = cache_part s"
  "active_part (snd (maybe_send_video_rtcp_sender_report env ssrc ts s)) = active_part s"
  unfolding maybe_send_video_rtcp_sender_report_def Let_def
  by (auto intro!: keeps_cache keeps_active simp: part_simps)

lemma stats_parts [part_simps]:
  "cache_part (record_rtp_send_stats env ssrc n t s) = cache_part s"
  "active_part (record_rtp_send_stats env ssrc n t s) = active_part s"
  "cache_part (record_video_packet_send ssrc p oc s) = cache_part s"
  "active_part (record_video_packet_send ssrc p oc s) = active_part s"
  "cache_part (count_stat key k s) = cache_part s"
  "active_part (count_stat key k s) = active_part s"
  by (simp_all add: record_rtp_send_stats_def record_video_packet_send_def count_stat_def Let_def case_prod_beta parts_defs)

lemma send_raw_parts [part_simps]:
  "cache_part (snd (send_video_frame_raw env codec ssrc original frame t s)) = cache_part s"
  "active_part (snd (send_video_frame_raw env codec ssrc original frame t s)) = active_part s"
  unfolding send_video_frame_raw_def Let_def case_prod_beta
  by (auto intro!: keeps_cache keeps_active simp: part_simps split: option.splits)

lemma prepare_parts [part_simps]:
  "cache_part (snd (prepare_video_frame env codec ssrc stream frame t s)) =
     cache_part (cache_video_frame (ve_replay_max env) ssrc stream
       (if upper codec = ''H264'' then ve_strip env frame else frame) t s)"
  "active_part (snd (prepare_video_frame env codec ssrc stream frame t s)) = active_part s"
  by (auto simp: prepare_video_frame_def Let_def case_prod_beta part_simps cache_video_frame_def split: option.splits)

lemma cache_frame_replaying [simp]: "sn_replaying (cache_video_frame m ssrc stream frame t s) = sn_replaying s"
  by (simp add: cache_video_frame_def split: option.splits)

lemma cache_frame_while_replaying: "sn_replaying s \<Longrightarrow> cache_video_frame m ssrc stream frame t s = s"
  by (simp add: cache_video_frame_def split: option.splits)

text \<open>What a frame does to the cache: it is cached unless the client is replaying.\<close>

lemma send_frame_active [part_simps]:
  "active_part (snd (send_video_frame env frame t stream s)) = active_part s"
  unfolding send_video_frame_def Let_def case_prod_beta
  by (auto intro!: keeps_active simp: part_simps split: option.splits)

definition cache_state :: "int \<Rightarrow> bool \<Rightarrow> 'p video_send \<Rightarrow> bool" where
  "cache_state m replaying s \<longleftrightarrow> cache_ok m (snd (cache_part s)) \<and> fst (cache_part s) = replaying"

lemma cache_state_cong: "cache_part s = cache_part u \<Longrightarrow> cache_state m r s = cache_state m r u"
  by (simp add: cache_state_def)

lemma send_frame_inv:
  assumes start: "I s" and parts: "\<And>u v. cache_part u = cache_part v \<Longrightarrow> I u = I v"
    and cached: "\<And>u ssrc st f. I u \<Longrightarrow> vs_ssrc st = Some ssrc \<Longrightarrow>
      I (cache_video_frame (ve_replay_max env) ssrc st f t u)"
  shows "I (snd (send_video_frame env frame t stream s))"
proof -
  note step = bind_res_inv [where I = I]
  have tick: "I (u\<lparr>sn_tick := n\<rparr>)" if "I u" for u n using that parts [OF cache_updates(1)] by simp
  have prepared: "I (snd (prepare_video_frame env codec ssrc st f t u))"
    if "I u" "require_video_stream_ssrc st = Inr ssrc" for u codec ssrc st f
    using cached [OF that(1), of st ssrc] that(2) parts [OF prepare_parts(1)]
    by (simp add: require_video_stream_ssrc_def split: option.splits)
  have raw: "I (snd (send_video_frame_raw env codec ssrc original f d u))" if "I u"
    for u codec ssrc original f d using that parts [OF send_raw_parts(1)] by simp
  have times: "I (u\<lparr>sn_media_times := x\<rparr>)" if "I u" for u x using that parts [OF cache_updates(13)] by simp
  show ?thesis
    unfolding send_video_frame_def Let_def case_prod_beta
    by (auto intro!: step prepared raw times tick start split: option.splits)
qed

lemma send_frame_replaying:
  assumes "sn_replaying s"
  shows "cache_part (snd (send_video_frame env frame t stream s)) = cache_part s"
proof -
  have "cache_part (snd (send_video_frame env frame t stream s)) = cache_part s
    \<and> sn_replaying (snd (send_video_frame env frame t stream s))"
    by (rule send_frame_inv [where I = "\<lambda>u. cache_part u = cache_part s \<and> sn_replaying u"])
       (use assms in \<open>auto simp: cache_frame_while_replaying cache_part_def\<close>)
  then show ?thesis by simp
qed

lemma send_frame_cache_state:
  assumes "cache_state (ve_replay_max env) r s"
  shows "cache_state (ve_replay_max env) r (snd (send_video_frame env frame t stream s))"
  by (rule send_frame_inv [where I = "cache_state (ve_replay_max env) r"])
     (use assms in \<open>auto simp: cache_state_def cache_part_def intro: cache_frame_ok\<close>)

lemma send_inv_iff: "send_inv env s \<longleftrightarrow> cache_state (ve_replay_max env) False s \<and> streams_ok (active_part s)"
  by (auto simp: send_inv_def cache_state_def cache_part_def)

lemma send_inv_parts:
  "cache_part u = cache_part s \<Longrightarrow> active_part u = active_part s \<Longrightarrow> send_inv env u = send_inv env s"
  by (simp add: send_inv_iff cache_state_def)

lemma send_frame_send_inv: "send_inv env s \<Longrightarrow> send_inv env (snd (send_video_frame env frame t stream s))"
  by (simp add: send_inv_iff send_frame_cache_state part_simps)

lemma send_frames_send_inv: "send_inv env s \<Longrightarrow> send_inv env (snd (send_video_frames env frames s))"
proof -
  have "send_inv env s \<Longrightarrow> send_inv env (snd (send_video_frames_loop env by_rid frames sent s))" for by_rid sent
  proof (induction env by_rid frames sent s rule: send_video_frames_loop.induct)
    case (2 env by_rid rid frame frames sent s)
    show ?case
    proof (cases "map_of by_rid rid")
      case (Some stream)
      show ?thesis using send_frame_send_inv [OF "2.prems"] 2
        by (auto simp: Some intro!: bind_res_inv [where I = "send_inv env"])
    qed (use 2 in simp)
  qed simp
  then show "send_inv env s \<Longrightarrow> send_inv env (snd (send_video_frames env frames s))"
    by (simp add: send_video_frames_def)
qed

lemma apply_send_inv: "send_inv env s \<Longrightarrow> send_inv env (snd (apply_selected_video_stream env codec params reset s))"
  by (simp add: send_inv_iff cache_state_def apply_cache apply_active)

lemma start_send_inv:
  assumes "send_inv env s" shows "send_inv env (snd (start_video env width height fps bitrate s))"
proof -
  have "send_inv env (s\<lparr>sn_tick := n\<rparr>)" "send_inv env (s\<lparr>sn_tick := n, sn_params := x\<rparr>)" for n x
    by (rule send_inv_parts [THEN iffD2, OF _ _ assms]; simp add: parts_defs)+
  then show ?thesis
    unfolding start_video_def negotiated_video_codec_def Let_def case_prod_beta
    by (auto simp: apply_send_inv split: option.splits)
qed

lemma wants_send_inv:
  assumes "send_inv env s" shows "send_inv env (snd (on_media_sink_wants env wants s))"
proof -
  have "send_inv env (s\<lparr>sn_remote_wants := a, sn_remote_any := b, sn_remote_received := True, sn_tick := n\<rparr>)" for a b n
    by (rule send_inv_parts [THEN iffD2, OF _ _ assms]; simp add: parts_defs)
  then show ?thesis
    unfolding on_media_sink_wants_def Let_def case_prod_beta
    by (auto intro!: bind_res_inv [where I = "send_inv env"] apply_send_inv split: option.splits)
qed

lemma stop_send_inv:
  assumes "send_inv env s" shows "send_inv env (snd (stop_video env s))"
proof -
  have "send_inv env (s\<lparr>sn_last_state := x, sn_tick := n\<rparr>)" for x n
    by (rule send_inv_parts [THEN iffD2, OF _ _ assms]; simp add: parts_defs)
  moreover from this have "send_inv env (snd (send_ws env m (s\<lparr>sn_last_state := x, sn_tick := n\<rparr>)))" for m x n
    by (simp add: send_inv_parts [OF send_ws_parts])
  moreover have "send_inv env (stop_rtcp_listener_if_idle env ((clear_video_send_caches env
      (u\<lparr>sn_codec := None, sn_params := None, sn_state_streams := [], sn_active_streams := [], sn_active_by_rid := [],
         sn_video_ssrc := 0, sn_rtx_payload_type := None, sn_rtx_ssrcs := [], sn_rids := []\<rparr>))
      \<lparr>sn_keyframes := [], sn_resend := {}, sn_replaying := False\<rparr>))" for u
    by (simp add: send_inv_parts [OF listener_parts(1,2)])
       (simp add: send_inv_def cache_ok_def streams_ok_def active_part_def clear_video_send_caches_def streams_by_rid_def)
  ultimately show ?thesis
    unfolding stop_video_def Let_def case_prod_beta
    by (auto intro!: bind_res_inv [where I = "send_inv env"])
qed

lemma replay_frames_keeps:
  "sn_replaying s \<Longrightarrow> cache_part (snd (replay_frames env frames s)) = cache_part s
     \<and> active_part (snd (replay_frames env frames s)) = active_part s"
proof (induction frames arbitrary: s)
  case (Cons p frames)
  obtain f t st where p: "p = (f, t, st)" by (cases p)
  let ?m = "send_video_frame env f t (Some st) s"
  have m: "cache_part (snd ?m) = cache_part s" "active_part (snd ?m) = active_part s"
    using Cons.prems by (simp_all add: send_frame_replaying send_frame_active)
  then have "sn_replaying (snd ?m)" using Cons.prems by (simp add: cache_part_def)
  with Cons.IH m show ?case by (cases "fst ?m"; cases ?m) (auto simp: p)
qed simp

lemma replay_requests_keeps:
  "\<not> sn_replaying s \<Longrightarrow> cache_part (snd (replay_requests env requests sent s)) = cache_part s
     \<and> active_part (snd (replay_requests env requests sent s)) = active_part s"
proof (induction env requests sent s rule: replay_requests.induct)
  case (2 env ssrc requests sent s)
  show ?case
  proof (cases "map_of (sn_keyframes s) ssrc")
    case (Some frames)
    show ?thesis
    proof (cases frames)
      case (Cons p ps)
      let ?m = "replay_frames env (p # ps) (s\<lparr>sn_replaying := True\<rparr>)"
      obtain r u where m: "?m = (r, u)" by fastforce
      have "cache_part u = (True, sn_keyframes s)" "active_part u = active_part s"
        using replay_frames_keeps [of "s\<lparr>sn_replaying := True\<rparr>" env "p # ps"] m by (simp_all add: parts_defs)
      then have "cache_part (u\<lparr>sn_replaying := False\<rparr>) = cache_part s"
        "active_part (u\<lparr>sn_replaying := False\<rparr>) = active_part s"
        using "2.prems" by (auto simp: parts_defs)
      with 2 Some Cons m show ?thesis by (auto simp: case_prod_beta)
    qed (use 2 Some in simp)
  qed (use 2 in simp)
qed simp

section \<open>Steps of the sender\<close>

definition new_video_send :: "client_class \<Rightarrow> nack_state \<Rightarrow> rtcp_state \<Rightarrow> codec_caches \<Rightarrow> 'p \<Rightarrow> 'p video_send" where
  "new_video_send cls nack rtcp caches pipeline =
     \<lparr>sn_tick = 0, sn_nack = nack\<lparr>nk_rtx_enabled := cls_rtx cls\<rparr>, sn_rtcp = rtcp, sn_send_stats = [], sn_lookup_cache = None,
      sn_codec_caches = caches, sn_pipeline = pipeline, sn_codec = None, sn_video_ssrc = 0,
      sn_rtx_payload_type = None, sn_rtx_ssrcs = [], sn_rids = [], sn_params = None, sn_state_streams = [],
      sn_last_state = None, sn_active_streams = [], sn_active_by_rid = [], sn_simulcast = False,
      sn_packet_counts = [], sn_octet_counts = [], sn_media_times = [], sn_last_reports = [],
      sn_transport_sequence = 0, sn_keyframes = [], sn_resend = {}, sn_replaying = False,
      sn_remote_wants = [], sn_remote_any = None, sn_remote_received = False, sn_local_wants = [],
      sn_local_any = Some 100, sn_local_pixels = [], sn_feedback = False, sn_ws_log = []\<rparr>"

text \<open>
  \<open>_media_player_source_changed\<close>: the client notes whether the new source is simulcast, and
  schedules a selection of streams on the event loop, which is a step of its own.
\<close>

definition media_player_source_changed ::
  "'p send_env \<Rightarrow> bool \<Rightarrow> 'p video_send \<Rightarrow> (string \<times> video_params) option \<times> 'p video_send"
where
  "media_player_source_changed env supports_simulcast s =
     (let s = s\<lparr>sn_simulcast := supports_simulcast\<rparr>
      in case (sn_params s, sn_codec s) of
           (Some params, Some codec) \<Rightarrow>
             (let (connected, s) = vask (ve_connected env) s
              in (if connected then Some (codec, params) else None, s))
         | _ \<Rightarrow> (None, s))"

definition video_params_for_source ::
  "'p send_env \<Rightarrow> VideoConfig option \<Rightarrow> int option \<Rightarrow> int option \<Rightarrow> int option \<Rightarrow> int option \<Rightarrow> 'p video_send
     \<Rightarrow> video_params res \<times> 'p video_send"
where
  "video_params_for_source env config video_width video_height video_fps video_bitrate s =
     (let or_else = (\<lambda>given from_config. case given of Some n \<Rightarrow> Some n | None \<Rightarrow> from_config);
          width = or_else video_width (map_option vc_width config);
          height = or_else video_height (map_option vc_height config);
          fps = (case or_else video_fps (map_option vc_fps config) of Some n \<Rightarrow> n | None \<Rightarrow> 30);
          bitrate = (case video_bitrate of
              Some n \<Rightarrow> n
            | None \<Rightarrow> (case config of
                  Some c \<Rightarrow> if vc_bitrate c > 0 then vc_bitrate c else native_video_bitrate height (Some fps)
                | None \<Rightarrow> native_video_bitrate height (Some fps)));
          (negotiated, s) = negotiated_video_codec env s
      in if (case (map_option vc_codec config, negotiated) of
               (Some codec, Some n) \<Rightarrow> upper codec \<noteq> n | _ \<Rightarrow> False)
         then (Inl ClientException, s)
         else ((case (width, height) of
                  (Some w, Some h) \<Rightarrow>
                    if w \<le> 0 \<or> h \<le> 0 then Inl ClientException
                    else Inr \<lparr>par_width = w, par_height = h, par_fps = fps, par_bitrate = bitrate\<rparr>
                | _ \<Rightarrow> Inl ClientException), s))"

text \<open>
  One step of the sender: a call from the player, the application or the gateway, or a packet of
  feedback from the server.
\<close>

inductive video_step :: "'p send_env \<Rightarrow> 'p video_send \<Rightarrow> 'p video_send \<Rightarrow> bool" for env where
  step_start: "video_step env s (snd (start_video env width height fps bitrate s))"
| step_stop: "video_step env s (snd (stop_video env s))"
| step_source: "video_step env s (snd (media_player_source_changed env supports s))"
| step_apply: "video_step env s (snd (apply_selected_video_stream env codec params False s))"
| step_wants: "video_step env s (snd (on_media_sink_wants env wants s))"
| step_request: "video_step env s (snd (request_video env ssrc quality any_want pixels s))"
| step_frame: "video_step env s (snd (send_video_frame env frame frame_time stream s))"
| step_frames: "video_step env s (snd (send_video_frames env frames s))"
| step_keyframes: "video_step env s (snd (send_requested_video_keyframes env s))"
| step_pli: "video_step env s (request_keyframe env payload s)"
| step_nack: "video_step env s (handle_rtcp_nack env payload s)"
| step_rtx: "video_step env s (snd (send_video_rtx_packet env sequence media s))"
| step_report: "video_step env s (s\<lparr>sn_rtcp := handle_rtcp_receiver_report now sender reports payload (sn_rtcp s)\<rparr>)"

lemma other_parts [part_simps]:
  "cache_part (snd (request_video env ssrc q a p s)) = cache_part s"
  "active_part (snd (request_video env ssrc q a p s)) = active_part s"
  "cache_part (request_keyframe env payload s) = cache_part s"
  "active_part (request_keyframe env payload s) = active_part s"
  "cache_part (handle_rtcp_nack env payload s) = cache_part s"
  "active_part (handle_rtcp_nack env payload s) = active_part s"
  "cache_part (snd (send_video_rtx_packet env sequence media s)) = cache_part s"
  "active_part (snd (send_video_rtx_packet env sequence media s)) = active_part s"
  "cache_part (snd (media_player_source_changed env supports s)) = cache_part s"
  "active_part (snd (media_player_source_changed env supports s)) = active_part s"
  by (auto simp: request_video_def send_media_sink_wants_def request_keyframe_def handle_rtcp_nack_def
      send_video_rtx_packet_def media_player_source_changed_def Let_def case_prod_beta part_simps
      split: option.splits sum.splits) (simp_all add: parts_defs)

lemma keyframes_parts [part_simps]:
  assumes "\<not> sn_replaying s"
  shows "cache_part (snd (send_requested_video_keyframes env s)) = cache_part s"
    "active_part (snd (send_requested_video_keyframes env s)) = active_part s"
  using replay_requests_keeps [of "s\<lparr>sn_resend := {}\<rparr>" env "ve_order env (sn_resend s)" False] assms
  by (simp_all add: send_requested_video_keyframes_def part_simps)

lemma video_step_inv: "video_step env s u \<Longrightarrow> send_inv env s \<Longrightarrow> send_inv env u"
proof (induction rule: video_step.induct)
  case (step_keyframes s)
  then show ?case by (subst send_inv_parts [OF keyframes_parts]) (auto simp: send_inv_def)
next
  case (step_report s now sender reports payload)
  then show ?case by (subst send_inv_parts) (auto simp: parts_defs)
qed (simp_all add: start_send_inv stop_send_inv wants_send_inv apply_send_inv send_frame_send_inv
      send_frames_send_inv send_inv_parts [OF other_parts(1,2)] send_inv_parts [OF other_parts(3,4)]
      send_inv_parts [OF other_parts(5,6)] send_inv_parts [OF other_parts(7,8)] send_inv_parts [OF other_parts(9,10)])

inductive video_reachable :: "'p send_env \<Rightarrow> 'p video_send \<Rightarrow> bool" for env where
  reach_new: "video_reachable env (new_video_send (ve_class env) nack rtcp caches pipeline)"
| reach_step: "video_reachable env s \<Longrightarrow> video_step env s u \<Longrightarrow> video_reachable env u"

lemma new_send_inv: "send_inv env (new_video_send cls nack rtcp caches pipeline)"
  by (simp add: send_inv_def new_video_send_def cache_ok_def streams_ok_def active_part_def streams_by_rid_def)

lemma reachable_send_inv: "video_reachable env s \<Longrightarrow> send_inv env s"
  by (induction rule: video_reachable.induct) (auto intro: new_send_inv video_step_inv)


section \<open>Sender reports\<close>

lemma get_or_update [simp]: "get_or d k (AList.update k v m) = v"
  by (simp add: get_or_def)

lemma times_of_ops:
  "times_part (cache_video_frame m ssrc st f t s) = times_part s"
  "times_part (record_video_packet_send ssrc p oc s) = times_part s"
  "times_part (record_rtp_send_stats env ssrc n tr s) = times_part s"
  "times_part (snd (prepare_video_frame env codec ssrc st f t s)) = times_part s"
  by (simp_all add: cache_video_frame_def record_video_packet_send_def record_rtp_send_stats_def Let_def
      prepare_video_frame_def case_prod_beta times_part_def split: option.splits)

definition reports_sent :: "'p video_send \<Rightarrow> nat" where
  "reports_sent s = length (nk_sent (sn_nack s))"

lemma sender_report_ok:
  assumes "send_sender_report env ssrc ts pc oc s = (Inr v, u)"
  shows "sn_media_times u = sn_media_times s \<and> sn_last_reports u = sn_last_reports s
    \<and> reports_sent u = Suc (reports_sent s)"
  using assms
  by (auto simp: send_sender_report_def Let_def case_prod_beta bind_res_Inr send_packet_def reports_sent_def
      split: option.splits)

text \<open>One frame: the media time advances, and there is a report if the frame opens a new second.\<close>

definition opens_second :: "int \<Rightarrow> 'p video_send \<Rightarrow> bool" where
  "opens_second ssrc s \<longleftrightarrow>
     media_second (get_or 0 ssrc (sn_media_times s)) > media_second (get_or (- 1) ssrc (sn_last_reports s))"

lemma maybe_sender_report_ok:
  assumes "maybe_send_video_rtcp_sender_report env ssrc ts s = (Inr v, u)"
  shows "sn_media_times u = sn_media_times s"
    "reports_sent u = reports_sent s + (if opens_second ssrc s then 1 else 0)"
    "get_or (- 1) ssrc (sn_last_reports u) =
       get_or (- 1) ssrc (if opens_second ssrc s then [(ssrc, get_or 0 ssrc (sn_media_times s))] else sn_last_reports s)"
  using assms
  by (auto simp: maybe_send_video_rtcp_sender_report_def Let_def bind_res_Inr opens_second_def reports_sent_def get_or_def
      split: if_splits dest!: sender_report_ok)

lemma times_partD:
  "times_part u = times_part s \<Longrightarrow> sn_media_times u = sn_media_times s \<and> sn_last_reports u = sn_last_reports s
     \<and> reports_sent u = reports_sent s \<and> opens_second ssrc u = opens_second ssrc s"
  by (simp add: times_part_def reports_sent_def opens_second_def)

lemma send_raw_ok:
  assumes "send_video_frame_raw env codec ssrc original frame t s = (Inr n, u)"
  shows "sn_media_times u = sn_media_times s"
    "reports_sent u = reports_sent s + (if n \<noteq> 0 \<and> opens_second ssrc s then 1 else 0)"
    "get_or (- 1) ssrc (sn_last_reports u) =
       get_or (- 1) ssrc (if n \<noteq> 0 \<and> opens_second ssrc s then [(ssrc, get_or 0 ssrc (sn_media_times s))]
                          else sn_last_reports s)"
proof -
  let ?call = "po_send_frame (ve_pipeline env) ssrc frame (if upper codec = ''VP9'' then Some original else None) t
        (sn_pipeline s)"
  obtain r p where rp: "?call = (r, p)" by fastforce
  have "r \<noteq> Inl e" for e using assms by (auto simp: send_video_frame_raw_def rp)
  then have "\<exists>v. r = Inr v" by (cases r) auto
  then obtain sent octets transport ts last_sequence
    where send: "?call = (Inr (sent, octets, transport, ts, last_sequence), p)" using rp by (metis prod_cases5)
  let ?s = "s\<lparr>sn_pipeline := p, sn_transport_sequence := transport\<rparr>"
  have s: "times_part ?s = times_part s" by (simp add: times_part_def)
  have "(sn_media_times u = sn_media_times s)
    \<and> reports_sent u = reports_sent s + (if n \<noteq> 0 \<and> opens_second ssrc s then 1 else 0)
    \<and> get_or (- 1) ssrc (sn_last_reports u) =
       get_or (- 1) ssrc (if n \<noteq> 0 \<and> opens_second ssrc s then [(ssrc, get_or 0 ssrc (sn_media_times s))]
                          else sn_last_reports s)"
  proof (cases "sent = 0")
    case True
    then have "n = 0" "u = ?s" using assms by (simp_all add: send_video_frame_raw_def send)
    then show ?thesis using times_partD [OF s] by simp
  next
    case False
    let ?r = "record_video_packet_send ssrc sent octets ?s"
    let ?finish = "\<lambda>_ s. (Inr sent, case last_sequence of None \<Rightarrow> s
        | Some n \<Rightarrow> record_rtp_send_stats env ssrc n (Some ((transport - 1) AND 0xFFFF)) s)"
    have "bind_res (maybe_send_video_rtcp_sender_report env ssrc ts ?r) ?finish = (Inr n, u)"
      using assms False by (simp add: send_video_frame_raw_def send)
    then obtain v w where w: "maybe_send_video_rtcp_sender_report env ssrc ts ?r = (Inr v, w)"
      and e: "?finish v w = (Inr n, u)" unfolding bind_res_Inr by blast
    have n: "n = sent" and u: "times_part u = times_part w"
      using e by (auto simp: times_of_ops split: option.splits)
    have r: "times_part ?r = times_part s" using s times_of_ops(2) by metis
    show ?thesis
      using maybe_sender_report_ok [OF w] times_partD [OF r, of ssrc] times_partD [OF u, of ssrc] False n by auto
  qed
  then show "sn_media_times u = sn_media_times s"
    "reports_sent u = reports_sent s + (if n \<noteq> 0 \<and> opens_second ssrc s then 1 else 0)"
    "get_or (- 1) ssrc (sn_last_reports u) =
       get_or (- 1) ssrc (if n \<noteq> 0 \<and> opens_second ssrc s then [(ssrc, get_or 0 ssrc (sn_media_times s))]
                          else sn_last_reports s)" by simp_all
qed

lemma prepare_ok:
  assumes "prepare_video_frame env codec ssrc st f t s = (Inr (original, encrypted, d), u)"
  shows "d = max (1 / 1000) t" "times_part u = times_part s" "active_part u = active_part s"
  using assms times_of_ops(4) [of env codec ssrc st f t s] prepare_parts(2) [of env codec ssrc st f t s]
  by (auto simp: prepare_video_frame_def Let_def case_prod_beta map_res_Inr)

lemma send_frame_ok:
  assumes sent: "send_video_frame env frame t stream s = (Inr n, u)"
    and st: "resolve_video_send_stream stream (sn_active_streams s) = Inr st" "vs_ssrc st = Some ssrc"
  shows "get_or 0 ssrc (sn_media_times u) = get_or 0 ssrc (sn_media_times s) + max (1 / 1000) t"
    "reports_sent u = reports_sent s + (if n \<noteq> 0 \<and> opens_second ssrc s then 1 else 0)"
    "get_or (- 1) ssrc (sn_last_reports u) =
       get_or (- 1) ssrc (if n \<noteq> 0 \<and> opens_second ssrc s then [(ssrc, get_or 0 ssrc (sn_media_times s))]
                          else sn_last_reports s)"
    "sn_active_streams u = sn_active_streams s"
proof -
  let ?s = "s\<lparr>sn_tick := Suc (sn_tick s)\<rparr>"
  obtain codec where "sn_codec s = Some codec" "ve_connected env (sn_tick s)"
    using sent by (auto simp: send_video_frame_def Let_def case_prod_beta split: if_splits option.splits)
  then have "bind_res (prepare_video_frame env codec ssrc st frame t ?s) (\<lambda>(original, frame, d) s.
      let m = get_or 0 ssrc (sn_media_times s) in
      bind_res (send_video_frame_raw env codec ssrc original frame d s) (\<lambda>sent s.
        (Inr sent, s\<lparr>sn_media_times := AList.update ssrc (m + d) (sn_media_times s)\<rparr>))) = (Inr n, u)"
    using sent st by (simp add: send_video_frame_def Let_def require_video_stream_ssrc_def vask_def)
  then obtain original encrypted d p w where prep:
      "prepare_video_frame env codec ssrc st frame t ?s = (Inr (original, encrypted, d), p)"
    and raw: "send_video_frame_raw env codec ssrc original encrypted d p = (Inr n, w)"
    and u: "u = w\<lparr>sn_media_times := AList.update ssrc (get_or 0 ssrc (sn_media_times p) + d) (sn_media_times w)\<rparr>"
    by (auto simp: bind_res_Inr Let_def split: prod.splits)
  have s: "times_part ?s = times_part s" by (simp add: times_part_def)
  have p: "sn_media_times p = sn_media_times s" "sn_last_reports p = sn_last_reports s"
    "reports_sent p = reports_sent s" "opens_second ssrc p = opens_second ssrc s"
    using times_partD [OF prepare_ok(2) [OF prep]] times_partD [OF s] by metis+
  show "get_or 0 ssrc (sn_media_times u) = get_or 0 ssrc (sn_media_times s) + max (1 / 1000) t"
    using prepare_ok(1) [OF prep] by (simp add: u p)
  show "reports_sent u = reports_sent s + (if n \<noteq> 0 \<and> opens_second ssrc s then 1 else 0)"
  proof -
    have "reports_sent u = reports_sent w" by (simp add: u reports_sent_def)
    then show ?thesis using send_raw_ok(2) [OF raw] p by simp
  qed
  show "get_or (- 1) ssrc (sn_last_reports u) =
       get_or (- 1) ssrc (if n \<noteq> 0 \<and> opens_second ssrc s then [(ssrc, get_or 0 ssrc (sn_media_times s))]
                          else sn_last_reports s)"
    using send_raw_ok(3) [OF raw] by (simp add: u p)
  have "active_part u = active_part s"
    using send_frame_active [of env frame t stream s] sent by simp
  then show "sn_active_streams u = sn_active_streams s" by (simp add: active_part_def)
qed

text \<open>A run of frames on one stream, and the media times at which they start.\<close>

fun send_run ::
  "'p send_env \<Rightarrow> VoiceStream option \<Rightarrow> (bytes \<times> pyfloat) list \<Rightarrow> 'p video_send \<Rightarrow> int list res \<times> 'p video_send"
where
  "send_run env stream [] s = (Inr [], s)"
| "send_run env stream ((frame, t) # frames) s =
     bind_res (send_video_frame env frame t stream s) (\<lambda>n s.
       bind_res (send_run env stream frames s) (\<lambda>ns s. (Inr (n # ns), s)))"

fun frame_starts :: "pyfloat \<Rightarrow> (bytes \<times> pyfloat) list \<Rightarrow> pyfloat list" where
  "frame_starts m [] = []"
| "frame_starts m ((frame, t) # frames) = m # frame_starts (m + max (1 / 1000) t) frames"

definition sent_seconds :: "pyfloat \<Rightarrow> (bytes \<times> pyfloat) list \<Rightarrow> int list \<Rightarrow> int set" where
  "sent_seconds m frames ns = {media_second start |start n. (start, n) \<in> set (zip (frame_starts m frames) ns) \<and> n \<noteq> 0}"

lemma sent_seconds_Cons:
  "sent_seconds m ((frame, t) # frames) (n # ns) =
     (if n \<noteq> 0 then {media_second m} else {}) \<union> sent_seconds (m + max (1 / 1000) t) frames ns"
  by (auto simp: sent_seconds_def)

lemma frame_time_nonneg: "0 \<le> max (1 / 1000) (t :: pyfloat)"
  by (simp add: le_max_iff_disj)

lemma frame_starts_ge: "start \<in> set (frame_starts m frames) \<Longrightarrow> m \<le> start"
proof (induction m frames rule: frame_starts.induct)
  case (2 m frame t frames)
  then show ?case using frame_time_nonneg [of t] by (auto simp del: max.bounded_iff)
qed simp

lemma sent_seconds_ge: "second \<in> sent_seconds m frames ns \<Longrightarrow> media_second m \<le> second"
  unfolding sent_seconds_def
  by (auto dest!: set_zip_leftD frame_starts_ge simp: media_second_def intro!: floor_mono divide_right_mono)

lemma finite_sent_seconds [simp]: "finite (sent_seconds m frames ns)"
proof -
  have "sent_seconds m frames ns \<subseteq> (\<lambda>(start, n). media_second start) ` set (zip (frame_starts m frames) ns)"
    by (auto simp: sent_seconds_def)
  then show ?thesis by (rule finite_subset) simp
qed

lemma send_run_reports:
  assumes "send_run env stream frames s = (Inr ns, u)"
    and "resolve_video_send_stream stream (sn_active_streams s) = Inr st" "vs_ssrc st = Some ssrc"
  shows "reports_sent u = reports_sent s
    + card {second \<in> sent_seconds (get_or 0 ssrc (sn_media_times s)) frames ns.
              second > media_second (get_or (- 1) ssrc (sn_last_reports s))}"
  using assms(1,2)
proof (induction frames arbitrary: s ns)
  case (Cons p frames)
  obtain frame t where p: "p = (frame, t)" by (cases p)
  obtain n ns' w where ns: "ns = n # ns'" and sent: "send_video_frame env frame t stream s = (Inr n, w)"
    and rest: "send_run env stream frames w = (Inr ns', u)"
    using Cons.prems(1) by (auto simp: p bind_res_Inr)
  note ok = send_frame_ok [OF sent Cons.prems(2) assms(3)]
  let ?m = "get_or 0 ssrc (sn_media_times s)" and ?l = "media_second (get_or (- 1) ssrc (sn_last_reports s))"
  let ?later = "sent_seconds (?m + max (1 / 1000) t) frames ns'"
  let ?l' = "media_second (get_or (- 1) ssrc (sn_last_reports w))"
  have IH: "reports_sent u = reports_sent w + card {second \<in> ?later. second > ?l'}"
    using Cons.IH [OF rest] Cons.prems(2) ok(1,4) by simp
  have later: "media_second ?m \<le> second" if "second \<in> ?later" for second
  proof -
    have "?m / 1000 \<le> (?m + max (1 / 1000) t) / 1000"
      using frame_time_nonneg [of t] by (intro divide_right_mono) linarith+
    then have "media_second ?m \<le> media_second (?m + max (1 / 1000) t)" unfolding media_second_def by (rule floor_mono)
    then show ?thesis using sent_seconds_ge [OF that] by simp
  qed
  show ?case
  proof (cases "n \<noteq> 0 \<and> opens_second ssrc s")
    case True
    then have "?l' = media_second ?m" "?l < media_second ?m"
      using ok(3) by (simp_all add: opens_second_def get_or_def)
    moreover have "{second \<in> sent_seconds ?m (p # frames) ns. second > ?l}
        = insert (media_second ?m) {second \<in> ?later. second > media_second ?m}"
      using later calculation(2) True by (force simp: p ns sent_seconds_Cons)
    ultimately show ?thesis using IH ok(2) True by simp
  next
    case False
    then have "?l' = ?l" "reports_sent w = reports_sent s" using ok(2,3) by auto
    moreover have "{second \<in> sent_seconds ?m (p # frames) ns. second > ?l} = {second \<in> ?later. second > ?l}"
      using False by (auto simp: p ns sent_seconds_Cons opens_second_def)
    ultimately show ?thesis using IH by simp
  qed
qed (simp add: sent_seconds_def)

text \<open>
  C11. Sender reports. After a video stream has been started, a run of frames that are all sent
  without an error makes the client send exactly one RTCP sender report for every second of media
  time in which a frame that produced packets begins: none is missing and none is sent twice,
  whatever the durations of the frames.
\<close>

theorem sender_reports_once_per_second:
  assumes "send_run env stream frames s = (Inr ns, u)"
    and "resolve_video_send_stream stream (sn_active_streams s) = Inr active" and "vs_ssrc active = Some ssrc"
    and "map_of (sn_media_times s) ssrc = Some 0" and "map_of (sn_last_reports s) ssrc = Some (- 1)"
  shows "reports_sent u - reports_sent s = card (sent_seconds 0 frames ns)"
proof -
  have "media_second (- 1) = - 1" by (simp add: media_second_def floor_eq_iff)
  moreover have "second > - 1" if "second \<in> sent_seconds 0 frames ns" for second
    using sent_seconds_ge [OF that] by (simp add: media_second_def)
  then have "{second \<in> sent_seconds 0 frames ns. second > - 1} = sent_seconds 0 frames ns" by blast
  ultimately show ?thesis using send_run_reports [OF assms(1-3)] assms(4,5) by (simp add: get_or_def)
qed

definition sample_pipeline :: "unit pipeline_ops" where
  "sample_pipeline =
     \<lparr>po_configure = (\<lambda>codec ssrc pt rtx_pt rtx rid p. (Inr (), p)), po_retain = (\<lambda>ssrcs p. p), po_clear = (\<lambda>p. p),
      po_has_stream = (\<lambda>ssrc p. True), po_send_frame = (\<lambda>ssrc frame metadata t p. (Inr (2, 100, 7, 0, None), p)),
      po_send_rtx = (\<lambda>ssrc n p. (Inr (False, 0, 0, 0), p)), po_send_rtx_for_nack = (\<lambda>payload p. (Inr (0, 0, 0, 0, 0), p))\<rparr>"

definition sample_send_env :: "unit send_env" where
  "sample_send_env =
     \<lparr>ve_pipeline = sample_pipeline, ve_class = voice_client_class sample_opus sample_stream,
      ve_system = \<lparr>fs_which = (\<lambda>_. None), fs_run = (\<lambda>_. None), fs_succeeds = (\<lambda>_. False)\<rparr>, ve_replay_max = 30, ve_connected = (\<lambda>_. True), ve_negotiated = (\<lambda>_. Some ''VP8''),
      ve_streams = (\<lambda>_. [sample_stream\<lparr>vs_ssrc := Some 5\<rparr>]), ve_has_ws = (\<lambda>_. True), ve_ws = (\<lambda>_. Inr ()),
      ve_perf = (\<lambda>_. 0), ve_time = (\<lambda>_. 0),
      ve_dave = (\<lambda>_. \<lparr>ds_session = False, ds_can_encrypt = False, ds_encrypt_opus = Inr, ds_encrypt = (\<lambda>_ _. Inr)\<rparr>),
      ve_listening = (\<lambda>_. False), ve_player = (\<lambda>_. None), ve_strip = id, ve_fails = (\<lambda>_. None),
      ve_order = sorted_list_of_set\<rparr>"

definition sample_sender :: "unit video_send" where
  "sample_sender =
     (new_video_send (voice_client_class sample_opus sample_stream) (nack_init 9 True False) sample_rtcp_state
       \<lparr>cc_names = ([], []), cc_usable = [], cc_capabilities = []\<rparr> ())
       \<lparr>sn_codec := Some ''VP8'', sn_active_streams := [sample_stream\<lparr>vs_ssrc := Some 5\<rparr>],
        sn_media_times := [(5, 0)], sn_last_reports := [(5, - 1)]\<rparr>"

lemma sample_report: "\<exists>u. send_sender_report sample_send_env 5 0 None None s = (Inr (), s\<lparr>sn_tick := Suc (sn_tick s), sn_nack := u\<rparr>)"
proof -
  have "\<exists>packet. send_rtcp_sender_report 0 5 0 p oc = Inr packet" for p oc
    by (simp add: send_rtcp_sender_report_def Let_def rtcp_header_def pack_u32s_def in_u_def py_trunc_def)
  then obtain packet where "send_rtcp_sender_report 0 5 0 (get_or 0 5 (sn_packet_counts s))
      (get_or 0 5 (sn_octet_counts s)) = Inr packet" by blast
  then show ?thesis
    by (intro exI [of _ "sn_nack s\<lparr>nk_sent := nk_sent (sn_nack s) @ [packet]\<rparr>"])
       (simp add: send_sender_report_def vask_def sample_send_env_def send_packet_def)
qed

lemma sample_frame_sent:
  assumes "sn_codec s = Some ''VP8''" "sn_active_streams s = [sample_stream\<lparr>vs_ssrc := Some 5\<rparr>]"
    "\<not> sn_replaying s" "sn_keyframes s = []"
  obtains u where "send_video_frame sample_send_env frame t None s = (Inr 2, u)" "sn_codec u = Some ''VP8''"
    "sn_active_streams u = [sample_stream\<lparr>vs_ssrc := Some 5\<rparr>]" "\<not> sn_replaying u" "sn_keyframes u = []"
proof -
  have upper: "upper ''VP8'' = ''VP8''" by code_simp
  have key: "\<not> is_config_keyframe ''VP8'' frame"
    by (simp add: is_config_keyframe_def upper parameter_set_types_def)
  have env: "ve_pipeline sample_send_env = sample_pipeline" "ve_connected sample_send_env = (\<lambda>_. True)"
    "ve_dave sample_send_env = (\<lambda>_. \<lparr>ds_session = False, ds_can_encrypt = False, ds_encrypt_opus = Inr, ds_encrypt = (\<lambda>_ _. Inr)\<rparr>)"
    by (simp_all add: sample_send_env_def)
  have report: "\<exists>u. maybe_send_video_rtcp_sender_report sample_send_env 5 0 w = (Inr (), u) \<and> sn_codec u = sn_codec w
    \<and> sn_active_streams u = sn_active_streams w \<and> sn_replaying u = sn_replaying w \<and> sn_keyframes u = sn_keyframes w" for w
    using sample_report [of w] by (auto simp: maybe_send_video_rtcp_sender_report_def Let_def)
  have raw: "\<exists>u. send_video_frame_raw sample_send_env ''VP8'' 5 original f d w = (Inr 2, u) \<and> sn_codec u = sn_codec w
    \<and> sn_active_streams u = sn_active_streams w \<and> sn_replaying u = sn_replaying w \<and> sn_keyframes u = sn_keyframes w" for original f d w
  proof -
    let ?w = "record_video_packet_send 5 2 100 (w\<lparr>sn_pipeline := (), sn_transport_sequence := 7\<rparr>)"
    obtain u where u: "maybe_send_video_rtcp_sender_report sample_send_env 5 0 ?w = (Inr (), u)" "sn_codec u = sn_codec ?w"
      "sn_active_streams u = sn_active_streams ?w" "sn_replaying u = sn_replaying ?w" "sn_keyframes u = sn_keyframes ?w"
      using report [of ?w] by blast
    then show ?thesis
      by (intro exI [of _ u]) (simp add: send_video_frame_raw_def env sample_pipeline_def record_video_packet_send_def)
  qed
  show thesis
    using raw [of frame frame "max (1 / 1000) t" "s\<lparr>sn_tick := Suc (Suc (sn_tick s))\<rparr>"] assms
    by (auto simp: send_video_frame_def vask_def env resolve_video_send_stream_def require_video_stream_ssrc_def
        prepare_video_frame_def upper cache_video_frame_def key apply_dave_def intro!: that)
qed

theorem sender_reports_once_per_second_witness:
  "\<exists>u. send_run sample_send_env None [([1], 400), ([2], 700), ([3], 33)] sample_sender = (Inr [2, 2, 2], u)
     \<and> reports_sent u - reports_sent sample_sender = card (sent_seconds 0 [([1], 400), ([2], 700), ([3], 33)] [2, 2, 2])
     \<and> sent_seconds 0 [([1], 400), ([2], 700), ([3], 33)] [2, 2, 2] = {0, 1}"
proof -
  have s: "sn_codec sample_sender = Some ''VP8''" "sn_active_streams sample_sender = [sample_stream\<lparr>vs_ssrc := Some 5\<rparr>]"
    "\<not> sn_replaying sample_sender" "sn_keyframes sample_sender = []" "sn_media_times sample_sender = [(5, 0)]"
    "sn_last_reports sample_sender = [(5, - 1)]" by (simp_all add: sample_sender_def new_video_send_def)
  obtain a where a: "send_video_frame sample_send_env [1] 400 None sample_sender = (Inr 2, a)" "sn_codec a = Some ''VP8''"
    "sn_active_streams a = [sample_stream\<lparr>vs_ssrc := Some 5\<rparr>]" "\<not> sn_replaying a" "sn_keyframes a = []"
    using s(1-4) by (rule sample_frame_sent)
  obtain b where b: "send_video_frame sample_send_env [2] 700 None a = (Inr 2, b)" "sn_codec b = Some ''VP8''"
    "sn_active_streams b = [sample_stream\<lparr>vs_ssrc := Some 5\<rparr>]" "\<not> sn_replaying b" "sn_keyframes b = []"
    using a(2-5) by (rule sample_frame_sent)
  obtain c where c: "send_video_frame sample_send_env [3] 33 None b = (Inr 2, c)"
    using b(2-5) by (rule sample_frame_sent)
  have run: "send_run sample_send_env None [([1], 400), ([2], 700), ([3], 33)] sample_sender = (Inr [2, 2, 2], c)"
    by (simp add: a(1) b(1) c)
  have "sent_seconds 0 [([1], 400), ([2], 700), ([3], 33)] [2, 2, 2] = {0, 1}"
  proof -
    have "\<lfloor>11 / 10 :: pyfloat\<rfloor> = 1" "\<lfloor>2 / 5 :: pyfloat\<rfloor> = 0" by (simp_all add: floor_eq_iff)
    then show ?thesis by (simp add: sent_seconds_Cons) (auto simp: sent_seconds_def media_second_def)
  qed
  moreover have "reports_sent c - reports_sent sample_sender
      = card (sent_seconds 0 [([1], 400), ([2], 700), ([3], 33)] [2, 2, 2])"
    by (rule sender_reports_once_per_second
        [OF run, where active = "sample_stream\<lparr>vs_ssrc := Some 5\<rparr>" and ssrc = 5])
       (simp_all add: s resolve_video_send_stream_def)
  ultimately show ?thesis using run by blast
qed

lemma streams_by_rid_member:
  "map_of (streams_by_rid streams) rid = Some stream \<Longrightarrow> stream \<in> set streams \<and> vs_rid stream = rid"
proof -
  have "map_of (fold (\<lambda>stream d. AList.update (vs_rid stream) stream d) streams d) rid = Some stream
      \<Longrightarrow> stream \<in> set streams \<and> vs_rid stream = rid \<or> map_of d rid = Some stream" for d
    by (induction streams arbitrary: d) (fastforce simp: map_of_update_eq split: if_splits)+
  from this [of "[]"] show "map_of (streams_by_rid streams) rid = Some stream
      \<Longrightarrow> stream \<in> set streams \<and> vs_rid stream = rid" by (simp add: streams_by_rid_def)
qed

lemma resolve_member:
  assumes "stream \<in> set active"
  obtains a where "resolve_video_send_stream (Some stream) active = Inr a" "a \<in> set active"
proof (cases "find (\<lambda>a. vs_ssrc a = vs_ssrc stream \<or> vs_rid a = vs_rid stream) active")
  case None
  then show thesis using assms by (auto simp: find_None_iff)
next
  case (Some a)
  then have "a \<in> set active" by (auto simp: find_Some_iff)
  then show thesis by (intro that) (simp_all add: resolve_video_send_stream_def Some)
qed

text \<open>
  C10. The invariant of the video sender. However calls and feedback are interleaved, after each of
  them every cached group of pictures starts with a keyframe that carries its parameter sets, is at
  most as long as the class allows and belongs to the stream it is filed under; no replay is left
  half done; and every stream in the table by RID can be sent on: resolving it does not raise.
\<close>

theorem sender_caches_pictures:
  assumes "video_reachable env s"
  shows "\<not> sn_replaying s \<and> cache_ok (ve_replay_max env) (sn_keyframes s)
    \<and> (\<forall>rid stream. map_of (sn_active_by_rid s) rid = Some stream \<longrightarrow>
         vs_rid stream = rid \<and> (\<exists>active ssrc.
           resolve_video_send_stream (Some stream) (sn_active_streams s) = Inr active
           \<and> require_video_stream_ssrc active = Inr ssrc))"
proof -
  have inv: "send_inv env s" using assms by (rule reachable_send_inv)
  then have active: "streams_ok (active_part s)" by (simp add: send_inv_def)
  have "vs_rid stream = rid \<and> (\<exists>active ssrc. resolve_video_send_stream (Some stream) (sn_active_streams s) = Inr active
      \<and> require_video_stream_ssrc active = Inr ssrc)" if "map_of (sn_active_by_rid s) rid = Some stream" for rid stream
  proof -
    have "stream \<in> set (sn_active_streams s)" "vs_rid stream = rid"
      using that active streams_by_rid_member [of "sn_active_streams s" rid stream]
      by (auto simp: streams_ok_def active_part_def)
    moreover from this(1) obtain a
      where "resolve_video_send_stream (Some stream) (sn_active_streams s) = Inr a" "a \<in> set (sn_active_streams s)"
      by (rule resolve_member)
    ultimately show ?thesis
      using active by (force simp: streams_ok_def active_part_def require_video_stream_ssrc_def)
  qed
  with inv show ?thesis by (auto simp: send_inv_def)
qed

theorem sender_caches_pictures_witness:
  "let s0 = new_video_send (ve_class sample_send_env) (nack_init 9 True False) sample_rtcp_state
              \<lparr>cc_names = ([], []), cc_usable = [], cc_capabilities = []\<rparr> ();
       s1 = snd (start_video sample_send_env 640 360 30 0 s0);
       s2 = snd (send_video_frame sample_send_env [0, 0, 1, 0x67, 0, 0, 1, 0x68, 0, 0, 1, 0x65] 33 None s1)
   in \<not> sn_replaying s2 \<and> cache_ok 30 (sn_keyframes s2)"
proof -
  have "ve_replay_max sample_send_env = 30" by (simp add: sample_send_env_def)
  then show ?thesis
    unfolding Let_def
    using sender_caches_pictures [OF reach_step [OF reach_step [OF reach_new step_start] step_frame]] by metis
qed


section \<open>Replaying cached pictures\<close>

definition request_part :: "'p video_send \<Rightarrow> int set \<times> bool" where
  "request_part s = (sn_resend s, sn_simulcast s)"

lemmas keeps_request = bind_res_keeps [where f = request_part, THEN trans]

lemma request_updates [simp]:
  "request_part (s\<lparr>sn_tick := a1\<rparr>) = request_part s" "request_part (s\<lparr>sn_nack := a2\<rparr>) = request_part s"
  "request_part (s\<lparr>sn_pipeline := a3\<rparr>) = request_part s" "request_part (s\<lparr>sn_transport_sequence := a4\<rparr>) = request_part s"
  "request_part (s\<lparr>sn_media_times := a5\<rparr>) = request_part s" "request_part (s\<lparr>sn_last_reports := a6\<rparr>) = request_part s"
  "request_part (s\<lparr>sn_replaying := a7\<rparr>) = request_part s"
  "request_part (record_video_packet_send ssrc p oc s) = request_part s"
  "request_part (record_rtp_send_stats env ssrc n tr s) = request_part s"
  "request_part (cache_video_frame m ssrc st f t s) = request_part s"
  by (simp_all add: request_part_def record_video_packet_send_def record_rtp_send_stats_def cache_video_frame_def
      Let_def case_prod_beta split: option.splits)

lemma send_report_request [simp]: "request_part (snd (send_sender_report env ssrc ts pc oc s)) = request_part s"
  unfolding send_sender_report_def Let_def case_prod_beta by (rule keeps_request) simp_all

lemma maybe_report_request [simp]:
  "request_part (snd (maybe_send_video_rtcp_sender_report env ssrc ts s)) = request_part s"
  unfolding maybe_send_video_rtcp_sender_report_def Let_def by (auto intro!: keeps_request)

lemma send_raw_request [simp]: "request_part (snd (send_video_frame_raw env codec ssrc original f d s)) = request_part s"
  unfolding send_video_frame_raw_def Let_def case_prod_beta
  by (auto intro!: keeps_request split: option.splits)

lemma send_frame_request [simp]: "request_part (snd (send_video_frame env frame t stream s)) = request_part s"
proof -
  have prepared: "request_part (snd (prepare_video_frame env codec ssrc st f d u)) = request_part u"
    for codec ssrc st f d and u :: "'a video_send"
    by (simp add: prepare_video_frame_def Let_def case_prod_beta)
  show ?thesis
    unfolding send_video_frame_def Let_def case_prod_beta
    by (auto intro!: keeps_request simp: prepared split: option.splits)
qed

lemma replay_frames_request [simp]: "request_part (snd (replay_frames env frames s)) = request_part s"
  by (induction env frames s rule: replay_frames.induct) (auto intro!: keeps_request)

lemma replay_requests_request [simp]: "request_part (snd (replay_requests env requests sent s)) = request_part s"
proof (induction env requests sent s rule: replay_requests.induct)
  case (2 env ssrc requests sent s)
  then show ?case
    using replay_frames_request [of env _ "s\<lparr>sn_replaying := True\<rparr>"]
    by (auto simp: Let_def case_prod_beta split: option.splits list.splits)
qed simp

text \<open>
  C12. Answering picture loss. Replaying the cached pictures, whichever sends raise, empties the set
  of requests and leaves the cache as it was: a replayed frame is not cached again (which would
  overwrite the group that is being replayed), so the same pictures can be replayed at the next
  request. The active streams do not change, and the client is not left in replay mode, which would
  stop the caching of new frames.
\<close>

theorem replay_keeps_cache:
  assumes "video_reachable env s" and "send_requested_video_keyframes env s = (sent, u)"
  shows "sn_resend u = {} \<and> sn_keyframes u = sn_keyframes s \<and> \<not> sn_replaying u
    \<and> sn_active_streams u = sn_active_streams s"
proof -
  have "\<not> sn_replaying s" using reachable_send_inv [OF assms(1)] by (simp add: send_inv_def)
  then have "cache_part u = cache_part s" "active_part u = active_part s"
    using keyframes_parts [of s env] assms(2) by simp_all
  moreover have "sn_resend u = {}"
    using replay_requests_request [of env "ve_order env (sn_resend s)" False "s\<lparr>sn_resend := {}\<rparr>"] assms(2)
    by (simp add: send_requested_video_keyframes_def request_part_def)
  ultimately show ?thesis using \<open>\<not> sn_replaying s\<close> by (simp add: parts_defs)
qed

theorem replay_keeps_cache_witness:
  "let s0 = new_video_send (ve_class sample_send_env) (nack_init 9 True False) sample_rtcp_state
              \<lparr>cc_names = ([], []), cc_usable = [], cc_capabilities = []\<rparr> ();
       s1 = request_keyframe sample_send_env [0, 0, 0, 5] s0
   in sn_resend s1 = {5} \<and> sn_resend (snd (send_requested_video_keyframes sample_send_env s1)) = {}"
proof -
  let ?s0 = "new_video_send (ve_class sample_send_env) (nack_init 9 True False) sample_rtcp_state
      \<lparr>cc_names = ([], []), cc_usable = [], cc_capabilities = []\<rparr> ()"
  have "sn_resend (snd (send_requested_video_keyframes sample_send_env (request_keyframe sample_send_env [0, 0, 0, 5] ?s0))) = {}"
    by (rule replay_keeps_cache [OF reach_step [OF reach_new step_pli] prod.collapse [symmetric], THEN conjunct1])
  then show ?thesis
    by (simp add: Let_def request_keyframe_def handle_rtcp_pli_def u32_at_def from_be_def sample_send_env_def
        sample_pipeline_def new_video_send_def)
qed

end
