(* ===== verification/Receive.thy ===== *)
theory Receive
  imports VideoSend Dave
begin

text \<open>
  The receiving half of the client (\<open>client.py\<close>): from a batch of datagrams to the media packets
  handed to the callback. It composes the codec tables, the RTCP bookkeeping, the NACK scheduler,
  the reorder buffers and the queue of frames that wait for DAVE keys with the depacketizers of the
  native module, which are a parameter: a state and a function that pushes a packet into it.
\<close>

section \<open>Reading a packet\<close>

text \<open>What \<open>decrypt_rtp_packets\<close> of the native module yields for one datagram, after its index.\<close>

type_synonym native_rtp =
  "int \<times> bool \<times> bool \<times> int \<times> int \<times> int \<times> bool \<times> bytes \<times> (int \<times> bytes) list \<times> bytes"

definition decoded_rtp_packet_from_payload :: "native_rtp \<Rightarrow> DecodedRTPPacket" where
  "decoded_rtp_packet_from_payload packet =
     (case packet of
        (payload_type, marker, padded, sequence, timestamp, ssrc, extended, extension_payload, rtp_extensions, payload) \<Rightarrow>
          \<lparr>d_payload_type = payload_type, d_marker = marker, d_padded = padded, d_sequence = sequence,
           d_timestamp = timestamp, d_ssrc = ssrc, d_extended = extended, d_extension_payload = extension_payload,
           d_rtp_extensions = map (\<lambda>(i, data). \<lparr>ext_id = i, ext_data = data\<rparr>) rtp_extensions, d_payload = payload\<rparr>)"

text \<open>\<open>SpeakingFlags\<close> by value: \<open>voice\<close> is 1, \<open>soundshare\<close> is 2 and \<open>priority\<close> is 4.\<close>

fun audio_speaking_flags_from_extensions :: "RTPExtension list \<Rightarrow> int" where
  "audio_speaking_flags_from_extensions [] = 1"
| "audio_speaking_flags_from_extensions (e # es) =
     (if ext_id e = RTP_EXT_DISCORD_SPEAKING \<and> length (ext_data e) = 1
      then let value = uint (hd (ext_data e)); speaking = drop_bit 1 value AND (1 OR 2)
           in if value = 0 then 1 else if value AND 1 \<noteq> 0 then speaking OR (1 OR 4) else speaking
      else audio_speaking_flags_from_extensions es)"

fun audio_level_from_extensions :: "RTPExtension list \<Rightarrow> int option \<times> bool option" where
  "audio_level_from_extensions [] = (None, None)"
| "audio_level_from_extensions (e # es) =
     (if ext_id e = RTP_EXT_AUDIO_LEVEL \<and> length (ext_data e) = 1
      then let value = uint (hd (ext_data e)) in (Some (value AND 0x7F), Some (value AND 0x80 \<noteq> 0))
      else audio_level_from_extensions es)"

text \<open>\<open>silence\<close> is \<open>opus.OPUS_SILENCE\<close> of the library; padding of \<open>n\<close> bytes repeats the byte \<open>n\<close>.\<close>

definition is_unencrypted_opus_silence_payload :: "bytes \<Rightarrow> bytes \<Rightarrow> bool" where
  "is_unencrypted_opus_silence_payload silence payload =
     (if payload = silence then True
      else if take (length silence) payload \<noteq> silence then False
      else let padding = drop (length silence) payload
           in padding \<noteq> [] \<and> length padding \<le> 255 \<and> list_all (\<lambda>b. unat b = length padding) padding)"

definition rtp_packet_from_decoded ::
  "string \<Rightarrow> string \<Rightarrow> int \<Rightarrow> int option \<Rightarrow> bytes \<Rightarrow> bool \<Rightarrow> int option \<Rightarrow> int option \<Rightarrow> DecodedRTPPacket \<Rightarrow> RTPPacket"
where
  "rtp_packet_from_decoded media_type codec ssrc user_id raw rtx rtx_ssrc rtx_payload_type decoded =
     (let (level, activity) = (if media_type = ''audio'' then audio_level_from_extensions (d_rtp_extensions decoded)
                               else (None, None))
      in \<lparr>rp_media_type = media_type, rp_codec = codec, rp_payload = d_payload decoded,
          rp_payload_type = d_payload_type decoded, rp_marker = d_marker decoded, rp_sequence = d_sequence decoded,
          rp_timestamp = d_timestamp decoded, rp_ssrc = ssrc, rp_user_id = user_id, rp_raw = raw,
          rp_extension_payload = d_extension_payload decoded, rp_rtp_extended = d_extended decoded,
          rp_rtp_extensions = d_rtp_extensions decoded, rp_rtx = rtx, rp_rtx_ssrc = rtx_ssrc,
          rp_rtx_payload_type = rtx_payload_type, rp_audio_level = level, rp_audio_voice_activity = activity\<rparr>)"


section \<open>State and environment\<close>

record ('p, 'd) client =
  cl_send :: "'p video_send" \<comment> \<open>with the NACK tables, the RTCP state and the statistics\<close>
  cl_report_states :: "(int, RTCPReceiveReportState) odict"
  cl_depacketizers :: "(int \<times> int, 'd) odict"
  cl_reorder_buffers :: "(int \<times> int, reorder_buffer) odict"
  cl_startup_plis :: "int set"
  cl_frame_packets :: "(int \<times> int, RTPPacket list) odict"
  cl_pending :: "PendingDaveVideoFrame list"

record ('p, 'd) receive_env =
  re_send :: "'p send_env"
  re_decrypt_rtp :: "bytes list \<Rightarrow> (nat \<times> native_rtp) list res"
  re_decrypt_rtcp :: "bytes \<Rightarrow> (int \<times> int \<times> int \<times> bytes) list res"
  re_depacketizer :: "string \<Rightarrow> 'd" \<comment> \<open>a new one for a codec of \<open>_VIDEO_DEPACKETIZER_FACTORIES\<close>\<close>
  re_push :: "'d \<Rightarrow> bytes \<Rightarrow> bool \<Rightarrow> int \<Rightarrow> int \<Rightarrow> bytes option res \<times> 'd"
  re_silence :: bytes
  re_report_interval :: pyfloat
  re_max_packets :: int
  re_max_delay :: pyfloat
  re_own_ssrc :: "nat \<Rightarrow> int"
  re_video_ssrcs :: "nat \<Rightarrow> int set"
  re_rtx_media_ssrcs :: "nat \<Rightarrow> int \<Rightarrow> int option"
  re_users :: "nat \<Rightarrow> int \<Rightarrow> int option"
  re_dave :: "nat \<Rightarrow> dave_env"

definition cask :: "(nat \<Rightarrow> 'a) \<Rightarrow> ('p, 'd) client \<Rightarrow> 'a \<times> ('p, 'd) client" where
  "cask question c = (let (a, s) = vask question (cl_send c) in (a, c\<lparr>cl_send := s\<rparr>))"

definition perf :: "('p, 'd) receive_env \<Rightarrow> nat \<Rightarrow> pyfloat" where
  "perf env = ve_perf (re_send env)"

definition with_nack :: "(nack_state \<Rightarrow> 'a \<times> nack_state) \<Rightarrow> ('p, 'd) client \<Rightarrow> 'a \<times> ('p, 'd) client" where
  "with_nack f c =
     (let (a, nack) = f (sn_nack (cl_send c)) in (a, c\<lparr>cl_send := (cl_send c)\<lparr>sn_nack := nack\<rparr>\<rparr>))"

definition cstat :: "string \<Rightarrow> ('p, 'd) client \<Rightarrow> ('p, 'd) client" where
  "cstat key c = c\<lparr>cl_send := count_stat key 1 (cl_send c)\<rparr>"

definition VIDEO_DEPACKETIZER_FACTORIES :: "string list" where
  "VIDEO_DEPACKETIZER_FACTORIES = [''AV1'', ''H264'', ''H265'', ''VP8'', ''VP9'']"

definition make_video_depacketizer :: "('p, 'd) receive_env \<Rightarrow> string \<Rightarrow> 'd res" where
  "make_video_depacketizer env codec =
     (if upper codec \<in> set VIDEO_DEPACKETIZER_FACTORIES then Inr (re_depacketizer env (upper codec))
      else Inl ClientException)"

definition media_ssrc_for_rtx_ssrc :: "(int \<Rightarrow> int option) \<Rightarrow> int \<Rightarrow> int option" where
  "media_ssrc_for_rtx_ssrc announced ssrc =
     (case announced ssrc of Some m \<Rightarrow> Some m | None \<Rightarrow> if ssrc > 0 then Some (ssrc - 1) else None)"


section \<open>Frames\<close>

definition make_video_media_packet ::
  "pyfloat \<Rightarrow> rtcp_state \<Rightarrow> DecodedRTPPacket \<Rightarrow> string \<Rightarrow> int \<Rightarrow> int option \<Rightarrow> bytes \<Rightarrow> bytes \<Rightarrow> RTPPacket list
     \<Rightarrow> pyfloat \<Rightarrow> MediaPacket"
where
  "make_video_media_packet now rtcp decoded codec ssrc user_id raw payload rtp_packets received_at =
     (new_media_packet ''video'' codec payload (d_payload_type decoded) True (d_sequence decoded)
        (d_timestamp decoded) ssrc user_id raw)
       \<lparr>mp_extension_payload := d_extension_payload decoded, mp_rtp_extended := d_extended decoded,
        mp_rtp_extensions := d_rtp_extensions decoded, mp_rtp_packets := rtp_packets,
        mp_received_at := Some received_at,
        mp_rtcp_time := rtcp_time_for_packet now rtcp ssrc (d_timestamp decoded) (d_rtp_extensions decoded)\<rparr>"

definition stash_frame ::
  "('p, 'd) receive_env \<Rightarrow> ReceivedVideoPacket \<Rightarrow> bytes \<Rightarrow> RTPPacket list \<Rightarrow> ('p, 'd) client \<Rightarrow> ('p, 'd) client"
where
  "stash_frame env p payload rtp_packets c =
     (let (now, c) = cask (perf env) c
      in c\<lparr>cl_pending := stash_dave_video_frame now (rv_decoded p) (rv_codec p) (rv_ssrc p) (rv_user_id p) (rv_raw p)
             payload rtp_packets (rv_received_at p) (cl_pending c)\<rparr>)"

text \<open>\<open>_decode_video_frame\<close> from the point where the depacketizer has completed a frame.\<close>

definition finish_video_frame ::
  "('p, 'd) receive_env \<Rightarrow> ReceivedVideoPacket \<Rightarrow> bytes \<Rightarrow> RTPPacket list \<Rightarrow> ('p, 'd) client
     \<Rightarrow> MediaPacket option \<times> ('p, 'd) client"
where
  "finish_video_frame env p frame rtp_packets c =
     (let (dave, c) = cask (re_dave env) c; looks_like_dave = looks_like_dave_protocol_frame frame
      in if looks_like_dave \<and> \<not> can_attempt_video_dave_decrypt dave (rv_user_id p)
         then (None, stash_frame env p frame rtp_packets c)
         else case decrypt_video_frame dave (rv_user_id p) frame of
             Inl e \<Rightarrow>
               if looks_like_dave \<and> is_retryable_dave_decrypt_error e
               then (None, stash_frame env p frame rtp_packets c)
               else (None, cstat ''video_frame_decrypt_failures'' c)
           | Inr payload \<Rightarrow>
               let (now, c) = cask (ve_time (re_send env)) c
               in (Some (make_video_media_packet now (sn_rtcp (cl_send c)) (rv_decoded p) (rv_codec p) (rv_ssrc p)
                     (rv_user_id p) (rv_raw p) payload rtp_packets (rv_received_at p)), c))"

definition decode_video_frame ::
  "('p, 'd) receive_env \<Rightarrow> ReceivedVideoPacket \<Rightarrow> ('p, 'd) client \<Rightarrow> MediaPacket option res \<times> ('p, 'd) client"
where
  "decode_video_frame env p c =
     (let decoded = rv_decoded p; key = (rv_ssrc p, d_payload_type decoded)
      in bind_res (case map_of (cl_depacketizers c) key of
             Some d \<Rightarrow> (Inr d, c)
           | None \<Rightarrow> (case make_video_depacketizer env (rv_codec p) of
                 Inl e \<Rightarrow> (Inl e, c)
               | Inr d \<Rightarrow> (Inr d, c\<lparr>cl_depacketizers := AList.update key d (cl_depacketizers c)\<rparr>)))
         (\<lambda>d c.
           let packets = get_or [] key (cl_frame_packets c) @ [rv_rtp_packet p];
               c = c\<lparr>cl_frame_packets := AList.update key packets (cl_frame_packets c)\<rparr>;
               (r, d) = re_push env d (d_payload decoded) (d_marker decoded) (d_sequence decoded) (d_timestamp decoded);
               c = c\<lparr>cl_depacketizers := AList.update key d (cl_depacketizers c)\<rparr>
           in bind_res (r, c) (\<lambda>frame c.
             case frame of
               None \<Rightarrow>
                 (Inr None,
                  if d_marker decoded
                  then (cstat ''video_frames_dropped_at_marker'' c)
                         \<lparr>cl_frame_packets := AList.update key [] (cl_frame_packets c)\<rparr>
                  else cstat ''video_frame_packets_buffered'' c)
             | Some frame \<Rightarrow>
                 let (out, c) = finish_video_frame env p frame packets
                       (c\<lparr>cl_frame_packets := AList.update key [] (cl_frame_packets c)\<rparr>)
                 in (Inr out, c))))"

fun decode_ready ::
  "('p, 'd) receive_env \<Rightarrow> ReceivedVideoPacket list \<Rightarrow> ('p, 'd) client \<Rightarrow> MediaPacket list res \<times> ('p, 'd) client"
where
  "decode_ready env [] c = (Inr [], c)"
| "decode_ready env (p # ps) c =
     bind_res (decode_video_frame env p (cstat ''video_packets_reorder_ready'' c)) (\<lambda>out c.
       let c = (if out \<noteq> None then cstat ''video_frames_completed'' c else c)
       in bind_res (decode_ready env ps c) (\<lambda>outs c.
            (Inr (case out of None \<Rightarrow> outs | Some m \<Rightarrow> m # outs), c)))"

definition decode_video_packets ::
  "('p, 'd) receive_env \<Rightarrow> ReceivedVideoPacket \<Rightarrow> ('p, 'd) client \<Rightarrow> MediaPacket list res \<times> ('p, 'd) client"
where
  "decode_video_packets env received c =
     (if rtx_enabled (cl_send c)
      then
        let key = (rv_ssrc received, d_payload_type (rv_decoded received));
            buffer = (case map_of (cl_reorder_buffers c) key of
                Some b \<Rightarrow> b
              | None \<Rightarrow> new_reorder_buffer (max 1 (re_max_packets env)) (re_max_delay env)
                          (cls_debug (ve_class (re_send env))));
            (now, c) = cask (perf env) c;
            (ready, buffer) = reorder_push now received buffer
        in decode_ready env ready (c\<lparr>cl_reorder_buffers := AList.update key buffer (cl_reorder_buffers c)\<rparr>)
      else decode_ready env [received] c)"


section \<open>One packet\<close>

definition maybe_send_startup_video_pli ::
  "('p, 'd) receive_env \<Rightarrow> string \<Rightarrow> int \<Rightarrow> ('p, 'd) client \<Rightarrow> ('p, 'd) client"
where
  "maybe_send_startup_video_pli env codec ssrc c =
     (if parameter_set_types (upper codec) = None \<or> ssrc \<in> cl_startup_plis c then c
      else snd (with_nack (send_pli (ve_fails (re_send env)) ssrc)
                  (c\<lparr>cl_startup_plis := insert ssrc (cl_startup_plis c)\<rparr>)))"

definition send_receiver_report ::
  "('p, 'd) receive_env \<Rightarrow> int \<Rightarrow> DecodedRTPPacket \<Rightarrow> pyfloat \<Rightarrow> ('p, 'd) client \<Rightarrow> unit res \<times> ('p, 'd) client"
where
  "send_receiver_report env ssrc decoded received_at c =
     (let (now, c) = cask (perf env) c; (own_ssrc, c) = cask (re_own_ssrc env) c;
          (report, states) = maybe_send_video_rtcp_receiver_report now (re_report_interval env) (sn_rtcp (cl_send c))
             own_ssrc ssrc (d_sequence decoded) (d_timestamp decoded) received_at (cl_report_states c);
          c = c\<lparr>cl_report_states := states\<rparr>
      in case report of
           Inr None \<Rightarrow> (Inr (), c)
         | Inr (Some packet) \<Rightarrow>
             with_nack (send_packet (ve_fails (re_send env)) packet) (cstat ''rtcp_receiver_reports_sent'' c)
         | Inl e \<Rightarrow> (Inl e, cstat ''rtcp_receiver_reports_sent'' c))"

text \<open>
  The first part of \<open>_decode_decoded_media_packet\<close>: which media packet a decrypted RTP packet
  carries. A retransmission is unwrapped: its payload starts with the original sequence number, its
  payload type names the media payload type, its SSRC the media SSRC.
\<close>

record media_origin =
  mo_decoded :: DecodedRTPPacket
  mo_media_type :: string
  mo_codec :: string
  mo_ssrc :: int
  mo_rtx :: "(int \<times> int) option" \<comment> \<open>\<open>rtx_ssrc\<close> and \<open>rtx_payload_type\<close>\<close>

definition media_origin_of ::
  "bool \<Rightarrow> codec_lookups \<Rightarrow> (int \<Rightarrow> int option) \<Rightarrow> DecodedRTPPacket \<Rightarrow> media_origin option"
where
  "media_origin_of rtx lookups announced decoded =
     (let payload_type = d_payload_type decoded; ssrc = d_ssrc decoded in
      case (if rtx then map_of (cl_rtx_payload_types lookups) payload_type else None) of
        Some (media_type, codec, associated) \<Rightarrow>
          let payload = d_payload decoded in
          if length payload < 2 then None
          else
            let media_ssrc = (case media_ssrc_for_rtx_ssrc announced ssrc of Some m \<Rightarrow> m | None \<Rightarrow> ssrc)
            in Some \<lparr>mo_decoded = decoded\<lparr>d_payload_type := associated, d_sequence := from_be (take 2 payload),
                                           d_payload := drop 2 payload, d_ssrc := media_ssrc\<rparr>,
                     mo_media_type = media_type, mo_codec = codec, mo_ssrc = media_ssrc,
                     mo_rtx = Some (ssrc, payload_type)\<rparr>
      | None \<Rightarrow>
          map_option (\<lambda>(media_type, codec). \<lparr>mo_decoded = decoded, mo_media_type = media_type, mo_codec = codec,
                                             mo_ssrc = ssrc, mo_rtx = None\<rparr>)
            (map_of (cl_payload_types lookups) payload_type))"

definition count_origin ::
  "bool \<Rightarrow> codec_lookups \<Rightarrow> DecodedRTPPacket \<Rightarrow> ('p, 'd) client \<Rightarrow> ('p, 'd) client"
where
  "count_origin rtx lookups decoded c =
     (if rtx \<and> map_of (cl_rtx_payload_types lookups) (d_payload_type decoded) \<noteq> None
      then let c = cstat ''rtx_packets_received'' c
           in if length (d_payload decoded) < 2 then cstat ''rtx_packets_too_short'' c else c
      else case map_of (cl_payload_types lookups) (d_payload_type decoded) of
          Some (media_type, codec) \<Rightarrow> if media_type = ''video'' then cstat ''primary_packets_received'' c else c
        | None \<Rightarrow> c)"

definition decode_video_origin ::
  "('p, 'd) receive_env \<Rightarrow> media_origin \<Rightarrow> int option \<Rightarrow> RTPPacket \<Rightarrow> bytes \<Rightarrow> pyfloat \<Rightarrow> ('p, 'd) client
     \<Rightarrow> MediaPacket list res \<times> ('p, 'd) client"
where
  "decode_video_origin env origin user_id rtp_packet raw received_at c =
     (let decoded = mo_decoded origin; ssrc = mo_ssrc origin;
          c = maybe_send_startup_video_pli env (mo_codec origin) ssrc (cstat ''video_packets_received'' c)
      in bind_res (if mo_rtx origin = None then send_receiver_report env ssrc decoded received_at c else (Inr (), c)) (\<lambda>_ c.
         let (now, c) = cask (perf env) c in
         bind_res (with_nack (track_video_receive_sequence (ve_fails (re_send env)) ssrc (d_sequence decoded)
                                (mo_rtx origin \<noteq> None) now) c) (\<lambda>_ c.
           decode_video_packets env
             \<lparr>rv_decoded = decoded, rv_codec = mo_codec origin, rv_ssrc = ssrc, rv_user_id = user_id, rv_raw = raw,
              rv_rtp_packet = rtp_packet, rv_received_at = received_at\<rparr> c)))"

text \<open>
  The payload of an audio packet; \<open>Inr None\<close> drops it. Errors of the session are caught by the
  caller, which drops the packet too.
\<close>

definition audio_payload ::
  "dave_env \<Rightarrow> string \<Rightarrow> bool \<Rightarrow> int option \<Rightarrow> bytes \<Rightarrow> bytes option res"
where
  "audio_payload dave media_type silence user_id payload =
     (if silence \<or> \<not> de_session dave then Inr (Some payload)
      else
        let looks_like_dave = media_type = ''audio'' \<and> looks_like_dave_protocol_frame payload
        in case user_id of
             None \<Rightarrow> if looks_like_dave then Inr None else Inr (Some payload)
           | Some u \<Rightarrow>
               if can_decrypt_dave dave u then map_res Some (de_decrypt dave media_type u payload)
               else if looks_like_dave then Inr None else Inr (Some payload))"

definition decode_audio_origin ::
  "('p, 'd) receive_env \<Rightarrow> media_origin \<Rightarrow> int \<Rightarrow> int option \<Rightarrow> RTPPacket \<Rightarrow> bytes \<Rightarrow> pyfloat \<Rightarrow> ('p, 'd) client
     \<Rightarrow> MediaPacket list \<times> ('p, 'd) client"
where
  "decode_audio_origin env origin payload_type user_id rtp_packet raw received_at c =
     (let decoded = mo_decoded origin; media_type = mo_media_type origin; ssrc = mo_ssrc origin;
          audio_silence = media_type = ''audio'' \<and>
            is_unencrypted_opus_silence_payload (re_silence env) (d_payload decoded);
          (dave, c) = cask (re_dave env) c
      in case audio_payload dave media_type audio_silence user_id (d_payload decoded) of
           Inr (Some payload) \<Rightarrow>
             let (now, c) = cask (ve_time (re_send env)) c; audio = media_type = ''audio''
             in ([(new_media_packet media_type (mo_codec origin) payload payload_type (d_marker decoded)
                     (d_sequence decoded) (d_timestamp decoded) ssrc user_id raw)
                  \<lparr>mp_extension_payload := d_extension_payload decoded, mp_rtp_extended := d_extended decoded,
                   mp_rtp_extensions := d_rtp_extensions decoded, mp_rtp_packets := [rtp_packet],
                   mp_received_at := Some received_at,
                   mp_rtcp_time := rtcp_time_for_packet now (sn_rtcp (cl_send c)) ssrc (d_timestamp decoded)
                                     (d_rtp_extensions decoded),
                   mp_speaking_flags := (if \<not> audio then None else if audio_silence then Some 0
                      else Some (audio_speaking_flags_from_extensions (d_rtp_extensions decoded))),
                   mp_audio_level := (if audio then rp_audio_level rtp_packet else None),
                   mp_audio_voice_activity := (if audio then rp_audio_voice_activity rtp_packet else None)\<rparr>], c)
         | _ \<Rightarrow> ([], c))"

definition decode_decoded_media_packet ::
  "('p, 'd) receive_env \<Rightarrow> bytes \<Rightarrow> pyfloat \<Rightarrow> DecodedRTPPacket \<Rightarrow> ('p, 'd) client
     \<Rightarrow> MediaPacket list res \<times> ('p, 'd) client"
where
  "decode_decoded_media_packet env raw received_at decoded c =
     (let (r, s) = codec_tables (re_send env) (cl_send c)
      in bind_res (r, c\<lparr>cl_send := s\<rparr>) (\<lambda>lookups c.
         let rtx = rtx_enabled (cl_send c); c = count_origin rtx lookups decoded c;
             (announced, c) = cask (re_rtx_media_ssrcs env) c
         in case media_origin_of rtx lookups announced decoded of
              None \<Rightarrow> (Inr [], c)
            | Some origin \<Rightarrow>
                let (users, c) = cask (re_users env) c; user_id = users (mo_ssrc origin);
                    rtp_packet = rtp_packet_from_decoded (mo_media_type origin) (mo_codec origin) (mo_ssrc origin) user_id
                      raw (mo_rtx origin \<noteq> None) (map_option fst (mo_rtx origin)) (map_option snd (mo_rtx origin))
                      (mo_decoded origin)
                in if mo_media_type origin = ''video''
                   then decode_video_origin env origin user_id rtp_packet raw received_at c
                   else let (out, c) = decode_audio_origin env origin (d_payload_type decoded) user_id rtp_packet raw
                              received_at c
                        in (Inr out, c)))"


section \<open>A batch\<close>

definition decode_rtp_packets ::
  "('p, 'd) receive_env \<Rightarrow> bytes list \<Rightarrow> (bytes \<times> DecodedRTPPacket) list res"
where
  "decode_rtp_packets env packets =
     map_res (map (\<lambda>(i, packet). (packets ! i, decoded_rtp_packet_from_payload packet))) (re_decrypt_rtp env packets)"

fun decode_each ::
  "('p, 'd) receive_env \<Rightarrow> pyfloat \<Rightarrow> (bytes \<times> DecodedRTPPacket) list \<Rightarrow> ('p, 'd) client
     \<Rightarrow> MediaPacket list res \<times> ('p, 'd) client"
where
  "decode_each env received_at [] c = (Inr [], c)"
| "decode_each env received_at ((raw, decoded) # rest) c =
     bind_res (decode_decoded_media_packet env raw received_at decoded c) (\<lambda>packets c.
       bind_res (decode_each env received_at rest c) (\<lambda>later c. (Inr (packets @ later), c)))"

definition retry_pending_frames :: "('p, 'd) receive_env \<Rightarrow> ('p, 'd) client \<Rightarrow> MediaPacket list \<times> ('p, 'd) client" where
  "retry_pending_frames env c =
     (let (now, c) = cask (perf env) c; (wall, c) = cask (ve_time (re_send env)) c; (dave, c) = cask (re_dave env) c;
          rtcp = sn_rtcp (cl_send c);
          (ready, remaining) = retry_pending_dave_video_frames dave
            (\<lambda>f payload. make_video_media_packet wall rtcp (pd_decoded f) (pd_codec f) (pd_ssrc f) (pd_user_id f)
               (pd_raw f) payload (pd_rtp_packets f) (pd_received_at f)) now (cl_pending c)
      in (ready, c\<lparr>cl_pending := remaining\<rparr>))"

definition decode_media_packets ::
  "('p, 'd) receive_env \<Rightarrow> bytes list \<Rightarrow> pyfloat \<Rightarrow> ('p, 'd) client \<Rightarrow> MediaPacket list res \<times> ('p, 'd) client"
where
  "decode_media_packets env batch received_at c =
     (let (pending, c) = retry_pending_frames env c
      in bind_res (decode_rtp_packets env batch, c) (\<lambda>decoded c.
           bind_res (decode_each env received_at decoded c) (\<lambda>packets c. (Inr (pending @ packets), c))))"


section \<open>Control packets\<close>

fun handle_rtcp_each ::
  "('p, 'd) receive_env \<Rightarrow> (int \<times> int \<times> int \<times> bytes) list \<Rightarrow> ('p, 'd) client \<Rightarrow> ('p, 'd) client"
where
  "handle_rtcp_each env [] c = c"
| "handle_rtcp_each env ((packet_type, fmt, sender_ssrc, body) # rest) c =
     handle_rtcp_each env rest
       (if packet_type = RTCP_SENDER_REPORT
        then let (video, c) = cask (re_video_ssrcs env) c; (now, c) = cask (perf env) c
             in c\<lparr>cl_send := (cl_send c)\<lparr>sn_rtcp := handle_rtcp_sender_report video now sender_ssrc body (sn_rtcp (cl_send c))\<rparr>\<rparr>
        else if packet_type = RTCP_RECEIVER_REPORT
        then let (now, c) = cask (perf env) c
             in c\<lparr>cl_send := (cl_send c)\<lparr>sn_rtcp := handle_rtcp_receiver_report now sender_ssrc fmt body (sn_rtcp (cl_send c))\<rparr>\<rparr>
        else if packet_type = RTCP_RTP_FEEDBACK \<and> fmt = RTCP_GENERIC_NACK
        then c\<lparr>cl_send := handle_rtcp_nack (re_send env) body (cl_send c)\<rparr>
        else if packet_type = RTCP_PAYLOAD_FEEDBACK \<and> fmt = RTCP_PICTURE_LOSS_INDICATION
        then c\<lparr>cl_send := request_keyframe (re_send env) body (cl_send c)\<rparr>
        else c)"

definition handle_rtcp_packet :: "('p, 'd) receive_env \<Rightarrow> bytes \<Rightarrow> ('p, 'd) client \<Rightarrow> bool \<times> ('p, 'd) client" where
  "handle_rtcp_packet env data c =
     (case re_decrypt_rtcp env data of Inl _ \<Rightarrow> (True, c) | Inr packets \<Rightarrow> (True, handle_rtcp_each env packets c))"


section \<open>Retransmissions\<close>

text \<open>A retransmission of a media packet, as RFC 4588 wraps it; \<open>n\<close> is the number it is sent under.\<close>

definition retransmission :: "int \<Rightarrow> int \<Rightarrow> int \<Rightarrow> DecodedRTPPacket \<Rightarrow> DecodedRTPPacket" where
  "retransmission rtx_payload_type rtx_ssrc n d =
     d\<lparr>d_payload_type := rtx_payload_type, d_ssrc := rtx_ssrc, d_sequence := n,
       d_payload := be_bytes 2 (d_sequence d) @ d_payload d\<rparr>"

text \<open>
  C4. Retransmission is transparent. A media packet that arrives wrapped as an RTX packet, whatever
  number it is sent under, is unwrapped to the very packet that was lost: same payload type, sequence
  number, SSRC, codec and payload; only the origin says that it was repaired, and by which SSRC. The
  media SSRC is the announced one, or the RTX SSRC less one when the server announced none.
\<close>

theorem retransmission_restores_packet:
  assumes "map_of (cl_rtx_payload_types lookups) rtx_pt = Some (media_type, codec, d_payload_type d)"
    and "map_of (cl_payload_types lookups) (d_payload_type d) = Some (media_type, codec)"
    and "map_of (cl_rtx_payload_types lookups) (d_payload_type d) = None"
    and "announced rtx_ssrc = Some (d_ssrc d) \<or> announced rtx_ssrc = None \<and> rtx_ssrc = d_ssrc d + 1 \<and> 0 \<le> d_ssrc d"
    and "0 \<le> d_sequence d" and "d_sequence d < 65536"
  shows "media_origin_of True lookups announced (retransmission rtx_pt rtx_ssrc n d) =
     map_option (\<lambda>origin. origin\<lparr>mo_rtx := Some (rtx_ssrc, rtx_pt)\<rparr>) (media_origin_of True lookups announced d)"
proof -
  have "media_ssrc_for_rtx_ssrc announced rtx_ssrc = Some (d_ssrc d)"
    using assms(4) by (auto simp: media_ssrc_for_rtx_ssrc_def)
  moreover have "from_be (be_bytes 2 (d_sequence d)) = d_sequence d" using assms(5,6) by simp
  ultimately show ?thesis using assms(1-3)
    by (simp add: media_origin_of_def retransmission_def Let_def)
qed

theorem retransmission_restores_packet_witness:
  "let lookups = codec_lookups_of [video_spec ''H264'' 1000 105 106];
       d = (sample_decoded 7)\<lparr>d_payload_type := 105, d_ssrc := 40\<rparr>
   in media_origin_of True lookups (\<lambda>_. None) (retransmission 106 41 9 d)
        = map_option (\<lambda>origin. origin\<lparr>mo_rtx := Some (41, 106)\<rparr>) (media_origin_of True lookups (\<lambda>_. None) d)"
proof -
  have "upper ''H264'' = ''H264''" by code_simp
  then show ?thesis unfolding Let_def
    by (intro retransmission_restores_packet [where media_type = "''video''" and codec = "''H264''"])
       (simp_all add: codec_lookups_of_def add_codec_lookup_def video_spec_def sample_decoded_def Let_def)
qed


section \<open>The order in which packets reach the depacketizer\<close>

definition feed :: "('p, 'd) receive_env \<Rightarrow> 'd \<Rightarrow> ReceivedVideoPacket \<Rightarrow> 'd" where
  "feed env d p = snd (re_push env d (d_payload (rv_decoded p)) (d_marker (rv_decoded p))
                        (d_sequence (rv_decoded p)) (d_timestamp (rv_decoded p)))"

definition never_raises :: "('p, 'd) receive_env \<Rightarrow> bool" where
  "never_raises env \<longleftrightarrow> (\<forall>d payload marker n t. is_ok (fst (re_push env d payload marker n t)))"

text \<open>What the reorder buffers and the depacketizers are, and whether retransmission is on.\<close>

definition core :: "('p, 'd) client \<Rightarrow> (int \<times> int \<Rightarrow> 'd option) \<times> (int \<times> int \<Rightarrow> reorder_buffer option) \<times> bool" where
  "core c = (map_of (cl_depacketizers c), map_of (cl_reorder_buffers c), rtx_enabled (cl_send c))"

lemma cask_fields [simp]:
  "fst (cask q c) = q (sn_tick (cl_send c))"
  "snd (cask q c) = c\<lparr>cl_send := (cl_send c)\<lparr>sn_tick := Suc (sn_tick (cl_send c))\<rparr>\<rparr>"
  by (simp_all add: cask_def vask_def)

lemma core_updates [simp]:
  "core (c\<lparr>cl_send := (cl_send c)\<lparr>sn_tick := n\<rparr>\<rparr>) = core c"
  "core (c\<lparr>cl_send := (cl_send c)\<lparr>sn_tick := n\<rparr>, cl_pending := p\<rparr>) = core c"
  "core (c\<lparr>cl_frame_packets := q\<rparr>) = core c"
  "core (cstat key c) = core c"
  "core (c\<lparr>cl_depacketizers := AList.update k d (cl_depacketizers c)\<rparr>) =
     ((fst (core c))(k \<mapsto> d), snd (core c))"
  by (simp_all add: core_def cstat_def count_stat_def update_conv')

lemma core_stash [simp]: "core (stash_frame env p payload packets c) = core c"
  by (simp add: stash_frame_def Let_def case_prod_beta)

lemma core_finish [simp]: "core (snd (finish_video_frame env p frame packets c)) = core c"
  by (simp add: finish_video_frame_def Let_def case_prod_beta split: sum.splits)

definition depacketizer_of :: "('p, 'd) receive_env \<Rightarrow> (int \<times> int \<Rightarrow> 'd option) \<Rightarrow> ReceivedVideoPacket \<Rightarrow> 'd" where
  "depacketizer_of env ds p =
     (case ds (rv_ssrc p, d_payload_type (rv_decoded p)) of
        Some d \<Rightarrow> d | None \<Rightarrow> re_depacketizer env (upper (rv_codec p)))"

lemma decode_video_frame_ok:
  assumes "never_raises env" "upper (rv_codec p) \<in> set VIDEO_DEPACKETIZER_FACTORIES" "core c = (ds, bs, rtx)"
  shows "\<exists>out c'. decode_video_frame env p c = (Inr out, c')
    \<and> core c' = (ds((rv_ssrc p, d_payload_type (rv_decoded p)) \<mapsto> feed env (depacketizer_of env ds p) p), bs, rtx)"
proof -
  let ?key = "(rv_ssrc p, d_payload_type (rv_decoded p))" and ?d = "depacketizer_of env ds p"
  obtain frame d where push: "re_push env ?d (d_payload (rv_decoded p)) (d_marker (rv_decoded p))
      (d_sequence (rv_decoded p)) (d_timestamp (rv_decoded p)) = (Inr frame, d)"
    using assms(1) unfolding never_raises_def by (metis is_ok_iff prod.collapse)
  then have d: "d = feed env ?d p" by (simp add: feed_def)
  have ds: "map_of (cl_depacketizers c) = ds" using assms(3) by (simp add: core_def)
  define c1 where "c1 = (case ds ?key of Some _ \<Rightarrow> c | None \<Rightarrow> c\<lparr>cl_depacketizers := AList.update ?key ?d (cl_depacketizers c)\<rparr>)"
  have c1: "core c1 = (ds(?key \<mapsto> ?d), bs, rtx)"
    using assms(3) by (auto simp: c1_def depacketizer_of_def fun_upd_idem split: option.splits)
  have got: "(case map_of (cl_depacketizers c) ?key of Some d \<Rightarrow> (Inr d, c)
       | None \<Rightarrow> (case make_video_depacketizer env (rv_codec p) of Inl e \<Rightarrow> (Inl e, c)
           | Inr d \<Rightarrow> (Inr d, c\<lparr>cl_depacketizers := AList.update ?key d (cl_depacketizers c)\<rparr>))) = (Inr ?d, c1)"
    using assms(2) by (auto simp: ds c1_def depacketizer_of_def make_video_depacketizer_def split: option.splits)
  define c2 where "c2 = c1\<lparr>cl_frame_packets := AList.update ?key (get_or [] ?key (cl_frame_packets c1) @ [rv_rtp_packet p])
      (cl_frame_packets c1), cl_depacketizers := AList.update ?key d (cl_depacketizers c1)\<rparr>"
  have c2: "core c2 = (ds(?key \<mapsto> feed env ?d p), bs, rtx)"
    using c1 by (simp add: c2_def core_def update_conv' d)
  show ?thesis
    unfolding decode_video_frame_def Let_def got
    using c1 c2 by (auto simp: push c2_def d case_prod_beta split: option.splits)
qed

definition on_stream :: "int \<Rightarrow> int \<Rightarrow> string \<Rightarrow> ReceivedVideoPacket \<Rightarrow> bool" where
  "on_stream ssrc payload_type codec p \<longleftrightarrow>
     rv_ssrc p = ssrc \<and> d_payload_type (rv_decoded p) = payload_type \<and> upper (rv_codec p) = codec"

lemma decode_ready_ok:
  assumes "never_raises env" "codec \<in> set VIDEO_DEPACKETIZER_FACTORIES"
    and "\<forall>p \<in> set ps. on_stream ssrc pt codec p" "core c = (ds, bs, rtx)"
  shows "\<exists>outs c'. decode_ready env ps c = (Inr outs, c')
    \<and> core c' = (if ps = [] then ds else ds((ssrc, pt) \<mapsto>
        foldl (feed env) (case ds (ssrc, pt) of Some d \<Rightarrow> d | None \<Rightarrow> re_depacketizer env codec) ps), bs, rtx)"
  using assms(3,4)
proof (induction ps arbitrary: c ds)
  case (Cons p ps)
  let ?c = "cstat ''video_packets_reorder_ready'' c"
  have p: "rv_ssrc p = ssrc" "d_payload_type (rv_decoded p) = pt" "upper (rv_codec p) = codec"
    using Cons.prems(1) by (auto simp: on_stream_def)
  let ?d = "case ds (ssrc, pt) of Some d \<Rightarrow> d | None \<Rightarrow> re_depacketizer env codec"
  obtain out c' where out: "decode_video_frame env p ?c = (Inr out, c')"
    and c': "core c' = (ds((ssrc, pt) \<mapsto> feed env ?d p), bs, rtx)"
    using decode_video_frame_ok [OF assms(1), of p ?c ds bs rtx] Cons.prems(2) assms(2) p
    by (auto simp: depacketizer_of_def)
  let ?c' = "if out \<noteq> None then cstat ''video_frames_completed'' c' else c'"
  have "core ?c' = (ds((ssrc, pt) \<mapsto> feed env ?d p), bs, rtx)" using c' by simp
  from Cons.IH [OF _ this] Cons.prems(1) obtain outs c'' where rest: "decode_ready env ps ?c' = (Inr outs, c'')"
    "core c'' = (ds((ssrc, pt) \<mapsto> foldl (feed env) ?d (p # ps)), bs, rtx)" by (auto split: if_splits)
  then show ?case by (intro exI [of _ "case out of None \<Rightarrow> outs | Some m \<Rightarrow> m # outs"] exI [of _ c'']) (auto simp: out Let_def fun_eq_iff)
qed (simp add: core_def)

text \<open>Packets of one stream, one after another, through \<open>_decode_video_packets\<close>.\<close>

fun receive_packets ::
  "('p, 'd) receive_env \<Rightarrow> ReceivedVideoPacket list \<Rightarrow> ('p, 'd) client \<Rightarrow> MediaPacket list res \<times> ('p, 'd) client"
where
  "receive_packets env [] c = (Inr [], c)"
| "receive_packets env (p # ps) c =
     bind_res (decode_video_packets env p c) (\<lambda>out c.
       bind_res (receive_packets env ps c) (\<lambda>outs c. (Inr (out @ outs), c)))"

definition stream_buffer :: "('p, 'd) receive_env \<Rightarrow> reorder_buffer" where
  "stream_buffer env = new_reorder_buffer (max 1 (re_max_packets env)) (re_max_delay env) (cls_debug (ve_class (re_send env)))"

lemma decode_video_packets_ok:
  assumes "never_raises env" "codec \<in> set VIDEO_DEPACKETIZER_FACTORIES"
    and "on_stream ssrc pt codec p" "core c = (ds, bs, True)"
    and b: "b = (case bs (ssrc, pt) of Some b \<Rightarrow> b | None \<Rightarrow> stream_buffer env)" "rb_inv b"
    and "\<forall>q \<in> snd ` set (rb_packets b). on_stream ssrc pt codec q"
  shows "\<exists>outs c' now delivered b'. decode_video_packets env p c = (Inr outs, c')
    \<and> reorder_push now p b = (delivered, b') \<and> rb_inv b'
    \<and> (\<forall>q \<in> set delivered \<union> snd ` set (rb_packets b'). on_stream ssrc pt codec q)
    \<and> core c' = (if delivered = [] then ds else ds((ssrc, pt) \<mapsto>
        foldl (feed env) (case ds (ssrc, pt) of Some d \<Rightarrow> d | None \<Rightarrow> re_depacketizer env codec) delivered),
        bs((ssrc, pt) \<mapsto> b'), True)"
proof -
  define now where "now = perf env (sn_tick (cl_send c))"
  obtain delivered b' where push: "reorder_push now p b = (delivered, b')" by fastforce
  then have ok: "rb_inv b'" "set delivered \<union> snd ` set (rb_packets b') \<subseteq> insert p (snd ` set (rb_packets b))"
    using reorder_push_ok [OF b(2) push] by (auto simp: push_ok_def)
  then have on: "\<forall>q \<in> set delivered \<union> snd ` set (rb_packets b'). on_stream ssrc pt codec q"
    using assms(3,7) by blast
  have key: "(rv_ssrc p, d_payload_type (rv_decoded p)) = (ssrc, pt)" using assms(3) by (simp add: on_stream_def)
  let ?c = "(snd (cask (perf env) c))\<lparr>cl_reorder_buffers := AList.update (ssrc, pt) b' (cl_reorder_buffers c)\<rparr>"
  have "core ?c = (ds, bs((ssrc, pt) \<mapsto> b'), True)" using assms(4) by (auto simp: core_def update_conv')
  from decode_ready_ok [OF assms(1,2) _ this, of delivered ssrc pt] on obtain outs c'
    where ready: "decode_ready env delivered ?c = (Inr outs, c')"
      "core c' = (if delivered = [] then ds else ds((ssrc, pt) \<mapsto>
        foldl (feed env) (case ds (ssrc, pt) of Some d \<Rightarrow> d | None \<Rightarrow> re_depacketizer env codec) delivered),
        bs((ssrc, pt) \<mapsto> b'), True)" by auto
  have "decode_video_packets env p c = decode_ready env delivered ?c"
    using push assms(4) b(1)
    by (auto simp: decode_video_packets_def Let_def key case_prod_beta now_def core_def stream_buffer_def split: option.splits)
  then show ?thesis using ready push ok(1) on
    by (intro exI [of _ outs] exI [of _ c'] exI [of _ now] exI [of _ delivered] exI [of _ b'] conjI) simp_all
qed

lemma receive_packets_ok:
  assumes "never_raises env" "codec \<in> set VIDEO_DEPACKETIZER_FACTORIES"
    and "\<forall>p \<in> set ps. on_stream ssrc pt codec p" "core c = (ds, bs, True)"
    and "b = (case bs (ssrc, pt) of Some b \<Rightarrow> b | None \<Rightarrow> stream_buffer env)" "rb_inv b"
    and "\<forall>q \<in> snd ` set (rb_packets b). on_stream ssrc pt codec q"
  shows "\<exists>outs c' times delivered b'. receive_packets env ps c = (Inr outs, c') \<and> length times = length ps
    \<and> reorder_push_all (zip times ps) b = (delivered, b')
    \<and> fst (core c') = (if delivered = [] then ds else ds((ssrc, pt) \<mapsto>
        foldl (feed env) (case ds (ssrc, pt) of Some d \<Rightarrow> d | None \<Rightarrow> re_depacketizer env codec) delivered))"
  using assms(3-)
proof (induction ps arbitrary: c ds bs b)
  case (Cons p ps)
  let ?d = "case ds (ssrc, pt) of Some d \<Rightarrow> d | None \<Rightarrow> re_depacketizer env codec"
  obtain outs1 c1 now delivered1 b1 where one: "decode_video_packets env p c = (Inr outs1, c1)"
    "reorder_push now p b = (delivered1, b1)" "rb_inv b1"
    "\<forall>q \<in> set delivered1 \<union> snd ` set (rb_packets b1). on_stream ssrc pt codec q"
    "core c1 = (if delivered1 = [] then ds else ds((ssrc, pt) \<mapsto> foldl (feed env) ?d delivered1),
                bs((ssrc, pt) \<mapsto> b1), True)"
    using decode_video_packets_ok [OF assms(1,2) _ Cons.prems(2-5), of p] Cons.prems(1) by auto
  obtain outs2 c2 times delivered2 b2 where rest: "receive_packets env ps c1 = (Inr outs2, c2)" "length times = length ps"
    "reorder_push_all (zip times ps) b1 = (delivered2, b2)"
    "fst (core c2) = (let ds1 = fst (core c1) in if delivered2 = [] then ds1 else ds1((ssrc, pt) \<mapsto>
        foldl (feed env) (case ds1 (ssrc, pt) of Some d \<Rightarrow> d | None \<Rightarrow> re_depacketizer env codec) delivered2))"
    using Cons.IH [OF _ one(5) _ one(3)] Cons.prems(1) one(4,5) by (auto simp: Let_def)
  have "fst (core c2) = (if delivered1 @ delivered2 = [] then ds
      else ds((ssrc, pt) \<mapsto> foldl (feed env) ?d (delivered1 @ delivered2)))"
    by (cases "delivered1 = []"; cases "delivered2 = []") (simp_all add: rest(4) one(5) Let_def)
  then show ?case
    by (intro exI [of _ "outs1 @ outs2"] exI [of _ c2] exI [of _ "now # times"] exI [of _ "delivered1 @ delivered2"]
        exI [of _ b2]) (simp add: one(1,2) rest(1-3))
qed (auto simp: core_def)


text \<open>A depacketizer that only notes the sequence numbers it sees.\<close>

definition sample_receive_env :: "(unit, int list) receive_env" where
  "sample_receive_env =
     \<lparr>re_send = sample_send_env, re_decrypt_rtp = (\<lambda>_. Inr []), re_decrypt_rtcp = (\<lambda>_. Inr []), re_depacketizer = (\<lambda>_. []),
      re_push = (\<lambda>d payload marker n t. (Inr None, d @ [n])), re_silence = [0xF8, 0xFF, 0xFE], re_report_interval = 1,
      re_max_packets = 8, re_max_delay = 1, re_own_ssrc = (\<lambda>_. 9), re_video_ssrcs = (\<lambda>_. {}),
      re_rtx_media_ssrcs = (\<lambda>_ _. None), re_users = (\<lambda>_ _. None),
      re_dave = (\<lambda>_. \<lparr>de_can_encrypt = False, de_session = False, de_ready = False, de_can_passthrough = (\<lambda>_. False),
                       de_decrypt = (\<lambda>_ _. Inr)\<rparr>)\<rparr>"

definition new_client :: "'p video_send \<Rightarrow> ('p, 'd) client" where
  "new_client s = \<lparr>cl_send = s, cl_report_states = [], cl_depacketizers = [], cl_reorder_buffers = [],
     cl_startup_plis = {}, cl_frame_packets = [], cl_pending = []\<rparr>"

definition sample_arriving :: "ReceivedVideoPacket list" where
  "sample_arriving = map sample_packet [65534, 0, 65535, 1, 0]"

lemma first_delivered: "fst (reorder_push now p (new_reorder_buffer m d dbg)) = [p]"
  by (simp add: reorder_push_def new_reorder_buffer_def reorder_insert_def reorder_store_def pop_ready_def drain.simps
      setdefault_def rb_count_def Let_def)

lemma first_delivered_all:
  assumes "length ats = length (p # ps)"
  shows "fst (reorder_push_all (zip ats (p # ps)) (new_reorder_buffer m d dbg)) \<noteq> []"
proof -
  obtain now ats' where t: "ats = now # ats'" using assms by (cases ats) auto
  show ?thesis using first_delivered [of now p m d dbg] by (auto simp: t split: prod.splits)
qed


end
