(* ===== verification/Listening.thy ===== *)
theory Listening
  imports Receive SinkTree
begin

text \<open>
  The receive lifecycle of the client (\<open>client.py\<close>): \<open>listen\<close>, \<open>set_sink\<close>, \<open>stop_listening\<close>, the
  handler of a batch of datagrams and the dispatch of media packets, over the heap of sinks.

  The callback, what sinks do with a packet, and the \<open>after\<close> function are the user's: the
  environment says what each call returns or raises, and which methods of the client it calls before
  that. Everything the user can see is an event of \<open>lt_log\<close>.
\<close>

section \<open>State\<close>

datatype media_callback = DispatchSink | UserCallback nat

text \<open>\<open>listen\<close> takes a sink or a callable; a number that is no sink of the heap is another object.\<close>

datatype listen_target = TargetSink nat | TargetCallback nat | TargetOther

datatype callback_result = ReturnsNone | Raises exn | ReturnsAwaitable | ReturnsItems "callback_result list"

datatype client_call = CallStopListening | CallSetSink nat

datatype event =
    Started "nat option"
  | Delivered media_callback MediaPacket
  | CleanedUp nat
  | Stopped "nat option" "exn option" \<comment> \<open>\<open>after\<close> was called with the error, or none was given\<close>

record ('p, 'd) session =
  lt_client :: "('p, 'd) client"
  lt_heap :: sink_heap
  lt_owned :: "nat set" \<comment> \<open>the sinks whose \<open>_voice_client\<close> is this client\<close>
  lt_listener :: bool \<comment> \<open>\<open>_socket_listener\<close> is set\<close>
  lt_callback :: "media_callback option"
  lt_after :: "nat option"
  lt_sink :: "nat option"
  lt_retry_thread :: bool
  lt_futures :: nat \<comment> \<open>awaitables of the callback that are not done\<close>
  lt_log :: "event list"

record ('p, 'd) listen_env =
  le_receive :: "('p, 'd) receive_env"
  le_limit :: nat \<comment> \<open>the recursion limit\<close>
  le_wants :: "sink_heap \<Rightarrow> nat \<Rightarrow> string \<Rightarrow> string \<Rightarrow> bool"
  le_outcome :: "nat \<Rightarrow> media_callback \<Rightarrow> MediaPacket \<Rightarrow> client_call list \<times> callback_result"
  le_cleanup :: "nat \<Rightarrow> nat \<Rightarrow> unit res" \<comment> \<open>what a subclass's \<open>cleanup\<close> adds to the base class's\<close>

definition lask :: "(nat \<Rightarrow> 'a) \<Rightarrow> ('p, 'd) session \<Rightarrow> 'a \<times> ('p, 'd) session" where
  "lask question s = (let (a, c) = cask question (lt_client s) in (a, s\<lparr>lt_client := c\<rparr>))"

definition note_event :: "event \<Rightarrow> ('p, 'd) session \<Rightarrow> ('p, 'd) session" where
  "note_event e s = s\<lparr>lt_log := lt_log s @ [e]\<rparr>"

definition is_listening :: "('p, 'd) session \<Rightarrow> bool" where
  "is_listening s \<longleftrightarrow> lt_listener s \<or> lt_callback s \<noteq> None \<or> lt_sink s \<noteq> None"

abbreviation session_rtx :: "('p, 'd) session \<Rightarrow> bool" where
  "session_rtx s \<equiv> rtx_enabled (cl_send (lt_client s))"


section \<open>Statistics of the reorder buffers\<close>

definition buffer_stats :: "reorder_buffer \<Rightarrow> (string \<times> int) list" where
  "buffer_stats b =
     [(''reorder_packets_pushed'', rb_packets_pushed b), (''reorder_duplicate_packets'', rb_duplicate_packets b),
      (''reorder_old_packets'', rb_old_packets b), (''reorder_waits'', rb_waits b), (''reorder_flushes'', rb_flushes b),
      (''reorder_skipped_packets'', rb_skipped_packets b), (''reorder_ready_packets'', rb_ready_packets b),
      (''reorder_max_buffered'', rb_max_buffered b)]"

definition merge_stat :: "string \<times> int \<Rightarrow> (string, int) odict \<Rightarrow> (string, int) odict" where
  "merge_stat stat stats =
     (let (key, value) = stat
      in AList.update key (if key = ''reorder_max_buffered'' then max (get_or 0 key stats) value
                           else get_or 0 key stats + value) stats)"

definition video_reorder_stats :: "('p, 'd) client \<Rightarrow> (string, int) odict" where
  "video_reorder_stats c = fold merge_stat (concat (map buffer_stats (vals (cl_reorder_buffers c)))) []"

definition record_video_reorder_stats :: "('p, 'd) client \<Rightarrow> ('p, 'd) client" where
  "record_video_reorder_stats c =
     fold (\<lambda>(key, value) c. c\<lparr>cl_send := (cl_send c)\<lparr>sn_nack :=
             (if key = ''reorder_max_buffered'' then record_max_stat key value else record_stat key value)
               (sn_nack (cl_send c))\<rparr>\<rparr>)
       (video_reorder_stats c) c"

definition video_receive_stats :: "bool \<Rightarrow> ('p, 'd) client \<Rightarrow> (string, int) odict" where
  "video_receive_stats debug_stats c =
     (if \<not> debug_stats then []
      else fold merge_stat (video_reorder_stats c) (nk_stats (sn_nack (cl_send c))))"


section \<open>Stopping\<close>

definition stop_video_nack_retry_thread :: "('p, 'd) session \<Rightarrow> ('p, 'd) session" where
  "stop_video_nack_retry_thread s = s\<lparr>lt_retry_thread := False\<rparr>"

definition start_video_nack_retry_thread :: "('p, 'd) session \<Rightarrow> ('p, 'd) session" where
  "start_video_nack_retry_thread s =
     (if \<not> session_rtx s \<or> lt_retry_thread s then s else s\<lparr>lt_retry_thread := True\<rparr>)"

definition clear_receive_state :: "('p, 'd) client \<Rightarrow> ('p, 'd) client" where
  "clear_receive_state c =
     c\<lparr>cl_depacketizers := [], cl_reorder_buffers := [], cl_startup_plis := {}, cl_frame_packets := [], cl_pending := [],
       cl_send := (cl_send c)\<lparr>sn_nack := (sn_nack (cl_send c))\<lparr>nk_last_sequences := [], nk_pending := []\<rparr>\<rparr>\<rparr>"

definition reset_receive_transport_state :: "('p, 'd) session \<Rightarrow> ('p, 'd) session" where
  "reset_receive_transport_state s =
     (let s = stop_video_nack_retry_thread s
      in s\<lparr>lt_client := clear_receive_state (record_video_reorder_stats (lt_client s))\<rparr>)"

definition idle_listener :: "('p, 'd) listen_env \<Rightarrow> ('p, 'd) session \<Rightarrow> ('p, 'd) session" where
  "idle_listener env s =
     s\<lparr>lt_client := (lt_client s)\<lparr>cl_send := stop_rtcp_listener_if_idle
         ((re_send (le_receive env))\<lparr>ve_listening := \<lambda>_. is_listening s\<rparr>) (cl_send (lt_client s))\<rparr>\<rparr>"

text \<open>\<open>root.cleanup()\<close>: the base class closes the tree; a subclass may raise.\<close>

definition cleanup_root :: "('p, 'd) listen_env \<Rightarrow> nat \<Rightarrow> ('p, 'd) session \<Rightarrow> unit res \<times> ('p, 'd) session" where
  "cleanup_root env base s =
     (let (outcome, s) = lask (le_cleanup env) s;
          (r, heap) = cleanup_tree (le_limit env) base (lt_heap s)
      in (and_then r (\<lambda>_. outcome base),
          (note_event (CleanedUp base) s)\<lparr>lt_heap := heap, lt_owned := lt_owned s - {base}\<rparr>))"

definition stop_listening_with :: "('p, 'd) listen_env \<Rightarrow> exn option \<Rightarrow> ('p, 'd) session \<Rightarrow> unit res \<times> ('p, 'd) session" where
  "stop_listening_with env error s =
     (if \<not> is_listening s then (Inr (), s)
      else
        let after = lt_after s; sink = lt_sink s;
            s = s\<lparr>lt_listener := False, lt_callback := None, lt_after := None, lt_sink := None\<rparr>;
            s = idle_listener env (reset_receive_transport_state s)
        in case sink of
             None \<Rightarrow> (Inr (), note_event (Stopped after error) s)
           | Some sink \<Rightarrow>
               (case sink_root (le_limit env) (lt_heap s) sink of
                  Inl e \<Rightarrow> (Inl e, s)
                | Inr base \<Rightarrow>
                    let (cleaned, s) = cleanup_root env base s;
                        cleanup_error = (case cleaned of Inl e \<Rightarrow> Some e | Inr _ \<Rightarrow> None)
                    in (Inr (), note_event (Stopped after (if error \<noteq> None then error else cleanup_error)) s)))"

definition stop_listening :: "('p, 'd) listen_env \<Rightarrow> ('p, 'd) session \<Rightarrow> unit res \<times> ('p, 'd) session" where
  "stop_listening env s = stop_listening_with env None s"


section \<open>Starting and changing the sink\<close>

definition ensure_listenable_sink :: "('p, 'd) listen_env \<Rightarrow> sink_heap \<Rightarrow> nat \<Rightarrow> unit res" where
  "ensure_listenable_sink env heap sink =
     (if parent_of heap sink \<noteq> None then Inl ClientException
      else and_then (walk_children (le_limit env) heap sink) (\<lambda>below.
        if list_ex (\<lambda>i. sn_closed (heap ! i)) (sink # below) then Inl ClientException else Inr ()))"

fun is_listen_target :: "sink_heap \<Rightarrow> listen_target \<Rightarrow> bool" where
  "is_listen_target heap (TargetSink sink) = (sink < length heap)"
| "is_listen_target heap (TargetCallback _) = True"
| "is_listen_target heap TargetOther = False"

definition own_root :: "('p, 'd) listen_env \<Rightarrow> nat \<Rightarrow> ('p, 'd) session \<Rightarrow> unit res \<times> ('p, 'd) session" where
  "own_root env sink s =
     (case sink_root (le_limit env) (lt_heap s) sink of
        Inl e \<Rightarrow> (Inl e, s) | Inr base \<Rightarrow> (Inr (), s\<lparr>lt_owned := insert base (lt_owned s)\<rparr>))"

definition disown_root :: "('p, 'd) listen_env \<Rightarrow> nat \<Rightarrow> ('p, 'd) session \<Rightarrow> unit res \<times> ('p, 'd) session" where
  "disown_root env sink s =
     (case sink_root (le_limit env) (lt_heap s) sink of
        Inl e \<Rightarrow> (Inl e, s) | Inr base \<Rightarrow> (Inr (), s\<lparr>lt_owned := lt_owned s - {base}\<rparr>))"

text \<open>The end of \<open>listen\<close>, once the callback is set.\<close>

definition begin_listening :: "nat option \<Rightarrow> ('p, 'd) session \<Rightarrow> ('p, 'd) session" where
  "begin_listening after s =
     (let s = s\<lparr>lt_after := after, lt_listener := True\<rparr>;
          s = s\<lparr>lt_client := (lt_client s)\<lparr>cl_send := ensure_rtcp_feedback_listener (cl_send (lt_client s))\<rparr>\<rparr>
      in note_event (Started after) (start_video_nack_retry_thread s))"

text \<open>\<open>after_ok\<close>: \<open>after\<close> is \<open>None\<close> or callable.\<close>

definition listen ::
  "('p, 'd) listen_env \<Rightarrow> listen_target \<Rightarrow> nat option \<Rightarrow> bool \<Rightarrow> ('p, 'd) session \<Rightarrow> unit res \<times> ('p, 'd) session"
where
  "listen env target after after_ok s =
     (let (connected, s) = lask (ve_connected (re_send (le_receive env))) s
      in if \<not> connected then (Inl ClientException, s)
         else if \<not> is_listen_target (lt_heap s) target \<or> \<not> after_ok then (Inl TypeError, s)
         else if is_listening s then (Inl ClientException, s)
         else case target of
             TargetSink sink \<Rightarrow>
               bind_res (ensure_listenable_sink env (lt_heap s) sink, s) (\<lambda>_ s.
                 bind_res (own_root env sink s) (\<lambda>_ s.
                   (Inr (), begin_listening after (s\<lparr>lt_sink := Some sink, lt_callback := Some DispatchSink\<rparr>))))
           | TargetCallback k \<Rightarrow> (Inr (), begin_listening after (s\<lparr>lt_callback := Some (UserCallback k)\<rparr>))
           | TargetOther \<Rightarrow> (Inl TypeError, s))"

definition set_sink :: "('p, 'd) listen_env \<Rightarrow> nat \<Rightarrow> ('p, 'd) session \<Rightarrow> nat option res \<times> ('p, 'd) session" where
  "set_sink env sink s =
     (if \<not> sink < length (lt_heap s) then (Inl TypeError, s)
      else if \<not> is_listening s \<or> lt_callback s = None then (Inl ValueError, s)
      else if Some sink = lt_sink s then (Inr (Some sink), s)
      else
        let old = lt_sink s in
        bind_res (ensure_listenable_sink env (lt_heap s) sink, s) (\<lambda>_ s.
          bind_res (case old of None \<Rightarrow> (Inr (), s) | Some o' \<Rightarrow> disown_root env o' s) (\<lambda>_ s.
            bind_res (own_root env sink s) (\<lambda>_ s.
              (Inr old, s\<lparr>lt_sink := Some sink, lt_callback := Some DispatchSink\<rparr>)))))"


section \<open>Dispatching packets\<close>

definition run_client_call :: "('p, 'd) listen_env \<Rightarrow> client_call \<Rightarrow> ('p, 'd) session \<Rightarrow> ('p, 'd) session" where
  "run_client_call env call s =
     (case call of CallStopListening \<Rightarrow> snd (stop_listening env s) | CallSetSink sink \<Rightarrow> snd (set_sink env sink s))"

definition call_callback ::
  "('p, 'd) listen_env \<Rightarrow> media_callback \<Rightarrow> MediaPacket \<Rightarrow> ('p, 'd) session \<Rightarrow> callback_result \<times> ('p, 'd) session"
where
  "call_callback env callback packet s =
     (let called = (case callback of
             UserCallback _ \<Rightarrow> True
           | DispatchSink \<Rightarrow> (case lt_sink s of
                 None \<Rightarrow> False | Some sink \<Rightarrow> le_wants env (lt_heap s) sink (mp_media_type packet) (mp_codec packet)))
      in if \<not> called then (ReturnsNone, s)
         else
           let (outcome, s) = lask (le_outcome env) (note_event (Delivered callback packet) s);
               (calls, result) = outcome callback packet
           in (result, fold (run_client_call env) calls s))"

fun awaitables :: "callback_result \<Rightarrow> nat" where
  "awaitables ReturnsAwaitable = 1"
| "awaitables (ReturnsItems items) = sum_list (map awaitables items)"
| "awaitables _ = 0"

definition handle_media_callback_result :: "callback_result \<Rightarrow> ('p, 'd) session \<Rightarrow> ('p, 'd) session" where
  "handle_media_callback_result result s = s\<lparr>lt_futures := lt_futures s + awaitables result\<rparr>"

text \<open>\<open>_dispatch_media_callback_packet\<close>: an exception of the callback stops the session.\<close>

definition dispatch_packet ::
  "('p, 'd) listen_env \<Rightarrow> media_callback \<Rightarrow> MediaPacket \<Rightarrow> ('p, 'd) session \<Rightarrow> bool \<times> ('p, 'd) session"
where
  "dispatch_packet env callback packet s =
     (let (result, s) = call_callback env callback packet s
      in case result of
           Raises e \<Rightarrow> (False, snd (stop_listening_with env (Some e) s))
         | _ \<Rightarrow> (True, handle_media_callback_result result s))"

fun dispatch_each ::
  "('p, 'd) listen_env \<Rightarrow> media_callback \<Rightarrow> MediaPacket list \<Rightarrow> ('p, 'd) session \<Rightarrow> ('p, 'd) session"
where
  "dispatch_each env callback [] s = s"
| "dispatch_each env callback (packet # packets) s =
     (let (go_on, s) = dispatch_packet env callback packet s
      in if go_on then dispatch_each env callback packets s else s)"

definition handle_socket_packets :: "('p, 'd) listen_env \<Rightarrow> bytes list \<Rightarrow> ('p, 'd) session \<Rightarrow> ('p, 'd) session" where
  "handle_socket_packets env batch s =
     (let (received_at, s) = lask (perf (le_receive env)) s
      in case lt_callback s of
           None \<Rightarrow> s
         | Some callback \<Rightarrow>
             (let (r, c) = decode_media_packets (le_receive env) batch received_at (lt_client s); s = s\<lparr>lt_client := c\<rparr>
              in case r of Inl _ \<Rightarrow> s | Inr packets \<Rightarrow> dispatch_each env callback packets s))"

text \<open>A future of the callback is done: an exception stops whatever session is active then.\<close>

definition future_done :: "('p, 'd) listen_env \<Rightarrow> exn option \<Rightarrow> ('p, 'd) session \<Rightarrow> ('p, 'd) session" where
  "future_done env error s =
     (let s = s\<lparr>lt_futures := lt_futures s - 1\<rparr>
      in case error of None \<Rightarrow> s | Some e \<Rightarrow> snd (stop_listening_with env (Some e) s))"


section \<open>The specification of the lifecycle\<close>

text \<open>
  What the user may observe: sessions do not overlap; a session ends by one call of the \<open>after\<close> it
  was started with; packets reach a sink, and sinks are cleaned up, only while a session is active.
\<close>

datatype phase = Idle | Active "nat option"

fun observe :: "phase \<Rightarrow> event \<Rightarrow> phase option" where
  "observe Idle (Started after) = Some (Active after)"
| "observe (Active after) (Started _) = None"
| "observe (Active after) (Stopped after' _) = (if after = after' then Some Idle else None)"
| "observe Idle (Stopped _ _) = None"
| "observe (Active after) (CleanedUp _) = Some (Active after)"
| "observe Idle (CleanedUp _) = None"
| "observe p (Delivered (UserCallback _) _) = Some p"
| "observe (Active after) (Delivered DispatchSink _) = Some (Active after)"
| "observe Idle (Delivered DispatchSink _) = None"

fun observe_all :: "phase \<Rightarrow> event list \<Rightarrow> phase option" where
  "observe_all p [] = Some p"
| "observe_all p (e # es) = (case observe p e of None \<Rightarrow> None | Some q \<Rightarrow> observe_all q es)"

lemma observe_all_append:
  "observe_all p (es @ fs) = (case observe_all p es of None \<Rightarrow> None | Some q \<Rightarrow> observe_all q fs)"
  by (induction p es rule: observe_all.induct) (auto split: option.splits)

definition phase_of :: "('p, 'd) session \<Rightarrow> phase" where
  "phase_of s = (if is_listening s then Active (lt_after s) else Idle)"

definition roots_ok :: "nat \<Rightarrow> sink_heap \<Rightarrow> bool" where
  "roots_ok limit h \<longleftrightarrow> (\<forall>i < length h. is_ok (sink_root limit h i))"

text \<open>The invariant of a session: the log is a behaviour of the specification that ends in its phase.\<close>

definition session_ok :: "('p, 'd) listen_env \<Rightarrow> ('p, 'd) session \<Rightarrow> bool" where
  "session_ok env s \<longleftrightarrow>
     observe_all Idle (lt_log s) = Some (phase_of s) \<and> roots_ok (le_limit env) (lt_heap s)
     \<and> (is_listening s \<longrightarrow> lt_listener s \<and> lt_callback s \<noteq> None)
     \<and> (\<not> is_listening s \<longrightarrow> lt_after s = None)
     \<and> (lt_sink s \<noteq> None \<longleftrightarrow> lt_callback s = Some DispatchSink)
     \<and> (\<forall>sink. lt_sink s = Some sink \<longrightarrow> sink < length (lt_heap s))"

lemma lask_fields [simp]:
  "lt_heap (snd (lask q s)) = lt_heap s" "lt_listener (snd (lask q s)) = lt_listener s"
  "lt_callback (snd (lask q s)) = lt_callback s" "lt_after (snd (lask q s)) = lt_after s"
  "lt_sink (snd (lask q s)) = lt_sink s" "lt_log (snd (lask q s)) = lt_log s" "lt_owned (snd (lask q s)) = lt_owned s"
  by (simp_all add: lask_def Let_def case_prod_beta)

lemma idle_listener_fields [simp]:
  "lt_heap (idle_listener env s) = lt_heap s" "lt_listener (idle_listener env s) = lt_listener s"
  "lt_callback (idle_listener env s) = lt_callback s" "lt_after (idle_listener env s) = lt_after s"
  "lt_sink (idle_listener env s) = lt_sink s" "lt_log (idle_listener env s) = lt_log s"
  by (simp_all add: idle_listener_def)

lemma reset_fields [simp]:
  "lt_heap (reset_receive_transport_state s) = lt_heap s" "lt_listener (reset_receive_transport_state s) = lt_listener s"
  "lt_callback (reset_receive_transport_state s) = lt_callback s" "lt_after (reset_receive_transport_state s) = lt_after s"
  "lt_sink (reset_receive_transport_state s) = lt_sink s" "lt_log (reset_receive_transport_state s) = lt_log s"
  by (simp_all add: reset_receive_transport_state_def stop_video_nack_retry_thread_def Let_def)

lemma session_ok_cong:
  assumes "lt_heap t = lt_heap s" "lt_listener t = lt_listener s" "lt_callback t = lt_callback s" "lt_after t = lt_after s"
    "lt_sink t = lt_sink s" "lt_log t = lt_log s"
  shows "session_ok env t = session_ok env s"
  by (simp add: session_ok_def phase_of_def is_listening_def assms)

lemma roots_ok_links: "same_links h h' \<Longrightarrow> roots_ok n h' = roots_ok n h"
proof -
  assume same: "same_links h h'"
  then have links: "parent_of h' i = parent_of h i" for i by (simp add: same_links_def)
  have "sink_root n h' i = sink_root n h i" for n i
    by (induction n arbitrary: i) (simp_all add: links split: option.splits)
  then show ?thesis using same by (simp add: roots_ok_def same_links_def)
qed

lemma cleanup_roots_ok: "roots_ok n (snd (cleanup_tree m i h)) = roots_ok n h"
  by (intro roots_ok_links cleanup_same_links(1))

lemma stop_listening_ok:
  assumes "session_ok env s"
  shows "session_ok env (snd (stop_listening_with env error s)) \<and> \<not> is_listening (snd (stop_listening_with env error s))"
proof (cases "is_listening s")
  case True
  then have s: "observe_all Idle (lt_log s) = Some (Active (lt_after s))" "roots_ok (le_limit env) (lt_heap s)"
    using assms by (simp_all add: session_ok_def phase_of_def)
  let ?s = "idle_listener env (reset_receive_transport_state
      (s\<lparr>lt_listener := False, lt_callback := None, lt_after := None, lt_sink := None\<rparr>))"
  show ?thesis
  proof (cases "lt_sink s")
    case None
    then show ?thesis using True s
      by (simp add: stop_listening_with_def session_ok_def phase_of_def is_listening_def note_event_def
          observe_all_append)
  next
    case (Some sink)
    obtain base where base: "sink_root (le_limit env) (lt_heap s) sink = Inr base"
      using s(2) Some assms unfolding roots_ok_def session_ok_def is_ok_iff by blast
    show ?thesis using True s Some
      by (simp add: stop_listening_with_def base cleanup_root_def session_ok_def phase_of_def is_listening_def note_event_def
          observe_all_append Let_def case_prod_beta cleanup_roots_ok)
  qed
qed (simp add: stop_listening_with_def assms)

lemma own_root_fields:
  "lt_heap (snd (own_root env i s)) = lt_heap s" "lt_listener (snd (own_root env i s)) = lt_listener s"
  "lt_callback (snd (own_root env i s)) = lt_callback s" "lt_after (snd (own_root env i s)) = lt_after s"
  "lt_sink (snd (own_root env i s)) = lt_sink s" "lt_log (snd (own_root env i s)) = lt_log s"
  "lt_heap (snd (disown_root env i s)) = lt_heap s" "lt_listener (snd (disown_root env i s)) = lt_listener s"
  "lt_callback (snd (disown_root env i s)) = lt_callback s" "lt_after (snd (disown_root env i s)) = lt_after s"
  "lt_sink (snd (disown_root env i s)) = lt_sink s" "lt_log (snd (disown_root env i s)) = lt_log s"
  by (simp_all add: own_root_def disown_root_def split: sum.splits)

lemma owner_ok:
  "session_ok env s \<Longrightarrow> session_ok env (snd (own_root env i s))"
  "session_ok env s \<Longrightarrow> session_ok env (snd (disown_root env i s))"
  by (subst session_ok_cong; simp add: own_root_fields)+

lemma begin_listening_ok:
  assumes "session_ok env s" "\<not> is_listening s" "cb \<noteq> None" "sink \<noteq> None \<longleftrightarrow> cb = Some DispatchSink"
    and "\<forall>i. sink = Some i \<longrightarrow> i < length (lt_heap s)"
  shows "session_ok env (begin_listening after (s\<lparr>lt_sink := sink, lt_callback := cb\<rparr>))"
  using assms
  by (auto simp: session_ok_def phase_of_def is_listening_def begin_listening_def note_event_def observe_all_append
      start_video_nack_retry_thread_def Let_def)

lemma listen_ok:
  assumes "session_ok env s"
  shows "session_ok env (snd (listen env target after after_ok s))"
proof -
  obtain c u where u: "lask (ve_connected (re_send (le_receive env))) s = (c, u)" by fastforce
  have u_ok: "session_ok env u"
    using assms session_ok_cong [of u s env] lask_fields [of "ve_connected (re_send (le_receive env))" s] by (simp add: u)
  show ?thesis
  proof (cases "c \<and> is_listen_target (lt_heap u) target \<and> after_ok \<and> \<not> is_listening u")
    case False
    then show ?thesis using u_ok by (auto simp: listen_def u)
  next
    case True
    show ?thesis
    proof (cases target)
      case (TargetSink sink)
      have "session_ok env (snd (bind_res (own_root env sink u) (\<lambda>_ s.
          (Inr (), begin_listening after (s\<lparr>lt_sink := Some sink, lt_callback := Some DispatchSink\<rparr>)))))"
        by (rule bind_res_inv [where I = "session_ok env"])
           (use True u_ok in \<open>auto intro!: owner_ok begin_listening_ok simp: is_listening_def own_root_fields TargetSink\<close>)
      then show ?thesis using True u_ok TargetSink
        by (cases "ensure_listenable_sink env (lt_heap u) sink") (simp_all add: listen_def u)
    next
      case (TargetCallback k)
      have "lt_sink u = None" using True by (simp add: is_listening_def)
      then have "session_ok env (begin_listening after (u\<lparr>lt_sink := None, lt_callback := Some (UserCallback k)\<rparr>))"
        using True u_ok by (intro begin_listening_ok) auto
      moreover have "u\<lparr>lt_sink := None, lt_callback := Some (UserCallback k)\<rparr> = u\<lparr>lt_callback := Some (UserCallback k)\<rparr>"
        using \<open>lt_sink u = None\<close> by simp
      ultimately show ?thesis using True TargetCallback by (simp add: listen_def u)
    qed (use True in simp)
  qed
qed

lemma set_sink_ok:
  assumes "session_ok env s"
  shows "session_ok env (snd (set_sink env sink s))"
proof (cases "sink < length (lt_heap s) \<and> is_listening s \<and> lt_callback s \<noteq> None \<and> Some sink \<noteq> lt_sink s")
  case True
  let ?I = "\<lambda>u. session_ok env u \<and> is_listening u \<and> sink < length (lt_heap u)"
  note step = bind_res_inv [where I = ?I]
  have owned: "?I (snd (own_root env i u))" "?I (snd (disown_root env i u))" if "?I u" for i u
    using that by (auto intro: owner_ok simp: is_listening_def own_root_fields)
  have finish: "?I (u\<lparr>lt_sink := Some sink, lt_callback := Some DispatchSink\<rparr>)" if "?I u" for u
    using that by (auto simp: session_ok_def phase_of_def is_listening_def)
  have "?I (snd (set_sink env sink s))"
    using True assms owned finish unfolding set_sink_def Let_def
    by (auto intro!: step split: option.splits)
  then show ?thesis by blast
qed (auto simp: set_sink_def assms)

lemma client_call_ok: "session_ok env s \<Longrightarrow> session_ok env (run_client_call env call s)"
  by (cases call) (simp_all add: run_client_call_def stop_listening_def stop_listening_ok set_sink_ok)

lemma client_calls_ok: "session_ok env s \<Longrightarrow> session_ok env (fold (run_client_call env) calls s)"
  by (induction calls arbitrary: s) (simp_all add: client_call_ok)

lemma delivered_ok:
  assumes "session_ok env s" "callback = DispatchSink \<longrightarrow> lt_sink s \<noteq> None"
  shows "session_ok env (note_event (Delivered callback packet) s)"
proof -
  have "observe (phase_of s) (Delivered callback packet) = Some (phase_of s)"
    using assms(2) by (cases callback) (auto simp: phase_of_def is_listening_def)
  moreover have "session_ok env (s\<lparr>lt_log := lt_log s @ es\<rparr>)" if "observe_all (phase_of s) es = Some (phase_of s)" for es
    using assms(1) that by (auto simp: session_ok_def observe_all_append phase_of_def is_listening_def)
  ultimately show ?thesis by (simp add: note_event_def)
qed

lemma call_callback_ok:
  assumes "session_ok env s"
  shows "session_ok env (snd (call_callback env callback packet s))"
proof (cases "case callback of UserCallback _ \<Rightarrow> True | DispatchSink \<Rightarrow> (case lt_sink s of
      None \<Rightarrow> False | Some sink \<Rightarrow> le_wants env (lt_heap s) sink (mp_media_type packet) (mp_codec packet))")
  case True
  let ?s = "snd (lask (le_outcome env) (note_event (Delivered callback packet) s))"
  have "session_ok env (note_event (Delivered callback packet) s)"
    using True by (intro delivered_ok [OF assms]) (auto split: option.splits)
  then have "session_ok env ?s" by (subst session_ok_cong) simp_all
  then have "session_ok env (fold (run_client_call env) calls ?s)" for calls by (rule client_calls_ok)
  then show ?thesis using True by (simp add: call_callback_def Let_def case_prod_beta)
next
  case False
  then show ?thesis using assms by (simp add: call_callback_def)
qed

lemma dispatch_packet_ok:
  assumes "session_ok env s"
  shows "session_ok env (snd (dispatch_packet env callback packet s))"
proof -
  have "session_ok env (handle_media_callback_result r u) = session_ok env u" for r u
    by (rule session_ok_cong) (simp_all add: handle_media_callback_result_def)
  then show ?thesis using call_callback_ok [OF assms, of callback packet]
    by (auto simp: dispatch_packet_def stop_listening_ok split: prod.splits callback_result.splits)
qed

lemma dispatch_each_ok: "session_ok env s \<Longrightarrow> session_ok env (dispatch_each env callback packets s)"
proof (induction packets arbitrary: s)
  case (Cons p ps)
  then show ?case using dispatch_packet_ok [OF Cons.prems, of callback p] by (auto split: prod.splits)
qed simp

lemma handle_socket_ok:
  assumes "session_ok env s"
  shows "session_ok env (handle_socket_packets env batch s)"
proof -
  have "session_ok env (snd (lask q s))" for q using assms by (subst session_ok_cong) simp_all
  moreover have "session_ok env (t\<lparr>lt_client := c\<rparr>) = session_ok env t" for t c by (rule session_ok_cong) simp_all
  ultimately show ?thesis
    by (auto simp: handle_socket_packets_def Let_def case_prod_beta dispatch_each_ok split: option.splits sum.splits)
qed

lemma future_done_ok:
  assumes "session_ok env s"
  shows "session_ok env (future_done env error s)"
proof -
  have "session_ok env (s\<lparr>lt_futures := n\<rparr>)" for n using assms by (subst session_ok_cong) simp_all
  then show ?thesis by (auto simp: future_done_def Let_def stop_listening_ok split: option.splits)
qed


section \<open>Sessions refine the lifecycle\<close>

inductive session_step :: "('p, 'd) listen_env \<Rightarrow> ('p, 'd) session \<Rightarrow> ('p, 'd) session \<Rightarrow> bool" for env where
  do_listen: "session_step env s (snd (listen env target after after_ok s))"
| do_set_sink: "session_step env s (snd (set_sink env sink s))"
| do_stop: "session_step env s (snd (stop_listening env s))"
| do_batch: "session_step env s (handle_socket_packets env batch s)"
| do_future: "session_step env s (future_done env error s)"
| do_client: "session_step env s (s\<lparr>lt_client := client\<rparr>)" \<comment> \<open>the sending half, or a control packet\<close>
| do_build: "roots_ok (le_limit env) heap \<Longrightarrow> length (lt_heap s) \<le> length heap \<Longrightarrow> session_step env s (s\<lparr>lt_heap := heap\<rparr>)" \<comment> \<open>the user builds sinks\<close>

definition new_session :: "('p, 'd) client \<Rightarrow> ('p, 'd) session" where
  "new_session client =
     \<lparr>lt_client = client, lt_heap = [], lt_owned = {}, lt_listener = False, lt_callback = None, lt_after = None,
      lt_sink = None, lt_retry_thread = False, lt_futures = 0, lt_log = []\<rparr>"

lemma session_step_ok: "session_step env s t \<Longrightarrow> session_ok env s \<Longrightarrow> session_ok env t"
proof (induction rule: session_step.induct)
  case (do_client s client)
  then show ?case by (subst session_ok_cong) simp_all
next
  case (do_build heap s)
  then show ?case by (force simp: session_ok_def phase_of_def is_listening_def)
qed (simp_all add: listen_ok set_sink_ok stop_listening_def stop_listening_ok handle_socket_ok future_done_ok)

inductive session_reachable :: "('p, 'd) listen_env \<Rightarrow> ('p, 'd) session \<Rightarrow> bool" for env where
  reach_new_session: "roots_ok (le_limit env) heap \<Longrightarrow> session_reachable env ((new_session client)\<lparr>lt_heap := heap\<rparr>)"
| reach_session_step: "session_reachable env s \<Longrightarrow> session_step env s t \<Longrightarrow> session_reachable env t"

lemma reachable_session_ok: "session_reachable env s \<Longrightarrow> session_ok env s"
  by (induction rule: session_reachable.induct)
     (simp_all add: session_step_ok, simp add: session_ok_def phase_of_def is_listening_def new_session_def)

text \<open>
  C9. The receive lifecycle refines its specification. However the user, the callbacks (which may
  stop the session or change its sink while a packet is being handled), failing futures and the
  network are interleaved, the visible events are a behaviour of the automaton \<open>observe\<close>, which is
  in the phase the client reports: sessions do not overlap, each ends by exactly one call of the
  \<open>after\<close> it was started with, and sinks see packets and are cleaned up only within a session.
\<close>

theorem listening_refines_lifecycle:
  assumes "session_reachable env s"
  shows "observe_all Idle (lt_log s) = Some (if is_listening s then Active (lt_after s) else Idle)"
  using reachable_session_ok [OF assms] by (simp add: session_ok_def phase_of_def)

definition sample_listen_env :: "(unit, int list) listen_env" where
  "sample_listen_env =
     \<lparr>le_receive = sample_receive_env, le_limit = 10, le_wants = (\<lambda>_ _ _ _. True),
      le_outcome = (\<lambda>_ _ p. (if mp_sequence p = 1 then [CallStopListening] else [], ReturnsNone)), le_cleanup = (\<lambda>_ _. Inr ())\<rparr>"

definition sample_session :: "(unit, int list) session" where
  "sample_session = new_session (new_client sample_sender)"

lemma roots_ok_Nil: "roots_ok n []"
  by (simp add: roots_ok_def)

lemma sample_connected: "fst (lask (ve_connected (re_send (le_receive sample_listen_env))) s)"
  by (simp add: sample_listen_env_def sample_receive_env_def sample_send_env_def lask_def cask_def vask_def)

theorem listening_refines_lifecycle_witness:
  "observe_all Idle (lt_log (snd (listen sample_listen_env (TargetCallback 0) (Some 7) True sample_session)))
     = Some (Active (Some 7))"
proof -
  let ?s = "snd (listen sample_listen_env (TargetCallback 0) (Some 7) True sample_session)"
  have "session_reachable sample_listen_env sample_session"
    using reach_new_session [of sample_listen_env "[]" "new_client sample_sender"]
    by (simp add: sample_session_def new_session_def roots_ok_Nil)
  then have "session_reachable sample_listen_env ?s" by (rule reach_session_step [OF _ do_listen])
  from listening_refines_lifecycle [OF this] show ?thesis
    using sample_connected [of sample_session]
    by (auto simp: listen_def Let_def case_prod_beta is_listening_def sample_session_def new_session_def begin_listening_def
        note_event_def start_video_nack_retry_thread_def lask_def)
qed


section \<open>Where the lifecycle leaks\<close>

text \<open>
  C37. Packets after the end. A callable that stops the session while it handles a packet is called
  again with the packets that were decoded from the same batch, after \<open>stop_listening\<close> has returned
  and \<open>after\<close> has run: the loop over the batch keeps the callback it started with and never looks
  whether the session is still active.
\<close>

theorem stopped_callback_still_called:
  assumes "is_listening s" and "lt_sink s = None"
    and "\<And>tick. le_outcome env tick (UserCallback k) p = ([CallStopListening], ReturnsNone)"
    and "\<And>tick. le_outcome env tick (UserCallback k) q = ([], ReturnsNone)"
  shows "lt_log (dispatch_each env (UserCallback k) [p, q] s)
    = lt_log s @ [Delivered (UserCallback k) p, Stopped (lt_after s) None, Delivered (UserCallback k) q]"
proof -
  have listening: "is_listening (snd (lask q (note_event e s))) = is_listening s" for q :: "nat \<Rightarrow> 'c" and e
    by (simp add: is_listening_def note_event_def)
  have outcome: "fst (lask (le_outcome env) t) = le_outcome env (sn_tick (cl_send (lt_client t)))" for t
    by (simp add: lask_def Let_def case_prod_beta)
  show ?thesis using assms(1,2)
    by (simp add: dispatch_packet_def call_callback_def Let_def case_prod_beta outcome assms(3,4) run_client_call_def
        stop_listening_def stop_listening_with_def listening handle_media_callback_result_def)
       (simp add: note_event_def)
qed

theorem stopped_callback_still_called_witness:
  "lt_log (dispatch_each sample_listen_env (UserCallback 0)
      [new_media_packet ''audio'' ''opus'' [1] 120 False 1 0 5 None [], new_media_packet ''audio'' ''opus'' [2] 120 False 2 0 5 None []]
      (sample_session\<lparr>lt_callback := Some (UserCallback 0), lt_listener := True, lt_after := Some 7\<rparr>))
    = [Delivered (UserCallback 0) (new_media_packet ''audio'' ''opus'' [1] 120 False 1 0 5 None []), Stopped (Some 7) None,
       Delivered (UserCallback 0) (new_media_packet ''audio'' ''opus'' [2] 120 False 2 0 5 None [])]"
proof -
  have "lt_log (sample_session\<lparr>lt_callback := Some (UserCallback 0), lt_listener := True, lt_after := Some 7\<rparr>) = []"
    by (simp add: sample_session_def new_session_def)
  then show ?thesis
    by (subst stopped_callback_still_called)
       (simp_all add: is_listening_def sample_session_def new_session_def sample_listen_env_def new_media_packet_def)
qed

text \<open>
  C38. Errors of a past session. The exception of an awaitable that a callback returned in an earlier
  session stops the session that is active when it is done, and is reported to that session's
  \<open>after\<close>, although none of its packets failed.
\<close>

theorem stale_future_stops_session:
  assumes "listen env (TargetCallback k) after True s = (Inr (), t)"
  shows "lt_futures t = lt_futures s \<and> is_listening t
    \<and> lt_log (future_done env (Some e) t) = lt_log s @ [Started after, Stopped after (Some e)]
    \<and> \<not> is_listening (future_done env (Some e) t)"
proof -
  let ?u = "snd (lask (ve_connected (re_send (le_receive env))) s)"
  have u: "lt_futures ?u = lt_futures s" by (simp add: lask_def Let_def case_prod_beta)
  have t: "t = begin_listening after (?u\<lparr>lt_callback := Some (UserCallback k)\<rparr>)" "lt_sink ?u = None"
    using assms by (auto simp: listen_def Let_def case_prod_beta is_listening_def split: if_splits)
  then show ?thesis using u
    by (auto simp: begin_listening_def is_listening_def note_event_def start_video_nack_retry_thread_def Let_def
        future_done_def stop_listening_with_def)
qed

theorem stale_future_stops_session_witness:
  "\<exists>t. listen sample_listen_env (TargetCallback 0) (Some 7) True (sample_session\<lparr>lt_futures := 1\<rparr>) = (Inr (), t)
     \<and> lt_futures t = 1
     \<and> lt_log (future_done sample_listen_env (Some RuntimeError) t) = [Started (Some 7), Stopped (Some 7) (Some RuntimeError)]"
proof -
  let ?s = "sample_session\<lparr>lt_futures := 1\<rparr>"
  have "fst (listen sample_listen_env (TargetCallback 0) (Some 7) True ?s) = Inr ()"
    using sample_connected [of ?s]
    by (auto simp: listen_def Let_def case_prod_beta is_listening_def sample_session_def new_session_def)
  then obtain t where "listen sample_listen_env (TargetCallback 0) (Some 7) True ?s = (Inr (), t)"
    by (metis prod.collapse)
  from this stale_future_stops_session [OF this, of RuntimeError] show ?thesis
    by (simp add: sample_session_def new_session_def)
qed

end
