(* ===== verification/FFmpegCommand.thy ===== *)
theory FFmpegCommand
  imports Transcoding Media
begin

text \<open>
  What the FFmpeg sources of \<open>media.py\<close> decide before a process runs: the resolution of the input,
  the values read from a probe, the choice of decoder and encoder, and the command lines of the
  encoder, of the stream preview and of desktop capture.
\<close>

section \<open>Inputs\<close>

text \<open>
  The \<open>source\<close> argument is a path or a stream, the latter known by an identity. The result is
  the stream to pipe, if any, and the input named on the command line.
\<close>

datatype ffmpeg_input = InputPath string | InputStream nat

definition resolve_ffmpeg_source_input :: "ffmpeg_input \<Rightarrow> bool \<Rightarrow> (nat option \<times> string) res" where
  "resolve_ffmpeg_source_input source pipe =
     (if pipe
      then (case source of InputPath _ \<Rightarrow> Inl TypeError | InputStream i \<Rightarrow> Inr (Some i, ''-''))
      else (case source of InputPath p \<Rightarrow> Inr (None, p) | InputStream _ \<Rightarrow> Inl TypeError))"

text \<open>
  The destination of the process's stderr: \<open>None\<close>, a descriptor number, or an object, which has a
  \<open>fileno\<close> or not. \<open>subprocess.PIPE\<close> is \<open>-1\<close>.
\<close>

datatype ffmpeg_stderr = NoStderr | FdStderr int | ObjStderr bool

definition normalize_ffmpeg_stderr :: "ffmpeg_stderr \<Rightarrow> ffmpeg_stderr" where
  "normalize_ffmpeg_stderr stderr = (if stderr = FdStderr (-1) then NoStderr else stderr)"

text \<open>
  \<open>os.path.split\<close> and \<open>os.path.splitext\<close> of the file name on POSIX; \<open>os.path.join\<close> of a
  non-empty directory. Leading dots are not an extension.
\<close>

definition path_split :: "string \<Rightarrow> string \<times> string" where
  "path_split p =
     (let name = rev (takeWhile (\<lambda>c. c \<noteq> CHR ''/'') (rev p));
          head = take (length p - length name) p;
          stripped = rev (dropWhile (\<lambda>c. c = CHR ''/'') (rev head))
      in (if stripped = [] then head else stripped, name))"

definition name_splitext :: "string \<Rightarrow> string \<times> string" where
  "name_splitext name =
     (let ext = rev (takeWhile (\<lambda>c. c \<noteq> CHR ''.'') (rev name));
          stem = take (length name - length ext - 1) name
      in if CHR ''.'' \<in> set name \<and> list_ex (\<lambda>c. c \<noteq> CHR ''.'') stem then (stem, CHR ''.'' # ext) else (name, []))"

definition path_join :: "string \<Rightarrow> string \<Rightarrow> string" where
  "path_join dir name = (if dir \<noteq> [] \<and> last dir = CHR ''/'' then dir @ name else dir @ ''/'' @ name)"

definition ffprobe_executable :: "(string \<Rightarrow> bool) \<Rightarrow> string \<Rightarrow> string" where
  "ffprobe_executable exists executable =
     (let (path, name) = path_split executable; (stem, suffix) = name_splitext name
      in if name \<in> {''ffmpeg'', ''avconv''} then take 2 name @ ''probe''
         else let lower_stem = lower stem
              in if lower_stem \<in> {''ffmpeg'', ''avconv''}
                 then let probe_name = take 2 lower_stem @ ''probe'' @ suffix
                      in if path = [] then probe_name
                         else let probe_path = path_join path probe_name
                              in if exists probe_path then probe_path else executable
                 else executable)"


section \<open>Values of a probe\<close>

text \<open>
  What a probe may answer with: Python values of the kinds \<open>int()\<close> and \<open>float()\<close> tell apart. A
  decimal text beyond the range of a double is outside the model.
\<close>

datatype pv = PvNone | PvInt int | PvFloat pyfloat | PvStr string | PvOther

definition is_digit :: "char \<Rightarrow> bool" where
  "is_digit c \<longleftrightarrow> (let n = of_char c :: nat in 48 \<le> n \<and> n \<le> 57)"

definition digit_value :: "char \<Rightarrow> int" where
  "digit_value c = of_char c - 48"

text \<open>Digits with single underscores between them, as \<open>int()\<close> and \<open>float()\<close> read them.\<close>

fun digit_group :: "bool \<Rightarrow> int \<Rightarrow> string \<Rightarrow> int option" where
  "digit_group after acc [] = (if after then Some acc else None)"
| "digit_group after acc (c # cs) =
     (if is_digit c then digit_group True (10 * acc + digit_value c) cs
      else if c = CHR ''_'' \<and> after \<and> cs \<noteq> [] then digit_group False acc cs
      else None)"

definition split_sign :: "string \<Rightarrow> bool \<times> string" where
  "split_sign s =
     (case s of
        c # cs \<Rightarrow> if c = CHR ''-'' then (True, cs) else if c = CHR ''+'' then (False, cs) else (False, s)
      | [] \<Rightarrow> (False, s))"

definition parse_int :: "string \<Rightarrow> int option" where
  "parse_int s =
     (let (neg, ds) = split_sign (strip s)
      in map_option (\<lambda>n. if neg then - n else n) (digit_group False 0 ds))"

datatype float_value = Finite pyfloat | Infinite bool | NaN \<comment> \<open>\<open>Infinite True\<close> is positive\<close>

definition count_digits :: "string \<Rightarrow> nat" where
  "count_digits s = length (filter is_digit s)"

text \<open>Mantissa and fraction, either of which may be empty, and an optional exponent.\<close>

definition parse_decimal :: "string \<Rightarrow> pyfloat option" where
  "parse_decimal s =
     (let mantissa = takeWhile (\<lambda>c. c \<notin> {CHR ''e'', CHR ''E''}) s;
          exponent = drop (length mantissa) s;
          whole = takeWhile (\<lambda>c. c \<noteq> CHR ''.'') mantissa;
          fraction = drop (length whole + 1) mantissa;
          digits = (\<lambda>ds. if ds = [] then Some 0 else digit_group False 0 ds)
      in if whole = [] \<and> fraction = [] then None
         else case (digits whole, digits fraction) of
           (Some w, Some f) \<Rightarrow>
             let m = of_int w + of_int f / 10 ^ count_digits fraction
             in (case exponent of
                   [] \<Rightarrow> Some m
                 | _ # e \<Rightarrow>
                     (let (neg, ds) = split_sign e
                      in map_option (\<lambda>n. if neg then m / 10 ^ nat n else m * 10 ^ nat n) (digit_group False 0 ds)))
         | _ \<Rightarrow> None)"

definition parse_float :: "string \<Rightarrow> float_value option" where
  "parse_float text =
     (let (neg, s) = split_sign (strip text)
      in if lower s \<in> {''inf'', ''infinity''} then Some (Infinite (\<not> neg))
         else if lower s = ''nan'' then Some NaN
         else map_option (\<lambda>x. Finite (if neg then - x else x)) (parse_decimal s))"

definition int_or_none :: "pv \<Rightarrow> int option" where
  "int_or_none v =
     (case v of PvInt n \<Rightarrow> Some n | PvFloat x \<Rightarrow> Some (py_trunc x) | PvStr s \<Rightarrow> parse_int s | _ \<Rightarrow> None)"

definition bitrate_bps_or_none :: "pv \<Rightarrow> int option" where
  "bitrate_bps_or_none v =
     (case int_or_none v of None \<Rightarrow> None | Some b \<Rightarrow> if b \<noteq> 0 \<and> b > 0 then Some b else None)"

definition py_falsy :: "pv \<Rightarrow> bool" where
  "py_falsy v \<longleftrightarrow> (case v of PvNone \<Rightarrow> True | PvInt n \<Rightarrow> n = 0 | PvFloat x \<Rightarrow> x = 0 | PvStr s \<Rightarrow> s = [] | PvOther \<Rightarrow> False)"

text \<open>Division of floats by a divisor other than zero.\<close>

definition float_divide :: "float_value \<Rightarrow> float_value \<Rightarrow> float_value" where
  "float_divide a b =
     (case (a, b) of
        (Finite x, Finite y) \<Rightarrow> Finite (x / y)
      | (Infinite p, Finite y) \<Rightarrow> Infinite (p = (y > 0))
      | (Finite _, Infinite _) \<Rightarrow> Finite 0
      | _ \<Rightarrow> NaN)"

text \<open>\<open>max(1, round(fps)) if fps > 0 else None\<close>: rounding an infinity raises.\<close>

definition rounded_fps :: "float_value \<Rightarrow> int option res" where
  "rounded_fps v =
     (case v of
        Finite x \<Rightarrow> Inr (if x > 0 then Some (max 1 (py_round x)) else None)
      | Infinite positive \<Rightarrow> if positive then Inl OverflowError else Inr None
      | NaN \<Rightarrow> Inr None)"

definition fps_or_none :: "pv \<Rightarrow> int option res" where
  "fps_or_none v =
     (if py_falsy v then Inr None
      else case v of
          PvStr s \<Rightarrow>
            if CHR ''/'' \<in> set s
            then let numerator = takeWhile (\<lambda>c. c \<noteq> CHR ''/'') s; denominator = drop (length numerator + 1) s
                 in (case parse_float denominator of
                       None \<Rightarrow> Inr None
                     | Some d \<Rightarrow>
                         if d = Finite 0 then Inr None
                         else (case parse_float numerator of
                                 None \<Rightarrow> Inr None
                               | Some n \<Rightarrow> rounded_fps (float_divide n d)))
            else (case parse_float s of None \<Rightarrow> Inr None | Some x \<Rightarrow> rounded_fps x)
        | PvInt n \<Rightarrow> rounded_fps (Finite (of_int n))
        | PvFloat x \<Rightarrow> rounded_fps (Finite x)
        | _ \<Rightarrow> Inr None)"

section \<open>Probing\<close>

datatype probe_result =
  ProbeNone | ProbeInfo VideoProbeInfo | ProbeMap "(string, pv) odict" | ProbeItems "pv list" | ProbeOther

definition no_probe_info :: VideoProbeInfo where
  "no_probe_info = \<lparr>vp_width = None, vp_height = None, vp_fps = None, vp_bitrate = None, vp_codec = None\<rparr>"

text \<open>\<open>_video_codec_or_none\<close> on a probe value: the text of a number is no codec name.\<close>

definition pv_codec :: "pv \<Rightarrow> string option" where
  "pv_codec v = (case v of PvStr s \<Rightarrow> video_codec_or_none (Some s) | _ \<Rightarrow> None)"

definition pv_get :: "(string, pv) odict \<Rightarrow> string \<Rightarrow> pv" where
  "pv_get d k = (case map_of d k of None \<Rightarrow> PvNone | Some v \<Rightarrow> v)"

definition pv_or :: "pv \<Rightarrow> pv \<Rightarrow> pv" where
  "pv_or a b = (if py_falsy a then b else a)"

definition probe_info :: "pv \<Rightarrow> pv \<Rightarrow> pv \<Rightarrow> pv \<Rightarrow> pv \<Rightarrow> VideoProbeInfo res" where
  "probe_info width height fps bitrate codec =
     map_res (\<lambda>f. \<lparr>vp_width = int_or_none width, vp_height = int_or_none height, vp_fps = f,
                    vp_bitrate = bitrate_bps_or_none bitrate, vp_codec = pv_codec codec\<rparr>)
       (fps_or_none fps)"

definition coerce_video_probe_info :: "probe_result \<Rightarrow> VideoProbeInfo res" where
  "coerce_video_probe_info v =
     (case v of
        ProbeNone \<Rightarrow> Inr no_probe_info
      | ProbeInfo info \<Rightarrow> Inr info
      | ProbeMap d \<Rightarrow>
          probe_info (pv_get d ''width'') (pv_get d ''height'') (pv_get d ''fps'') (pv_get d ''bitrate'') (pv_get d ''codec'')
      | ProbeItems [width, height, fps, bitrate] \<Rightarrow> probe_info width height fps bitrate PvNone
      | ProbeItems [width, height, fps, bitrate, codec] \<Rightarrow> probe_info width height fps bitrate codec
      | _ \<Rightarrow> Inl TypeError)"

text \<open>
  The two processes: \<open>check_output\<close> of ffprobe gives the \<open>streams\<close> of the JSON document it
  prints (\<open>None\<close> for no output), \<open>communicate\<close> the lines of ffmpeg's banner; either may raise.
\<close>

record probe_host =
  ph_exists :: "string \<Rightarrow> bool"
  ph_check_output :: "string list \<Rightarrow> (string, pv) odict list option res"
  ph_communicate :: "string list \<Rightarrow> string list res"

definition probe_video_native :: "probe_host \<Rightarrow> string \<Rightarrow> string \<Rightarrow> VideoProbeInfo res" where
  "probe_video_native host source executable =
     and_then (ph_check_output host
         [ffprobe_executable (ph_exists host) executable, ''-v'', ''quiet'', ''-print_format'', ''json'',
          ''-show_streams'', ''-select_streams'', ''v:0'', source])
       (\<lambda>output. case output of
           Some (stream # _) \<Rightarrow>
             probe_info (pv_get stream ''width'') (pv_get stream ''height'')
               (pv_or (pv_get stream ''avg_frame_rate'') (pv_get stream ''r_frame_rate''))
               (pv_get stream ''bit_rate'')
               (pv_or (pv_get stream ''codec_name'') (pv_get stream ''codec_tag_string''))
         | _ \<Rightarrow> Inr no_probe_info)"

text \<open>
  \<open>re.search\<close>: the leftmost position at which the pattern matches. Each pattern below is
  deterministic at a position, given the character before it and the rest of the line.
\<close>

fun re_search :: "(char option \<Rightarrow> string \<Rightarrow> 'a option) \<Rightarrow> char option \<Rightarrow> string \<Rightarrow> 'a option" where
  "re_search m before [] = m before []"
| "re_search m before (c # cs) =
     (case m before (c # cs) of Some x \<Rightarrow> Some x | None \<Rightarrow> re_search m (Some c) cs)"

definition strip_prefix :: "string \<Rightarrow> string \<Rightarrow> string option" where
  "strip_prefix p s = (if take (length p) s = p then Some (drop (length p) s) else None)"

definition digits_value :: "string \<Rightarrow> int" where
  "digits_value ds = foldl (\<lambda>n c. 10 * n + digit_value c) 0 ds"

text \<open>\<open>Video:\s*([^,\s]+)\<close>.\<close>

definition match_codec :: "char option \<Rightarrow> string \<Rightarrow> string option" where
  "match_codec before s =
     (case strip_prefix ''Video:'' s of
        None \<Rightarrow> None
      | Some rest \<Rightarrow>
          let name = takeWhile (\<lambda>c. c \<noteq> CHR '','' \<and> \<not> is_space c) (dropWhile is_space rest)
          in if name = [] then None else Some name)"

text \<open>\<open>(?<![A-Z])(\d{2,5})x(\d{2,5})(?:[,\s]|$)\<close>.\<close>

definition match_resolution :: "char option \<Rightarrow> string \<Rightarrow> (int \<times> int) option" where
  "match_resolution before s =
     (let ws = takeWhile is_digit s; rest = drop (length ws) s;
          hs = takeWhile is_digit (tl rest); after = drop (length hs) (tl rest)
      in if (case before of None \<Rightarrow> True | Some c \<Rightarrow> \<not> (65 \<le> (of_char c :: nat) \<and> (of_char c :: nat) \<le> 90))
            \<and> 2 \<le> length ws \<and> length ws \<le> 5 \<and> take 1 rest = ''x'' \<and> 2 \<le> length hs \<and> length hs \<le> 5
            \<and> (after = [] \<or> hd after = CHR '','' \<or> is_space (hd after))
         then Some (digits_value ws, digits_value hs) else None)"

text \<open>\<open>(\d+(?:\.\d+)?) fps\<close> and \<open>(\d+) kb/s\<close>.\<close>

definition match_fps :: "char option \<Rightarrow> string \<Rightarrow> string option" where
  "match_fps before s =
     (let ds = takeWhile is_digit s; rest = drop (length ds) s;
          fs = (if take 1 rest = ''.'' then takeWhile is_digit (tl rest) else []);
          number = (if fs = [] then ds else ds @ ''.'' @ fs)
      in if ds \<noteq> [] \<and> take 4 (drop (length number) s) = '' fps'' then Some number else None)"

definition match_kbps :: "char option \<Rightarrow> string \<Rightarrow> int option" where
  "match_kbps before s =
     (let ds = takeWhile is_digit s
      in if ds \<noteq> [] \<and> take 5 (drop (length ds) s) = '' kb/s'' then Some (digits_value ds) else None)"

definition probe_banner :: "string list \<Rightarrow> VideoProbeInfo res" where
  "probe_banner lines =
     (let video_line = (case find (str_contains '' Video: '') lines of None \<Rightarrow> [] | Some line \<Rightarrow> line);
          codec = re_search match_codec None video_line;
          resolution = re_search match_resolution None video_line;
          fps = re_search match_fps None video_line;
          bitrate = re_search match_kbps None video_line
      in map_res (\<lambda>f. \<lparr>vp_width = map_option fst resolution, vp_height = map_option snd resolution, vp_fps = f,
                        vp_bitrate = map_option (\<lambda>b. b * 1000) bitrate, vp_codec = video_codec_or_none codec\<rparr>)
           (case fps of None \<Rightarrow> Inr None | Some s \<Rightarrow> fps_or_none (PvStr s)))"

definition probe_video_fallback :: "probe_host \<Rightarrow> string \<Rightarrow> string \<Rightarrow> VideoProbeInfo res" where
  "probe_video_fallback host source executable =
     and_then (ph_communicate host [executable, ''-hide_banner'', ''-i'', source]) probe_banner"

datatype probe_method =
  MethodNone | MethodName string | MethodFunction "string \<Rightarrow> string \<Rightarrow> probe_result res" | MethodOther

text \<open>
  \<open>probe_video\<close>: an invalid method raises, every exception of a probe is swallowed. The
  callable methods answer with a \<open>probe_result\<close>, the built-in ones with a \<open>VideoProbeInfo\<close>.
\<close>

definition try_probe :: "(string \<Rightarrow> string \<Rightarrow> probe_result res) \<Rightarrow> string \<Rightarrow> string \<Rightarrow> VideoProbeInfo res" where
  "try_probe probe source executable = and_then (probe source executable) coerce_video_probe_info"

definition built_in_probe ::
  "(string \<Rightarrow> string \<Rightarrow> VideoProbeInfo res) \<Rightarrow> string \<Rightarrow> string \<Rightarrow> probe_result res"
where
  "built_in_probe f source executable = map_res ProbeInfo (f source executable)"

definition probe_video :: "probe_host \<Rightarrow> string \<Rightarrow> probe_method \<Rightarrow> string \<Rightarrow> VideoProbeInfo res" where
  "probe_video host source raw_method executable =
     (let native = built_in_probe (probe_video_native host);
          fallback = built_in_probe (probe_video_fallback host);
          m = (case raw_method of MethodNone \<Rightarrow> MethodName ''native''
                 | MethodName [] \<Rightarrow> MethodName ''native'' | other \<Rightarrow> other);
          choice = (case m of
              MethodName name \<Rightarrow>
                if name = ''native'' then Inr (native, Some fallback)
                else if name = ''fallback'' then Inr (fallback, None)
                else Inl AttributeError
            | MethodFunction f \<Rightarrow> Inr (f, Some fallback)
            | _ \<Rightarrow> Inl TypeError)
      in case choice of
           Inl e \<Rightarrow> Inl e
         | Inr (probe, backup) \<Rightarrow>
             (case try_probe probe source executable of
                Inr info \<Rightarrow> Inr info
              | Inl _ \<Rightarrow>
                  (case backup of
                     None \<Rightarrow> Inr no_probe_info
                   | Some f \<Rightarrow>
                       (case try_probe f source executable of
                          Inr info \<Rightarrow> Inr info | Inl _ \<Rightarrow> Inr no_probe_info))))"

text \<open>\<open>x if x is not None else y\<close> and \<open>x or y\<close> on optional integers.\<close>

definition given :: "int option \<Rightarrow> int \<Rightarrow> int" where
  "given v d = (case v of None \<Rightarrow> d | Some x \<Rightarrow> x)"

definition int_or :: "int option \<Rightarrow> int \<Rightarrow> int" where
  "int_or v d = (case v of None \<Rightarrow> d | Some x \<Rightarrow> if x = 0 then d else x)"

definition resolve_video_probe_config ::
  "VideoProbeInfo \<Rightarrow> string option \<Rightarrow> int option \<Rightarrow> int option \<Rightarrow> int option \<Rightarrow> int option \<Rightarrow> VideoConfig res"
where
  "resolve_video_probe_config probe codec width height fps bitrate =
     and_then (case codec of None \<Rightarrow> Inr (vp_codec probe) | Some c \<Rightarrow> map_res Some (coerce_video_codec c))
       (\<lambda>video_codec.
          let video_width = (if width \<noteq> None then width else vp_width probe);
              video_height = (if height \<noteq> None then height else vp_height probe)
          in case (video_codec, video_width, video_height) of
               (None, _, _) \<Rightarrow> Inl ClientException
             | (Some c, Some w, Some h) \<Rightarrow>
                 if w \<le> 0 \<or> h \<le> 0 then Inl ClientException
                 else
                   let video_fps = given fps (int_or (vp_fps probe) 30);
                       video_bitrate = given bitrate
                         (int_or (vp_bitrate probe) (native_video_bitrate (Some h) (Some video_fps)))
                   in Inr \<lparr>vc_codec = c, vc_width = w, vc_height = h, vc_fps = video_fps, vc_bitrate = video_bitrate\<rparr>
             | _ \<Rightarrow> Inl ClientException)"

definition probe_video_config ::
  "probe_host \<Rightarrow> string \<Rightarrow> string option \<Rightarrow> int option \<Rightarrow> int option \<Rightarrow> int option \<Rightarrow> int option
     \<Rightarrow> probe_method \<Rightarrow> string \<Rightarrow> (VideoProbeInfo \<times> VideoConfig) res"
where
  "probe_video_config host source codec width height fps bitrate m executable =
     and_then (if codec = None \<or> width = None \<or> height = None \<or> fps = None \<or> bitrate = None
               then probe_video host source m executable else Inr no_probe_info)
       (\<lambda>probe. map_res (Pair probe) (resolve_video_probe_config probe codec width height fps bitrate))"

section \<open>Choosing decoder and encoder\<close>

text \<open>
  The questions put to FFmpeg, and the module's caches of the answers: the codec lists of an
  executable and the encoders found usable.
\<close>

record ffmpeg_host =
  fh_run :: "string list \<Rightarrow> (int \<times> string list) option"
  fh_succeeds :: "string list \<Rightarrow> bool"

record ffmpeg_caches =
  fc_names :: "(string, string set) odict \<times> (string, string set) odict"
  fc_usable :: "(usable_key, bool) odict"

definition codec_names :: "ffmpeg_host \<Rightarrow> string \<Rightarrow> string \<Rightarrow> ffmpeg_caches \<Rightarrow> string set \<times> ffmpeg_caches" where
  "codec_names host executable kind caches =
     (let (names, tables) = ffmpeg_video_codec_names (fh_run host) executable kind (fc_names caches)
      in (names, caches\<lparr>fc_names := tables\<rparr>))"

definition encoder_usable ::
  "ffmpeg_host \<Rightarrow> string \<Rightarrow> string \<Rightarrow> string \<Rightarrow> int \<Rightarrow> int \<Rightarrow> VideoTranscoderConfig \<Rightarrow> ffmpeg_caches
     \<Rightarrow> bool res \<times> ffmpeg_caches"
where
  "encoder_usable host executable codec encoder width height transcoder caches =
     (let (usable, table) = ffmpeg_encoder_is_usable (fh_succeeds host) executable codec encoder width height
            (Some transcoder) (fc_usable caches)
      in (usable, caches\<lparr>fc_usable := table\<rparr>))"

definition select_video_decoder ::
  "ffmpeg_host \<Rightarrow> string \<Rightarrow> string \<Rightarrow> VideoTranscoderConfig \<Rightarrow> ffmpeg_caches \<Rightarrow> string option res \<times> ffmpeg_caches"
where
  "select_video_decoder host source_codec executable transcoder caches =
     (case tc_decoder transcoder of
        None \<Rightarrow> (Inr None, caches)
      | Some selection \<Rightarrow>
          bind_res (coerce_video_codec source_codec, caches) (\<lambda>codec caches.
          bind_res (resolve_transcoder_codec codec selection, caches) (\<lambda>decoder caches.
            let (available, caches) = codec_names host executable ''decoders'' caches
            in if tc_validate_decoder transcoder \<and> available \<noteq> {} \<and> decoder \<notin> available
               then (Inl ClientException, caches) else (Inr (Some decoder), caches))))"

fun first_usable_encoder ::
  "ffmpeg_host \<Rightarrow> string \<Rightarrow> string \<Rightarrow> int \<Rightarrow> int \<Rightarrow> VideoTranscoderConfig \<Rightarrow> string set \<Rightarrow> string list
     \<Rightarrow> ffmpeg_caches \<Rightarrow> string res \<times> ffmpeg_caches"
where
  "first_usable_encoder host executable codec width height transcoder available [] caches =
     (Inl ClientException, caches)"
| "first_usable_encoder host executable codec width height transcoder available (encoder # rest) caches =
     (if encoder \<notin> available
      then first_usable_encoder host executable codec width height transcoder available rest caches
      else if \<not> tc_validate_encoder transcoder then (Inr encoder, caches)
      else bind_res (encoder_usable host executable codec encoder width height transcoder caches)
        (\<lambda>usable caches.
           if usable then (Inr encoder, caches)
           else first_usable_encoder host executable codec width height transcoder available rest caches))"

definition lookup_codec :: "(string \<times> 'a) list \<Rightarrow> string \<Rightarrow> 'a res" where
  "lookup_codec table codec = (case map_of table codec of None \<Rightarrow> Inl KeyError | Some v \<Rightarrow> Inr v)"

definition select_video_encoder ::
  "ffmpeg_host \<Rightarrow> string \<Rightarrow> string \<Rightarrow> int \<Rightarrow> int \<Rightarrow> VideoTranscoderConfig \<Rightarrow> ffmpeg_caches
     \<Rightarrow> string res \<times> ffmpeg_caches"
where
  "select_video_encoder host raw_codec executable width height transcoder caches =
     bind_res (coerce_video_codec raw_codec, caches) (\<lambda>codec caches.
       let (available, caches) = codec_names host executable ''encoders'' caches
       in case tc_encoder transcoder of
            Some selection \<Rightarrow>
              bind_res (resolve_transcoder_codec codec selection, caches) (\<lambda>encoder caches.
                if tc_validate_encoder transcoder \<and> available \<noteq> {} \<and> encoder \<notin> available
                then (Inl ClientException, caches)
                else if \<not> tc_validate_encoder transcoder then (Inr encoder, caches)
                else bind_res (encoder_usable host executable codec encoder width height transcoder caches)
                  (\<lambda>usable caches. (if usable then Inr encoder else Inl ClientException, caches)))
          | None \<Rightarrow>
              bind_res (lookup_codec (if tc_prefer_hardware transcoder then VIDEO_ENCODER_PRIORITY
                                      else VIDEO_SOFTWARE_ENCODER_PRIORITY) codec, caches) (\<lambda>candidates caches.
                if available \<noteq> {}
                then first_usable_encoder host executable codec width height transcoder available candidates caches
                else (lookup_codec VIDEO_DEFAULT_ENCODERS codec, caches)))"


section \<open>Command lines\<close>

text \<open>The keyword arguments that \<open>_spawn_from_input\<close> and \<open>_ffmpeg_command\<close> share.\<close>

record video_request =
  rq_codec :: string
  rq_width :: int
  rq_height :: int
  rq_fps :: int
  rq_bitrate :: int
  rq_executable :: string
  rq_input_args :: "string list"
  rq_before_options :: argv
  rq_options :: argv
  rq_source_codec :: "string option"
  rq_transcoder :: "VideoTranscoderConfig option"
  rq_use_decoder :: bool

definition nvenc_rate_control :: "string \<Rightarrow> int \<Rightarrow> int \<Rightarrow> string list" where
  "nvenc_rate_control encoder bitrate fps =
     (if encoder \<notin> set NVENC_ENCODERS then []
      else let bitrate_k = max 1 (bitrate div 1000);
               frame_budget = of_int bitrate / 8 / of_int (max 1 fps);
               buffer_k = max 64 (py_round (frame_budget * 4 / 1000))
           in [''-rc'', ''cbr'', ''-maxrate'', str_of_int bitrate_k @ ''k'', ''-bufsize'', str_of_int buffer_k @ ''k'',
               ''-multipass'', ''disabled'']
              @ (if encoder \<in> set NVENC_H26X_ENCODERS then [''-strict_gop'', ''1''] else []))"

definition sync_args :: "string list \<Rightarrow> string list \<Rightarrow> int \<Rightarrow> string list" where
  "sync_args output_args output_options fps =
     (if list_ex (\<lambda>opt. opt \<in> set output_args \<or> opt \<in> set output_options) [''-fps_mode'', ''-vsync''] \<or> fps \<le> 60
      then [] else [''-vsync'', ''passthrough''])"

text \<open>
  The argument list once decoder and encoder are chosen, each piece in the order in which it is
  computed: an earlier one that raises hides the later ones.
\<close>

definition command_line ::
  "string \<Rightarrow> string \<Rightarrow> string option \<Rightarrow> VideoTranscoderConfig \<Rightarrow> video_request \<Rightarrow> bool \<Rightarrow> string list res"
where
  "command_line codec encoder decoder config rq pipe =
     and_then (argv_options (rq_before_options rq)) (\<lambda>before.
     and_then (argv_options (tc_input_options config)) (\<lambda>input.
     and_then (video_filtergraph config (rq_width rq) (rq_height rq) (rq_fps rq) codec) (\<lambda>filtergraph.
     and_then (argv_options (rq_options rq)) (\<lambda>output_args.
     and_then (argv_options (tc_output_options config)) (\<lambda>output_options.
     and_then (video_encoder_args codec encoder (rq_fps rq)) (\<lambda>encoder_args.
     and_then (argv_options (tc_encoder_options config)) (\<lambda>encoder_options.
     and_then (video_bitstream_filter_args codec (Some encoder)) (\<lambda>bitstream_filter.
     and_then (lookup_codec VIDEO_OUTPUT_FORMAT codec) (\<lambda>format.
       Inr ([rq_executable rq, ''-hide_banner'', ''-loglevel'', ''warning'']
            @ (if pipe then [] else [''-nostdin''])
            @ before @ input
            @ (case decoder of None \<Rightarrow> [] | Some d \<Rightarrow> [''-c:v'', d])
            @ rq_input_args rq @ [''-an'']
            @ (if filtergraph \<noteq> [] then [''-vf'', filtergraph] else [])
            @ [''-b:v'', str_of_int (max 1 (rq_bitrate rq div 1000)) @ ''k'']
            @ encoder_args
            @ nvenc_rate_control encoder (rq_bitrate rq) (rq_fps rq)
            @ encoder_options
            @ sync_args output_args output_options (rq_fps rq)
            @ output_args @ output_options @ bitstream_filter
            @ [''-f'', format, ''pipe:1'']))))))))))"

definition ffmpeg_command ::
  "ffmpeg_host \<Rightarrow> video_request \<Rightarrow> bool \<Rightarrow> ffmpeg_caches \<Rightarrow> string list res \<times> ffmpeg_caches"
where
  "ffmpeg_command host rq pipe caches =
     bind_res (coerce_video_codec (rq_codec rq), caches) (\<lambda>codec caches.
       let config = (case rq_transcoder rq of None \<Rightarrow> default_transcoder | Some c \<Rightarrow> c);
           decoder_codec = (case rq_source_codec rq of None \<Rightarrow> codec | Some c \<Rightarrow> if c = [] then codec else c)
       in bind_res (select_video_encoder host codec (rq_executable rq) (rq_width rq) (rq_height rq) config caches)
            (\<lambda>encoder caches.
          bind_res (if rq_use_decoder rq then select_video_decoder host decoder_codec (rq_executable rq) config caches
                    else (Inr None, caches))
            (\<lambda>decoder caches. (command_line codec encoder decoder config rq pipe, caches))))"

text \<open>The size of a stream preview, and its command.\<close>

definition preview_size :: "int \<Rightarrow> int \<Rightarrow> int \<times> int" where
  "preview_size width height =
     (let ratio = (if width > 0 \<and> height > 0 then min (512 / of_int width) (288 / of_int height) else 1 :: pyfloat)
      in (max 1 (py_round (of_int width * ratio)), max 1 (py_round (of_int height * ratio))))"

definition preview_ffmpeg_command :: "int \<Rightarrow> int \<Rightarrow> string \<Rightarrow> string list \<Rightarrow> argv \<Rightarrow> string list res" where
  "preview_ffmpeg_command width height executable input_args before_options =
     (let (preview_width, preview_height) = preview_size width height
      in map_res (\<lambda>before.
           [executable, ''-hide_banner'', ''-loglevel'', ''warning'', ''-nostdin''] @ before @ input_args
           @ [''-frames:v'', ''1'', ''-vf'',
              ''scale='' @ str_of_int preview_width @ '':'' @ str_of_int preview_height
                @ '':flags=fast_bilinear,format=yuvj420p'',
              ''-q:v'', ''5'', ''-f'', ''image2pipe'', ''-vcodec'', ''mjpeg'', ''pipe:1''])
         (argv_options before_options))"


section \<open>Desktop capture\<close>

text \<open>The platform: \<open>sys.platform\<close>, the \<open>DISPLAY\<close> variable, and the native capture source.\<close>

record desktop_source =
  ds_width :: int
  ds_height :: int
  ds_pixel_format :: string

record platform =
  pf_name :: string
  pf_display :: "string option"
  pf_capture :: "int \<Rightarrow> int \<Rightarrow> desktop_source option" \<comment> \<open>\<open>DesktopFrameSource(output_index, fps)\<close>, when it opens\<close>
  pf_nv12 :: bool \<comment> \<open>\<open>set_pixel_format('nv12')\<close> is accepted\<close>

definition desktop_input_args :: "platform \<Rightarrow> int \<Rightarrow> int \<Rightarrow> int \<Rightarrow> string option \<Rightarrow> string list res" where
  "desktop_input_args pf width height fps display =
     (if pf_name pf = ''win32'' then Inr [''-f'', ''gdigrab'', ''-framerate'', str_of_int fps, ''-i'', ''desktop'']
      else if pf_name pf = ''linux'' then
        Inr [''-f'', ''x11grab'', ''-framerate'', str_of_int fps, ''-video_size'',
             str_of_int width @ ''x'' @ str_of_int height, ''-i'',
             (case display of Some d \<Rightarrow> d
              | None \<Rightarrow> (case pf_display pf of None \<Rightarrow> '':0.0'' | Some d \<Rightarrow> d))]
      else Inl RuntimeError)"

definition native_desktop_capture_args ::
  "platform \<Rightarrow> int \<Rightarrow> int \<Rightarrow> (string list \<times> desktop_source) res"
where
  "native_desktop_capture_args pf fps output_index =
     (if pf_name pf \<noteq> ''win32'' then Inl ClientException
      else case pf_capture pf output_index fps of
          None \<Rightarrow> Inl ClientException
        | Some source \<Rightarrow>
            let nv12 = (ds_width source mod 2 = 0 \<and> ds_height source mod 2 = 0 \<and> pf_nv12 pf);
                source = (if nv12 then source\<lparr>ds_pixel_format := ''nv12''\<rparr> else source);
                pixel_format = (if nv12 then ''nv12'' else ''bgra'')
            in Inr ([''-f'', ''rawvideo'', ''-pix_fmt'', pixel_format, ''-video_size'',
                     str_of_int (ds_width source) @ ''x'' @ str_of_int (ds_height source), ''-framerate'', str_of_int fps,
                     ''-i'', ''-''], source))"

section \<open>Properties\<close>

lemma py_round_mono_le: "x \<le> of_int n \<Longrightarrow> py_round x \<le> n"
  by (auto simp: py_round_def Let_def floor_le_iff le_floor_iff)

text \<open>
  A preview of a picture of any size fits the box of 512 by 288 pixels, has at least one pixel in
  each direction, and fills the box in one of them.
\<close>

theorem preview_fits_box:
  assumes "0 < width" "0 < height" "preview_size width height = (w, h)"
  shows "1 \<le> w \<and> w \<le> 512 \<and> 1 \<le> h \<and> h \<le> 288 \<and> (w = 512 \<or> h = 288)"
proof -
  define r :: pyfloat where "r = min (512 / of_int width) (288 / of_int height)"
  have wh: "w = max 1 (py_round (of_int width * r))" "h = max 1 (py_round (of_int height * r))"
    using assms by (auto simp: preview_size_def r_def Let_def)
  have "of_int width * r \<le> of_int 512" "of_int height * r \<le> of_int 288"
    using assms(1,2) by (auto simp: r_def min_def field_simps)
  then have "py_round (of_int width * r) \<le> 512" "py_round (of_int height * r) \<le> 288"
    by (blast intro: py_round_mono_le)+
  moreover have "of_int width * r = of_int 512 \<or> of_int height * r = of_int 288"
    using assms(1,2) by (auto simp: r_def min_def)
  then have "py_round (of_int width * r) = 512 \<or> py_round (of_int height * r) = 288"
    by (metis py_round_of_int)
  ultimately show ?thesis by (auto simp: wh)
qed

theorem preview_fits_box_witness: "preview_size 1920 1080 = (512, 288)"
proof -
  have "preview_size 1920 1080 = (512, 288)" by code_simp
  with preview_fits_box [OF _ _ this] show ?thesis by simp
qed

lemma fps_or_none_pos: "fps_or_none v = Inr (Some f) \<Longrightarrow> 1 \<le> f"
  by (auto simp: fps_or_none_def rounded_fps_def Let_def split: if_splits pv.splits option.splits float_value.splits)

lemma video_codec_or_none_supported: "video_codec_or_none v = Some c \<Longrightarrow> c \<in> set SUPPORTED_VIDEO_CODECS"
proof -
  assume "video_codec_or_none v = Some c"
  then have "c \<in> snd ` set VIDEO_CODEC_ALIASES"
    by (auto simp: video_codec_or_none_def Let_def split: option.splits if_splits dest!: map_of_SomeD intro: rev_image_eqI)
  moreover have "snd ` set VIDEO_CODEC_ALIASES \<subseteq> set SUPPORTED_VIDEO_CODECS"
    by code_simp
  ultimately show ?thesis by blast
qed

definition probe_typed :: "VideoProbeInfo \<Rightarrow> bool" where
  "probe_typed p \<longleftrightarrow> (case vp_fps p of None \<Rightarrow> True | Some f \<Rightarrow> 1 \<le> f)
     \<and> (case vp_bitrate p of None \<Rightarrow> True | Some b \<Rightarrow> 0 \<le> b)
     \<and> (case vp_codec p of None \<Rightarrow> True | Some c \<Rightarrow> c \<in> set SUPPORTED_VIDEO_CODECS)"

lemma probe_info_typed: "probe_info w h f b c = Inr p \<Longrightarrow> probe_typed p"
  by (cases "fps_or_none f")
     (auto simp: probe_info_def probe_typed_def map_res_def pv_codec_def bitrate_bps_or_none_def
       dest!: fps_or_none_pos video_codec_or_none_supported split: option.splits pv.splits if_splits)

lemma digit_value_bounds: "is_digit c \<Longrightarrow> 0 \<le> digit_value c \<and> digit_value c \<le> 9"
proof -
  have "(of_char c :: int) = int (of_char c)" by (simp only: of_nat_of_char)
  then show "is_digit c \<Longrightarrow> 0 \<le> digit_value c \<and> digit_value c \<le> 9"
    unfolding is_digit_def digit_value_def Let_def by linarith
qed

lemma digits_value_nonneg: "0 \<le> digits_value (takeWhile is_digit s)"
proof -
  have "0 \<le> foldl (\<lambda>n c. 10 * n + digit_value c) n ds" if "0 \<le> n" "\<forall>c \<in> set ds. is_digit c" for n ds
    using that
  proof (induction ds arbitrary: n)
    case (Cons c ds)
    then have "0 \<le> 10 * n + digit_value c" using digit_value_bounds [of c] by simp
    with Cons show ?case by simp
  qed simp
  from this [of 0 "takeWhile is_digit s"] show ?thesis
    unfolding digits_value_def by (auto dest: set_takeWhileD)
qed

lemma re_search_invariant: "(\<And>b s x. m b s = Some x \<Longrightarrow> P x) \<Longrightarrow> re_search m b s = Some x \<Longrightarrow> P x"
  by (induction m b s rule: re_search.induct) (auto split: option.splits)

lemma probe_banner_typed:
  assumes "probe_banner lines = Inr p"
  shows "probe_typed p"
proof -
  define line where "line = (case find (str_contains '' Video: '') lines of None \<Rightarrow> [] | Some line \<Rightarrow> line)"
  define f where "f = (case re_search match_fps None line of None \<Rightarrow> Inr None | Some s \<Rightarrow> fps_or_none (PvStr s))"
  obtain fps where fps: "f = Inr fps"
    and p: "p = \<lparr>vp_width = map_option fst (re_search match_resolution None line),
      vp_height = map_option snd (re_search match_resolution None line), vp_fps = fps,
      vp_bitrate = map_option (\<lambda>b. b * 1000) (re_search match_kbps None line),
      vp_codec = video_codec_or_none (re_search match_codec None line)\<rparr>"
    using assms by (auto simp: probe_banner_def Let_def f_def line_def map_res_Inr)
  have "0 \<le> b" if "re_search match_kbps None line = Some b" for b
    using that by (rule re_search_invariant [rotated])
      (auto simp: match_kbps_def Let_def digits_value_nonneg split: if_splits)
  moreover have "1 \<le> x" if "fps = Some x" for x
    using fps that fps_or_none_pos [of _ x] by (auto simp: f_def split: option.splits)
  ultimately show ?thesis
    by (auto simp: p probe_typed_def video_codec_or_none_supported split: option.splits)
qed

lemma coerce_probe_info: "coerce_video_probe_info (ProbeInfo info) = Inr info"
  by (simp add: coerce_video_probe_info_def)

lemma try_built_in: "try_probe (built_in_probe f) source executable = f source executable"
  by (cases "f source executable") (simp_all add: try_probe_def built_in_probe_def coerce_probe_info)

lemma no_probe_info_typed: "probe_typed no_probe_info"
  by (simp add: no_probe_info_def probe_typed_def)

lemma native_typed:
  assumes "probe_video_native host source executable = Inr q"
  shows "probe_typed q"
proof -
  obtain printed where "(case printed of
      Some (stream # _) \<Rightarrow>
        probe_info (pv_get stream ''width'') (pv_get stream ''height'')
          (pv_or (pv_get stream ''avg_frame_rate'') (pv_get stream ''r_frame_rate'')) (pv_get stream ''bit_rate'')
          (pv_or (pv_get stream ''codec_name'') (pv_get stream ''codec_tag_string''))
    | _ \<Rightarrow> Inr no_probe_info) = Inr q"
    using assms unfolding probe_video_native_def and_then_Inr by blast
  then show ?thesis
    by (cases printed; cases "the printed") (auto dest: probe_info_typed simp: no_probe_info_typed)
qed

lemma fallback_typed: "probe_video_fallback host source executable = Inr q \<Longrightarrow> probe_typed q"
  by (auto simp: probe_video_fallback_def and_then_Inr dest: probe_banner_typed)

text \<open>A built-in method answers like the native probe, the fallback, or nothing.\<close>

lemma probe_video_named:
  "probe_video host source (MethodName name) executable =
     (if name = [] \<or> name = ''native''
      then (case probe_video_native host source executable of
              Inr info \<Rightarrow> Inr info
            | Inl _ \<Rightarrow> (case probe_video_fallback host source executable of Inr info \<Rightarrow> Inr info | Inl _ \<Rightarrow> Inr no_probe_info))
      else if name = ''fallback''
      then (case probe_video_fallback host source executable of Inr info \<Rightarrow> Inr info | Inl _ \<Rightarrow> Inr no_probe_info)
      else Inl AttributeError)"
proof -
  consider "name = [] \<or> name = ''native''" | "name = ''fallback''" | "name \<notin> {[], ''native'', ''fallback''}"
    by blast
  then show ?thesis
  proof cases
    case 3
    then show ?thesis by (cases name) (auto simp: probe_video_def Let_def try_built_in)
  qed (auto simp: probe_video_def Let_def try_built_in split: sum.split)
qed

lemma probe_video_default: "probe_video host source MethodNone executable = probe_video host source (MethodName []) executable"
  by (simp add: probe_video_def)

lemma probe_video_cases:
  assumes "probe_video host source m executable = Inr p" "\<And>f. m \<noteq> MethodFunction f"
  shows "p = no_probe_info \<or> probe_video_native host source executable = Inr p
    \<or> probe_video_fallback host source executable = Inr p"
proof -
  have named: ?thesis if "probe_video host source (MethodName name) executable = Inr p" for name
    using that by (auto simp: probe_video_named split: if_splits sum.splits)
  show ?thesis
  proof (cases m)
    case MethodOther
    then show ?thesis using assms(1) by (simp add: probe_video_def)
  qed (use assms named in \<open>auto simp: probe_video_default\<close>)
qed

lemma probe_video_typed:
  assumes "probe_video host source m executable = Inr p" "\<And>f. m \<noteq> MethodFunction f"
  shows "probe_typed p"
  using probe_video_cases [OF assms] native_typed fallback_typed no_probe_info_typed by blast

lemma resolve_config_shape:
  assumes "resolve_video_probe_config probe codec width height fps bitrate = Inr config"
  shows "(case codec of None \<Rightarrow> Inr (vp_codec probe) | Some c \<Rightarrow> map_res Some (coerce_video_codec c)) = Inr (Some (vc_codec config))"
    and "1 \<le> vc_width config" and "1 \<le> vc_height config"
    and "vc_fps config = given fps (int_or (vp_fps probe) 30)"
    and "vc_bitrate config = given bitrate (int_or (vp_bitrate probe)
      (native_video_bitrate (Some (vc_height config)) (Some (vc_fps config))))"
proof -
  let ?codec = "case codec of None \<Rightarrow> Inr (vp_codec probe) | Some c \<Rightarrow> map_res Some (coerce_video_codec c)"
  let ?w = "if width \<noteq> None then width else vp_width probe"
  let ?h = "if height \<noteq> None then height else vp_height probe"
  obtain vc where vc: "?codec = Inr vc"
    using assms by (cases ?codec) (simp_all add: resolve_video_probe_config_def)
  obtain c w h where "vc = Some c" "?w = Some w" "?h = Some h"
    using assms by (cases vc; cases ?w; cases ?h) (simp_all only: resolve_video_probe_config_def vc and_then.simps Let_def
      prod.case option.case sum.simps)
  with assms vc show "?codec = Inr (Some (vc_codec config))" "1 \<le> vc_width config" "1 \<le> vc_height config"
    "vc_fps config = given fps (int_or (vp_fps probe) 30)"
    "vc_bitrate config = given bitrate (int_or (vp_bitrate probe)
      (native_video_bitrate (Some (vc_height config)) (Some (vc_fps config))))"
    by (auto simp only: resolve_video_probe_config_def and_then.simps Let_def prod.case option.case sum.simps
      VideoConfig.simps not_le split: if_split_asm)
qed

text \<open>
  What a probe yields is well typed: a supported codec, a picture with pixels, a frame rate and a
  bitrate of at least one unless the caller chose them, whatever FFmpeg answered.
\<close>

theorem probed_config_well_typed:
  assumes "probe_video_config host source codec width height fps bitrate m executable = Inr (probe, config)"
    and "\<And>f. m \<noteq> MethodFunction f"
  shows "vc_codec config \<in> {''AV1'', ''H265'', ''H264'', ''VP8'', ''VP9''} \<and> 1 \<le> vc_width config \<and> 1 \<le> vc_height config
    \<and> (fps = None \<longrightarrow> 1 \<le> vc_fps config) \<and> (bitrate = None \<longrightarrow> 1 \<le> vc_bitrate config)"
proof -
  obtain probe' where probe: "(if codec = None \<or> width = None \<or> height = None \<or> fps = None \<or> bitrate = None
      then probe_video host source m executable else Inr no_probe_info) = Inr probe'"
    and "map_res (Pair probe') (resolve_video_probe_config probe' codec width height fps bitrate) = Inr (probe, config)"
    using assms(1) unfolding probe_video_config_def and_then_Inr by blast
  then have r: "resolve_video_probe_config probe codec width height fps bitrate = Inr config" and "probe' = probe"
    by (auto simp: map_res_Inr)
  then have typed: "probe_typed probe"
  proof (cases "codec = None \<or> width = None \<or> height = None \<or> fps = None \<or> bitrate = None")
    case True
    then have "probe_video host source m executable = Inr probe" using probe \<open>probe' = probe\<close> by metis
    then show ?thesis using assms(2) by (rule probe_video_typed)
  next
    case False
    then have "probe = no_probe_info" using probe \<open>probe' = probe\<close> by auto
    then show ?thesis by (simp only: no_probe_info_typed)
  qed
  have supported: "set SUPPORTED_VIDEO_CODECS = {''AV1'', ''H265'', ''H264'', ''VP8'', ''VP9''}"
    by (simp only: SUPPORTED_VIDEO_CODECS_def VIDEO_CODEC_CAPABILITY_NAMES_def list.map fst_conv list.set)
  note shape = resolve_config_shape [OF r]
  have "vc_codec config \<in> set SUPPORTED_VIDEO_CODECS"
  proof (cases codec)
    case None
    then show ?thesis using shape(1) typed by (simp add: probe_typed_def)
  next
    case (Some c)
    then have "coerce_video_codec c = Inr (vc_codec config)" using shape(1) by (auto simp: map_res_Inr)
    then show ?thesis using coerce_video_codec_normal unfolding supported by blast
  qed
  moreover have "fps = None \<longrightarrow> 1 \<le> vc_fps config"
    using shape(4) typed by (auto simp: probe_typed_def given_def int_or_def split: option.splits)
  moreover have "bitrate = None \<longrightarrow> 1 \<le> vc_bitrate config"
    using shape(5) typed by (auto simp: probe_typed_def given_def int_or_def native_video_bitrate_def split: option.splits)
  moreover note shape(2,3)
  ultimately show ?thesis unfolding supported by blast
qed

definition sample_probe_host :: probe_host where
  "sample_probe_host =
     \<lparr>ph_exists = (\<lambda>_. False),
      ph_check_output = (\<lambda>_. Inr (Some [[(''codec_name'', PvStr ''hevc''), (''width'', PvInt 1920), (''height'', PvStr ''1080''),
                                         (''avg_frame_rate'', PvStr ''30000/1001''), (''bit_rate'', PvStr ''oops'')]])),
      ph_communicate = (\<lambda>_. Inl OSError)\<rparr>"

theorem probed_config_well_typed_witness:
  "probe_video_config sample_probe_host ''clip.mp4'' None None None None None MethodNone ''ffmpeg''
     = Inr (\<lparr>vp_width = Some 1920, vp_height = Some 1080, vp_fps = Some 30, vp_bitrate = None, vp_codec = Some ''H265''\<rparr>,
            \<lparr>vc_codec = ''H265'', vc_width = 1920, vc_height = 1080, vc_fps = 30, vc_bitrate = 8000000\<rparr>)
   \<and> 1 \<le> (30 :: int)"
proof -
  have "probe_video_config sample_probe_host ''clip.mp4'' None None None None None MethodNone ''ffmpeg''
     = Inr (\<lparr>vp_width = Some 1920, vp_height = Some 1080, vp_fps = Some 30, vp_bitrate = None, vp_codec = Some ''H265''\<rparr>,
            \<lparr>vc_codec = ''H265'', vc_width = 1920, vc_height = 1080, vc_fps = 30, vc_bitrate = 8000000\<rparr>)"
    by code_simp
  with probed_config_well_typed [OF this] show ?thesis by simp
qed

text \<open>
  An encoder works when FFmpeg encodes a test picture with it; the cached answers are truthful when
  they are what FFmpeg would answer.
\<close>

definition encoder_works ::
  "ffmpeg_host \<Rightarrow> string \<Rightarrow> string \<Rightarrow> string \<Rightarrow> int \<Rightarrow> int \<Rightarrow> VideoTranscoderConfig \<Rightarrow> bool"
where
  "encoder_works host executable codec encoder width height transcoder =
     (case encoder_probe_command executable codec encoder (probe_size width) (probe_size height) transcoder of
        Inl _ \<Rightarrow> False | Inr command \<Rightarrow> fh_succeeds host command)"

definition cache_truthful :: "ffmpeg_host \<Rightarrow> ffmpeg_caches \<Rightarrow> bool" where
  "cache_truthful host caches \<longleftrightarrow>
     (\<forall>executable codec encoder w h transcoder key v.
        encoder_probe_key executable codec encoder w h transcoder = Inr key \<longrightarrow> map_of (fc_usable caches) key = Some v
        \<longrightarrow> (\<exists>command. encoder_probe_command executable codec encoder w h transcoder = Inr command
              \<and> v = fh_succeeds host command))"

text \<open>The key of the cache determines the command.\<close>

lemma probe_key_determines_command:
  assumes "encoder_probe_key executable codec encoder w h transcoder = Inr key"
    and "encoder_probe_key executable' codec' encoder' w' h' transcoder' = Inr key"
  shows "encoder_probe_command executable codec encoder w h transcoder
    = encoder_probe_command executable' codec' encoder' w' h' transcoder'"
proof -
  obtain input extra more where k: "argv_options (tc_input_options transcoder) = Inr input"
    "argv_options (tc_encoder_options transcoder) = Inr extra" "argv_options (tc_output_options transcoder) = Inr more"
    "key = (executable, codec, encoder, w, h, input, extra, more, tc_video_filters transcoder)"
    using assms(1) by (auto simp: encoder_probe_key_def and_then_Inr)
  then have "argv_options (tc_input_options transcoder') = Inr input"
    "argv_options (tc_encoder_options transcoder') = Inr extra" "argv_options (tc_output_options transcoder') = Inr more"
    "key = (executable', codec', encoder', w', h', input, extra, more, tc_video_filters transcoder')"
    using assms(2) by (auto simp: encoder_probe_key_def and_then_Inr)
  with k show ?thesis by (simp add: encoder_probe_command_def video_filtergraph_def)
qed

lemma encoder_usable_answers:
  assumes "cache_truthful host caches" "coerce_video_codec codec = Inr codec"
    and "encoder_usable host executable codec encoder width height transcoder caches = (Inr usable, caches')"
  shows "usable = encoder_works host executable codec encoder width height transcoder"
    and "cache_truthful host caches'"
proof -
  let ?w = "probe_size width" and ?h = "probe_size height"
  obtain table where u: "ffmpeg_encoder_is_usable (fh_succeeds host) executable codec encoder width height
      (Some transcoder) (fc_usable caches) = (Inr usable, table)" and caches': "caches' = caches\<lparr>fc_usable := table\<rparr>"
    using assms(3) by (auto simp: encoder_usable_def split: prod.splits)
  obtain key where key: "encoder_probe_key executable codec encoder ?w ?h transcoder = Inr key"
    using u assms(2) by (auto simp: ffmpeg_encoder_is_usable_def Let_def split: sum.splits)
  show "usable = encoder_works host executable codec encoder width height transcoder"
  proof (cases "map_of (fc_usable caches) key")
    case None
    then show ?thesis using u assms(2) key
      by (auto simp: ffmpeg_encoder_is_usable_def Let_def encoder_works_def split: sum.splits)
  next
    case (Some v)
    then obtain command where "encoder_probe_command executable codec encoder ?w ?h transcoder = Inr command"
      "v = fh_succeeds host command" using assms(1) key unfolding cache_truthful_def by blast
    then show ?thesis using u assms(2) key Some
      by (auto simp: ffmpeg_encoder_is_usable_def Let_def encoder_works_def)
  qed
  show "cache_truthful host caches'"
  proof (cases "map_of (fc_usable caches) key")
    case None
    then obtain command where command: "encoder_probe_command executable codec encoder ?w ?h transcoder = Inr command"
      "table = AList.update key (fh_succeeds host command) (fc_usable caches)"
      using u assms(2) key by (auto simp: ffmpeg_encoder_is_usable_def Let_def split: sum.splits)
    show ?thesis
      unfolding cache_truthful_def
    proof (intro allI impI)
      fix executable' codec' encoder' w' h' transcoder' key' v
      assume key': "encoder_probe_key executable' codec' encoder' w' h' transcoder' = Inr key'"
        and v: "map_of (fc_usable caches') key' = Some v"
      show "\<exists>command. encoder_probe_command executable' codec' encoder' w' h' transcoder' = Inr command
          \<and> v = fh_succeeds host command"
      proof (cases "key' = key")
        case True
        then show ?thesis using v command probe_key_determines_command [OF key key' [unfolded True]]
          by (auto simp: caches' map_of_update_eq)
      next
        case False
        then have "map_of (fc_usable caches) key' = Some v" using v command(2) by (simp add: caches' map_of_update_eq)
        then show ?thesis using assms(1) key' unfolding cache_truthful_def by blast
      qed
    qed
  next
    case (Some v)
    then have "table = fc_usable caches" using u assms(2) key
      by (auto simp: ffmpeg_encoder_is_usable_def Let_def)
    then show ?thesis using assms(1) by (simp add: caches')
  qed
qed

lemma first_usable_spec:
  assumes "cache_truthful host caches" "coerce_video_codec codec = Inr codec" "tc_validate_encoder transcoder"
    and "first_usable_encoder host executable codec width height transcoder available candidates caches = (Inr encoder, caches')"
  shows "find (\<lambda>e. e \<in> available \<and> encoder_works host executable codec e width height transcoder) candidates = Some encoder"
  using assms(1,4)
proof (induction candidates arbitrary: caches)
  case (Cons e rest)
  show ?case
  proof (cases "e \<in> available")
    case True
    obtain r caches1 where u: "encoder_usable host executable codec e width height transcoder caches = (r, caches1)"
      by fastforce
    then obtain usable where r: "r = Inr usable" using Cons.prems(2) True assms(3) by (cases r) auto
    note answers = encoder_usable_answers [OF Cons.prems(1) assms(2) u [unfolded r]]
    show ?thesis using Cons.prems(2) Cons.IH [OF answers(2)] True assms(3) u r answers(1) by (cases usable) auto
  qed (use Cons in auto)
qed simp


text \<open>A machine that lists NVENC but cannot use it.\<close>

definition sample_ffmpeg_host :: ffmpeg_host where
  "sample_ffmpeg_host =
     \<lparr>fh_run = (\<lambda>_. Some (0, ['' V....D h264_nvenc  NVIDIA'', '' V....D libx264  H.264''])),
      fh_succeeds = (\<lambda>command. ''libx264'' \<in> set command)\<rparr>"

abbreviation (input) "no_caches \<equiv> \<lparr>fc_names = ([], []), fc_usable = []\<rparr>"

lemma no_caches_truthful: "cache_truthful host \<lparr>fc_names = names, fc_usable = []\<rparr>"
  by (simp add: cache_truthful_def)



end
