(* ===== verification/FFmpegSources.thy ===== *)
theory FFmpegSources
  imports FFmpegCommand SourceContract Codecs
begin

text \<open>
  The sources of \<open>media.py\<close> that run FFmpeg: \<open>FFmpegVideoSource\<close> with its pipe threads, pacing and
  clean-up, the simulcast source with one encoder per stream, and the media source that adds audio.

  What happens outside the program is an \<open>ffmpeg_env\<close>: how a process starts and what it prints,
  when it exits, the clock, the answers to each write into its stdin. Answers that change over
  time are indexed by the source's process and by a counter in its state that every question
  advances. The operating system
  objects a source has opened and not yet closed are listed in the source.
\<close>

section \<open>Processes and pipes\<close>

datatype pipe_end = Stdin | Stdout | Stderr

datatype resource =
    Process nat
  | Pipe nat pipe_end
  | Input nat \<comment> \<open>the stream or capture that feeds a stdin\<close>
  | AudioObject nat

text \<open>The object piped into stdin: a stream with the results of its reads to come, or a native capture.\<close>

record pipe_input =
  pi_id :: nat
  pi_native :: bool \<comment> \<open>\<open>isinstance(source, DesktopFrameSource)\<close>\<close>
  pi_preferred_size :: int \<comment> \<open>\<open>getattr(source, 'preferred_read_size', ...)\<close>, 0 without it\<close>
  pi_reads :: "bytes res list"
  pi_stats :: "(string, pyfloat) odict option" \<comment> \<open>\<open>stats()\<close>, when it has the method\<close>
  pi_pipe_stats :: "(string, pyfloat) odict option"

datatype popen_outcome = ExecutableMissing | PopenFailed | PopenRaised exn | Started "bytes list"

record ffmpeg_env =
  fe_host :: ffmpeg_host
  fe_platform :: platform
  fe_popen :: "string list \<Rightarrow> popen_outcome"
  fe_run :: "string list \<Rightarrow> (int \<times> bytes) option" \<comment> \<open>return code and stdout\<close>
  fe_native_handle :: bool \<comment> \<open>the stdin's handle can be resolved\<close>
  fe_clock :: "nat \<Rightarrow> nat \<Rightarrow> pyfloat"
  fe_pipe_error :: "nat \<Rightarrow> nat \<Rightarrow> exn option" \<comment> \<open>what the pipe thread stores while a frame is read\<close>
  fe_exited :: "nat \<Rightarrow> nat \<Rightarrow> bool" \<comment> \<open>\<open>poll() is not None\<close>\<close>
  fe_waited :: "nat \<Rightarrow> nat \<Rightarrow> bool" \<comment> \<open>\<open>wait\<close> returns in time\<close>
  fe_killed :: "nat \<Rightarrow> nat \<Rightarrow> bool" \<comment> \<open>\<open>wait\<close> returns in time after the kill\<close>
  fe_stdin_takes :: "nat \<Rightarrow> nat \<Rightarrow> bool" \<comment> \<open>a write into stdin is accepted\<close>

datatype pipe_thread = NoThread | PythonWriter | NativeWriter

datatype signal = Terminate | Kill

record FFmpegVideoSource =
  fv_id :: nat
  fv_command :: "string list"
  fv_preview_command :: "string list option"
  fv_codec :: string
  fv_frame_time_ms :: pyfloat
  fv_realtime :: bool
  fv_last_frame_at :: "pyfloat option"
  fv_initial_frame_time_ms :: pyfloat
  fv_max_frame_time_ms :: pyfloat
  fv_video_config :: VideoConfig
  fv_closed :: bool
  fv_process :: "nat option" \<comment> \<open>\<open>None\<close> is \<open>MISSING\<close>\<close>
  fv_input :: "pipe_input option"
  fv_pipe_error :: "exn option"
  fv_writer :: pipe_thread
  fv_pipe_stats :: PipeStats
  fv_frame_stats :: EncodedFrameStats
  fv_reader :: frame_reader
  fv_stdout :: "bytes list" \<comment> \<open>what the process still prints\<close>
  fv_written :: bytes \<comment> \<open>what its stdin took\<close>
  fv_pipes :: "pipe_end list" \<comment> \<open>the attributes \<open>_stdin\<close>, \<open>_stdout\<close>, \<open>_stderr\<close> that are set\<close>
  fv_signals :: "signal list"
  fv_open :: "resource list"
  fv_tick :: nat

definition fask :: "(nat \<Rightarrow> nat \<Rightarrow> 'a) \<Rightarrow> FFmpegVideoSource \<Rightarrow> 'a \<times> FFmpegVideoSource" where
  "fask answers s = (answers (fv_id s) (fv_tick s), s\<lparr>fv_tick := fv_tick s + 1\<rparr>)"

definition close_resource :: "resource \<Rightarrow> FFmpegVideoSource \<Rightarrow> FFmpegVideoSource" where
  "close_resource r s = s\<lparr>fv_open := filter (\<lambda>x. x \<noteq> r) (fv_open s)\<rparr>"

definition input_is_native :: "FFmpegVideoSource \<Rightarrow> bool" where
  "input_is_native s = (case fv_input s of None \<Rightarrow> False | Some i \<Rightarrow> pi_native i)"

definition close_input :: "FFmpegVideoSource \<Rightarrow> FFmpegVideoSource" where
  "close_input s = (case fv_input s of None \<Rightarrow> s | Some i \<Rightarrow> close_resource (Input (pi_id i)) s)"

text \<open>\<open>_wait_or_kill_process\<close>: the second wait may time out as well, and that raises.\<close>

definition wait_or_kill_process :: "ffmpeg_env \<Rightarrow> nat \<Rightarrow> FFmpegVideoSource \<Rightarrow> unit res \<times> FFmpegVideoSource" where
  "wait_or_kill_process env pid s =
     (let (ended, s) = fask (fe_waited env) s
      in if ended then (Inr (), close_resource (Process pid) s)
         else let s = s\<lparr>fv_signals := fv_signals s @ [Kill]\<rparr>;
                  (ended, s) = fask (fe_killed env) s
              in if ended then (Inr (), close_resource (Process pid) s) else (Inl SubprocessError, s))"

text \<open>\<open>cleanup\<close> up to the wait for the process, and after it: the wait may raise, and then the rest is skipped.\<close>

definition begin_cleanup :: "ffmpeg_env \<Rightarrow> nat \<Rightarrow> FFmpegVideoSource \<Rightarrow> FFmpegVideoSource" where
  "begin_cleanup env pid s =
     (let s = s\<lparr>fv_process := None, fv_closed := True\<rparr>;
          s = (if fv_input s \<noteq> None \<and> \<not> input_is_native s then close_input s else s);
          s = (if input_is_native s then close_resource (Pipe pid Stdin) s else s);
          (exited, s) = fask (fe_exited env) s
      in if exited then s else s\<lparr>fv_signals := fv_signals s @ [Terminate]\<rparr>)"

definition finish_cleanup :: "nat \<Rightarrow> FFmpegVideoSource \<Rightarrow> FFmpegVideoSource" where
  "finish_cleanup pid s =
     (let s = fold (\<lambda>p. close_resource (Pipe pid p)) (fv_pipes s) s;
          s = (if input_is_native s then close_input s else s)
      in s\<lparr>fv_pipes := [], fv_writer := NoThread\<rparr>)"

definition ffmpeg_cleanup :: "ffmpeg_env \<Rightarrow> FFmpegVideoSource \<Rightarrow> unit res \<times> FFmpegVideoSource" where
  "ffmpeg_cleanup env s =
     (case fv_process s of
        None \<Rightarrow> (Inr (), s)
      | Some pid \<Rightarrow> bind_res (wait_or_kill_process env pid (begin_cleanup env pid s)) (\<lambda>_ s. (Inr (), finish_cleanup pid s)))"

text \<open>
  \<open>_copy_binary_stream\<close>, the thread that passes the process's stderr on: what it has copied when it
  ends. \<open>refuses\<close> is the exception with which the destination answers a write, if any.
\<close>

definition ends_copy :: "exn \<Rightarrow> unit res" where
  "ends_copy e = (if e \<in> {OSError, ValueError} then Inr () else Inl e)"

fun copy_binary_stream :: "(bytes \<Rightarrow> exn option) \<Rightarrow> bytes res list \<Rightarrow> unit res \<times> bytes" where
  "copy_binary_stream refuses [] = (Inr (), [])"
| "copy_binary_stream refuses (Inl e # rs) = (ends_copy e, [])"
| "copy_binary_stream refuses (Inr data # rs) =
     (if data = [] then (Inr (), [])
      else case refuses data of
          Some e \<Rightarrow> (ends_copy e, [])
        | None \<Rightarrow> (let (r, copied) = copy_binary_stream refuses rs in (r, data @ copied)))"

text \<open>
  One turn of the thread \<open>_pipe_writer\<close>, which feeds the input to stdin: whether the loop goes on.
  A write that fails ends the thread and leaves stdin open.
\<close>

definition pipe_read_size :: "pipe_input \<Rightarrow> int" where
  "pipe_read_size i = (if pi_preferred_size i \<le> 0 then 8192 else pi_preferred_size i)"

definition write_to_stdin :: "ffmpeg_env \<Rightarrow> pipe_input \<Rightarrow> bytes \<Rightarrow> FFmpegVideoSource \<Rightarrow> bool \<times> FFmpegVideoSource" where
  "write_to_stdin env i data s =
     (let (write_started, s) = fask (fe_clock env) s;
          (taken, s) = fask (fe_stdin_takes env) s
      in if \<not> taken then (False, s)
         else
           let (write_ended, s) = fask (fe_clock env) s;
               s = s\<lparr>fv_written := fv_written s @ data,
                     fv_pipe_stats := pipe_record_write ((write_ended - write_started) * 1000)
                                        (int (length data)) (fv_pipe_stats s)\<rparr>
           in if int (length data) < pipe_read_size i
              then fask (fe_stdin_takes env) s \<comment> \<open>the flush\<close>
              else (True, s))"

definition feed_stdin :: "ffmpeg_env \<Rightarrow> nat \<Rightarrow> pipe_input \<Rightarrow> FFmpegVideoSource \<Rightarrow> bool \<times> FFmpegVideoSource" where
  "feed_stdin env pid i s =
     (let (read_started, s) = fask (fe_clock env) s;
          (result, rest) = (case pi_reads i of [] \<Rightarrow> (Inr [], []) | r # rs \<Rightarrow> (r, rs));
          s = s\<lparr>fv_input := Some (i\<lparr>pi_reads := rest\<rparr>)\<rparr>;
          (read_ended, s) = fask (fe_clock env) s
      in case result of
           Inl e \<Rightarrow> (False, close_resource (Pipe pid Stdin) (s\<lparr>fv_pipe_error := Some e\<rparr>))
         | Inr data \<Rightarrow>
             let s = s\<lparr>fv_pipe_stats := pipe_record_read ((read_ended - read_started) * 1000) (data = []) (fv_pipe_stats s)\<rparr>
             in if data = [] then (False, close_resource (Pipe pid Stdin) s) else write_to_stdin env i data s)"

definition pipe_writer_turn :: "ffmpeg_env \<Rightarrow> FFmpegVideoSource \<Rightarrow> bool \<times> FFmpegVideoSource" where
  "pipe_writer_turn env s =
     (case (fv_process s, fv_input s) of
        (Some pid, Some i) \<Rightarrow>
          if Stdin \<notin> set (fv_pipes s) \<or> Pipe pid Stdin \<notin> set (fv_open s) then (False, s)
          else let (exited, s) = fask (fe_exited env) s
               in if exited then (False, s) else feed_stdin env pid i s
      | _ \<Rightarrow> (False, s))"

text \<open>\<open>_native_pipe_writer\<close>: the capture writes to the handle until it is done, or raises.\<close>

definition native_pipe_writer :: "exn option \<Rightarrow> FFmpegVideoSource \<Rightarrow> FFmpegVideoSource" where
  "native_pipe_writer outcome s =
     (let s = (case outcome of None \<Rightarrow> s | Some e \<Rightarrow> s\<lparr>fv_pipe_error := Some e\<rparr>)
      in if Stdin \<in> set (fv_pipes s)
         then s\<lparr>fv_open := filter (\<lambda>r. \<forall>pid. r \<noteq> Pipe pid Stdin) (fv_open s)\<rparr> else s)"


section \<open>Reading frames\<close>

definition raise_pipe_error :: "FFmpegVideoSource \<Rightarrow> 'a res \<times> FFmpegVideoSource" where
  "raise_pipe_error s = (Inl RuntimeError, s\<lparr>fv_closed := True\<rparr>)"

definition pace_live_frame :: "ffmpeg_env \<Rightarrow> FFmpegVideoSource \<Rightarrow> pyfloat \<times> FFmpegVideoSource" where
  "pace_live_frame env s =
     (let (now, s) = fask (fe_clock env) s; last_frame_at = fv_last_frame_at s;
          s = s\<lparr>fv_last_frame_at := Some now\<rparr>
      in case last_frame_at of
           None \<Rightarrow> (fv_initial_frame_time_ms s, s)
         | Some t \<Rightarrow>
             let elapsed_ms = max 0 ((now - t) * 1000);
                 target_ms = min (fv_max_frame_time_ms s) (max (fv_frame_time_ms s) elapsed_ms)
             in (max (1 / 1000) target_ms, s))"

definition read_frame :: "FFmpegVideoSource \<Rightarrow> bytes res \<times> FFmpegVideoSource" where
  "read_frame s =
     (case fv_reader s of
        IVFReader \<Rightarrow> (let (f, out) = ivf_read_frame (fv_stdout s) in (f, s\<lparr>fv_stdout := out\<rparr>))
      | AnnexBReader r \<Rightarrow>
          (let (f, r, out) = annexb_read_frame r (fv_stdout s)
           in (Inr f, s\<lparr>fv_stdout := out, fv_reader := AnnexBReader r\<rparr>)))"

definition ffmpeg_read_video :: "ffmpeg_env \<Rightarrow> FFmpegVideoSource \<Rightarrow> VideoFrame option res \<times> FFmpegVideoSource" where
  "ffmpeg_read_video env s =
     (if fv_closed s then (Inr None, s)
      else if fv_pipe_error s \<noteq> None then raise_pipe_error s
      else
        let (read_started, s) = fask (fe_clock env) s
        in bind_res (read_frame s) (\<lambda>frame s.
             let (read_ended, s) = fask (fe_clock env) s;
                 s = s\<lparr>fv_frame_stats := encoded_record_read ((read_ended - read_started) * 1000)
                                           (int (length frame)) (fv_frame_stats s)\<rparr>;
                 (stored, s) = fask (fe_pipe_error env) s;
                 s = (if stored \<noteq> None then s\<lparr>fv_pipe_error := stored\<rparr> else s)
             in if fv_pipe_error s \<noteq> None then raise_pipe_error s
                else if frame = [] then (Inr None, s\<lparr>fv_closed := True\<rparr>)
                else if fv_realtime s
                then let (frame_time_ms, s) = pace_live_frame env s
                     in (Inr (Some \<lparr>vf_data = frame, vf_frame_time_ms = frame_time_ms\<rparr>), s)
                else (Inr (Some \<lparr>vf_data = frame, vf_frame_time_ms = fv_frame_time_ms s\<rparr>), s)))"

definition ffmpeg_read_preview :: "ffmpeg_env \<Rightarrow> FFmpegVideoSource \<Rightarrow> bytes option" where
  "ffmpeg_read_preview env s =
     (case fv_preview_command s of
        None \<Rightarrow> None
      | Some command \<Rightarrow>
          (case fe_run env command of
             None \<Rightarrow> None
           | Some (returncode, stdout) \<Rightarrow> if returncode = 0 \<and> stdout \<noteq> [] then Some stdout else None))"

definition update_all :: "(string, pyfloat) odict \<Rightarrow> (string, pyfloat) odict \<Rightarrow> (string, pyfloat) odict" where
  "update_all new d = fold (\<lambda>(k, v). AList.update k v) new d"

definition capture_stats :: "FFmpegVideoSource \<Rightarrow> (string, pyfloat) odict" where
  "capture_stats s =
     (let own = (case fv_input s of None \<Rightarrow> None | Some i \<Rightarrow> pi_stats i);
          native = (case fv_input s of None \<Rightarrow> None | Some i \<Rightarrow> pi_pipe_stats i);
          payload = (case own of None \<Rightarrow> [] | Some st \<Rightarrow> update_all st []);
          payload = (case native of
              Some st \<Rightarrow>
                let num = (\<lambda>k. case map_of st k of None \<Rightarrow> 0 | Some v \<Rightarrow> v);
                    whole = (\<lambda>k. of_int (py_trunc (num k)))
                in update_all
                     [(''pipeReadCount'', whole ''readCount''), (''pipeReadEmptyCount'', whole ''readEmptyCount''),
                      (''pipeReadMeanMs'', num ''readTotalMs'' / max 1 (whole ''readCount'')),
                      (''pipeReadMaxMs'', num ''readMaxMs''),
                      (''pipeWriteCount'', whole ''writeCount''),
                      (''pipeWriteMeanMs'', num ''writeTotalMs'' / max 1 (whole ''writeCount'')),
                      (''pipeWriteMaxMs'', num ''writeMaxMs''), (''pipeBytesWritten'', whole ''bytesWritten'')] payload
            | None \<Rightarrow>
                if fv_writer s \<noteq> NoThread \<or> ps_read_count (fv_pipe_stats s) \<noteq> 0 \<or> ps_write_count (fv_pipe_stats s) \<noteq> 0
                then update_all (pipe_snapshot (fv_pipe_stats s)) payload else payload)
      in if es_read_count (fv_frame_stats s) \<noteq> 0 then update_all (encoded_snapshot (fv_frame_stats s)) payload else payload)"

definition ffmpeg_video_source :: "ffmpeg_env \<Rightarrow> FFmpegVideoSource source_ops" where
  "ffmpeg_video_source env = video_only_source\<lparr>
     so_has_video := (\<lambda>s. \<not> fv_closed s),
     so_video_config := (\<lambda>s. Some (fv_video_config s)),
     so_read_video := ffmpeg_read_video env,
     so_read_video_streams := default_read_video_streams (ffmpeg_read_video env),
     so_read_preview := (\<lambda>s. (Inr (ffmpeg_read_preview env s), s)),
     so_is_finished := fv_closed,
     so_cleanup := ffmpeg_cleanup env\<rparr>"

section \<open>Starting a source\<close>

text \<open>
  The program's side of the operating system: the objects it holds open, the number of the next
  process, and the caches of the codec questions.
\<close>

record source_host =
  sh_open :: "resource list"
  sh_next :: nat
  sh_caches :: ffmpeg_caches

definition settle :: "FFmpegVideoSource \<Rightarrow> FFmpegVideoSource \<Rightarrow> source_host \<Rightarrow> source_host" where
  "settle before after host =
     host\<lparr>sh_open := filter (\<lambda>r. r \<in> set (fv_open before) \<longrightarrow> r \<in> set (fv_open after)) (sh_open host)\<rparr>"

definition cleanup_source ::
  "ffmpeg_env \<Rightarrow> FFmpegVideoSource \<Rightarrow> source_host \<Rightarrow> unit res \<times> source_host"
where
  "cleanup_source env s host = (let (r, after) = ffmpeg_cleanup env s in (r, settle s after host))"

definition pipe_ends :: "bool \<Rightarrow> ffmpeg_stderr \<Rightarrow> pipe_end list" where
  "pipe_ends piped stderr =
     (if piped then [Stdin] else []) @ [Stdout] @ (if normalize_ffmpeg_stderr stderr = ObjStderr False then [Stderr] else [])"

text \<open>The attributes before the process is started; the reader is set once it runs.\<close>

definition unstarted_source ::
  "string list \<Rightarrow> string \<Rightarrow> int \<Rightarrow> int \<Rightarrow> int \<Rightarrow> int \<Rightarrow> string list option \<Rightarrow> pipe_input option \<Rightarrow> bool \<Rightarrow> FFmpegVideoSource"
where
  "unstarted_source command codec fps width height bitrate preview_command input live =
     (let frame_time_ms = 1000 / of_int (max 1 fps)
      in \<lparr>fv_id = 0, fv_command = command, fv_preview_command = preview_command, fv_codec = codec,
          fv_frame_time_ms = frame_time_ms, fv_realtime = live, fv_last_frame_at = None,
          fv_initial_frame_time_ms = max frame_time_ms (1000 / of_int (min (max 1 fps) 60)),
          fv_max_frame_time_ms = 250,
          fv_video_config = \<lparr>vc_codec = codec, vc_width = max 0 width, vc_height = max 0 height,
                             vc_fps = max 1 fps, vc_bitrate = max 0 bitrate\<rparr>,
          fv_closed = False, fv_process = None, fv_input = input, fv_pipe_error = None, fv_writer = NoThread,
          fv_pipe_stats = new_pipe_stats, fv_frame_stats = new_encoded_frame_stats, fv_reader = IVFReader,
          fv_stdout = [], fv_written = [], fv_pipes = [], fv_signals = [], fv_open = [], fv_tick = 0\<rparr>)"

definition started_source ::
  "ffmpeg_env \<Rightarrow> nat \<Rightarrow> bytes list \<Rightarrow> ffmpeg_stderr \<Rightarrow> FFmpegVideoSource \<Rightarrow> FFmpegVideoSource"
where
  "started_source env pid output stderr s =
     (let pipes = pipe_ends (fv_input s \<noteq> None) stderr
      in s\<lparr>fv_id := pid, fv_process := Some pid, fv_stdout := output, fv_pipes := pipes,
           fv_open := Process pid # map (Pipe pid) pipes
                      @ (case fv_input s of None \<Rightarrow> [] | Some i \<Rightarrow> [Input (pi_id i)]),
           fv_writer := (case fv_input s of
               None \<Rightarrow> NoThread
             | Some i \<Rightarrow> if pi_native i \<and> pf_name (fe_platform env) = ''win32'' \<and> fe_native_handle env
                         then NativeWriter else PythonWriter)\<rparr>)"

definition open_reader :: "FFmpegVideoSource \<Rightarrow> unit res \<times> FFmpegVideoSource" where
  "open_reader s =
     (if fv_codec s \<in> set IVF_CODECS
      then (let (r, out) = ivf_open (fv_stdout s) in (r, s\<lparr>fv_stdout := out\<rparr>))
      else case new_annexb_reader (fv_codec s) of
             Inl e \<Rightarrow> (Inl e, s)
           | Inr r \<Rightarrow> (Inr (), s\<lparr>fv_reader := AnnexBReader r\<rparr>))"

text \<open>
  The constructor. When the process does not start, nothing is cleaned up; when the reader refuses
  the output, the source cleans itself up and the exception of the clean-up, if any, wins.
\<close>

definition new_ffmpeg_video_source ::
  "ffmpeg_env \<Rightarrow> string list \<Rightarrow> string \<Rightarrow> int \<Rightarrow> int \<Rightarrow> int \<Rightarrow> int \<Rightarrow> string list option \<Rightarrow> pipe_input option
     \<Rightarrow> ffmpeg_stderr \<Rightarrow> bool \<Rightarrow> source_host \<Rightarrow> FFmpegVideoSource res \<times> source_host"
where
  "new_ffmpeg_video_source env command raw_codec fps width height bitrate preview_command input stderr live host =
     bind_res (coerce_video_codec raw_codec, host) (\<lambda>codec host.
       case fe_popen env command of
         ExecutableMissing \<Rightarrow> (Inl ClientException, host)
       | PopenFailed \<Rightarrow> (Inl ClientException, host)
       | PopenRaised e \<Rightarrow> (Inl e, host)
       | Started output \<Rightarrow>
           let pid = sh_next host;
               s = started_source env pid output stderr
                     (unstarted_source command codec fps width height bitrate preview_command input live);
               host = host\<lparr>sh_next := pid + 1,
                           sh_open := sh_open host @ Process pid # map (Pipe pid) (fv_pipes s)\<rparr>
           in case open_reader s of
                (Inr _, s) \<Rightarrow> (Inr s, host)
              | (Inl e, s) \<Rightarrow>
                  (case cleanup_source env s host of (Inr _, host) \<Rightarrow> (Inl e, host) | (Inl e', host) \<Rightarrow> (Inl e', host)))"

definition spawn_from_input ::
  "ffmpeg_env \<Rightarrow> video_request \<Rightarrow> string list option \<Rightarrow> pipe_input option \<Rightarrow> ffmpeg_stderr \<Rightarrow> bool \<Rightarrow> source_host
     \<Rightarrow> FFmpegVideoSource res \<times> source_host"
where
  "spawn_from_input env rq preview_input_args input stderr live host =
     bind_res (case preview_input_args of
                 None \<Rightarrow> Inr None
               | Some args \<Rightarrow> map_res Some (preview_ffmpeg_command (rq_width rq) (rq_height rq) (rq_executable rq) args
                                              (rq_before_options rq)), host) (\<lambda>preview_command host.
     let (command, caches) = ffmpeg_command (fe_host env) rq (input \<noteq> None) (sh_caches host)
     in bind_res (command, host\<lparr>sh_caches := caches\<rparr>) (\<lambda>command host.
          new_ffmpeg_video_source env command (rq_codec rq) (rq_fps rq) (rq_width rq) (rq_height rq) (rq_bitrate rq)
            preview_command input stderr live host))"


section \<open>Factories\<close>

text \<open>
  \<open>from_file\<close>: a stream that is piped is one of the inputs of the program, \<open>inputs\<close> being the
  objects by identity. \<open>rq_input_args\<close> of the request is ignored, as it is computed here.
\<close>

definition video_from_file ::
  "ffmpeg_env \<Rightarrow> (nat \<Rightarrow> pipe_input) \<Rightarrow> ffmpeg_input \<Rightarrow> bool \<Rightarrow> video_request \<Rightarrow> string list option
     \<Rightarrow> string list option \<Rightarrow> ffmpeg_stderr \<Rightarrow> source_host \<Rightarrow> FFmpegVideoSource res \<times> source_host"
where
  "video_from_file env inputs source pipe rq input_args preview_input_args stderr host =
     bind_res (resolve_ffmpeg_source_input source pipe, host) (\<lambda>(pipe_source, source_input) host.
       let capture_args = (case input_args of Some args \<Rightarrow> args | None \<Rightarrow> [''-i'', source_input]);
           preview_args = (if preview_input_args \<noteq> None then preview_input_args
                           else if pipe then None else Some capture_args)
       in spawn_from_input env (rq\<lparr>rq_input_args := capture_args, rq_use_decoder := True\<rparr>) preview_args
            (map_option inputs pipe_source) stderr False host)"

definition video_from_probe ::
  "ffmpeg_env \<Rightarrow> probe_host \<Rightarrow> (nat \<Rightarrow> pipe_input) \<Rightarrow> string \<Rightarrow> string option \<Rightarrow> int option \<Rightarrow> int option
     \<Rightarrow> int option \<Rightarrow> int option \<Rightarrow> probe_method \<Rightarrow> video_request \<Rightarrow> string list option \<Rightarrow> string list option
     \<Rightarrow> ffmpeg_stderr \<Rightarrow> source_host \<Rightarrow> FFmpegVideoSource res \<times> source_host"
where
  "video_from_probe env ph inputs source codec width height fps bitrate m rq input_args preview_input_args stderr host =
     bind_res (probe_video_config ph source codec width height fps bitrate m (rq_executable rq), host)
       (\<lambda>(probe, config) host.
          video_from_file env inputs (InputPath source) False
            (rq\<lparr>rq_codec := vc_codec config, rq_width := vc_width config, rq_height := vc_height config,
                rq_fps := vc_fps config, rq_bitrate := vc_bitrate config, rq_source_codec := vp_codec probe\<rparr>)
            input_args preview_input_args stderr host)"

text \<open>
  \<open>from_desktop\<close>: with native capture the capture is opened first; \<open>captures\<close> gives what the one
  with a given identity will deliver.
\<close>

definition video_from_desktop ::
  "ffmpeg_env \<Rightarrow> (nat \<Rightarrow> pipe_input) \<Rightarrow> bool \<Rightarrow> int \<Rightarrow> video_request \<Rightarrow> string list option \<Rightarrow> string option
     \<Rightarrow> ffmpeg_stderr \<Rightarrow> source_host \<Rightarrow> FFmpegVideoSource res \<times> source_host"
where
  "video_from_desktop env captures native_capture output_index rq input_args display stderr host =
     (if native_capture
      then bind_res (native_desktop_capture_args (fe_platform env) (rq_fps rq) output_index, host)
        (\<lambda>(capture_args, source) host.
           let i = sh_next host;
               host = host\<lparr>sh_next := i + 1, sh_open := sh_open host @ [Input i]\<rparr>;
               whole = (rq_transcoder rq = None \<and> ds_pixel_format source = ''nv12'' \<and> ds_width source = rq_width rq
                        \<and> ds_height source = rq_height rq);
               transcoder = (if whole then Some (default_transcoder\<lparr>tc_video_filters := Some []\<rparr>) else rq_transcoder rq)
           in spawn_from_input env
                (rq\<lparr>rq_input_args := capture_args, rq_source_codec := None, rq_transcoder := transcoder,
                    rq_use_decoder := False\<rparr>)
                None (Some ((captures i)\<lparr>pi_id := i, pi_native := True\<rparr>)) stderr True host)
      else bind_res (case input_args of
                       Some args \<Rightarrow> Inr args
                     | None \<Rightarrow> desktop_input_args (fe_platform env) (rq_width rq) (rq_height rq) (rq_fps rq) display, host)
        (\<lambda>capture_args host.
           spawn_from_input env
             (rq\<lparr>rq_input_args := capture_args, rq_source_codec := None, rq_use_decoder := False\<rparr>)
             (Some capture_args) None stderr True host))"

text \<open>
  \<open>preflight_desktop\<close>. With native capture a source is started, one frame is read by a worker
  thread within the timeout, and the source is cleaned up in any case; an exception of the
  clean-up replaces the outcome. Otherwise one process encodes a frame to nowhere.
\<close>

definition preflight_frame :: "ffmpeg_env \<Rightarrow> bool \<Rightarrow> FFmpegVideoSource \<Rightarrow> source_host \<Rightarrow> unit res \<times> source_host" where
  "preflight_frame env timed_out s host =
     (let (outcome, s') = (if timed_out then (Inl ClientException, s) else ffmpeg_read_video env s)
      in bind_res (cleanup_source env s' host) (\<lambda>_ host.
           (case outcome of Inl _ \<Rightarrow> Inl ClientException | Inr None \<Rightarrow> Inl ClientException | Inr (Some _) \<Rightarrow> Inr (),
            host)))"

definition preflight_desktop ::
  "ffmpeg_env \<Rightarrow> (nat \<Rightarrow> pipe_input) \<Rightarrow> bool \<Rightarrow> int \<Rightarrow> bool \<Rightarrow> video_request \<Rightarrow> string list option \<Rightarrow> source_host
     \<Rightarrow> unit res \<times> source_host"
where
  "preflight_desktop env captures native_capture output_index timed_out rq input_args host =
     (if native_capture
      then bind_res (video_from_desktop env captures True output_index (rq\<lparr>rq_options := ArgvNone\<rparr>) None None
                       (FdStderr (-3)) host)
             (\<lambda>s host. preflight_frame env timed_out s host)
      else bind_res (case input_args of
                       Some args \<Rightarrow> Inr args
                     | None \<Rightarrow> desktop_input_args (fe_platform env) (rq_width rq) (rq_height rq) (rq_fps rq) None, host)
        (\<lambda>capture_args host.
           let rq = rq\<lparr>rq_input_args := capture_args, rq_options := ArgvStr ''-frames:v 1'', rq_source_codec := None,
                       rq_use_decoder := False\<rparr>;
               (command, caches) = ffmpeg_command (fe_host env) rq False (sh_caches host)
           in bind_res (command, host\<lparr>sh_caches := caches\<rparr>) (\<lambda>command host.
                (case fe_run env command of
                   Some (returncode, _) \<Rightarrow> if returncode = 0 then Inr () else Inl ClientException
                 | None \<Rightarrow> Inl ClientException, host))))"


text \<open>\<open>FFmpegMediaSource.preflight_desktop\<close> and \<open>FFmpegVideoSource.probe\<close> hand over to the other class.\<close>

definition media_preflight_desktop ::
  "ffmpeg_env \<Rightarrow> (nat \<Rightarrow> pipe_input) \<Rightarrow> bool \<Rightarrow> int \<Rightarrow> bool \<Rightarrow> video_request \<Rightarrow> string list option \<Rightarrow> source_host
     \<Rightarrow> unit res \<times> source_host"
where
  "media_preflight_desktop = preflight_desktop"

definition video_probe :: "probe_host \<Rightarrow> string \<Rightarrow> probe_method \<Rightarrow> string \<Rightarrow> VideoProbeInfo res" where
  "video_probe = probe_video"


section \<open>Simulcast\<close>

definition stream_config :: "string \<Rightarrow> VoiceStream \<Rightarrow> int \<Rightarrow> int \<Rightarrow> int \<Rightarrow> int \<Rightarrow> VideoConfig" where
  "stream_config codec stream width height fps bitrate =
     (let (stream_width, stream_height) = (case vs_max_resolution stream of
            Some (kind, w, h) \<Rightarrow> if kind = ''fixed'' \<and> w > 0 \<and> h > 0 then (w, h) else (width, height)
          | None \<Rightarrow> (width, height))
      in \<lparr>vc_codec = codec, vc_width = stream_width, vc_height = stream_height,
          vc_fps = (case vs_max_framerate stream of Some f \<Rightarrow> f | None \<Rightarrow> fps),
          vc_bitrate = (case vs_max_bitrate stream of
              Some b \<Rightarrow> b | None \<Rightarrow> if vs_quality stream \<ge> 100 then bitrate else max 1 (bitrate div 4))\<rparr>)"

text \<open>\<open>_build_sources\<close>: the children made so far are cleaned up, in order, when one cannot be made.\<close>

fun cleanup_children ::
  "ffmpeg_env \<Rightarrow> (string, FFmpegVideoSource) odict \<Rightarrow> source_host \<Rightarrow> unit res \<times> source_host"
where
  "cleanup_children env [] host = (Inr (), host)"
| "cleanup_children env ((rid, child) # rest) host =
     bind_res (cleanup_source env child host) (\<lambda>_ host. cleanup_children env rest host)"

definition abandon_children ::
  "ffmpeg_env \<Rightarrow> (string, FFmpegVideoSource) odict \<Rightarrow> exn \<Rightarrow> source_host
     \<Rightarrow> (string, FFmpegVideoSource) odict res \<times> source_host"
where
  "abandon_children env children e host =
     bind_res (cleanup_children env children host) (\<lambda>_ host. (Inl e, host))"

fun build_children ::
  "ffmpeg_env \<Rightarrow> (VoiceStream \<Rightarrow> VideoConfig) \<Rightarrow> (VideoConfig \<Rightarrow> source_host \<Rightarrow> FFmpegVideoSource res \<times> source_host)
     \<Rightarrow> VoiceStream list \<Rightarrow> (string, FFmpegVideoSource) odict \<Rightarrow> source_host
     \<Rightarrow> (string, FFmpegVideoSource) odict res \<times> source_host"
where
  "build_children env config factory [] children host = (Inr children, host)"
| "build_children env config factory (stream # rest) children host =
     (if vs_rid stream \<in> set (keys children) then abandon_children env children ClientException host
      else case factory (config stream) host of
          (Inl e, host) \<Rightarrow> abandon_children env children e host
        | (Inr child, host) \<Rightarrow>
            build_children env config factory rest (AList.update (vs_rid stream) child children) host)"

definition build_sources ::
  "ffmpeg_env \<Rightarrow> string \<Rightarrow> int \<Rightarrow> int \<Rightarrow> int \<Rightarrow> int \<Rightarrow> VoiceStream list
     \<Rightarrow> (VideoConfig \<Rightarrow> source_host \<Rightarrow> FFmpegVideoSource res \<times> source_host) \<Rightarrow> source_host
     \<Rightarrow> (string, FFmpegVideoSource) odict res \<times> source_host"
where
  "build_sources env codec width height fps bitrate streams factory host =
     build_children env (\<lambda>stream. stream_config codec stream width height fps bitrate) factory streams [] host"

definition simulcast_of ::
  "ffmpeg_env \<Rightarrow> (string, FFmpegVideoSource) odict res \<times> source_host
     \<Rightarrow> FFmpegVideoSource SimulcastVideoSource res \<times> source_host"
where
  "simulcast_of env built =
     bind_res built (\<lambda>children host.
       (new_simulcast (ffmpeg_video_source env) (vals children) (zip (keys children) [0..<length children]), host))"

definition configured :: "VideoConfig \<Rightarrow> video_request \<Rightarrow> video_request" where
  "configured config rq =
     rq\<lparr>rq_width := vc_width config, rq_height := vc_height config, rq_fps := vc_fps config, rq_bitrate := vc_bitrate config\<rparr>"

definition simulcast_from_desktop ::
  "ffmpeg_env \<Rightarrow> (nat \<Rightarrow> pipe_input) \<Rightarrow> bool \<Rightarrow> int \<Rightarrow> video_request \<Rightarrow> VoiceStream list \<Rightarrow> string list option
     \<Rightarrow> ffmpeg_stderr \<Rightarrow> source_host \<Rightarrow> FFmpegVideoSource SimulcastVideoSource res \<times> source_host"
where
  "simulcast_from_desktop env captures native_capture output_index rq streams input_args stderr host =
     simulcast_of env (build_sources env (rq_codec rq) (rq_width rq) (rq_height rq) (rq_fps rq) (rq_bitrate rq) streams
       (\<lambda>config. video_from_desktop env captures native_capture output_index (configured config rq) input_args None stderr)
       host)"

definition simulcast_from_file ::
  "ffmpeg_env \<Rightarrow> (nat \<Rightarrow> pipe_input) \<Rightarrow> string \<Rightarrow> video_request \<Rightarrow> VoiceStream list \<Rightarrow> string list option
     \<Rightarrow> string list option \<Rightarrow> ffmpeg_stderr \<Rightarrow> source_host \<Rightarrow> FFmpegVideoSource SimulcastVideoSource res \<times> source_host"
where
  "simulcast_from_file env inputs source rq streams input_args preview_input_args stderr host =
     simulcast_of env (build_sources env (rq_codec rq) (rq_width rq) (rq_height rq) (rq_fps rq) (rq_bitrate rq) streams
       (\<lambda>config. video_from_file env inputs (InputPath source) False (configured config rq) input_args preview_input_args stderr)
       host)"

definition simulcast_from_probe ::
  "ffmpeg_env \<Rightarrow> probe_host \<Rightarrow> (nat \<Rightarrow> pipe_input) \<Rightarrow> string \<Rightarrow> string option \<Rightarrow> int option \<Rightarrow> int option
     \<Rightarrow> int option \<Rightarrow> int option \<Rightarrow> probe_method \<Rightarrow> video_request \<Rightarrow> VoiceStream list \<Rightarrow> string list option
     \<Rightarrow> string list option \<Rightarrow> ffmpeg_stderr \<Rightarrow> source_host
     \<Rightarrow> FFmpegVideoSource SimulcastVideoSource res \<times> source_host"
where
  "simulcast_from_probe env ph inputs source codec width height fps bitrate m rq streams input_args preview_input_args
     stderr host =
     bind_res (probe_video_config ph source codec width height fps bitrate m (rq_executable rq), host)
       (\<lambda>(probe, config) host.
          simulcast_from_file env inputs source
            ((configured config rq)\<lparr>rq_codec := vc_codec config, rq_source_codec := vp_codec probe\<rparr>)
            streams input_args preview_input_args stderr host)"

text \<open>
  The class \<open>FFmpegSimulcastVideoSource\<close>: every read also takes one frame of each encoder that is
  not asked for and drops it, so that the encoders stay in step.
\<close>

fun drain_inactive_streams ::
  "'s source_ops \<Rightarrow> string set \<Rightarrow> (string, nat) odict \<Rightarrow> 's SimulcastVideoSource \<Rightarrow> unit res \<times> 's SimulcastVideoSource"
where
  "drain_inactive_streams ops active [] c = (Inr (), c)"
| "drain_inactive_streams ops active ((rid, i) # rest) c =
     (if rid \<in> active \<or> so_is_finished ops (sm_objects c ! i) then drain_inactive_streams ops active rest c
      else let (r, objs) = on_child (so_read_video ops) i (sm_objects c)
           in bind_res (r, c\<lparr>sm_objects := objs\<rparr>) (\<lambda>_ c. drain_inactive_streams ops active rest c))"

definition ffmpeg_simulcast_read ::
  "'s source_ops \<Rightarrow> string list \<Rightarrow> 's SimulcastVideoSource \<Rightarrow> (string, VideoFrame) odict option res \<times> 's SimulcastVideoSource"
where
  "ffmpeg_simulcast_read ops rids c =
     bind_res (simulcast_read_video_streams ops rids c) (\<lambda>frames c.
       bind_res (if sm_closed c then (Inr (), c) else drain_inactive_streams ops (set rids) (sm_sources c) c)
         (\<lambda>_ c. (Inr frames, c)))"

definition ffmpeg_simulcast_source :: "'s source_ops \<Rightarrow> 's SimulcastVideoSource source_ops" where
  "ffmpeg_simulcast_source ops = (simulcast_source ops)\<lparr>so_read_video_streams := ffmpeg_simulcast_read ops\<rparr>"


section \<open>Audio and video of one file\<close>

text \<open>
  \<open>FFmpegMediaSource\<close>. The audio classes are the third-party library's: \<open>start_audio\<close> makes one
  (Opus or PCM, from an input) or raises. The composite source holds audio and video as its children.
\<close>

type_synonym ffmpeg_media = "(AudioSource + FFmpegVideoSource) CompositeMediaSource"

definition open_audio :: "AudioSource res \<Rightarrow> source_host \<Rightarrow> (nat \<times> AudioSource) res \<times> source_host" where
  "open_audio started host =
     (case started of
        Inl e \<Rightarrow> (Inl e, host)
      | Inr a \<Rightarrow>
          (Inr (sh_next host, a),
           host\<lparr>sh_next := sh_next host + 1, sh_open := sh_open host @ [AudioObject (sh_next host)]\<rparr>))"

definition cleanup_audio :: "nat \<Rightarrow> source_host \<Rightarrow> source_host" where
  "cleanup_audio i host = host\<lparr>sh_open := filter (\<lambda>r. r \<noteq> AudioObject i) (sh_open host)\<rparr>"

definition ffmpeg_composite :: "AudioSource option \<Rightarrow> FFmpegVideoSource \<Rightarrow> ffmpeg_media res" where
  "ffmpeg_composite audio video =
     (case audio of
        None \<Rightarrow> new_composite [Inr video] None (Some 0)
      | Some a \<Rightarrow> new_composite [Inl a, Inr video] (Some 0) (Some 1))"

text \<open>\<open>try: video_source = ... except Exception: audio_source.cleanup(); raise\<close>.\<close>

definition with_audio ::
  "(nat \<times> AudioSource) option \<Rightarrow> (source_host \<Rightarrow> FFmpegVideoSource res \<times> source_host) \<Rightarrow> source_host
     \<Rightarrow> ffmpeg_media res \<times> source_host"
where
  "with_audio audio make_video host =
     (case make_video host of
        (Inr video, host) \<Rightarrow> (ffmpeg_composite (map_option snd audio) video, host)
      | (Inl e, host) \<Rightarrow> (Inl e, case audio of None \<Rightarrow> host | Some (i, _) \<Rightarrow> cleanup_audio i host))"

definition media_from_file ::
  "ffmpeg_env \<Rightarrow> (bool \<Rightarrow> string \<Rightarrow> AudioSource res) \<Rightarrow> (nat \<Rightarrow> pipe_input) \<Rightarrow> ffmpeg_input \<Rightarrow> bool \<Rightarrow> bool \<Rightarrow> bool
     \<Rightarrow> video_request \<Rightarrow> string list option \<Rightarrow> string list option \<Rightarrow> ffmpeg_stderr \<Rightarrow> source_host
     \<Rightarrow> ffmpeg_media res \<times> source_host"
where
  "media_from_file env start_audio inputs source pipe audio opus_audio rq input_args preview_input_args stderr host =
     (if pipe \<and> audio then (Inl ClientException, host)
      else bind_res (resolve_ffmpeg_source_input source pipe, host) (\<lambda>(pipe_source, source_input) host.
        let video_input = (case pipe_source of Some i \<Rightarrow> InputStream i | None \<Rightarrow> InputPath source_input);
            make_video = video_from_file env inputs video_input pipe rq input_args preview_input_args stderr
        in if audio
           then bind_res (open_audio (start_audio opus_audio source_input) host)
                  (\<lambda>a host. with_audio (Some a) make_video host)
           else with_audio None make_video host))"

definition media_from_probe ::
  "ffmpeg_env \<Rightarrow> (bool \<Rightarrow> string \<Rightarrow> AudioSource res) \<Rightarrow> probe_host \<Rightarrow> (nat \<Rightarrow> pipe_input) \<Rightarrow> string \<Rightarrow> bool
     \<Rightarrow> string option \<Rightarrow> int option \<Rightarrow> int option \<Rightarrow> int option \<Rightarrow> int option \<Rightarrow> probe_method \<Rightarrow> video_request
     \<Rightarrow> string list option \<Rightarrow> string list option \<Rightarrow> ffmpeg_stderr \<Rightarrow> source_host \<Rightarrow> ffmpeg_media res \<times> source_host"
where
  "media_from_probe env start_audio ph inputs source audio codec width height fps bitrate m rq input_args
     preview_input_args stderr host =
     (let make_video = video_from_probe env ph inputs source codec width height fps bitrate m rq input_args
                         preview_input_args stderr
      in if audio
         then bind_res (open_audio (start_audio True source) host) (\<lambda>a host. with_audio (Some a) make_video host)
         else with_audio None make_video host)"

definition media_from_desktop ::
  "ffmpeg_env \<Rightarrow> (nat \<Rightarrow> pipe_input) \<Rightarrow> bool \<Rightarrow> int \<Rightarrow> video_request \<Rightarrow> string list option \<Rightarrow> (nat \<times> AudioSource) option
     \<Rightarrow> ffmpeg_stderr \<Rightarrow> source_host \<Rightarrow> ffmpeg_media res \<times> source_host"
where
  "media_from_desktop env captures native_capture output_index rq input_args audio stderr host =
     with_audio audio
       (\<lambda>host. video_from_desktop env captures native_capture output_index rq input_args None stderr host) host"

section \<open>The source contract\<close>

text \<open>What the operations of a source leave alone.\<close>

lemma fask_simps [simp]:
  "fst (fask answers s) = answers (fv_id s) (fv_tick s)"
  "snd (fask answers s) = s\<lparr>fv_tick := fv_tick s + 1\<rparr>"
  by (simp_all add: fask_def)

lemma close_resource_simps [simp]:
  "fv_closed (close_resource r s) = fv_closed s" "fv_process (close_resource r s) = fv_process s"
  "fv_input (close_resource r s) = fv_input s" "fv_pipes (close_resource r s) = fv_pipes s"
  "fv_written (close_resource r s) = fv_written s" "fv_pipe_error (close_resource r s) = fv_pipe_error s"
  "fv_open (close_resource r s) = filter (\<lambda>x. x \<noteq> r) (fv_open s)"
  by (simp_all add: close_resource_def)

lemma input_is_native_cong: "fv_input s = fv_input s' \<Longrightarrow> input_is_native s = input_is_native s'"
  by (simp add: input_is_native_def)

lemma close_input_simps [simp]:
  "fv_closed (close_input s) = fv_closed s" "fv_process (close_input s) = fv_process s"
  "fv_input (close_input s) = fv_input s" "fv_pipes (close_input s) = fv_pipes s"
  "fv_written (close_input s) = fv_written s" "fv_pipe_error (close_input s) = fv_pipe_error s"
  by (simp_all add: close_input_def split: option.split)

lemma close_pipes_simps [simp]:
  "fv_closed (fold (\<lambda>p. close_resource (Pipe pid p)) ps s) = fv_closed s"
  "fv_process (fold (\<lambda>p. close_resource (Pipe pid p)) ps s) = fv_process s"
  "fv_input (fold (\<lambda>p. close_resource (Pipe pid p)) ps s) = fv_input s"
  "fv_written (fold (\<lambda>p. close_resource (Pipe pid p)) ps s) = fv_written s"
  "fv_pipe_error (fold (\<lambda>p. close_resource (Pipe pid p)) ps s) = fv_pipe_error s"
  "fv_open (fold (\<lambda>p. close_resource (Pipe pid p)) ps s) = filter (\<lambda>r. \<forall>p \<in> set ps. r \<noteq> Pipe pid p) (fv_open s)"
proof (induction ps arbitrary: s)
  case (Cons p ps)
  case 6
  then show ?case using Cons.IH(6) by (simp add: filter_filter conj_commute)
qed simp_all

lemma wait_or_kill_simps [simp]:
  "fv_closed (snd (wait_or_kill_process env pid s)) = fv_closed s"
  "fv_process (snd (wait_or_kill_process env pid s)) = fv_process s"
  "fv_input (snd (wait_or_kill_process env pid s)) = fv_input s"
  "fv_pipes (snd (wait_or_kill_process env pid s)) = fv_pipes s"
  "fv_written (snd (wait_or_kill_process env pid s)) = fv_written s"
  "fv_pipe_error (snd (wait_or_kill_process env pid s)) = fv_pipe_error s"
  by (simp_all add: wait_or_kill_process_def case_prod_beta Let_def)

lemma begin_cleanup_simps [simp]:
  "fv_closed (begin_cleanup env pid s)" "fv_process (begin_cleanup env pid s) = None"
  "fv_input (begin_cleanup env pid s) = fv_input s" "fv_pipes (begin_cleanup env pid s) = fv_pipes s"
  "fv_written (begin_cleanup env pid s) = fv_written s" "fv_pipe_error (begin_cleanup env pid s) = fv_pipe_error s"
  by (simp_all add: begin_cleanup_def Let_def case_prod_beta)

lemma finish_cleanup_simps [simp]:
  "fv_closed (finish_cleanup pid s) = fv_closed s" "fv_process (finish_cleanup pid s) = fv_process s"
  "fv_input (finish_cleanup pid s) = fv_input s" "fv_pipes (finish_cleanup pid s) = []"
  "fv_written (finish_cleanup pid s) = fv_written s" "fv_pipe_error (finish_cleanup pid s) = fv_pipe_error s"
  by (simp_all add: finish_cleanup_def Let_def)

lemma cleanup_done: "fv_process s = None \<Longrightarrow> ffmpeg_cleanup env s = (Inr (), s)"
  by (simp add: ffmpeg_cleanup_def)

text \<open>A clean-up of a running source ends after the wait, or does its second half.\<close>

lemma cleanup_cases:
  assumes "fv_process s = Some pid"
  obtains (finished) "fst (wait_or_kill_process env pid (begin_cleanup env pid s)) = Inr ()"
      "ffmpeg_cleanup env s = (Inr (), finish_cleanup pid (snd (wait_or_kill_process env pid (begin_cleanup env pid s))))"
    | (stuck) e where "fst (wait_or_kill_process env pid (begin_cleanup env pid s)) = Inl e"
      "ffmpeg_cleanup env s = (Inl e, snd (wait_or_kill_process env pid (begin_cleanup env pid s)))"
  using assms by (cases "wait_or_kill_process env pid (begin_cleanup env pid s)";
    cases "fst (wait_or_kill_process env pid (begin_cleanup env pid s))") (auto simp: ffmpeg_cleanup_def)

lemma cleanup_keeps [simp]:
  "fv_process (snd (ffmpeg_cleanup env s)) = None"
  "fv_written (snd (ffmpeg_cleanup env s)) = fv_written s"
  "fv_input (snd (ffmpeg_cleanup env s)) = fv_input s"
  "fv_pipe_error (snd (ffmpeg_cleanup env s)) = fv_pipe_error s"
  "fv_closed (snd (ffmpeg_cleanup env s)) \<longleftrightarrow> fv_process s \<noteq> None \<or> fv_closed s"
proof -
  have "fv_process (snd (ffmpeg_cleanup env s)) = None \<and> fv_written (snd (ffmpeg_cleanup env s)) = fv_written s
    \<and> fv_input (snd (ffmpeg_cleanup env s)) = fv_input s \<and> fv_pipe_error (snd (ffmpeg_cleanup env s)) = fv_pipe_error s
    \<and> (fv_closed (snd (ffmpeg_cleanup env s)) \<longleftrightarrow> fv_process s \<noteq> None \<or> fv_closed s)"
  proof (cases "fv_process s")
    case (Some pid)
    then show ?thesis by (cases rule: cleanup_cases [of s pid env]) (simp_all add: Some)
  qed (simp add: cleanup_done)
  then show "fv_process (snd (ffmpeg_cleanup env s)) = None" "fv_written (snd (ffmpeg_cleanup env s)) = fv_written s"
    "fv_input (snd (ffmpeg_cleanup env s)) = fv_input s" "fv_pipe_error (snd (ffmpeg_cleanup env s)) = fv_pipe_error s"
    "fv_closed (snd (ffmpeg_cleanup env s)) \<longleftrightarrow> fv_process s \<noteq> None \<or> fv_closed s" by blast+
qed

text \<open>Reading a frame touches neither the process nor its pipes; once closed, a source stays closed.\<close>

lemma read_frame_simps [simp]:
  "fv_closed (snd (read_frame s)) = fv_closed s" "fv_process (snd (read_frame s)) = fv_process s"
  "fv_input (snd (read_frame s)) = fv_input s" "fv_pipes (snd (read_frame s)) = fv_pipes s"
  "fv_written (snd (read_frame s)) = fv_written s" "fv_open (snd (read_frame s)) = fv_open s"
  "fv_pipe_error (snd (read_frame s)) = fv_pipe_error s" "fv_id (snd (read_frame s)) = fv_id s"
  by (simp_all add: read_frame_def case_prod_beta split: frame_reader.split)

lemma pace_simps [simp]:
  "fv_closed (snd (pace_live_frame env s)) = fv_closed s" "fv_process (snd (pace_live_frame env s)) = fv_process s"
  "fv_input (snd (pace_live_frame env s)) = fv_input s" "fv_pipes (snd (pace_live_frame env s)) = fv_pipes s"
  "fv_written (snd (pace_live_frame env s)) = fv_written s" "fv_open (snd (pace_live_frame env s)) = fv_open s"
  "fv_pipe_error (snd (pace_live_frame env s)) = fv_pipe_error s" "fv_stdout (snd (pace_live_frame env s)) = fv_stdout s"
  "fv_reader (snd (pace_live_frame env s)) = fv_reader s"
  by (simp_all add: pace_live_frame_def case_prod_beta Let_def split: option.split)
text \<open>What one read does, by its outcome.\<close>

lemma read_video_cases:
  obtains (closed) "fv_closed s" "ffmpeg_read_video env s = (Inr None, s)"
    | (failed) "\<not> fv_closed s" "fv_pipe_error s \<noteq> None" "ffmpeg_read_video env s = (Inl RuntimeError, s\<lparr>fv_closed := True\<rparr>)"
    | (raised) e where "\<not> fv_closed s" "fst (read_frame (s\<lparr>fv_tick := fv_tick s + 1\<rparr>)) = Inl e"
        "ffmpeg_read_video env s = (Inl e, snd (read_frame (s\<lparr>fv_tick := fv_tick s + 1\<rparr>)))"
    | (read) frame stats error tick where "\<not> fv_closed s" "fv_pipe_error s = None"
        "fst (read_frame (s\<lparr>fv_tick := fv_tick s + 1\<rparr>)) = Inr frame"
        "ffmpeg_read_video env s =
           (let s' = snd (read_frame (s\<lparr>fv_tick := fv_tick s + 1\<rparr>))
                       \<lparr>fv_frame_stats := stats, fv_pipe_error := error, fv_tick := tick\<rparr>
            in if error \<noteq> None then (Inl RuntimeError, s'\<lparr>fv_closed := True\<rparr>)
               else if frame = [] then (Inr None, s'\<lparr>fv_closed := True\<rparr>)
               else if fv_realtime s'
               then (Inr (Some \<lparr>vf_data = frame, vf_frame_time_ms = fst (pace_live_frame env s')\<rparr>), snd (pace_live_frame env s'))
               else (Inr (Some \<lparr>vf_data = frame, vf_frame_time_ms = fv_frame_time_ms s'\<rparr>), s'))"
proof (cases "fv_closed s \<or> fv_pipe_error s \<noteq> None")
  case True
  then show ?thesis using closed failed by (cases "fv_closed s") (simp_all add: ffmpeg_read_video_def raise_pipe_error_def)
next
  case False
  let ?s0 = "s\<lparr>fv_tick := fv_tick s + 1\<rparr>"
  obtain r s1 where r: "read_frame ?s0 = (r, s1)" by fastforce
  have error: "fv_pipe_error s1 = None" using False by (simp add: arg_cong [OF r, of snd, simplified, symmetric])
  show ?thesis
  proof (cases r)
    case (Inl e)
    then show ?thesis using raised [of e] False r by (simp add: ffmpeg_read_video_def fask_def)
  next
    case (Inr frame)
    let ?stats = "encoded_record_read ((fe_clock env (fv_id s1) (fv_tick s1) - fe_clock env (fv_id s) (fv_tick s)) * 1000)
      (int (length frame)) (fv_frame_stats s1)"
    let ?error = "fe_pipe_error env (fv_id s1) (fv_tick s1 + 1)"
    let ?s' = "s1\<lparr>fv_frame_stats := ?stats, fv_pipe_error := ?error, fv_tick := fv_tick s1 + 2\<rparr>"
    have same: "s1\<lparr>fv_frame_stats := a, fv_pipe_error := None, fv_tick := b\<rparr> = s1\<lparr>fv_frame_stats := a, fv_tick := b\<rparr>"
      for a b using error by (cases s1) simp
    have "ffmpeg_read_video env s =
         (if ?error \<noteq> None then (Inl RuntimeError, ?s'\<lparr>fv_closed := True\<rparr>)
          else if frame = [] then (Inr None, ?s'\<lparr>fv_closed := True\<rparr>)
          else if fv_realtime ?s'
          then (Inr (Some \<lparr>vf_data = frame, vf_frame_time_ms = fst (pace_live_frame env ?s')\<rparr>), snd (pace_live_frame env ?s'))
          else (Inr (Some \<lparr>vf_data = frame, vf_frame_time_ms = fv_frame_time_ms ?s'\<rparr>), ?s'))"
      using False r Inr error
      by (simp add: same ffmpeg_read_video_def fask_def raise_pipe_error_def Let_def case_prod_beta eval_nat_numeral)
    with read [of frame "fv_tick s1 + 2" ?error ?stats] False r Inr show ?thesis by (simp add: Let_def)
  qed
qed
lemma read_video_keeps [simp]:
  "fv_process (snd (ffmpeg_read_video env s)) = fv_process s" "fv_input (snd (ffmpeg_read_video env s)) = fv_input s"
  "fv_written (snd (ffmpeg_read_video env s)) = fv_written s" "fv_pipes (snd (ffmpeg_read_video env s)) = fv_pipes s"
  "fv_open (snd (ffmpeg_read_video env s)) = fv_open s"
  "fv_closed s \<Longrightarrow> ffmpeg_read_video env s = (Inr None, s)"
proof -
  have "fv_process (snd (ffmpeg_read_video env s)) = fv_process s \<and> fv_input (snd (ffmpeg_read_video env s)) = fv_input s
    \<and> fv_written (snd (ffmpeg_read_video env s)) = fv_written s \<and> fv_pipes (snd (ffmpeg_read_video env s)) = fv_pipes s
    \<and> fv_open (snd (ffmpeg_read_video env s)) = fv_open s"
    by (cases rule: read_video_cases [of s env]) (simp_all add: Let_def)
  then show "fv_process (snd (ffmpeg_read_video env s)) = fv_process s"
    "fv_input (snd (ffmpeg_read_video env s)) = fv_input s" "fv_written (snd (ffmpeg_read_video env s)) = fv_written s"
    "fv_pipes (snd (ffmpeg_read_video env s)) = fv_pipes s" "fv_open (snd (ffmpeg_read_video env s)) = fv_open s" by blast+
  show "fv_closed s \<Longrightarrow> ffmpeg_read_video env s = (Inr None, s)" by (simp add: ffmpeg_read_video_def)
qed

lemma read_video_evolves:
  "evolves (ffmpeg_video_source env) (\<lambda>s. fv_process s = None \<longrightarrow> fv_closed s) s (snd (ffmpeg_read_video env s))"
proof (cases "fv_closed s")
  case False
  then show ?thesis by (auto simp: evolves_def ffmpeg_video_source_def source_simps)
qed (simp add: evolves_def)

interpretation ffmpeg_video: source_contract "ffmpeg_video_source env" "\<lambda>s. fv_process s = None \<longrightarrow> fv_closed s"
proof (unfold_locales, goal_cases)
  case (1 s c)
  have streams: "snd (default_read_video_streams (ffmpeg_read_video env) rids s)
      \<in> {s, snd (ffmpeg_read_video env s)}" for rids
    by (cases "ffmpeg_read_video env s"; cases "fst (ffmpeg_read_video env s)")
       (auto simp: default_read_video_streams_def split: list.split)
  show ?case
  proof (cases c)
    case (ReadStreams rids)
    then show ?thesis using streams [of rids] read_video_evolves [of env s]
      by (auto simp: ffmpeg_video_source_def reply_def)
  next
    case ReadVideo
    then show ?thesis using read_video_evolves [of env s] by (simp add: ffmpeg_video_source_def reply_def)
  qed (auto simp: evolves_def source_simps ffmpeg_video_source_def)
next
  case (2 s c)
  then show ?case by (cases c) (auto simp: source_simps ffmpeg_video_source_def split: list.splits)
qed (auto simp: source_simps ffmpeg_video_source_def)

interpretation ffmpeg_wrapped: wrapped_sources "ffmpeg_video_source env" "\<lambda>s. fv_process s = None \<longrightarrow> fv_closed s"
  by unfold_locales

text \<open>Audio of the library and video of FFmpeg, as the children of one media source.\<close>

interpretation ffmpeg_media: two_classes audio_source "\<lambda>_. True" "ffmpeg_video_source env" "\<lambda>s. fv_process s = None \<longrightarrow> fv_closed s"
  by unfold_locales

lemma ffmpeg_simulcast_sel:
  "so_is_media (ffmpeg_simulcast_source ops) = so_is_media (simulcast_source ops)"
  "so_is_finished (ffmpeg_simulcast_source ops) = simulcast_is_finished ops"
  "so_has_audio (ffmpeg_simulcast_source ops) = so_has_audio (simulcast_source ops)"
  "so_has_video (ffmpeg_simulcast_source ops) = so_has_video (simulcast_source ops)"
  "so_cleanup (ffmpeg_simulcast_source ops) = so_cleanup (simulcast_source ops)"
  "k \<notin> range ReadStreams \<Longrightarrow> call_source (ffmpeg_simulcast_source ops) k = call_source (simulcast_source ops) k"
  "call_source (ffmpeg_simulcast_source ops) (ReadStreams rids) = (\<lambda>c. reply Streams (ffmpeg_simulcast_read ops rids c))"
  subgoal by (simp add: ffmpeg_simulcast_source_def)
  subgoal by (simp add: ffmpeg_simulcast_source_def simulcast_source_def)
  subgoal by (simp add: ffmpeg_simulcast_source_def)
  subgoal by (simp add: ffmpeg_simulcast_source_def)
  subgoal by (simp add: ffmpeg_simulcast_source_def)
  subgoal by (cases k) (simp_all add: ffmpeg_simulcast_source_def fun_eq_iff)
  subgoal by (simp add: ffmpeg_simulcast_source_def fun_eq_iff)
  done

lemma ffmpeg_simulcast_frames:
  assumes "fst (ffmpeg_simulcast_read ops rids c) = Inr frames"
  shows "fst (simulcast_read_video_streams ops rids c) = Inr frames"
proof -
  obtain r c1 where s: "simulcast_read_video_streams ops rids c = (r, c1)" by fastforce
  obtain q c2 where d: "(if sm_closed c1 then (Inr (), c1) else drain_inactive_streams ops (set rids) (sm_sources c1) c1)
    = (q, c2)" by fastforce
  from assms show ?thesis by (cases r; cases q) (simp_all add: ffmpeg_simulcast_read_def s d)
qed

lemma ffmpeg_simulcast_evolves_iff: "evolves (ffmpeg_simulcast_source ops) = evolves (simulcast_source ops)"
  by (simp add: fun_eq_iff evolves_def ffmpeg_simulcast_sel(1,2) simulcast_source_def)

context wrapped_sources begin

lemma drain_evolves:
  "all_evolve ops ok (sm_objects c) (sm_objects (snd (drain_inactive_streams ops active ds c)))
    \<and> sm_sources (snd (drain_inactive_streams ops active ds c)) = sm_sources c
    \<and> sm_closed (snd (drain_inactive_streams ops active ds c)) = sm_closed c"
proof (induction ds arbitrary: c)
  case (Cons d ds)
  obtain rid i where d: "d = (rid, i)" by (cases d)
  obtain r objs where o: "on_child (so_read_video ops) i (sm_objects c) = (r, objs)" by fastforce
  have "all_evolve ops ok (sm_objects c) objs"
    using on_child_evolves [OF evolves_calls(2), of "sm_objects c" i] o by simp
  then show ?case using Cons.IH [of "c\<lparr>sm_objects := objs\<rparr>"] Cons.IH [of c]
    by (cases r) (auto simp: d o intro: all_evolve_trans)
qed simp

lemma ffmpeg_simulcast_read_evolves:
  "evolves (simulcast_source ops) (simulcast_ok ops ok) c (snd (ffmpeg_simulcast_read ops rids c))"
proof -
  obtain r c1 where s: "simulcast_read_video_streams ops rids c = (r, c1)" by fastforce
  then have first: "evolves (simulcast_source ops) (simulcast_ok ops ok) c c1"
    using simulcast_streams_evolves [of c rids] by simp
  obtain q c2 where d: "drain_inactive_streams ops (set rids) (sm_sources c1) c1 = (q, c2)" by fastforce
  then have "evolves (simulcast_source ops) (simulcast_ok ops ok) c1 c2"
    using drain_evolves [of c1 "set rids" "sm_sources c1"] by (intro simulcast_evolvesI) simp_all
  with first show ?thesis
    by (cases r; cases q) (auto simp: ffmpeg_simulcast_read_def s d intro: evolves_trans)
qed

lemma ffmpeg_simulcast_contract: "source_contract (ffmpeg_simulcast_source ops) (simulcast_ok ops ok)"
proof (unfold_locales, goal_cases)
  case (1 c k)
  show ?case
  proof (cases "k \<in> range ReadStreams")
    case True
    then obtain rids where "k = ReadStreams rids" by blast
    then show ?thesis using ffmpeg_simulcast_read_evolves [of c rids]
      by (simp add: ffmpeg_simulcast_sel(7) ffmpeg_simulcast_evolves_iff reply_def)
  qed (simp add: ffmpeg_simulcast_sel(6) ffmpeg_simulcast_evolves_iff simulcast.call_evolves)
next
  case (2 c k)
  then have fin: "so_is_finished (simulcast_source ops) c" "so_is_media (simulcast_source ops) c"
    by (simp_all add: ffmpeg_simulcast_sel(1,2) simulcast_source_def)
  show ?case
  proof (cases "k \<in> range ReadStreams")
    case True
    then obtain rids where k: "k = ReadStreams rids" by blast
    have "quiet (map_res Streams (fst (simulcast_read_video_streams ops rids c)))"
      using simulcast.finished_quiet [OF 2(1) fin(2,1), of "ReadStreams rids"] by (simp add: reply_def simulcast_sel)
    then have "quiet (map_res Streams (fst (ffmpeg_simulcast_read ops rids c)))"
      by (auto dest: ffmpeg_simulcast_frames)
    then show ?thesis by (simp add: k ffmpeg_simulcast_sel(7) reply_def)
  qed (use simulcast.finished_quiet [OF 2(1) fin(2,1), of k] in \<open>simp add: ffmpeg_simulcast_sel(6)\<close>)
next
  case (3 c)
  then show ?case using simulcast.finished_lanes [of c]
    by (simp add: ffmpeg_simulcast_sel(1-4) simulcast_source_def)
next
  case (4 c)
  then show ?case using simulcast.cleanup_finishes [of c]
    by (simp add: ffmpeg_simulcast_sel(1,2,5) simulcast_source_def)
qed

end

interpretation ffmpeg_simulcast: source_contract "ffmpeg_simulcast_source (ffmpeg_video_source env)"
  "simulcast_ok (ffmpeg_video_source env) (\<lambda>s. fv_process s = None \<longrightarrow> fv_closed s)"
  by (rule ffmpeg_wrapped.ffmpeg_simulcast_contract)

section \<open>Simulcast children stay in step\<close>

definition stepped :: "'s source_ops \<Rightarrow> 's \<Rightarrow> 's" where
  "stepped ops s = (if so_is_finished ops s then s else snd (so_read_video ops s))"

text \<open>The children at the positions in \<open>A\<close> read one frame, if they are not finished; the others nothing.\<close>

definition steps_at :: "'s source_ops \<Rightarrow> nat set \<Rightarrow> 's SimulcastVideoSource \<Rightarrow> 's SimulcastVideoSource \<Rightarrow> bool" where
  "steps_at ops A c c' \<longleftrightarrow> sm_sources c' = sm_sources c \<and> sm_closed c' = sm_closed c
     \<and> length (sm_objects c') = length (sm_objects c)
     \<and> (\<forall>j < length (sm_objects c). sm_objects c' ! j = (if j \<in> A then stepped ops else id) (sm_objects c ! j))"

lemma steps_at_none: "steps_at ops {} c c"
  by (simp add: steps_at_def)

lemma steps_at_finished: "so_is_finished ops (sm_objects c ! i) \<Longrightarrow> steps_at ops {i} c c"
  by (simp add: steps_at_def stepped_def)

lemma steps_at_read:
  assumes "\<not> so_is_finished ops (sm_objects c ! i)" "on_child (so_read_video ops) i (sm_objects c) = (r, objs)"
  shows "steps_at ops {i} c (c\<lparr>sm_objects := objs\<rparr>)"
  using assms by (auto simp: steps_at_def stepped_def on_child_def nth_list_update split: prod.splits)

lemma steps_at_Un:
  "steps_at ops A c c' \<Longrightarrow> steps_at ops B c' c'' \<Longrightarrow> A \<inter> B = {} \<Longrightarrow> steps_at ops (A \<union> B) c c''"
  by (auto simp: steps_at_def)

text \<open>Two streams of a source are two children.\<close>

lemma children_distinct:
  assumes "distinct (vals d)" "map_of d a = Some i" "map_of d b = Some i"
  shows "a = b"
  using assms
proof (induction d)
  case (Cons p d)
  then show ?case using map_of_Some_vals [of d _ i] by (auto split: if_splits)
qed simp

lemma read_loop_steps:
  assumes "simulcast_read_loop ops rids frames c = (Inr got, c')" "distinct rids" "distinct (vals (sm_sources c))"
  shows "steps_at ops {i. \<exists>rid \<in> set rids. map_of (sm_sources c) rid = Some i} c c'"
  using assms
proof (induction rids arbitrary: frames c)
  case (Cons rid rids)
  let ?A = "{i. \<exists>rid \<in> set rids. map_of (sm_sources c) rid = Some i}"
  obtain i where i: "map_of (sm_sources c) rid = Some i" using Cons.prems(1) by (cases "map_of (sm_sources c) rid") auto
  have disjoint: "{i} \<inter> ?A = {}"
    using children_distinct [OF Cons.prems(3) i] Cons.prems(2) by auto
  have set_eq: "{i. \<exists>rid \<in> set (rid # rids). map_of (sm_sources c) rid = Some i} = {i} \<union> ?A" using i by auto
  show ?case
  proof (cases "so_is_finished ops (sm_objects c ! i)")
    case True
    then have "steps_at ops ?A c c'" using Cons i by auto
    with steps_at_Un [OF steps_at_finished [OF True] this disjoint] show ?thesis by (simp only: set_eq)
  next
    case False
    obtain r objs where o: "on_child (so_read_video ops) i (sm_objects c) = (r, objs)" by fastforce
    let ?c = "c\<lparr>sm_objects := objs\<rparr>"
    obtain frame where r: "r = Inr frame" using Cons.prems(1) i False o by (cases r) auto
    then have "steps_at ops ?A ?c c'"
      using Cons.IH [of _ ?c] Cons.prems i False o by (cases frame) auto
    with steps_at_Un [OF steps_at_read [OF False o] this disjoint] show ?thesis by (simp only: set_eq)
  qed
qed (simp add: steps_at_none)

lemma drain_steps:
  assumes "drain_inactive_streams ops active ds c = (Inr (), c')" "distinct (vals ds)"
  shows "steps_at ops {i. \<exists>rid. (rid, i) \<in> set ds \<and> rid \<notin> active} c c'"
  using assms
proof (induction ds arbitrary: c)
  case (Cons d ds)
  obtain rid i where d: "d = (rid, i)" by (cases d)
  let ?A = "{i. \<exists>rid. (rid, i) \<in> set ds \<and> rid \<notin> active}"
  have disjoint: "{i} \<inter> ?A = {}" using Cons.prems(2) by (force simp: d vals_def)
  show ?case
  proof (cases "rid \<in> active")
    case True
    then show ?thesis using Cons by (simp add: d cong: conj_cong) (smt (verit) Collect_cong)
  next
    case False
    then have set_eq: "{i. \<exists>rid. (rid, i) \<in> set (d # ds) \<and> rid \<notin> active} = {i} \<union> ?A" by (auto simp: d)
    show ?thesis
    proof (cases "so_is_finished ops (sm_objects c ! i)")
      case True
      then have "steps_at ops ?A c c'" using Cons by (simp add: d)
      with steps_at_Un [OF steps_at_finished [OF True] this disjoint] show ?thesis by (simp only: set_eq)
    next
      case unfinished: False
      obtain r objs where o: "on_child (so_read_video ops) i (sm_objects c) = (r, objs)" by fastforce
      then have "steps_at ops ?A (c\<lparr>sm_objects := objs\<rparr>) c'"
        using Cons False unfinished by (cases r) (auto simp: d)
      with steps_at_Un [OF steps_at_read [OF unfinished o] this disjoint] show ?thesis by (simp only: set_eq)
    qed
  qed
qed (simp add: steps_at_none)
text \<open>
  C32. A read of a simulcast source moves every encoder that is not finished on by exactly one frame,
  whichever streams were asked for.
\<close>

theorem simulcast_children_in_step:
  assumes "ffmpeg_simulcast_read ops rids c = (Inr frames, c')"
    and "\<not> sm_closed c" "distinct rids" "distinct (keys (sm_sources c))" "distinct (vals (sm_sources c))"
    and "(rid, i) \<in> set (sm_sources c)" "i < length (sm_objects c)"
  shows "sm_objects c' ! i
    = (if so_is_finished ops (sm_objects c ! i) then sm_objects c ! i else snd (so_read_video ops (sm_objects c ! i)))"
proof -
  let ?A = "{i. \<exists>rid \<in> set rids. map_of (sm_sources c) rid = Some i}"
  let ?B = "{i. \<exists>rid. (rid, i) \<in> set (sm_sources c) \<and> rid \<notin> set rids}"
  obtain r c1 where s: "simulcast_read_video_streams ops rids c = (r, c1)" by fastforce
  have lookup: "map_of (sm_sources c) a = Some j \<longleftrightarrow> (a, j) \<in> set (sm_sources c)" for a j
    using assms(4) by (auto simp: keys_def dest: map_of_SomeD)
  have first: "steps_at ops ?A c c1" and r: "\<exists>x. r = Inr x"
  proof -
    show "\<exists>x. r = Inr x" using ffmpeg_simulcast_frames [of ops rids c frames] assms(1) s by simp
    then obtain x where "r = Inr x" by blast
    then show "steps_at ops ?A c c1"
    proof (cases "rids = []")
      case True
      then show ?thesis using s assms(2) by (simp add: simulcast_read_video_streams_def steps_at_none)
    next
      case False
      obtain q c2 where l: "simulcast_read_loop ops rids [] c = (q, c2)" by fastforce
      then obtain got where "q = Inr got" "c2 = c1"
        using s assms(2) False \<open>r = Inr x\<close> by (cases q) (auto simp: simulcast_read_video_streams_def split: if_splits)
      then show ?thesis using read_loop_steps [OF _ assms(3,5)] l by simp
    qed
  qed
  then have c1: "sm_sources c1 = sm_sources c" "sm_closed c1 = sm_closed c" by (simp_all add: steps_at_def)
  obtain q c2 where d: "drain_inactive_streams ops (set rids) (sm_sources c) c1 = (q, c2)" by fastforce
  have "q = Inr () \<and> c2 = c'"
    using assms(1,2) s r c1 d by (cases q) (auto simp: ffmpeg_simulcast_read_def)
  then have second: "steps_at ops ?B c1 c'" using drain_steps [OF _ assms(5)] d by simp
  have "?A \<inter> ?B = {}" using children_distinct [OF assms(5)] by (auto simp: lookup)
  from steps_at_Un [OF first second this] have "steps_at ops (?A \<union> ?B) c c'" .
  moreover have "i \<in> ?A \<union> ?B" using assms(6) by (auto simp: lookup)
  ultimately show ?thesis using assms(7) by (simp add: steps_at_def stepped_def)
qed

text \<open>Two encoders of VP8, of which one stream is asked for.\<close>

definition sample_ffmpeg_env :: ffmpeg_env where
  "sample_ffmpeg_env =
     \<lparr>fe_host = sample_ffmpeg_host,
      fe_platform = \<lparr>pf_name = ''linux'', pf_display = None, pf_capture = (\<lambda>_ _. None), pf_nv12 = False\<rparr>,
      fe_popen = (\<lambda>_. ExecutableMissing), fe_run = (\<lambda>_. None), fe_native_handle = False, fe_clock = (\<lambda>_ _. 0),
      fe_pipe_error = (\<lambda>_ _. None), fe_exited = (\<lambda>_ _. False), fe_waited = (\<lambda>_ _. False), fe_killed = (\<lambda>_ _. True),
      fe_stdin_takes = (\<lambda>_ _. True)\<rparr>"

definition sample_encoder :: "nat \<Rightarrow> byte \<Rightarrow> FFmpegVideoSource" where
  "sample_encoder pid b =
     started_source sample_ffmpeg_env pid [ivf_frame [b] 0, ivf_frame [b + 1] 1] NoStderr
       (unstarted_source [''ffmpeg''] ''VP8'' 30 640 360 500000 None None False)"

definition sample_simulcast :: "FFmpegVideoSource SimulcastVideoSource" where
  "sample_simulcast =
     \<lparr>sm_objects = [sample_encoder 0 1, sample_encoder 1 7], sm_sources = [(''f'', 0), (''h'', 1)], sm_closed = False\<rparr>"

theorem simulcast_children_in_step_witness:
  "sm_objects (snd (ffmpeg_simulcast_read (ffmpeg_video_source sample_ffmpeg_env) [''f''] sample_simulcast)) ! 1
     = snd (ffmpeg_read_video sample_ffmpeg_env (sample_encoder 1 7))
   \<and> fv_stdout (snd (ffmpeg_read_video sample_ffmpeg_env (sample_encoder 1 7))) = [ivf_frame [8] 1]"
proof -
  let ?ops = "ffmpeg_video_source sample_ffmpeg_env"
  have "is_ok (fst (ffmpeg_simulcast_read ?ops [''f''] sample_simulcast))" by code_simp
  then obtain frames c' where r: "ffmpeg_simulcast_read ?ops [''f''] sample_simulcast = (Inr frames, c')"
    by (metis is_ok_iff prod.collapse)
  have "fv_stdout (snd (ffmpeg_read_video sample_ffmpeg_env (sample_encoder 1 7))) = [ivf_frame [8] 1]" by code_simp
  moreover have "so_is_finished ?ops (sample_encoder 1 7) = False" "so_read_video ?ops = ffmpeg_read_video sample_ffmpeg_env"
    by (simp_all add: ffmpeg_video_source_def sample_encoder_def started_source_def unstarted_source_def Let_def)
  moreover have "sm_objects c' ! 1 = (if so_is_finished ?ops (sm_objects sample_simulcast ! 1) then sm_objects sample_simulcast ! 1
      else snd (so_read_video ?ops (sm_objects sample_simulcast ! 1)))"
    by (rule simulcast_children_in_step [OF r, of "''h''"]) (simp_all add: sample_simulcast_def)
  ultimately show ?thesis using r by (simp add: sample_simulcast_def)
qed

end
