(* ===== verification/FFmpegLifetime.thy ===== *)
theory FFmpegLifetime
  imports FFmpegSources
begin

text \<open>
  What holds over the life of an FFmpeg source: what its stdin receives while reader, writer and
  clean-up interleave, which operating system objects its factories leave open, and that reading
  it comes to an end.
\<close>

section \<open>What FFmpeg receives\<close>

text \<open>
  A source whose stdin is fed by \<open>_pipe_writer\<close>: the reader and \<open>cleanup\<close> run on other threads,
  in any order with the turns of the writer. The flag says whether the writer still runs.
\<close>

inductive fed :: "ffmpeg_env \<Rightarrow> FFmpegVideoSource \<Rightarrow> bool \<Rightarrow> FFmpegVideoSource \<Rightarrow> bool"
  for env :: ffmpeg_env and s0 :: FFmpegVideoSource
where
  fed_start: "fed env s0 True s0"
| fed_turn: "fed env s0 True s \<Longrightarrow> pipe_writer_turn env s = (goes_on, s') \<Longrightarrow> fed env s0 goes_on s'"
| fed_read: "fed env s0 goes_on s \<Longrightarrow> ffmpeg_read_video env s = (r, s') \<Longrightarrow> fed env s0 goes_on s'"
| fed_cleanup: "fed env s0 goes_on s \<Longrightarrow> ffmpeg_cleanup env s = (u, s') \<Longrightarrow> fed env s0 goes_on s'"

text \<open>The data an input delivers: its reads up to the first exception or empty read.\<close>

fun delivery :: "bytes res list \<Rightarrow> bytes" where
  "delivery [] = []"
| "delivery (Inl e # rs) = []"
| "delivery (Inr data # rs) = (if data = [] then [] else data @ delivery rs)"

definition remaining :: "FFmpegVideoSource \<Rightarrow> bytes res list" where
  "remaining s = (case fv_input s of None \<Rightarrow> [] | Some i \<Rightarrow> pi_reads i)"

definition stdin_open :: "FFmpegVideoSource \<Rightarrow> bool" where
  "stdin_open s \<longleftrightarrow> Stdin \<in> set (fv_pipes s) \<and> (\<exists>pid. fv_process s = Some pid \<and> Pipe pid Stdin \<in> set (fv_open s))"

text \<open>
  While the writer runs, nothing is in flight. When it has stopped with the process neither
  cleaned up nor refusing data, stdin is closed and either all was delivered or the input raised.
\<close>

definition feed_inv :: "bytes \<Rightarrow> bool \<Rightarrow> FFmpegVideoSource \<Rightarrow> bool" where
  "feed_inv whole goes_on s \<longleftrightarrow>
     (\<exists>lost. whole = fv_written s @ lost
        \<and> (goes_on \<longrightarrow> lost = delivery (remaining s))
        \<and> (fv_process s \<noteq> None \<longrightarrow> stdin_open s \<or> \<not> goes_on \<and> (lost = [] \<or> fv_pipe_error s \<noteq> None)))"

lemma feed_inv_cong:
  assumes "feed_inv whole goes_on s" "fv_written s' = fv_written s" "fv_input s' = fv_input s"
    and "fv_process s' = None \<or> fv_process s' = fv_process s \<and> stdin_open s' = stdin_open s
      \<and> (fv_pipe_error s \<noteq> None \<longrightarrow> fv_pipe_error s' \<noteq> None)"
  shows "feed_inv whole goes_on s'"
  using assms by (auto simp: feed_inv_def remaining_def)

lemma feed_inv_stops: "feed_inv whole True s \<Longrightarrow> feed_inv whole False s"
  by (auto simp: feed_inv_def)

lemma read_video_keeps_error: "fv_pipe_error s \<noteq> None \<Longrightarrow> fv_pipe_error (snd (ffmpeg_read_video env s)) \<noteq> None"
  by (simp add: ffmpeg_read_video_def raise_pipe_error_def)

text \<open>What the invariant looks at.\<close>

definition feed_part :: "FFmpegVideoSource \<Rightarrow> nat option \<times> pipe_end list \<times> resource list \<times> pipe_input option \<times> exn option" where
  "feed_part s = (fv_process s, fv_pipes s, fv_open s, fv_input s, fv_pipe_error s)"

lemma feed_part_stdin: "feed_part s' = feed_part s \<Longrightarrow> stdin_open s' = stdin_open s"
  by (simp add: feed_part_def stdin_open_def)

lemma write_to_stdin_fields:
  "feed_part (snd (write_to_stdin env i data s)) = feed_part s
   \<and> (if fe_stdin_takes env (fv_id s) (fv_tick s + 1) then fv_written (snd (write_to_stdin env i data s)) = fv_written s @ data
      else fst (write_to_stdin env i data s) = False \<and> fv_written (snd (write_to_stdin env i data s)) = fv_written s)"
  by (simp add: write_to_stdin_def fask_def Let_def feed_part_def)

lemma feed_stdin_cases:
  assumes "fv_process s = Some pid"
  obtains (ended) "fst (feed_stdin env pid i s) = False" "delivery (pi_reads i) = []"
      "\<not> stdin_open (snd (feed_stdin env pid i s))" "fv_written (snd (feed_stdin env pid i s)) = fv_written s"
    | (raised) "fst (feed_stdin env pid i s) = False" "fv_pipe_error (snd (feed_stdin env pid i s)) \<noteq> None"
      "\<not> stdin_open (snd (feed_stdin env pid i s))" "fv_written (snd (feed_stdin env pid i s)) = fv_written s"
    | (wrote) data rs s' where "feed_stdin env pid i s = write_to_stdin env i data s'"
      "pi_reads i = Inr data # rs" "data \<noteq> []" "fv_input s' = Some (i\<lparr>pi_reads := rs\<rparr>)" "fv_written s' = fv_written s"
      "fv_process s' = fv_process s" "fv_pipes s' = fv_pipes s" "fv_open s' = fv_open s"
proof (cases "pi_reads i")
  case Nil
  show ?thesis by (rule ended) (simp_all add: feed_stdin_def fask_def Let_def Nil stdin_open_def assms)
next
  case (Cons r rs)
  show ?thesis
  proof (cases r)
    case (Inl e)
    show ?thesis by (rule raised) (simp_all add: feed_stdin_def fask_def Let_def Cons Inl stdin_open_def assms)
  next
    case (Inr data)
    show ?thesis
    proof (cases "data = []")
      case True
      show ?thesis by (rule ended) (simp_all add: feed_stdin_def fask_def Let_def Cons Inr True stdin_open_def assms)
    next
      case False
      let ?s = "s\<lparr>fv_input := Some (i\<lparr>pi_reads := rs\<rparr>), fv_tick := fv_tick s + 2,
        fv_pipe_stats := pipe_record_read ((fe_clock env (fv_id s) (fv_tick s + 1) - fe_clock env (fv_id s) (fv_tick s)) * 1000)
          False (fv_pipe_stats s)\<rparr>"
      have "feed_stdin env pid i s = write_to_stdin env i data ?s"
        by (simp add: feed_stdin_def fask_def Let_def Cons Inr False eval_nat_numeral)
      then show ?thesis by (rule wrote) (simp_all add: Cons Inr False)
    qed
  qed
qed

lemma feed_stdin_inv:
  assumes "feed_stdin env pid i s = (goes_on, s')" "stdin_open s" "fv_process s = Some pid"
    and "whole = fv_written s @ delivery (pi_reads i)"
  shows "feed_inv whole goes_on s'"
  using assms(3)
proof (cases rule: feed_stdin_cases [where env = env and i = i])
  case (wrote data rs t)
  then have w: "write_to_stdin env i data t = (goes_on, s')" using assms(1) by simp
  note fields = write_to_stdin_fields [of env i data t, unfolded w fst_conv snd_conv]
  have "stdin_open t" using assms(2) wrote(6-8) by (simp add: stdin_open_def)
  then have "stdin_open s'" using feed_part_stdin fields by blast
  moreover have "fv_input s' = Some (i\<lparr>pi_reads := rs\<rparr>)" using fields wrote(4) by (simp add: feed_part_def)
  moreover have "whole = fv_written t @ data @ delivery rs" using assms(4) wrote(2,3,5) by simp
  ultimately show ?thesis using fields by (auto simp: feed_inv_def remaining_def split: if_splits)
qed (use assms in \<open>simp_all add: feed_inv_def\<close>)

lemma writer_turn_inv:
  assumes inv: "feed_inv whole True s" and turn: "pipe_writer_turn env s = (goes_on, s')"
  shows "feed_inv whole goes_on s'"
proof (cases "\<exists>pid i. fv_process s = Some pid \<and> fv_input s = Some i \<and> stdin_open s \<and> \<not> fe_exited env (fv_id s) (fv_tick s)")
  case True
  then obtain pid i where p: "fv_process s = Some pid" "fv_input s = Some i" "stdin_open s"
    "\<not> fe_exited env (fv_id s) (fv_tick s)" by blast
  let ?s = "s\<lparr>fv_tick := fv_tick s + 1\<rparr>"
  have "feed_stdin env pid i ?s = (goes_on, s')"
    using turn p by (simp add: pipe_writer_turn_def fask_def stdin_open_def)
  moreover have "stdin_open ?s" "fv_process ?s = Some pid" using p by (simp_all add: stdin_open_def)
  moreover have "whole = fv_written ?s @ delivery (pi_reads i)"
    using inv p by (auto simp: feed_inv_def remaining_def)
  ultimately show ?thesis by (rule feed_stdin_inv)
next
  case False
  have "fst (pipe_writer_turn env s) = False \<and> feed_part (snd (pipe_writer_turn env s)) = feed_part s
      \<and> fv_written (snd (pipe_writer_turn env s)) = fv_written s"
    using False by (cases "fv_process s"; cases "fv_input s")
      (simp_all add: pipe_writer_turn_def fask_def stdin_open_def feed_part_def)
  then have stop: "goes_on = False" and same: "feed_part s' = feed_part s" "fv_written s' = fv_written s"
    using turn by simp_all
  show ?thesis unfolding stop
    using feed_inv_cong [OF feed_inv_stops [OF inv], of s'] same feed_part_stdin [OF same(1)]
    by (simp add: feed_part_def)
qed

lemma fed_inv:
  assumes "fed env s0 goes_on s" "stdin_open s0" "fv_written s0 = []"
  shows "feed_inv (delivery (remaining s0)) goes_on s"
  using assms
proof (induction rule: fed.induct)
  case fed_start
  then show ?case by (simp add: feed_inv_def)
next
  case (fed_turn s goes_on s')
  from writer_turn_inv [OF fed_turn.IH [OF fed_turn.prems] fed_turn.hyps(2)] show ?case .
next
  case (fed_read goes_on s r s')
  then have s': "s' = snd (ffmpeg_read_video env s)" by simp
  show ?case
    using feed_inv_cong [OF fed_read.IH [OF fed_read.prems], of s'] read_video_keeps_error [of s env]
    by (simp add: s' stdin_open_def)
next
  case (fed_cleanup goes_on s u s')
  then have s': "s' = snd (ffmpeg_cleanup env s)" by simp
  show ?case using feed_inv_cong [OF fed_cleanup.IH [OF fed_cleanup.prems], of s'] by (simp add: s')
qed


definition sample_piped :: FFmpegVideoSource where
  "sample_piped =
     started_source sample_ffmpeg_env 0 [] NoStderr
       (unstarted_source [''ffmpeg''] ''H264'' 30 640 360 500000 None
          (Some \<lparr>pi_id = 9, pi_native = False, pi_preferred_size = 2, pi_reads = [Inr [1, 2], Inr [3]], pi_stats = None,
                 pi_pipe_stats = None\<rparr>) False)"

abbreviation (input) "next_turn s \<equiv> snd (pipe_writer_turn sample_ffmpeg_env s)"

lemma fed_next: "fed env s0 True s \<Longrightarrow> fed env s0 (fst (pipe_writer_turn env s)) (snd (pipe_writer_turn env s))"
  by (rule fed_turn) simp_all



section \<open>Nothing is left behind\<close>

fun res_id :: "resource \<Rightarrow> nat" where
  "res_id (Process n) = n"
| "res_id (Pipe n _) = n"
| "res_id (Input n) = n"
| "res_id (AudioObject n) = n"

text \<open>What a running source can have open.\<close>

definition own_resources :: "nat \<Rightarrow> FFmpegVideoSource \<Rightarrow> resource set" where
  "own_resources pid s = insert (Process pid) (Pipe pid ` set (fv_pipes s))
     \<union> (case fv_input s of None \<Rightarrow> {} | Some i \<Rightarrow> {Input (pi_id i)})"

lemma close_input_open: "set (fv_open (close_input s))
    = set (fv_open s) - (case fv_input s of None \<Rightarrow> {} | Some i \<Rightarrow> {Input (pi_id i)})"
  by (auto simp: close_input_def split: option.split)

lemma begin_cleanup_open: "set (fv_open (begin_cleanup env pid s)) \<subseteq> set (fv_open s)"
  "fv_input s = Some i \<Longrightarrow> \<not> input_is_native s \<Longrightarrow> Input (pi_id i) \<notin> set (fv_open (begin_cleanup env pid s))"
proof -
  have native: "input_is_native (close_input x) = input_is_native x"
    "input_is_native (x\<lparr>fv_process := p, fv_closed := b\<rparr>) = input_is_native x" for x p b
    by (simp_all add: input_is_native_def)
  show "set (fv_open (begin_cleanup env pid s)) \<subseteq> set (fv_open s)"
    by (auto simp: begin_cleanup_def Let_def fask_def close_input_open)
  show "Input (pi_id i) \<notin> set (fv_open (begin_cleanup env pid s))" if "fv_input s = Some i" "\<not> input_is_native s"
    using that by (auto simp: begin_cleanup_def Let_def fask_def native close_input_open)
qed

lemma wait_or_kill_open:
  assumes "wait_or_kill_process env pid s = (Inr (), s')"
  shows "set (fv_open s') = set (fv_open s) - {Process pid}"
  using assms by (auto simp: wait_or_kill_process_def fask_def Let_def split: if_splits)

lemma cleanup_releases:
  assumes "fv_process s = Some pid" "set (fv_open s) \<subseteq> own_resources pid s" "ffmpeg_cleanup env s = (Inr (), s')"
  shows "fv_open s' = []"
  using assms(1)
proof (cases rule: cleanup_cases [where env = env])
  case finished
  let ?b = "begin_cleanup env pid s"
  let ?w = "snd (wait_or_kill_process env pid ?b)"
  have s': "s' = finish_cleanup pid ?w" using finished(2) assms(3) by simp
  have w: "set (fv_open ?w) = set (fv_open ?b) - {Process pid}" "fv_pipes ?w = fv_pipes s" "fv_input ?w = fv_input s"
    using finished(1) by (auto intro!: wait_or_kill_open prod_eqI)
  have native: "input_is_native ?w = input_is_native s" by (simp add: input_is_native_def)
  have "set (fv_open s') \<subseteq> {r. \<exists>i. fv_input s = Some i \<and> \<not> input_is_native s \<and> r = Input (pi_id i)} \<inter> set (fv_open ?b)"
    using begin_cleanup_open(1) [of env pid s] assms(2) w native
    by (auto simp: s' finish_cleanup_def Let_def close_input_open own_resources_def input_is_native_cong [OF close_pipes_simps(3)]
      split: option.splits)
  moreover have "{r. \<exists>i. fv_input s = Some i \<and> \<not> input_is_native s \<and> r = Input (pi_id i)} \<inter> set (fv_open ?b) = {}"
    using begin_cleanup_open(2) [of s] by auto
  ultimately show ?thesis by simp
qed (use assms in simp)
text \<open>
  The promise of a factory: on failure the program holds what it held before; on success also what
  the new source holds, which is its own.
\<close>

definition host_fresh :: "source_host \<Rightarrow> bool" where
  "host_fresh host \<longleftrightarrow> (\<forall>r \<in> set (sh_open host). res_id r < sh_next host)"

definition running_source :: "nat \<Rightarrow> nat \<Rightarrow> string \<Rightarrow> FFmpegVideoSource \<Rightarrow> bool" where
  "running_source lo hi raw_codec s \<longleftrightarrow> (\<exists>pid. fv_process s = Some pid \<and> set (fv_open s) \<subseteq> own_resources pid s)
     \<and> (\<forall>r \<in> set (fv_open s). lo \<le> res_id r \<and> res_id r < hi)
     \<and> \<not> fv_closed s \<and> coerce_video_codec raw_codec = Inr (vc_codec (fv_video_config s))"

definition clean_start :: "source_host \<Rightarrow> string \<Rightarrow> FFmpegVideoSource res \<times> source_host \<Rightarrow> bool" where
  "clean_start host raw_codec r \<longleftrightarrow> sh_next host \<le> sh_next (snd r)
     \<and> (case fst r of
          Inl e \<Rightarrow> set (sh_open (snd r)) = set (sh_open host)
        | Inr s \<Rightarrow> set (sh_open (snd r)) = set (sh_open host) \<union> set (fv_open s)
            \<and> running_source (sh_next host) (sh_next (snd r)) raw_codec s)"

lemma clean_start_fresh:
  assumes "clean_start host raw_codec (r, host')" "host_fresh host"
  shows "host_fresh host'"
proof (cases r)
  case (Inl e)
  then show ?thesis using assms by (fastforce simp: clean_start_def host_fresh_def)
next
  case (Inr s)
  have "res_id x < sh_next host'" if "x \<in> set (sh_open host')" for x
    using that assms Inr by (auto simp: clean_start_def host_fresh_def running_source_def intro: less_le_trans)
  then show ?thesis by (simp add: host_fresh_def)
qed

definition killable :: "ffmpeg_env \<Rightarrow> bool" where
  "killable env \<longleftrightarrow> (\<forall>pid t. fe_killed env pid t)"

lemma killable_cleanup: "killable env \<Longrightarrow> fst (ffmpeg_cleanup env s) = Inr ()"
proof (cases "fv_process s")
  case (Some pid)
  assume "killable env"
  then have "fst (wait_or_kill_process env pid x) = Inr ()" for x
    by (simp add: killable_def wait_or_kill_process_def fask_def Let_def)
  with Some show ?thesis by (cases rule: cleanup_cases [where env = env]) auto
qed (simp add: cleanup_done)

text \<open>Cleaning up a running source returns exactly what it holds.\<close>

lemma cleanup_source_open:
  assumes "killable env" "running_source lo hi raw_codec s"
  shows "fst (cleanup_source env s host) = Inr ()"
    and "set (sh_open (snd (cleanup_source env s host))) = set (sh_open host) - set (fv_open s)"
    and "sh_next (snd (cleanup_source env s host)) = sh_next host"
proof -
  obtain pid where "fv_process s = Some pid" "set (fv_open s) \<subseteq> own_resources pid s"
    using assms(2) by (auto simp: running_source_def)
  moreover obtain s' where c: "ffmpeg_cleanup env s = (Inr (), s')"
    using killable_cleanup [OF assms(1), of s] by (metis prod.collapse)
  ultimately have "fv_open s' = []" by (rule cleanup_releases)
  then show "fst (cleanup_source env s host) = Inr ()"
    "set (sh_open (snd (cleanup_source env s host))) = set (sh_open host) - set (fv_open s)"
    "sh_next (snd (cleanup_source env s host)) = sh_next host"
    by (auto simp: cleanup_source_def c settle_def)
qed

lemma open_reader_fields:
  "fv_process (snd (open_reader s)) = fv_process s" "fv_open (snd (open_reader s)) = fv_open s"
  "fv_pipes (snd (open_reader s)) = fv_pipes s" "fv_input (snd (open_reader s)) = fv_input s"
  "fv_closed (snd (open_reader s)) = fv_closed s" "fv_video_config (snd (open_reader s)) = fv_video_config s"
  by (simp_all add: open_reader_def case_prod_beta split: sum.split)

lemma new_source_clean:
  assumes "killable env" "host_fresh host"
  shows "clean_start host raw_codec
    (new_ffmpeg_video_source env command raw_codec fps width height bitrate preview_command None stderr live host)"
    (is "clean_start host raw_codec ?new")
proof (cases "coerce_video_codec raw_codec")
  case (Inl e)
  then show ?thesis by (simp add: clean_start_def new_ffmpeg_video_source_def)
next
  case (Inr codec)
  show ?thesis
  proof (cases "fe_popen env command")
    case (Started out)
    let ?pid = "sh_next host"
    let ?s = "started_source env ?pid out stderr
      (unstarted_source command codec fps width height bitrate preview_command None live)"
    let ?host = "host\<lparr>sh_next := Suc ?pid, sh_open := sh_open host @ Process ?pid # map (Pipe ?pid) (fv_pipes ?s)\<rparr>"
    obtain r s where o: "open_reader ?s = (r, s)" by fastforce
    have start: "fv_open ?s = Process ?pid # map (Pipe ?pid) (fv_pipes ?s)" "fv_process ?s = Some ?pid"
      "\<not> fv_closed ?s" "vc_codec (fv_video_config ?s) = codec" "fv_input ?s = None"
      by (simp_all add: started_source_def unstarted_source_def Let_def)
    note fields = open_reader_fields [of ?s, unfolded o snd_conv]
    have running: "running_source ?pid (Suc ?pid) raw_codec s"
      using start by (auto simp: running_source_def fields own_resources_def Inr)
    have gone: "set (sh_open ?host) - set (fv_open s) = set (sh_open host)"
      using assms(2) by (fastforce simp: fields start host_fresh_def)
    have "?new = (case (r, s) of (Inr _, s) \<Rightarrow> (Inr s, ?host)
      | (Inl e, s) \<Rightarrow> (case cleanup_source env s ?host of (Inr _, host) \<Rightarrow> (Inl e, host) | (Inl e', host) \<Rightarrow> (Inl e', host)))"
      by (simp add: new_ffmpeg_video_source_def Inr Started o Let_def)
    then show ?thesis
    proof (cases r)
      case (Inl e)
      note closed = cleanup_source_open [OF assms(1) running, of ?host]
      obtain host' where "cleanup_source env s ?host = (Inr (), host')" using closed(1) by (metis prod.collapse)
      with closed gone Inl \<open>?new = _\<close> show ?thesis by (simp add: clean_start_def)
    next
      case Inr
      with running start fields \<open>?new = _\<close> show ?thesis by (simp add: clean_start_def)
    qed
  qed (simp_all add: clean_start_def new_ffmpeg_video_source_def Inr)
qed
lemma clean_start_error: "clean_start host raw_codec (Inl e, host\<lparr>sh_caches := caches\<rparr>)" "clean_start host raw_codec (Inl e, host)"
  by (simp_all add: clean_start_def)

lemma clean_start_caches: "clean_start (host\<lparr>sh_caches := caches\<rparr>) raw_codec r = clean_start host raw_codec r"
  by (simp add: clean_start_def split: sum.split)

lemma spawn_clean:
  assumes "killable env" "host_fresh host"
  shows "clean_start host (rq_codec rq) (spawn_from_input env rq preview_args None stderr live host)"
proof -
  define preview where "preview = (case preview_args of
      None \<Rightarrow> Inr None
    | Some args \<Rightarrow> map_res Some (preview_ffmpeg_command (rq_width rq) (rq_height rq) (rq_executable rq) args
                                     (rq_before_options rq)))"
  obtain command caches where c: "ffmpeg_command (fe_host env) rq False (sh_caches host) = (command, caches)" by fastforce
  have "host_fresh (host\<lparr>sh_caches := caches\<rparr>)" using assms(2) by (simp add: host_fresh_def)
  note new = new_source_clean [OF assms(1) this, unfolded clean_start_caches]
  show ?thesis
    by (cases preview; cases command)
       (simp_all add: spawn_from_input_def preview_def [symmetric] c clean_start_error new)
qed

lemma file_clean:
  assumes "killable env" "host_fresh host"
  shows "clean_start host (rq_codec rq)
    (video_from_file env inputs (InputPath path) False rq input_args preview_input_args stderr host)"
proof -
  let ?rq = "\<lambda>args. rq\<lparr>rq_input_args := args, rq_use_decoder := True\<rparr>"
  have "clean_start host (rq_codec rq) (spawn_from_input env (?rq args) preview_args None stderr False host)" for args preview_args
    using spawn_clean [OF assms, of "?rq args"] by simp
  then show ?thesis by (simp add: video_from_file_def resolve_ffmpeg_source_input_def Let_def)
qed

text \<open>The children of a simulcast source, and what the program holds beyond \<open>base\<close> for them.\<close>

definition children_held :: "source_host \<Rightarrow> string \<Rightarrow> (string, FFmpegVideoSource) odict \<Rightarrow> source_host \<Rightarrow> bool" where
  "children_held base raw_codec children host \<longleftrightarrow> host_fresh host \<and> sh_next base \<le> sh_next host
     \<and> set (sh_open host) = set (sh_open base) \<union> (\<Union>s \<in> set (vals children). set (fv_open s))
     \<and> (\<forall>s \<in> set (vals children). running_source (sh_next base) (sh_next host) raw_codec s)"

lemma cleanup_children_open:
  assumes "killable env" "\<forall>s \<in> set (vals children). running_source lo hi raw_codec s"
  shows "fst (cleanup_children env children host) = Inr ()
    \<and> set (sh_open (snd (cleanup_children env children host))) = set (sh_open host) - (\<Union>s \<in> set (vals children). set (fv_open s))"
  using assms(2)
proof (induction children arbitrary: host)
  case (Cons child children)
  obtain rid s where child: "child = (rid, s)" by (cases child)
  have "running_source lo hi raw_codec s" using Cons.prems by (simp add: child)
  note s = cleanup_source_open [OF assms(1) this, of host]
  obtain host' where h: "cleanup_source env s host = (Inr (), host')" using s(1) by (metis prod.collapse)
  show ?case using Cons.IH [of host'] Cons.prems s(2) by (auto simp: child h)
qed simp

lemma abandon_children_open:
  assumes "killable env" "host_fresh base" "children_held base raw_codec children host"
  shows "\<exists>host'. abandon_children env children e host = (Inl e, host') \<and> set (sh_open host') = set (sh_open base)"
proof -
  have run: "\<forall>s \<in> set (vals children). running_source (sh_next base) (sh_next host) raw_codec s"
    using assms(3) by (simp add: children_held_def)
  obtain host' where h: "cleanup_children env children host = (Inr (), host')"
    using cleanup_children_open [OF assms(1) run, of host] by (metis prod.collapse)
  have "set (sh_open base) \<inter> (\<Union>s \<in> set (vals children). set (fv_open s)) = {}"
    using assms(2) run by (fastforce simp: host_fresh_def running_source_def)
  then have "set (sh_open host') = set (sh_open base)"
    using cleanup_children_open [OF assms(1) run, of host] assms(3) h by (auto simp: children_held_def)
  then show ?thesis by (simp add: abandon_children_def h)
qed

lemma vals_update_absent: "k \<notin> set (keys d) \<Longrightarrow> vals (AList.update k v d) = vals d @ [v]"
  by (simp add: update_absent vals_def)

lemma build_children_clean:
  assumes "killable env" "host_fresh base"
    and factory: "\<And>config host. host_fresh host \<Longrightarrow> clean_start host raw_codec (factory config host)"
    and "children_held base raw_codec children host"
  shows "case build_children env config factory streams children host of
      (Inl e, host') \<Rightarrow> set (sh_open host') = set (sh_open base)
    | (Inr built, host') \<Rightarrow> children_held base raw_codec built host'"
  using assms(4)
proof (induction streams arbitrary: children host)
  case (Cons stream streams)
  show ?case
  proof (cases "vs_rid stream \<in> set (keys children)")
    case True
    then show ?thesis using abandon_children_open [OF assms(1,2) Cons.prems, of ClientException] by auto
  next
    case False
    obtain r host1 where f: "factory (config stream) host = (r, host1)" by fastforce
    have fresh: "host_fresh host" using Cons.prems by (simp add: children_held_def)
    note clean = factory [OF fresh, of "config stream", unfolded f]
    show ?thesis
    proof (cases r)
      case (Inl e)
      have "children_held base raw_codec children host1"
        using Cons.prems clean clean_start_fresh [OF clean fresh] Inl
        by (auto simp: children_held_def clean_start_def running_source_def) (meson less_le_trans)
      then show ?thesis using abandon_children_open [OF assms(1,2), of raw_codec children host1 e] False f Inl by auto
    next
      case (Inr s)
      have "children_held base raw_codec (AList.update (vs_rid stream) s children) host1"
        using Cons.prems clean clean_start_fresh [OF clean fresh] Inr
        by (auto simp: children_held_def clean_start_def running_source_def vals_update_absent [OF False])
           (meson less_le_trans order_trans)+
      from Cons.IH [OF this] show ?thesis using False f Inr by simp
    qed
  qed
qed simp
lemma all_codecs_agree:
  assumes "\<forall>i \<in> set ids. \<exists>config. so_video_config ops (objects ! i) = Some config \<and> vc_codec config = codec"
    "known = None \<or> known = Some codec"
  shows "simulcast_codecs_agree ops objects known ids"
  using assms by (induction ids arbitrary: known) (auto split: option.split)

lemma all_checked:
  assumes "\<forall>i \<in> set ids. so_is_media ops (objects ! i) \<and> so_has_video ops (objects ! i)"
  shows "simulcast_check ops objects ids = Inr ()"
  using assms by (induction ids) auto

text \<open>Children that were all started pass the checks of the simulcast constructor.\<close>

lemma children_accepted:
  assumes "\<forall>s \<in> set (vals children). running_source lo hi raw_codec s" "children \<noteq> []"
  shows "\<exists>c. new_simulcast (ffmpeg_video_source env) (vals children) (zip (keys children) [0..<length children]) = Inr c
    \<and> sm_objects c = vals children"
proof -
  let ?ops = "ffmpeg_video_source env"
  let ?sources = "zip (keys children) [0..<length children]"
  have ids: "vals ?sources = [0..<length children]" by (simp add: vals_def keys_def)
  have child: "running_source lo hi raw_codec (vals children ! i)" if "i < length children" for i
    using that assms(1) by (simp add: vals_def)
  obtain codec where "coerce_video_codec raw_codec = Inr codec"
    using child [of 0] assms(2) by (auto simp: running_source_def)
  then have "vc_codec (fv_video_config (vals children ! i)) = codec" if "i < length children" for i
    using child [OF that] by (auto simp: running_source_def)
  then have "simulcast_codecs_agree ?ops (vals children) None (vals ?sources)"
    by (intro all_codecs_agree [where codec = codec]) (auto simp: ids ffmpeg_video_source_def)
  moreover have "simulcast_check ?ops (vals children) (vals ?sources) = Inr ()"
    using child by (intro all_checked) (auto simp: ids ffmpeg_video_source_def source_simps running_source_def)
  moreover have "?sources \<noteq> []" using assms(2) by (cases children) (simp_all add: keys_def)
  ultimately show ?thesis by (simp add: new_simulcast_def)
qed

text \<open>
  C29. A simulcast source of a file is made whole or not at all: when one of its encoders cannot be
  started, every process and pipe that was opened for the others is closed again. FFmpeg dies when
  it is killed.
\<close>

theorem failed_simulcast_leaves_nothing:
  assumes "simulcast_from_file env inputs source rq streams input_args preview_input_args stderr host = (Inl e, host')"
    and "killable env" "host_fresh host"
  shows "set (sh_open host') = set (sh_open host)"
proof -
  let ?factory = "\<lambda>config. video_from_file env inputs (InputPath source) False (configured config rq) input_args preview_input_args stderr"
  have factory: "clean_start h (rq_codec rq) (?factory config h)" if "host_fresh h" for config h
    using file_clean [OF assms(2) that, of "configured config rq"] by (simp add: configured_def)
  let ?config = "\<lambda>stream. stream_config (rq_codec rq) stream (rq_width rq) (rq_height rq) (rq_fps rq) (rq_bitrate rq)"
  obtain r host1 where b: "build_children env ?config ?factory streams [] host = (r, host1)" by fastforce
  have "children_held host (rq_codec rq) [] host" using assms(3) by (simp add: children_held_def)
  note built = build_children_clean [where factory = ?factory and config = ?config and streams = streams,
    OF assms(2,3) factory this, unfolded b prod.case]
  show ?thesis
  proof (cases r)
    case (Inl e')
    then show ?thesis using assms(1) built b by (auto simp: simulcast_from_file_def build_sources_def simulcast_of_def)
  next
    case (Inr children)
    have held: "children_held host (rq_codec rq) children host1" using built Inr by simp
    have r: "new_simulcast (ffmpeg_video_source env) (vals children) (zip (keys children) [0..<length children]) = Inl e"
      "host' = host1"
      using assms(1) b Inr by (simp_all add: simulcast_from_file_def build_sources_def simulcast_of_def)
    have "children = []"
    proof (rule ccontr)
      assume "children \<noteq> []"
      moreover have "\<forall>s \<in> set (vals children). running_source (sh_next host) (sh_next host1) (rq_codec rq) s"
        using held by (simp add: children_held_def)
      ultimately obtain c where
        "new_simulcast (ffmpeg_video_source env) (vals children) (zip (keys children) [0..<length children]) = Inr c"
        using children_accepted by blast
      then show False using r(1) by simp
    qed
    then show ?thesis using held r(2) by (simp add: children_held_def)
  qed
qed

definition sample_request :: video_request where
  "sample_request =
     \<lparr>rq_codec = ''h264'', rq_width = 1280, rq_height = 720, rq_fps = 30, rq_bitrate = 2000000, rq_executable = ''ffmpeg'',
      rq_input_args = [], rq_before_options = ArgvNone, rq_options = ArgvNone, rq_source_codec = None,
      rq_transcoder = None, rq_use_decoder = True\<rparr>"

definition sample_rid :: "string \<Rightarrow> VoiceStream" where
  "sample_rid rid = \<lparr>vs_type = ''video'', vs_rid = rid, vs_quality = 100, vs_active = True, vs_ssrc = None, vs_rtx_ssrc = None,
     vs_max_bitrate = None, vs_max_framerate = None, vs_max_resolution = None\<rparr>"

abbreviation (input) "empty_host \<equiv> \<lparr>sh_open = [], sh_next = 0, sh_caches = no_caches\<rparr>"

definition starting_env :: ffmpeg_env where
  "starting_env = sample_ffmpeg_env\<lparr>fe_popen := (\<lambda>_. Started [])\<rparr>"

text \<open>Two streams of one RID: the encoder of the first has been started when the second is refused.\<close>

theorem failed_simulcast_leaves_nothing_witness:
  "\<exists>host'. simulcast_from_file starting_env (\<lambda>_. undefined) ''clip.mp4'' sample_request [sample_rid ''f'', sample_rid ''f'']
      None None NoStderr empty_host = (Inl ClientException, host')
    \<and> sh_next host' = 1 \<and> set (sh_open host') = {}"
proof -
  let ?run = "simulcast_from_file starting_env (\<lambda>_. undefined) ''clip.mp4'' sample_request [sample_rid ''f'', sample_rid ''f'']
      None None NoStderr empty_host"
  have "(case ?run of (r, host') \<Rightarrow> (case r of Inl e \<Rightarrow> e = ClientException | Inr _ \<Rightarrow> False) \<and> sh_next host' = 1)"
    by code_simp
  then obtain host' where run: "?run = (Inl ClientException, host')" "sh_next host' = 1"
    by (auto split: prod.splits sum.splits)
  have "killable starting_env" "host_fresh empty_host"
    by (simp_all add: killable_def starting_env_def sample_ffmpeg_env_def host_fresh_def)
  from failed_simulcast_leaves_nothing [OF run(1) this] show ?thesis using run by auto
qed

text \<open>
  C33. A media source of a file, likewise: when its video cannot be started, neither its audio nor any
  process stays behind.
\<close>

theorem failed_media_leaves_nothing:
  assumes "media_from_file env start_audio inputs (InputPath path) False audio opus_audio rq input_args preview_input_args
      stderr host = (Inl e, host')"
    and "killable env" "host_fresh host"
  shows "set (sh_open host') = set (sh_open host)"
proof -
  let ?video = "video_from_file env inputs (InputPath path) False rq input_args preview_input_args stderr"
  have composite: "ffmpeg_composite a video \<noteq> Inl x" for a video x
    by (cases a) (simp_all add: ffmpeg_composite_def new_composite_def)
  have video: "set (sh_open h') = set (sh_open h)" if "?video h = (Inl x, h')" "host_fresh h" for h h' x
    using file_clean [OF assms(2) that(2), of rq inputs path input_args preview_input_args stderr] that(1)
    by (simp add: clean_start_def)
  show ?thesis
  proof (cases audio)
    case False
    then have run: "with_audio None ?video host = (Inl e, host')"
      using assms(1) by (simp add: media_from_file_def resolve_ffmpeg_source_input_def Let_def)
    obtain r h where v: "?video host = (r, h)" by fastforce
    then have "r = Inl e \<and> h = host'"
      using run by (cases r) (auto simp: with_audio_def composite)
    then show ?thesis using video v assms(3) by blast
  next
    case True
    show ?thesis
    proof (cases "start_audio opus_audio path")
      case (Inl x)
      then show ?thesis using assms(1) True
        by (simp add: media_from_file_def resolve_ffmpeg_source_input_def Let_def open_audio_def)
    next
      case (Inr a)
      let ?i = "sh_next host"
      let ?host = "host\<lparr>sh_next := ?i + 1, sh_open := sh_open host @ [AudioObject ?i]\<rparr>"
      have run: "with_audio (Some (?i, a)) ?video ?host = (Inl e, host')"
        using assms(1) True Inr by (simp add: media_from_file_def resolve_ffmpeg_source_input_def Let_def open_audio_def)
      have fresh: "host_fresh ?host" using assms(3) by (fastforce simp: host_fresh_def)
      obtain r h where v: "?video ?host = (r, h)" by fastforce
      have "r = Inl e \<and> host' = cleanup_audio ?i h"
        using run v by (cases r) (auto simp: with_audio_def composite)
      moreover have "AudioObject ?i \<notin> set (sh_open host)" using assms(3) by (force simp: host_fresh_def)
      ultimately show ?thesis using video [OF _ fresh] v by (auto simp: cleanup_audio_def)
    qed
  qed
qed

theorem failed_media_leaves_nothing_witness:
  "\<exists>host'. media_from_file sample_ffmpeg_env (\<lambda>_ _. Inr \<lparr>as_reads = [], as_opus = True, as_cleaned = False\<rparr>) (\<lambda>_. undefined)
      (InputPath ''clip.mp4'') False True True sample_request None None NoStderr empty_host = (Inl ClientException, host')
    \<and> set (sh_open host') = {}"
proof -
  let ?run = "media_from_file sample_ffmpeg_env (\<lambda>_ _. Inr \<lparr>as_reads = [], as_opus = True, as_cleaned = False\<rparr>) (\<lambda>_. undefined)
      (InputPath ''clip.mp4'') False True True sample_request None None NoStderr empty_host"
  have "(case fst ?run of Inl e \<Rightarrow> e = ClientException | Inr _ \<Rightarrow> False)" by code_simp
  then obtain host' where run: "?run = (Inl ClientException, host')"
    by (cases ?run) (auto split: sum.splits)
  have "killable sample_ffmpeg_env" "host_fresh empty_host"
    by (simp_all add: killable_def sample_ffmpeg_env_def host_fresh_def)
  from failed_media_leaves_nothing [OF run this] show ?thesis using run by auto
qed


definition windows_env :: ffmpeg_env where
  "windows_env = sample_ffmpeg_env\<lparr>fe_platform :=
     \<lparr>pf_name = ''win32'', pf_display = None,
      pf_capture = (\<lambda>_ _. Some \<lparr>ds_width = 1280, ds_height = 720, ds_pixel_format = ''bgra''\<rparr>), pf_nv12 = True\<rparr>\<rparr>"



section \<open>Reading comes to an end\<close>

text \<open>The bytes a source has not yet handed out.\<close>

definition pending_bytes :: "FFmpegVideoSource \<Rightarrow> nat" where
  "pending_bytes s = length (concat (fv_stdout s)) + (case fv_reader s of IVFReader \<Rightarrow> 0 | AnnexBReader r \<Rightarrow> length (ab_buffer r))"

lemma stream_read_split: "stream_read n s = (c, s') \<Longrightarrow> concat s = c @ concat s'"
  by (auto simp: stream_read_def split: list.splits if_splits)

lemma read_exact_loop_split: "read_exact_loop n acc s = (x, s') \<Longrightarrow> acc @ concat s = x @ concat s'"
proof (induction n acc s rule: read_exact_loop.induct)
  case (1 n acc s)
  show ?case
  proof (cases "length acc < n")
    case False
    then show ?thesis using "1.prems" by (simp add: read_exact_loop.simps)
  next
    case True
    obtain c s1 where c: "stream_read (n - length acc) s = (c, s1)" by fastforce
    show ?thesis
    proof (cases "c = []")
      case True
      then show ?thesis using "1.prems" c stream_read_split [OF c] \<open>length acc < n\<close> by (subst (asm) read_exact_loop.simps) simp
    next
      case False
      then have "read_exact_loop n (acc @ c) s1 = (x, s')"
        using "1.prems" c True by (subst (asm) read_exact_loop.simps) simp
      from "1.IH" [OF True c [symmetric] refl False this] stream_read_split [OF c] show ?thesis by simp
    qed
  qed
qed

lemma read_exact_split: "read_exact n s = (x, s') \<Longrightarrow> concat s = x @ concat s'"
  using read_exact_loop_split [of n "[]" s x s'] by (simp add: read_exact_def)

lemma ivf_read_frame_shrinks:
  assumes "ivf_read_frame s = (f, s')"
  shows "f = Inr [] \<or> length (concat s') < length (concat s)"
proof -
  obtain header s1 where h: "read_exact 12 s = (header, s1)" by fastforce
  note split = read_exact_split [OF h]
  show ?thesis
  proof (cases "header = [] \<or> length header \<noteq> 12")
    case True
    then show ?thesis using assms h split by (auto simp: ivf_read_frame_def split: if_splits)
  next
    case False
    obtain frame s2 where f: "read_exact (nat (from_le (take 4 header))) s1 = (frame, s2)" by fastforce
    have "s' = s2" using assms h f False by (auto simp: ivf_read_frame_def Let_def split: if_splits)
    then show ?thesis using split read_exact_split [OF f] False by auto
  qed
qed

lemma read_frame_shrinks:
  assumes "read_frame s = (r, s')"
  shows "r = Inr [] \<or> pending_bytes s' < pending_bytes s"
proof (cases "fv_reader s")
  case IVFReader
  then show ?thesis using assms ivf_read_frame_shrinks [of "fv_stdout s"]
    by (auto simp: read_frame_def pending_bytes_def split: prod.splits)
next
  case (AnnexBReader a)
  obtain f a' out where o: "annexb_read_frame a (fv_stdout s) = (f, a', out)" by (metis prod_cases3)
  then have "r = Inr f" "s' = s\<lparr>fv_stdout := out, fv_reader := AnnexBReader a'\<rparr>"
    using assms AnnexBReader by (auto simp: read_frame_def)
  then show ?thesis using annexb_read_frame_shrinks [OF o] AnnexBReader by (cases f) (auto simp: pending_bytes_def)
qed

text \<open>A read closes the source or takes at least a byte out of what is pending.\<close>

lemma read_video_progress:
  assumes "ffmpeg_read_video env s = (r, s')"
  shows "fv_closed s' \<or> pending_bytes s' < pending_bytes s"
proof -
  let ?s0 = "s\<lparr>fv_tick := fv_tick s + 1\<rparr>"
  have same: "pending_bytes ?s0 = pending_bytes s" by (simp add: pending_bytes_def)
  obtain f s1 where f: "read_frame ?s0 = (f, s1)" by fastforce
  note shrinks = read_frame_shrinks [OF f, unfolded same]
  have fields: "pending_bytes (snd (pace_live_frame env x)) = pending_bytes x"
    "pending_bytes (s1\<lparr>fv_frame_stats := st, fv_pipe_error := e, fv_tick := n\<rparr>) = pending_bytes s1" for x st e n
    by (simp_all add: pending_bytes_def)
  show ?thesis
  proof (cases rule: read_video_cases [of s env])
    case (raised e)
    then show ?thesis using assms shrinks f by auto
  next
    case (read frame stats error tick)
    then show ?thesis using assms shrinks f fields by (auto simp: Let_def split: if_splits)
  qed (use assms in auto)
qed

text \<open>
  C30. A source whose process ends is finished after finitely many reads, one for each byte that was
  pending and one more at most, whatever the reads return or raise and whatever the pipe thread does.
\<close>

theorem ffmpeg_reading_terminates:
  "fv_closed (((\<lambda>s. snd (ffmpeg_read_video env s)) ^^ (pending_bytes s + 1)) s)"
proof -
  let ?read = "\<lambda>s. snd (ffmpeg_read_video env s)"
  have stays: "fv_closed s \<Longrightarrow> fv_closed ((?read ^^ n) s)" for n s
    by (induction n arbitrary: s) (simp_all add: funpow_swap1)
  have "fv_closed ((?read ^^ n) s)" if "pending_bytes s < n" for n s
    using that
  proof (induction n arbitrary: s)
    case (Suc n)
    have "fv_closed (?read s) \<or> pending_bytes (?read s) < n"
      using read_video_progress [of env s] Suc.prems by (metis less_Suc_eq less_trans_Suc not_less_eq prod.collapse)
    then have "fv_closed ((?read ^^ n) (?read s))" using stays Suc.IH by blast
    then show ?case by (simp only: funpow_Suc_right o_apply)
  qed simp
  from this [of s "pending_bytes s + 1"] show ?thesis by (simp only: less_add_one)
qed


end
