(* ===== verification/Connection.thy ===== *)
theory Connection
  imports Listening
begin

text \<open>
  The UDP transport of a client (\<open>_ConnectionState\<close> of \<open>client.py\<close>) and what the client registers
  with it: the transports it has made, the listeners of each, the table of listener numbers, and the
  packets they hand over. The transport itself is the native module's (\<open>src/python/net.rs\<close>): its
  listeners and its closed flag are modelled, the network is an answer of the environment.

  A client is its receive session (theory \<open>Listening\<close>, with the sending half inside) beside its
  connection. Where the code sets or clears \<open>_socket_listener\<close> or \<open>_rtcp_listener\<close> it registers or
  removes a listener in the same place, so an operation of the session is followed by exactly the
  registrations its change of the two fields stands for.
\<close>

section \<open>The transport\<close>

text \<open>The bound methods \<open>_handle_socket_packets\<close> and \<open>_handle_rtcp_packet\<close>, or another callable.\<close>

datatype udp_callback = HandleSocketPackets | HandleRtcpPacket | OtherCallback nat

record udp_listener =
  ul_id :: nat
  ul_rtp :: bool
  ul_rtcp :: bool
  ul_batch :: bool
  ul_callback :: udp_callback

record udp_transport =
  ut_tos :: int
  ut_closed :: bool
  ut_reading :: bool \<comment> \<open>the thread that receives packets runs\<close>
  ut_next_id :: nat
  ut_listeners :: "udp_listener list"
  ut_ping :: "(pyfloat \<times> pyfloat \<times> pyfloat) option" \<comment> \<open>initial delay, interval and timeout\<close>
  ut_remote :: "(string \<times> int) option"
  ut_sent :: "bytes list"

definition new_udp_transport :: "int \<Rightarrow> udp_transport" where
  "new_udp_transport tos =
     \<lparr>ut_tos = tos, ut_closed = False, ut_reading = False, ut_next_id = 1, ut_listeners = [], ut_ping = None, ut_remote = None, ut_sent = []\<rparr>"

definition transport_add_listener ::
  "udp_callback \<Rightarrow> bool \<Rightarrow> bool \<Rightarrow> bool \<Rightarrow> udp_transport \<Rightarrow> nat \<times> udp_transport"
where
  "transport_add_listener callback rtp rtcp batch t =
     (ut_next_id t,
      t\<lparr>ut_reading := True, ut_next_id := ut_next_id t + 1,
        ut_listeners := ut_listeners t @
          [\<lparr>ul_id = ut_next_id t, ul_rtp = rtp, ul_rtcp = rtcp, ul_batch = batch, ul_callback = callback\<rparr>]\<rparr>)"

definition transport_remove_listener :: "nat \<Rightarrow> udp_transport \<Rightarrow> udp_transport" where
  "transport_remove_listener i t = t\<lparr>ut_listeners := filter (\<lambda>l. ul_id l \<noteq> i) (ut_listeners t)\<rparr>"

definition transport_close :: "udp_transport \<Rightarrow> udp_transport" where
  "transport_close t = t\<lparr>ut_closed := True, ut_reading := False, ut_ping := None\<rparr>"

text \<open>A measurement that runs is left as it is.\<close>

definition transport_start_ping :: "pyfloat \<times> pyfloat \<times> pyfloat \<Rightarrow> udp_transport \<Rightarrow> udp_transport" where
  "transport_start_ping parameters t =
     t\<lparr>ut_reading := True, ut_ping := (if ut_ping t = None then Some parameters else ut_ping t)\<rparr>"

definition transport_send_packets :: "nat \<Rightarrow> bytes list \<Rightarrow> udp_transport \<Rightarrow> (nat \<times> nat) res \<times> udp_transport" where
  "transport_send_packets sendable packets t =
     (if ut_closed t \<and> packets \<noteq> [] then (Inl OSError, t)
      else (if sendable < length packets then Inl OSError else Inr (length packets, sum_list (map length packets)),
            t\<lparr>ut_sent := ut_sent t @ take sendable packets\<rparr>))"

text \<open>The callbacks an RTP or an RTCP packet that arrives is handed to, in order.\<close>

definition dispatch_udp_packets :: "bool \<Rightarrow> udp_transport \<Rightarrow> udp_callback list" where
  "dispatch_udp_packets rtcp t =
     (if \<not> ut_reading t then []
      else map ul_callback (filter (\<lambda>l. if rtcp then ul_rtcp l else ul_rtp l) (ut_listeners t)))"


section \<open>The connection\<close>

record connection =
  cn_transports :: "udp_transport list" \<comment> \<open>all that were ever made\<close>
  cn_socket :: "nat option" \<comment> \<open>\<open>None\<close> is \<open>MISSING\<close>\<close>
  cn_listener_ids :: "(udp_callback, nat) odict"
  cn_endpoint_ip :: "string option"
  cn_ping_rtt :: "pyfloat option"
  cn_ping_timeouts :: int

text \<open>
  What the network answers: whether a socket can be bound and connected, the address discovered,
  whether a datagram is sent, and how many of several.
\<close>

record net_env =
  ne_bind :: "nat \<Rightarrow> unit res"
  ne_connect :: "nat \<Rightarrow> unit res"
  ne_discover :: "nat \<Rightarrow> (string \<times> int) res"
  ne_send :: "nat \<Rightarrow> unit res"
  ne_sendable :: "nat \<Rightarrow> nat" \<comment> \<open>how many datagrams are sent before one fails\<close>
  ne_ping_rtt :: "nat \<Rightarrow> pyfloat option"
  ne_ping_timeouts :: "nat \<Rightarrow> int"

definition new_connection :: connection where
  "new_connection =
     \<lparr>cn_transports = [], cn_socket = None, cn_listener_ids = [], cn_endpoint_ip = None, cn_ping_rtt = None,
      cn_ping_timeouts = 0\<rparr>"

definition change_transport :: "nat \<Rightarrow> (udp_transport \<Rightarrow> udp_transport) \<Rightarrow> connection \<Rightarrow> connection" where
  "change_transport i f c = c\<lparr>cn_transports := (cn_transports c)[i := f (cn_transports c ! i)]\<rparr>"

text \<open>An attribute of \<open>MISSING\<close> is an \<open>AttributeError\<close>.\<close>

definition with_socket :: "(nat \<Rightarrow> connection \<Rightarrow> 'a res \<times> connection) \<Rightarrow> connection \<Rightarrow> 'a res \<times> connection" where
  "with_socket f c = (case cn_socket c of None \<Rightarrow> (Inl AttributeError, c) | Some i \<Rightarrow> f i c)"

definition close_socket :: "connection \<Rightarrow> connection" where
  "close_socket c = (case cn_socket c of None \<Rightarrow> c | Some i \<Rightarrow> change_transport i transport_close c)"

definition create_socket :: "unit res \<Rightarrow> bool \<Rightarrow> connection \<Rightarrow> unit res \<times> connection" where
  "create_socket bound udp_qos c =
     (case bound of
        Inl e \<Rightarrow> (Inl e, c)
      | Inr _ \<Rightarrow>
          (Inr (), c\<lparr>cn_transports := cn_transports c @ [new_udp_transport (if udp_qos then 160 else 0)],
                     cn_socket := Some (length (cn_transports c))\<rparr>))"

text \<open>The first half of \<open>_recreate_socket\<close>; the flow state is the caller's.\<close>

definition recreate_socket :: "unit res \<Rightarrow> bool \<Rightarrow> connection \<Rightarrow> unit res \<times> connection" where
  "recreate_socket bound udp_qos c = create_socket bound udp_qos ((close_socket c)\<lparr>cn_endpoint_ip := None\<rparr>)"

definition connect_udp :: "unit res \<Rightarrow> string \<Rightarrow> int \<Rightarrow> connection \<Rightarrow> unit res \<times> connection" where
  "connect_udp outcome address port =
     with_socket (\<lambda>i c.
       if ut_closed (cn_transports c ! i) then (Inl OSError, c)
       else (outcome, if is_ok outcome then change_transport i (\<lambda>t. t\<lparr>ut_remote := Some (address, port)\<rparr>) c else c))"

definition discover_ip :: "(string \<times> int) res \<Rightarrow> connection \<Rightarrow> (string \<times> int) res \<times> connection" where
  "discover_ip answer =
     with_socket (\<lambda>i c. (if ut_closed (cn_transports c ! i) then Inl OSError else answer, c))"

definition conn_send_packet :: "unit res \<Rightarrow> bytes \<Rightarrow> connection \<Rightarrow> unit res \<times> connection" where
  "conn_send_packet outcome packet =
     with_socket (\<lambda>i c.
       if ut_closed (cn_transports c ! i) then (Inl OSError, c)
       else (outcome, if is_ok outcome then change_transport i (\<lambda>t. t\<lparr>ut_sent := ut_sent t @ [packet]\<rparr>) c else c))"

text \<open>
  \<open>send_packets\<close>: the transport sends the packets one by one; when one fails it is an \<open>OSError\<close>, with
  the packets before it on their way.
\<close>

definition conn_send_packets :: "nat \<Rightarrow> bytes list \<Rightarrow> connection \<Rightarrow> (nat \<times> nat) res \<times> connection" where
  "conn_send_packets sendable packets =
     with_socket (\<lambda>i c.
       let (r, t) = transport_send_packets sendable packets (cn_transports c ! i)
       in bind_res (r, c\<lparr>cn_transports := (cn_transports c)[i := t]\<rparr>) (\<lambda>(sent, octets) c.
            (if sent \<noteq> length packets then Inl OSError else Inr (sent, octets), c)))"

definition add_listener :: "udp_callback \<Rightarrow> bool \<Rightarrow> bool \<Rightarrow> bool \<Rightarrow> connection \<Rightarrow> unit res \<times> connection" where
  "add_listener callback rtp rtcp batch =
     with_socket (\<lambda>i c.
       let (n, t) = transport_add_listener callback rtp rtcp batch (cn_transports c ! i)
       in (Inr (), c\<lparr>cn_transports := (cn_transports c)[i := t],
                     cn_listener_ids := AList.update callback n (cn_listener_ids c)\<rparr>))"

definition add_rtp_listener :: "udp_callback \<Rightarrow> bool \<Rightarrow> connection \<Rightarrow> unit res \<times> connection" where
  "add_rtp_listener callback batch = add_listener callback True False batch"

definition add_rtcp_listener :: "udp_callback \<Rightarrow> connection \<Rightarrow> unit res \<times> connection" where
  "add_rtcp_listener callback = add_listener callback False True False"

definition add_socket_listener :: "udp_callback \<Rightarrow> connection \<Rightarrow> unit res \<times> connection" where
  "add_socket_listener callback = add_listener callback True True False"

definition remove_socket_listener :: "udp_callback \<Rightarrow> connection \<Rightarrow> unit res \<times> connection" where
  "remove_socket_listener callback c =
     (case map_of (cn_listener_ids c) callback of
        None \<Rightarrow> (Inr (), c)
      | Some n \<Rightarrow>
          with_socket (\<lambda>i c. (Inr (), change_transport i (transport_remove_listener n) c))
            (c\<lparr>cn_listener_ids := AList.delete callback (cn_listener_ids c)\<rparr>))"

text \<open>The callbacks that receive an RTP or an RTCP packet of the current transport.\<close>

definition received_by :: "bool \<Rightarrow> connection \<Rightarrow> udp_callback list" where
  "received_by rtcp c =
     (case cn_socket c of None \<Rightarrow> [] | Some i \<Rightarrow> dispatch_udp_packets rtcp (cn_transports c ! i))"

text \<open>The measurement of the round trip.\<close>

definition start_udp_ping :: "pyfloat \<Rightarrow> pyfloat \<Rightarrow> pyfloat \<Rightarrow> connection \<Rightarrow> connection" where
  "start_udp_ping initial_delay interval timeout c =
     (case cn_socket c of
        None \<Rightarrow> c
      | Some i \<Rightarrow> change_transport i (transport_start_ping (initial_delay, interval, timeout)) c)"

text \<open>\<open>ping_rtt_ms\<close> and \<open>ping_timeouts\<close> of the transport: nothing and 0 unless a measurement runs.\<close>

definition transport_ping_rtt :: "net_env \<Rightarrow> nat \<Rightarrow> udp_transport \<Rightarrow> pyfloat option" where
  "transport_ping_rtt net tick t = (if ut_ping t = None then None else ne_ping_rtt net tick)"

definition transport_ping_timeouts :: "net_env \<Rightarrow> nat \<Rightarrow> udp_transport \<Rightarrow> int" where
  "transport_ping_timeouts net tick t = (if ut_ping t = None then 0 else ne_ping_timeouts net tick)"

definition stop_udp_ping :: "net_env \<Rightarrow> nat \<Rightarrow> connection \<Rightarrow> connection" where
  "stop_udp_ping net tick c =
     (case cn_socket c of
        None \<Rightarrow> c
      | Some i \<Rightarrow>
          change_transport i (\<lambda>t. t\<lparr>ut_ping := None\<rparr>)
            (c\<lparr>cn_ping_rtt := transport_ping_rtt net tick (cn_transports c ! i),
               cn_ping_timeouts := transport_ping_timeouts net tick (cn_transports c ! i)\<rparr>))"

definition udp_ping_rtt :: "net_env \<Rightarrow> nat \<Rightarrow> connection \<Rightarrow> pyfloat option" where
  "udp_ping_rtt net tick c =
     (case cn_socket c of None \<Rightarrow> cn_ping_rtt c | Some i \<Rightarrow> transport_ping_rtt net tick (cn_transports c ! i))"

definition udp_ping_timeouts :: "net_env \<Rightarrow> nat \<Rightarrow> connection \<Rightarrow> int" where
  "udp_ping_timeouts net tick c =
     (case cn_socket c of
        None \<Rightarrow> cn_ping_timeouts c | Some i \<Rightarrow> transport_ping_timeouts net tick (cn_transports c ! i))"


section \<open>Registration\<close>

text \<open>
  What a user of a table of listeners relies on: \<open>holds cb b\<close> says that the callback \<open>cb\<close> is
  registered exactly once (\<open>b\<close>) or not at all, and registering or removing one callback leaves the
  others as they are.
\<close>

locale listener_registry =
  fixes ok :: "'c \<Rightarrow> bool"
    and holds :: "'cb \<Rightarrow> bool \<Rightarrow> 'c \<Rightarrow> bool"
    and add :: "'cb \<Rightarrow> 'c \<Rightarrow> unit res \<times> 'c"
    and remove :: "'cb \<Rightarrow> 'c \<Rightarrow> unit res \<times> 'c"
  assumes add_ok: "ok c \<Longrightarrow> holds cb False c \<Longrightarrow> \<exists>c'. add cb c = (Inr (), c') \<and> ok c' \<and> holds cb True c'"
    and remove_ok: "ok c \<Longrightarrow> holds cb True c \<Longrightarrow> \<exists>c'. remove cb c = (Inr (), c') \<and> ok c' \<and> holds cb False c'"
    and add_other: "ok c \<Longrightarrow> cb' \<noteq> cb \<Longrightarrow> holds cb' b c \<Longrightarrow> holds cb' b (snd (add cb c))"
    and remove_other: "ok c \<Longrightarrow> holds cb True c \<Longrightarrow> cb' \<noteq> cb \<Longrightarrow> holds cb' b c \<Longrightarrow> holds cb' b (snd (remove cb c))"

text \<open>A field that names a listener goes from \<open>old\<close> to \<open>new\<close> (set or not).\<close>

definition switch_listener ::
  "('cb \<Rightarrow> 'c \<Rightarrow> unit res \<times> 'c) \<Rightarrow> ('cb \<Rightarrow> 'c \<Rightarrow> unit res \<times> 'c) \<Rightarrow> 'cb \<Rightarrow> bool \<Rightarrow> bool \<Rightarrow> 'c \<Rightarrow> unit res \<times> 'c"
where
  "switch_listener add remove cb old new c =
     (if new \<and> \<not> old then add cb c else if old \<and> \<not> new then remove cb c else (Inr (), c))"

context listener_registry begin

lemma switch_ok:
  assumes "ok c" "holds cb old c"
  shows "\<exists>c'. switch_listener add remove cb old new c = (Inr (), c') \<and> ok c' \<and> holds cb new c'
    \<and> (\<forall>cb' b. cb' \<noteq> cb \<longrightarrow> holds cb' b c \<longrightarrow> holds cb' b c')"
proof (cases "new = old")
  case True
  then show ?thesis using assms by (auto simp: switch_listener_def)
next
  case False
  show ?thesis
  proof (cases new)
    case True
    with False assms have "holds cb False c" by simp
    then obtain c' where "add cb c = (Inr (), c')" "ok c'" "holds cb True c'" using add_ok assms(1) by blast
    then show ?thesis using assms add_other [of c _ cb] True False by (auto simp: switch_listener_def)
  next
    case new: False
    with False assms have "holds cb True c" by simp
    then obtain c' where "remove cb c = (Inr (), c')" "ok c'" "holds cb False c'" using remove_ok assms(1) by blast
    then show ?thesis using assms \<open>holds cb True c\<close> remove_other [of c cb] new False by (auto simp: switch_listener_def)
  qed
qed

end

text \<open>The client's own listeners, with the flags they are registered with.\<close>

fun register_callback :: "udp_callback \<Rightarrow> connection \<Rightarrow> unit res \<times> connection" where
  "register_callback HandleSocketPackets = add_rtp_listener HandleSocketPackets True"
| "register_callback HandleRtcpPacket = add_rtcp_listener HandleRtcpPacket"
| "register_callback (OtherCallback k) = add_socket_listener (OtherCallback k)"

fun listener_for :: "udp_callback \<Rightarrow> nat \<Rightarrow> udp_listener" where
  "listener_for HandleSocketPackets n =
     \<lparr>ul_id = n, ul_rtp = True, ul_rtcp = False, ul_batch = True, ul_callback = HandleSocketPackets\<rparr>"
| "listener_for HandleRtcpPacket n =
     \<lparr>ul_id = n, ul_rtp = False, ul_rtcp = True, ul_batch = False, ul_callback = HandleRtcpPacket\<rparr>"
| "listener_for (OtherCallback k) n =
     \<lparr>ul_id = n, ul_rtp = True, ul_rtcp = True, ul_batch = False, ul_callback = OtherCallback k\<rparr>"

lemma listener_for_simps [simp]: "ul_callback (listener_for cb n) = cb" "ul_id (listener_for cb n) = n"
  by (cases cb; simp)+

definition transport_ok :: "udp_transport \<Rightarrow> bool" where
  "transport_ok t \<longleftrightarrow> distinct (map ul_id (ut_listeners t)) \<and> (\<forall>l \<in> set (ut_listeners t). ul_id l < ut_next_id t)
     \<and> (ut_listeners t \<noteq> [] \<longrightarrow> ut_reading t)"

definition current_transport :: "connection \<Rightarrow> udp_transport" where
  "current_transport c = cn_transports c ! the (cn_socket c)"

definition connection_ok :: "connection \<Rightarrow> bool" where
  "connection_ok c \<longleftrightarrow> cn_socket c \<noteq> None \<and> the (cn_socket c) < length (cn_transports c) \<and> transport_ok (current_transport c)"

definition holds_listener :: "udp_callback \<Rightarrow> bool \<Rightarrow> connection \<Rightarrow> bool" where
  "holds_listener cb b c \<longleftrightarrow>
     (if b then \<exists>n. map_of (cn_listener_ids c) cb = Some n
                 \<and> filter (\<lambda>l. ul_callback l = cb) (ut_listeners (current_transport c)) = [listener_for cb n]
      else map_of (cn_listener_ids c) cb = None
           \<and> filter (\<lambda>l. ul_callback l = cb) (ut_listeners (current_transport c)) = [])"

lemma current_change [simp]:
  "cn_socket c = Some i \<Longrightarrow> i < length (cn_transports c) \<Longrightarrow>
     current_transport (change_transport i f c) = f (current_transport c)"
  by (simp add: current_transport_def change_transport_def)

lemma register_callback_eq:
  assumes "connection_ok c"
  shows "register_callback cb c =
    (Inr (), c\<lparr>cn_transports := (cn_transports c)[the (cn_socket c) :=
                  (current_transport c)\<lparr>ut_reading := True, ut_next_id := ut_next_id (current_transport c) + 1,
                    ut_listeners := ut_listeners (current_transport c)
                      @ [listener_for cb (ut_next_id (current_transport c))]\<rparr>],
               cn_listener_ids := AList.update cb (ut_next_id (current_transport c)) (cn_listener_ids c)\<rparr>)"
  using assms by (cases cb)
    (auto simp: connection_ok_def add_rtp_listener_def add_rtcp_listener_def add_socket_listener_def add_listener_def
      with_socket_def transport_add_listener_def current_transport_def)

lemma remove_callback_eq:
  assumes "connection_ok c" "map_of (cn_listener_ids c) cb = Some n"
  shows "remove_socket_listener cb c =
    (Inr (), c\<lparr>cn_listener_ids := AList.delete cb (cn_listener_ids c),
               cn_transports := (cn_transports c)[the (cn_socket c) := transport_remove_listener n (current_transport c)]\<rparr>)"
  using assms by (auto simp: remove_socket_listener_def connection_ok_def with_socket_def change_transport_def current_transport_def)

lemma filter_swap: "filter P (filter Q xs) = filter Q (filter P xs)"
  by (simp add: conj_commute)

lemma distinct_ids_other:
  assumes "distinct (map f xs)" "filter P xs = [x]" "y \<in> set xs" "\<not> P y"
  shows "f y \<noteq> f x"
proof -
  have "x \<in> set xs \<and> P x" using assms(2) by (metis (mono_tags) filter_eq_Cons_iff in_set_conv_decomp)
  then show ?thesis using assms by (auto simp: distinct_map inj_on_def)
qed

interpretation registry: listener_registry connection_ok holds_listener register_callback remove_socket_listener
proof
  fix c cb
  assume ok: "connection_ok c"
  {
    assume "holds_listener cb False c"
    then show "\<exists>c'. register_callback cb c = (Inr (), c') \<and> connection_ok c' \<and> holds_listener cb True c'"
      using ok unfolding register_callback_eq [OF ok]
      by (auto simp: connection_ok_def holds_listener_def current_transport_def transport_ok_def update_conv'
          dest: order_less_imp_not_eq)
  }
  {
    assume held: "holds_listener cb True c"
    then obtain n where n: "map_of (cn_listener_ids c) cb = Some n"
      "filter (\<lambda>l. ul_callback l = cb) (ut_listeners (current_transport c)) = [listener_for cb n]"
      by (auto simp: holds_listener_def)
    have "filter (\<lambda>l. ul_callback l = cb) (filter (\<lambda>l. ul_id l \<noteq> n) (ut_listeners (current_transport c))) = []"
      by (subst filter_swap) (simp add: n(2) del: filter_filter)
    then show "\<exists>c'. remove_socket_listener cb c = (Inr (), c') \<and> connection_ok c' \<and> holds_listener cb False c'"
      using ok unfolding remove_callback_eq [OF ok n(1)]
      by (auto simp: connection_ok_def holds_listener_def current_transport_def transport_ok_def
          transport_remove_listener_def delete_conv' distinct_map_filter)
  }
  fix cb' b
  assume other: "cb' \<noteq> cb" "holds_listener cb' b c"
  then show "holds_listener cb' b (snd (register_callback cb c))"
    using ok unfolding register_callback_eq [OF ok]
    by (auto simp: connection_ok_def holds_listener_def current_transport_def update_conv' split: if_splits)
  assume "holds_listener cb True c"
  then obtain n where n: "map_of (cn_listener_ids c) cb = Some n"
    "filter (\<lambda>l. ul_callback l = cb) (ut_listeners (current_transport c)) = [listener_for cb n]"
    by (auto simp: holds_listener_def)
  have "ul_id l \<noteq> n" if "l \<in> set (ut_listeners (current_transport c))" "ul_callback l = cb'" for l
    using distinct_ids_other [of ul_id, OF _ n(2) that(1)] that(2) other(1) ok
    by (simp add: connection_ok_def transport_ok_def)
  then have "filter (\<lambda>l. ul_callback l = cb') (filter (\<lambda>l. ul_id l \<noteq> n) (ut_listeners (current_transport c)))
    = filter (\<lambda>l. ul_callback l = cb') (ut_listeners (current_transport c))"
    by (auto intro: filter_cong)
  then show "holds_listener cb' b (snd (remove_socket_listener cb c))"
    using ok other unfolding remove_callback_eq [OF ok n(1)]
    by (auto simp: connection_ok_def holds_listener_def current_transport_def delete_conv' transport_remove_listener_def
        simp del: filter_filter split: if_splits)
qed

text \<open>What leaves the listeners alone.\<close>

lemma listeners_cong:
  assumes "cn_socket c' = cn_socket c" "cn_listener_ids c' = cn_listener_ids c" "cn_transports c' = cn_transports c"
  shows "connection_ok c' = connection_ok c" "holds_listener cb b c' = holds_listener cb b c"
  using assms by (simp_all add: connection_ok_def holds_listener_def current_transport_def)

lemma change_keeps_listeners:
  assumes "connection_ok c" "cn_socket c = Some i" "\<And>t. ut_listeners (f t) = ut_listeners t"
    "\<And>t. ut_next_id (f t) = ut_next_id t" "\<And>t. ut_reading t \<Longrightarrow> ut_reading (f t)"
  shows "connection_ok (change_transport i f c)" "holds_listener cb b (change_transport i f c) = holds_listener cb b c"
proof -
  have i: "i < length (cn_transports c)" using assms(1,2) by (simp add: connection_ok_def)
  have fields: "cn_socket (change_transport i f c) = Some i"
    "cn_listener_ids (change_transport i f c) = cn_listener_ids c"
    "length (cn_transports (change_transport i f c)) = length (cn_transports c)"
    using assms(2) by (simp_all add: change_transport_def)
  note current = current_change [OF assms(2) i, of f]
  show "connection_ok (change_transport i f c)"
    using assms i unfolding connection_ok_def transport_ok_def current fields by simp
  show "holds_listener cb b (change_transport i f c) = holds_listener cb b c"
    unfolding holds_listener_def current fields assms(3) ..
qed

end
