(* ===== verification/VoiceClient.thy ===== *)
theory VoiceClient
  imports Connection Recorders
begin

text \<open>
  The client as a whole (\<open>VoiceClient\<close> of \<open>client.py\<close>): its receive session, with the sending half
  inside, its connection, its audio stream and its player. Here are the parts that join them: the
  listeners on the socket, the audio packets and their sender reports, \<open>play\<close>, connecting,
  disconnecting and cleaning up.

  The base class, the opus encoder, the RTP header extensions and the transport encryption are not
  this package's Python code: they answer questions, as in theory \<open>VideoSend\<close>.
\<close>

section \<open>State\<close>

record encoder_options =
  eo_application :: string
  eo_bitrate :: int
  eo_fec :: bool
  eo_expected_packet_loss :: pyfloat
  eo_bandwidth :: string
  eo_signal_type :: string

record audio_send =
  au_ssrc :: "int option" \<comment> \<open>\<open>None\<close> is \<open>MISSING\<close>\<close>
  au_sequence :: int
  au_timestamp :: int
  au_speaking :: int \<comment> \<open>\<open>_speaking_flags.value\<close>\<close>
  au_packet_count :: int
  au_octet_count :: int
  au_last_report :: "int option" \<comment> \<open>\<open>_audio_last_rtcp_media_time_ms\<close>\<close>
  au_encoder :: "encoder_options option"
  au_crypto :: "(string \<times> bytes) option" \<comment> \<open>\<open>_crypto_state\<close>, and \<open>_crypto\<close> beside it\<close>
  au_receive_crypto :: "(string \<times> bytes) option"
  au_encrypted :: "(bytes \<times> bytes) list" \<comment> \<open>the headers and payloads that were encrypted\<close>

record ('p, 'd) rtc =
  rt_session :: "('p, 'd) session"
  rt_conn :: connection
  rt_audio :: audio_send
  rt_player :: "nat option" \<comment> \<open>the media source of \<open>_player\<close>\<close>
  rt_scheduled :: "video_params list" \<comment> \<open>the calls of \<open>start_video\<close> put on the event loop\<close>
  rt_decode_log :: pyfloat \<comment> \<open>\<open>_last_packet_decode_error_log\<close>\<close>

record ('p, 'd) rtc_env =
  xe_listen :: "('p, 'd) listen_env"
  xe_net :: net_env
  xe_playing :: "nat \<Rightarrow> bool"
  xe_negotiated :: "nat \<Rightarrow> bool" \<comment> \<open>neither \<open>secret_key\<close> nor \<open>mode\<close> is \<open>MISSING\<close>\<close>
  xe_transport :: "nat \<Rightarrow> (string \<times> bytes) res" \<comment> \<open>\<open>(mode, bytes(secret_key))\<close>\<close>
  xe_new_crypto :: "string \<times> bytes \<Rightarrow> unit res"
  xe_encrypt :: "nat \<Rightarrow> string \<times> bytes \<Rightarrow> bytes \<Rightarrow> bytes \<Rightarrow> bytes res"
  xe_checked_add :: "int \<Rightarrow> int \<Rightarrow> int \<Rightarrow> int" \<comment> \<open>value, increment and limit\<close>
  xe_level :: "bytes \<Rightarrow> int"
  xe_silence_level :: int
  xe_encode :: "nat \<Rightarrow> bytes \<Rightarrow> bytes res"
  xe_new_encoder :: "encoder_options \<Rightarrow> unit res"
  xe_extension :: "int \<Rightarrow> int \<Rightarrow> bytes" \<comment> \<open>\<open>_audio_rtp_extension_payload\<close>\<close>
  xe_extend_header :: "bytes \<Rightarrow> bytes \<Rightarrow> bytes"

abbreviation (input) "rtc_send_env env \<equiv> re_send (le_receive (xe_listen env))"

abbreviation (input) "rtc_send s \<equiv> cl_send (lt_client (rt_session s))"

definition rask :: "(nat \<Rightarrow> 'a) \<Rightarrow> ('p, 'd) rtc \<Rightarrow> 'a \<times> ('p, 'd) rtc" where
  "rask question s = (let (a, session) = lask question (rt_session s) in (a, s\<lparr>rt_session := session\<rparr>))"

definition rtc_connected :: "('p, 'd) rtc_env \<Rightarrow> ('p, 'd) rtc \<Rightarrow> bool \<times> ('p, 'd) rtc" where
  "rtc_connected env s = rask (ve_connected (rtc_send_env env)) s"


section \<open>Listeners\<close>

text \<open>
  An operation of the session, with the registrations that go with \<open>_socket_listener\<close> and
  \<open>_rtcp_listener\<close>: first the one of RTP packets, then the one of RTCP packets.
\<close>

definition listening_on :: "('p, 'd) session \<Rightarrow> udp_callback \<Rightarrow> bool" where
  "listening_on session callback =
     (case callback of
        HandleSocketPackets \<Rightarrow> lt_listener session
      | HandleRtcpPacket \<Rightarrow> sn_feedback (cl_send (lt_client session))
      | OtherCallback _ \<Rightarrow> False)"

definition switch_callback ::
  "('p, 'd) session \<Rightarrow> ('p, 'd) session \<Rightarrow> udp_callback \<Rightarrow> connection \<Rightarrow> unit res \<times> connection"
where
  "switch_callback old new callback c =
     switch_listener register_callback remove_socket_listener callback (listening_on old callback) (listening_on new callback) c"

definition follow_listeners ::
  "('p, 'd) session \<Rightarrow> ('p, 'd) session \<Rightarrow> connection \<Rightarrow> unit res \<times> connection"
where
  "follow_listeners old new c =
     bind_res (switch_callback old new HandleSocketPackets c) (\<lambda>_ c. switch_callback old new HandleRtcpPacket c)"

definition on_session ::
  "(('p, 'd) session \<Rightarrow> 'a res \<times> ('p, 'd) session) \<Rightarrow> ('p, 'd) rtc \<Rightarrow> 'a res \<times> ('p, 'd) rtc"
where
  "on_session f s =
     (let (r, session) = f (rt_session s);
          (followed, c) = follow_listeners (rt_session s) session (rt_conn s)
      in (and_then followed (\<lambda>_. r), s\<lparr>rt_session := session, rt_conn := c\<rparr>))"

definition on_send ::
  "('p video_send \<Rightarrow> 'a res \<times> 'p video_send) \<Rightarrow> ('p, 'd) rtc \<Rightarrow> 'a res \<times> ('p, 'd) rtc"
where
  "on_send f =
     on_session (\<lambda>session. let (r, send) = f (cl_send (lt_client session))
                           in (r, session\<lparr>lt_client := (lt_client session)\<lparr>cl_send := send\<rparr>\<rparr>))"

text \<open>\<open>_stop_rtcp_feedback_listener\<close>\<close>

definition rtc_stop_feedback :: "('p, 'd) rtc \<Rightarrow> unit res \<times> ('p, 'd) rtc" where
  "rtc_stop_feedback s = on_send (\<lambda>send. (Inr (), stop_rtcp_feedback_listener send)) s"

text \<open>\<open>_start_udp_ping\<close> and \<open>_stop_udp_ping\<close>, with the class's intervals.\<close>

definition rtc_start_ping :: "('p, 'd) rtc \<Rightarrow> ('p, 'd) rtc" where
  "rtc_start_ping s = s\<lparr>rt_conn := start_udp_ping (1 / 10) 5 5 (rt_conn s)\<rparr>"

definition rtc_stop_ping :: "('p, 'd) rtc_env \<Rightarrow> ('p, 'd) rtc \<Rightarrow> ('p, 'd) rtc" where
  "rtc_stop_ping env s =
     (let (tick, s) = rask (\<lambda>t. t) s in s\<lparr>rt_conn := stop_udp_ping (xe_net env) tick (rt_conn s)\<rparr>)"


section \<open>Sending audio\<close>

definition audio_header :: "int \<Rightarrow> int \<Rightarrow> int option \<Rightarrow> bytes res" where
  "audio_header sequence timestamp ssrc =
     (case ssrc of
        None \<Rightarrow> Inl StructError
      | Some ssrc \<Rightarrow>
          if in_u 16 sequence \<and> in_u 32 timestamp \<and> in_u 32 ssrc
          then Inr ([0x80, 0x78] @ be_bytes 2 sequence @ be_bytes 4 timestamp @ be_bytes 4 ssrc)
          else Inl StructError)"

definition get_crypto :: "('p, 'd) rtc_env \<Rightarrow> ('p, 'd) rtc \<Rightarrow> (string \<times> bytes) res \<times> ('p, 'd) rtc" where
  "get_crypto env s =
     bind_res (rask (xe_transport env) s) (\<lambda>state s.
       if au_crypto (rt_audio s) = Some state then (Inr state, s)
       else bind_res (xe_new_crypto env state, s) (\<lambda>_ s.
         (Inr state, s\<lparr>rt_audio := (rt_audio s)\<lparr>au_crypto := Some state\<rparr>\<rparr>)))"

definition get_receive_crypto :: "('p, 'd) rtc_env \<Rightarrow> ('p, 'd) rtc \<Rightarrow> (string \<times> bytes) res \<times> ('p, 'd) rtc" where
  "get_receive_crypto env s =
     bind_res (rask (xe_transport env) s) (\<lambda>state s.
       if au_receive_crypto (rt_audio s) = Some state then (Inr state, s)
       else bind_res (xe_new_crypto env state, s) (\<lambda>_ s.
         (Inr state, s\<lparr>rt_audio := (rt_audio s)\<lparr>au_receive_crypto := Some state\<rparr>\<rparr>)))"

definition encrypt_audio ::
  "('p, 'd) rtc_env \<Rightarrow> bytes \<Rightarrow> bytes \<Rightarrow> ('p, 'd) rtc \<Rightarrow> bytes res \<times> ('p, 'd) rtc"
where
  "encrypt_audio env header packet s =
     bind_res (get_crypto env s) (\<lambda>key s.
       rask (\<lambda>t. xe_encrypt env t key header packet)
         (s\<lparr>rt_audio := (rt_audio s)\<lparr>au_encrypted := au_encrypted (rt_audio s) @ [(header, packet)]\<rparr>\<rparr>))"

definition get_voice_packet ::
  "('p, 'd) rtc_env \<Rightarrow> bytes \<Rightarrow> int \<Rightarrow> ('p, 'd) rtc \<Rightarrow> bytes res \<times> ('p, 'd) rtc"
where
  "get_voice_packet env data audio_level s =
     (let (dave, s) = rask (ve_dave (rtc_send_env env)) s; a = rt_audio s in
      bind_res (apply_dave dave ''audio'' ''opus'' data, s) (\<lambda>packet s.
      bind_res (audio_header (au_sequence a) (au_timestamp a) (au_ssrc a), s) (\<lambda>header s.
        let extension = xe_extension env (au_speaking a) audio_level
        in if extension \<noteq> [] then encrypt_audio env (xe_extend_header env header extension) (extension @ packet) s
           else encrypt_audio env header packet s)))"

text \<open>\<open>media_time_ms // 1000\<close> of the time in milliseconds an RTP timestamp stands for.\<close>

definition audio_media_time :: "int \<Rightarrow> int" where
  "audio_media_time rtp_timestamp = rtp_timestamp * 1000 div SAMPLING_RATE"

definition maybe_send_audio_rtcp_sender_report ::
  "('p, 'd) rtc_env \<Rightarrow> int \<Rightarrow> ('p, 'd) rtc \<Rightarrow> unit res \<times> ('p, 'd) rtc"
where
  "maybe_send_audio_rtcp_sender_report env rtp_timestamp s =
     (let media_time = audio_media_time rtp_timestamp; a = rt_audio s in
      if (case au_last_report a of None \<Rightarrow> False | Some previous \<Rightarrow> media_time div 1000 \<le> previous div 1000) then (Inr (), s)
      else
        bind_res (case au_ssrc a of
            None \<Rightarrow> (Inl StructError, s)
          | Some ssrc \<Rightarrow>
              on_send (send_sender_report (rtc_send_env env) ssrc rtp_timestamp
                         (Some (au_packet_count a)) (Some (au_octet_count a))) s)
          (\<lambda>_ s. (Inr (), s\<lparr>rt_audio := (rt_audio s)\<lparr>au_last_report := Some media_time\<rparr>\<rparr>)))"

definition rtc_send_packet :: "('p, 'd) rtc_env \<Rightarrow> bytes \<Rightarrow> ('p, 'd) rtc \<Rightarrow> unit res \<times> ('p, 'd) rtc" where
  "rtc_send_packet env packet s =
     (let (outcome, s) = rask (ne_send (xe_net env)) s;
          (r, c) = conn_send_packet outcome packet (rt_conn s)
      in (r, s\<lparr>rt_conn := c\<rparr>))"

text \<open>\<open>_send_udp_packet\<close>: an \<open>OSError\<close> drops the packet.\<close>

definition send_udp_packet :: "('p, 'd) rtc_env \<Rightarrow> bytes \<Rightarrow> ('p, 'd) rtc \<Rightarrow> bool res \<times> ('p, 'd) rtc" where
  "send_udp_packet env packet s =
     (case rtc_send_packet env packet s of
        (Inr _, s) \<Rightarrow> (Inr True, s)
      | (Inl e, s) \<Rightarrow> (if e = OSError then Inr False else Inl e, s))"

definition audio_packet_sent :: "('p, 'd) rtc_env \<Rightarrow> bytes \<Rightarrow> ('p, 'd) rtc \<Rightarrow> unit res \<times> ('p, 'd) rtc" where
  "audio_packet_sent env encoded s =
     (let s = s\<lparr>rt_audio := (rt_audio s)
              \<lparr>au_packet_count := (au_packet_count (rt_audio s) + 1) AND 0xFFFFFFFF,
               au_octet_count := (au_octet_count (rt_audio s) + int (length encoded)) AND 0xFFFFFFFF\<rparr>\<rparr>
      in case au_ssrc (rt_audio s) of
           None \<Rightarrow> (Inr (), s) \<comment> \<open>cannot be: the header is packed by now\<close>
         | Some ssrc \<Rightarrow>
             on_send (\<lambda>send. (Inr (), record_rtp_send_stats (rtc_send_env env) ssrc
                                        (au_sequence (rt_audio s)) None send)) s)"

text \<open>What \<open>send_audio_packet\<close> sends: the payload and its level, encoded unless the caller did that.\<close>

definition encoded_audio ::
  "('p, 'd) rtc_env \<Rightarrow> bytes \<Rightarrow> bool \<Rightarrow> ('p, 'd) rtc \<Rightarrow> (bytes \<times> int) res \<times> ('p, 'd) rtc"
where
  "encoded_audio env data encode s =
     (if encode
      then let (encoded, s) = rask (\<lambda>t. xe_encode env t data) s
           in (map_res (\<lambda>e. (e, xe_level env data)) encoded, s)
      else (Inr (data, if data = re_silence (le_receive (xe_listen env)) then xe_silence_level env else 0), s))"

definition advance_audio :: "('p, 'd) rtc_env \<Rightarrow> ('p, 'd) rtc \<Rightarrow> ('p, 'd) rtc" where
  "advance_audio env s =
     s\<lparr>rt_audio := (rt_audio s)\<lparr>au_timestamp := xe_checked_add env (au_timestamp (rt_audio s)) 960 4294967295\<rparr>\<rparr>"

text \<open>The \<open>try\<close> around the socket: a packet that cannot be sent is dropped.\<close>

definition put_audio_packet ::
  "('p, 'd) rtc_env \<Rightarrow> bytes \<Rightarrow> bytes \<Rightarrow> ('p, 'd) rtc \<Rightarrow> unit res \<times> ('p, 'd) rtc"
where
  "put_audio_packet env encoded packet s =
     (case rtc_send_packet env packet s of
        (Inl e, s) \<Rightarrow> if e = OSError then (Inr (), advance_audio env s) else (Inl e, s)
      | (Inr _, s) \<Rightarrow> bind_res (audio_packet_sent env encoded s) (\<lambda>_ s. (Inr (), advance_audio env s)))"

definition send_audio_packet ::
  "('p, 'd) rtc_env \<Rightarrow> bytes \<Rightarrow> bool \<Rightarrow> ('p, 'd) rtc \<Rightarrow> unit res \<times> ('p, 'd) rtc"
where
  "send_audio_packet env data encode s =
     (let s = s\<lparr>rt_audio := (rt_audio s)\<lparr>au_sequence := xe_checked_add env (au_sequence (rt_audio s)) 1 65535\<rparr>\<rparr> in
      bind_res (encoded_audio env data encode s) (\<lambda>(encoded, level) s.
      bind_res (maybe_send_audio_rtcp_sender_report env (au_timestamp (rt_audio s)) s) (\<lambda>_ s.
      bind_res (get_voice_packet env encoded level s) (\<lambda>packet s. put_audio_packet env encoded packet s))))"

definition audio_send_stats :: "('p, 'd) rtc \<Rightarrow> AudioSendStats" where
  "audio_send_stats s =
     (let a = rt_audio s;
          ssrc = (case au_ssrc a of None \<Rightarrow> 0 | Some n \<Rightarrow> n);
          stats = map_of (sn_send_stats (rtc_send s)) ssrc
      in \<lparr>as_ssrc = ssrc, as_packets_sent = au_packet_count a, as_octets_sent = au_octet_count a,
          as_last_sequence = map_option ss_sequence stats, as_updated_at = map_option ss_updated_at stats\<rparr>)"

definition rtp_send_stats :: "('p, 'd) rtc \<Rightarrow> RTPSendStats list" where
  "rtp_send_stats s = vals (sn_send_stats (rtc_send s))"

text \<open>\<open>_log_packet_decode_error\<close>: whether the error is logged, at most once per interval.\<close>

definition log_packet_decode_error :: "('p, 'd) rtc_env \<Rightarrow> ('p, 'd) rtc \<Rightarrow> bool \<times> ('p, 'd) rtc" where
  "log_packet_decode_error env s =
     (let (now, s) = rask (ve_perf (rtc_send_env env)) s
      in if now - rt_decode_log s < 501 / 1000 then (False, s) else (True, s\<lparr>rt_decode_log := now\<rparr>))"

section \<open>Playing\<close>

text \<open>
  What \<open>play\<close> looks at in its arguments: whether the source is an \<open>AudioSource\<close> and \<open>after\<close> is
  \<open>None\<close> or callable, then the methods of the media source, which is the source itself or an
  \<open>AudioMediaSource\<close> around it.
\<close>

record play_request =
  pq_is_source :: bool
  pq_after_ok :: bool
  pq_source :: nat \<comment> \<open>the identity of the media source\<close>
  pq_is_media :: bool \<comment> \<open>the caller's source is a \<open>MediaSource\<close> already\<close>
  pq_has_audio :: bool
  pq_is_opus :: bool
  pq_has_video :: bool
  pq_simulcast :: bool
  pq_config :: "VideoConfig option"
  pq_encoder :: encoder_options
  pq_width :: "int option"
  pq_height :: "int option"
  pq_fps :: "int option"
  pq_bitrate :: "int option"

definition check_play :: "('p, 'd) rtc_env \<Rightarrow> play_request \<Rightarrow> ('p, 'd) rtc \<Rightarrow> unit res \<times> ('p, 'd) rtc" where
  "check_play env rq s =
     (let (connected, s) = rtc_connected env s in
      if \<not> connected then (Inl ClientException, s)
      else let (playing, s) = rask (xe_playing env) s in
      if playing then (Inl ClientException, s)
      else if \<not> pq_is_source rq \<or> \<not> pq_after_ok rq then (Inl TypeError, s)
      else (Inr (), s))"

definition source_changed :: "('p, 'd) rtc_env \<Rightarrow> play_request \<Rightarrow> ('p, 'd) rtc \<Rightarrow> unit res \<times> ('p, 'd) rtc" where
  "source_changed env rq s =
     on_send (\<lambda>send. (Inr (), snd (media_player_source_changed (rtc_send_env env) (pq_simulcast rq) send))) s"

definition prepare_encoder :: "('p, 'd) rtc_env \<Rightarrow> play_request \<Rightarrow> ('p, 'd) rtc \<Rightarrow> unit res \<times> ('p, 'd) rtc" where
  "prepare_encoder env rq s =
     (if pq_has_audio rq \<and> \<not> pq_is_opus rq
      then bind_res (xe_new_encoder env (pq_encoder rq), s) (\<lambda>_ s.
             (Inr (), s\<lparr>rt_audio := (rt_audio s)\<lparr>au_encoder := Some (pq_encoder rq)\<rparr>\<rparr>))
      else (Inr (), s))"

definition schedule_video :: "('p, 'd) rtc_env \<Rightarrow> play_request \<Rightarrow> ('p, 'd) rtc \<Rightarrow> unit res \<times> ('p, 'd) rtc" where
  "schedule_video env rq s =
     (if pq_has_video rq \<and> sn_codec (rtc_send s) = None
      then bind_res (on_send (video_params_for_source (rtc_send_env env) (pq_config rq) (pq_width rq) (pq_height rq)
                                (pq_fps rq) (pq_bitrate rq)) s)
             (\<lambda>params s. (Inr (), s\<lparr>rt_scheduled := rt_scheduled s @ [params]\<rparr>))
      else (Inr (), s))"

definition start_player :: "('p, 'd) rtc_env \<Rightarrow> play_request \<Rightarrow> ('p, 'd) rtc \<Rightarrow> unit res \<times> ('p, 'd) rtc" where
  "start_player env rq s =
     bind_res (prepare_encoder env rq s) (\<lambda>_ s.
     bind_res (schedule_video env rq s) (\<lambda>_ s. (Inr (), s\<lparr>rt_player := Some (pq_source rq)\<rparr>)))"

definition voice_play :: "('p, 'd) rtc_env \<Rightarrow> play_request \<Rightarrow> ('p, 'd) rtc \<Rightarrow> unit res \<times> ('p, 'd) rtc" where
  "voice_play env rq s =
     bind_res (check_play env rq s) (\<lambda>_ s.
     bind_res (source_changed env rq s) (\<lambda>_ s. start_player env rq s))"


section \<open>Connecting and disconnecting\<close>

text \<open>\<open>_connect_rtc_transport\<close> after the base class has connected.\<close>

definition send_receiver_report_of :: "('p, 'd) rtc_env \<Rightarrow> int option \<Rightarrow> ('p, 'd) rtc \<Rightarrow> unit res \<times> ('p, 'd) rtc" where
  "send_receiver_report_of env ssrc s =
     (case ssrc of
        None \<Rightarrow> (Inl TypeError, s)
      | Some ssrc \<Rightarrow>
          on_send (\<lambda>send. bind_res (send_rtcp_receiver_report ssrc [], send) (\<lambda>packet send.
            let (r, nack) = send_packet (ve_fails (rtc_send_env env)) packet (sn_nack send)
            in (r, send\<lparr>sn_nack := nack\<rparr>))) s)"

definition finish_connect :: "('p, 'd) rtc_env \<Rightarrow> ('p, 'd) rtc \<Rightarrow> unit res \<times> ('p, 'd) rtc" where
  "finish_connect env s =
     (let (connected, s) = rtc_connected env s;
          (negotiated, s) = (if connected then rask (xe_negotiated env) s else (False, s))
      in if \<not> connected \<or> \<not> negotiated then (Inl ClientException, s)
         else
           bind_res (send_receiver_report_of env (au_ssrc (rt_audio s)) s) (\<lambda>_ s.
             on_send (enable_video_receive (rtc_send_env env)) (rtc_start_ping s)))"

definition connect_rtc_transport ::
  "('p, 'd) rtc_env \<Rightarrow> (('p, 'd) rtc \<Rightarrow> unit res \<times> ('p, 'd) rtc) \<Rightarrow> ('p, 'd) rtc \<Rightarrow> unit res \<times> ('p, 'd) rtc"
where
  "connect_rtc_transport env base_connect s = bind_res (base_connect s) (\<lambda>_ s. finish_connect env s)"

definition prepare_disconnect :: "('p, 'd) rtc_env \<Rightarrow> ('p, 'd) rtc \<Rightarrow> unit res \<times> ('p, 'd) rtc" where
  "prepare_disconnect env s = rtc_stop_feedback (rtc_stop_ping env s)"

definition clear_transport_state :: "('p, 'd) client \<Rightarrow> ('p, 'd) client" where
  "clear_transport_state c =
     c\<lparr>cl_report_states := [],
       cl_send := (cl_send c)
         \<lparr>sn_rtcp := (sn_rtcp (cl_send c))\<lparr>rc_sender_reports := [], rc_sender_report_lsr := [], rc_receiver_reports := []\<rparr>,
          sn_send_stats := [], sn_remote_wants := [], sn_remote_any := None, sn_remote_received := False\<rparr>\<rparr>"

definition cleanup_media_transport :: "('p, 'd) rtc_env \<Rightarrow> ('p, 'd) rtc \<Rightarrow> unit res \<times> ('p, 'd) rtc" where
  "cleanup_media_transport env s =
     bind_res (on_session (stop_listening (xe_listen env)) (rtc_stop_ping env s)) (\<lambda>_ s.
     bind_res (rtc_stop_feedback s) (\<lambda>_ s.
       (Inr (), s\<lparr>rt_session := (rt_session s)\<lparr>lt_client := clear_transport_state (lt_client (rt_session s))\<rparr>\<rparr>)))"

text \<open>\<open>cleanup\<close>, and \<open>soft_disconnect\<close> of the connection: the base class's comes last.\<close>

definition voice_cleanup ::
  "('p, 'd) rtc_env \<Rightarrow> (('p, 'd) rtc \<Rightarrow> unit res \<times> ('p, 'd) rtc) \<Rightarrow> ('p, 'd) rtc \<Rightarrow> unit res \<times> ('p, 'd) rtc"
where
  "voice_cleanup env base_cleanup s = bind_res (cleanup_media_transport env s) (\<lambda>_ s. base_cleanup s)"

definition soft_disconnect ::
  "('p, 'd) rtc_env \<Rightarrow> (('p, 'd) rtc \<Rightarrow> unit res \<times> ('p, 'd) rtc) \<Rightarrow> ('p, 'd) rtc \<Rightarrow> unit res \<times> ('p, 'd) rtc"
where
  "soft_disconnect env base_soft_disconnect s = base_soft_disconnect (rtc_stop_ping env s)"

text \<open>
  \<open>_disconnect_stream_clients\<close>: the stream clients are disconnected together. A cancelled one
  cancels the caller; the others' errors are logged.
\<close>

datatype gather_result = Disconnected | FailedWith exn | WasCancelled

fun disconnect_stream_clients :: "gather_result list \<Rightarrow> bool \<times> exn list" where
  "disconnect_stream_clients [] = (False, [])"
| "disconnect_stream_clients (Disconnected # rs) = disconnect_stream_clients rs"
| "disconnect_stream_clients (FailedWith e # rs) =
     (let (cancelled, logged) = disconnect_stream_clients rs in (cancelled, e # logged))"
| "disconnect_stream_clients (WasCancelled # rs) = (True, [])"

text \<open>\<open>disconnect\<close>: \<open>None\<close> is the cancellation of the caller.\<close>

definition voice_disconnect ::
  "('p, 'd) rtc_env \<Rightarrow> gather_result list \<Rightarrow> (('p, 'd) rtc \<Rightarrow> unit res \<times> ('p, 'd) rtc) \<Rightarrow> ('p, 'd) rtc
     \<Rightarrow> unit res option \<times> ('p, 'd) rtc"
where
  "voice_disconnect env streams base_disconnect s =
     (if fst (disconnect_stream_clients streams) then (None, s)
      else let (r, s) = bind_res (prepare_disconnect env s) (\<lambda>_ s. base_disconnect s) in (Some r, s))"

section \<open>What the operations leave alone\<close>

lemma rask_simps [simp]:
  "rt_audio (snd (rask q s)) = rt_audio s" "rt_conn (snd (rask q s)) = rt_conn s"
  "rt_player (snd (rask q s)) = rt_player s" "rt_scheduled (snd (rask q s)) = rt_scheduled s"
  "lt_listener (rt_session (snd (rask q s))) = lt_listener (rt_session s)"
  "sn_feedback (rtc_send (snd (rask q s))) = sn_feedback (rtc_send s)"
  "sn_nack (rtc_send (snd (rask q s))) = sn_nack (rtc_send s)"
  by (simp_all add: rask_def lask_def cask_def vask_def Let_def)

lemma rask_frame:
  assumes "rask q s = (a, t)"
  shows "rt_audio t = rt_audio s" "rt_conn t = rt_conn s" "rt_player t = rt_player s" "rt_scheduled t = rt_scheduled s"
    "lt_listener (rt_session t) = lt_listener (rt_session s)" "sn_feedback (rtc_send t) = sn_feedback (rtc_send s)"
    "sn_nack (rtc_send t) = sn_nack (rtc_send s)"
  using rask_simps [where q = q and s = s] assms by simp_all

lemma on_session_frame:
  assumes "on_session f s = (r, t)"
  shows "rt_audio t = rt_audio s" "rt_player t = rt_player s" "rt_scheduled t = rt_scheduled s"
    "rt_session t = snd (f (rt_session s))"
  using assms by (auto simp: on_session_def split: prod.splits)

lemma on_send_frame:
  assumes "on_send f s = (r, t)"
  shows "rt_audio t = rt_audio s" "rt_player t = rt_player s" "rt_scheduled t = rt_scheduled s"
    "rtc_send t = snd (f (rtc_send s))"
  using on_session_frame [OF assms [unfolded on_send_def]] by (simp_all add: case_prod_beta)

lemma on_send_both: "on_send f s = (r, t) \<Longrightarrow> rt_audio t = rt_audio s \<and> rtc_send t = snd (f (rtc_send s))"
  by (simp add: on_send_frame)


section \<open>The listeners on the socket\<close>

text \<open>The two listeners of the client are on the current transport just when their fields are set.\<close>

definition client_ok :: "('p, 'd) rtc \<Rightarrow> bool" where
  "client_ok s \<longleftrightarrow> connection_ok (rt_conn s)
     \<and> holds_listener HandleSocketPackets (lt_listener (rt_session s)) (rt_conn s)
     \<and> holds_listener HandleRtcpPacket (sn_feedback (rtc_send s)) (rt_conn s)"

lemma client_ok_cong:
  assumes "client_ok s" "rt_conn t = rt_conn s" "lt_listener (rt_session t) = lt_listener (rt_session s)"
    "sn_feedback (rtc_send t) = sn_feedback (rtc_send s)"
  shows "client_ok t"
  using assms by (simp add: client_ok_def)

lemma follow_listeners_ok:
  assumes "connection_ok c" "holds_listener HandleSocketPackets (lt_listener old) c"
    "holds_listener HandleRtcpPacket (sn_feedback (cl_send (lt_client old))) c"
  shows "\<exists>c'. follow_listeners old new c = (Inr (), c') \<and> connection_ok c'
    \<and> holds_listener HandleSocketPackets (lt_listener new) c'
    \<and> holds_listener HandleRtcpPacket (sn_feedback (cl_send (lt_client new))) c'"
proof -
  obtain c1 where c1: "switch_callback old new HandleSocketPackets c = (Inr (), c1)" "connection_ok c1"
      "holds_listener HandleSocketPackets (lt_listener new) c1"
      "holds_listener HandleRtcpPacket (sn_feedback (cl_send (lt_client old))) c1"
    using registry.switch_ok [OF assms(1,2), of "lt_listener new"] assms(3)
    by (auto simp: switch_callback_def listening_on_def)
  then obtain c2 where "switch_callback old new HandleRtcpPacket c1 = (Inr (), c2)" "connection_ok c2"
      "holds_listener HandleRtcpPacket (sn_feedback (cl_send (lt_client new))) c2"
      "holds_listener HandleSocketPackets (lt_listener new) c2"
    using registry.switch_ok [OF c1(2,4), of "sn_feedback (cl_send (lt_client new))"]
    by (auto simp: switch_callback_def listening_on_def)
  then show ?thesis using c1(1) by (simp add: follow_listeners_def)
qed

lemma on_session_ok: "client_ok s \<Longrightarrow> client_ok (snd (on_session f s))"
  using follow_listeners_ok [of "rt_conn s" "rt_session s" "snd (f (rt_session s))"]
  by (auto simp: client_ok_def on_session_def case_prod_beta)

lemma on_session_result: "client_ok s \<Longrightarrow> fst (on_session f s) = fst (f (rt_session s))"
  using follow_listeners_ok [of "rt_conn s" "rt_session s" "snd (f (rt_session s))"]
  by (auto simp: client_ok_def on_session_def case_prod_beta)

lemma on_send_ok: "client_ok s \<Longrightarrow> client_ok (snd (on_send f s))"
  by (simp add: on_send_def on_session_ok)

lemma rask_ok: "client_ok s \<Longrightarrow> client_ok (snd (rask q s))"
  by (rule client_ok_cong) simp_all

lemma audio_ok: "client_ok s \<Longrightarrow> client_ok (s\<lparr>rt_audio := a\<rparr>)"
  by (rule client_ok_cong) simp_all

text \<open>A change of the current transport that keeps its listeners.\<close>

lemma transport_change_ok:
  assumes "client_ok s" "cn_socket (rt_conn s) = Some i" "\<And>t. ut_listeners (f t) = ut_listeners t"
    "\<And>t. ut_next_id (f t) = ut_next_id t" "\<And>t. ut_reading t \<Longrightarrow> ut_reading (f t)"
  shows "client_ok (s\<lparr>rt_conn := change_transport i f (rt_conn s)\<rparr>)"
  using assms change_keeps_listeners [OF _ assms(2,3,4,5)] by (simp add: client_ok_def)

lemma conn_send_packet_ok:
  assumes "client_ok s"
  shows "client_ok (s\<lparr>rt_conn := snd (conn_send_packet outcome packet (rt_conn s))\<rparr>)"
proof -
  obtain i where i: "cn_socket (rt_conn s) = Some i" using assms by (auto simp: client_ok_def connection_ok_def)
  then show ?thesis
    using assms transport_change_ok [OF assms i, of "\<lambda>t. t\<lparr>ut_sent := ut_sent t @ [packet]\<rparr>"]
    by (auto simp: conn_send_packet_def with_socket_def)
qed

lemma rtc_send_packet_ok: "client_ok s \<Longrightarrow> client_ok (snd (rtc_send_packet env packet s))"
  using conn_send_packet_ok [OF rask_ok, of s] by (simp add: rtc_send_packet_def case_prod_beta)

lemma ping_ok:
  assumes "client_ok s"
  shows "client_ok (rtc_start_ping s)" "client_ok (rtc_stop_ping env s)"
proof -
  obtain i where i: "cn_socket (rt_conn s) = Some i" using assms by (auto simp: client_ok_def connection_ok_def)
  then show "client_ok (rtc_start_ping s)"
    using transport_change_ok [OF assms i, of "transport_start_ping (1 / 10, 5, 5)"]
    by (simp add: rtc_start_ping_def start_udp_ping_def transport_start_ping_def)
  let ?t = "fst (rask (\<lambda>t. t) s)"
  let ?c = "(rt_conn s)\<lparr>cn_ping_rtt := transport_ping_rtt (xe_net env) ?t (current_transport (rt_conn s)),
    cn_ping_timeouts := transport_ping_timeouts (xe_net env) ?t (current_transport (rt_conn s))\<rparr>"
  let ?s = "snd (rask (\<lambda>t. t) s)\<lparr>rt_conn := ?c\<rparr>"
  have "client_ok ?s"
    using rask_ok [OF assms, of "\<lambda>t. t"] listeners_cong [of ?c "rt_conn s"] by (simp add: client_ok_def)
  moreover have "cn_socket (rt_conn ?s) = Some i" using i by simp
  ultimately have "client_ok (?s\<lparr>rt_conn := change_transport i (\<lambda>t. t\<lparr>ut_ping := None\<rparr>) (rt_conn ?s)\<rparr>)"
    by (rule transport_change_ok) simp_all
  moreover have "rtc_stop_ping env s = ?s\<lparr>rt_conn := change_transport i (\<lambda>t. t\<lparr>ut_ping := None\<rparr>) (rt_conn ?s)\<rparr>"
    using i by (simp add: rtc_stop_ping_def stop_udp_ping_def case_prod_beta current_transport_def)
  ultimately show "client_ok (rtc_stop_ping env s)" by simp
qed


lemma bind_ok:
  assumes "client_ok (snd m)" "\<And>v t. client_ok t \<Longrightarrow> client_ok (snd (k v t))"
  shows "client_ok (snd (bind_res m k))"
  using assms by (auto intro: bind_res_inv [where I = client_ok])

lemma scheduled_ok: "client_ok s \<Longrightarrow> client_ok (s\<lparr>rt_scheduled := p\<rparr>)" "client_ok s \<Longrightarrow> client_ok (s\<lparr>rt_player := n\<rparr>)"
  by (rule client_ok_cong; simp)+

lemma clear_ok: "client_ok s \<Longrightarrow>
    client_ok (s\<lparr>rt_session := (rt_session s)\<lparr>lt_client := clear_transport_state (lt_client (rt_session s))\<rparr>\<rparr>)"
  by (rule client_ok_cong) (simp_all add: clear_transport_state_def)

lemmas keeps_client_ok = bind_ok rask_ok on_send_ok on_session_ok audio_ok scheduled_ok clear_ok ping_ok rtc_send_packet_ok

lemma get_crypto_ok: "client_ok s \<Longrightarrow> client_ok (snd (get_crypto env s))"
  unfolding get_crypto_def by (intro bind_ok) (auto intro!: keeps_client_ok)

lemma encrypt_audio_ok: "client_ok s \<Longrightarrow> client_ok (snd (encrypt_audio env header packet s))"
  unfolding encrypt_audio_def by (intro bind_ok) (auto intro!: keeps_client_ok get_crypto_ok)

lemma get_voice_packet_ok: "client_ok s \<Longrightarrow> client_ok (snd (get_voice_packet env data level s))"
  unfolding get_voice_packet_def Let_def case_prod_beta
  by (intro bind_ok) (auto intro!: keeps_client_ok encrypt_audio_ok)

lemma encoded_audio_ok: "client_ok s \<Longrightarrow> client_ok (snd (encoded_audio env data encode s))"
  by (simp add: encoded_audio_def case_prod_beta rask_ok)

lemma audio_report_ok: "client_ok s \<Longrightarrow> client_ok (snd (maybe_send_audio_rtcp_sender_report env ts s))"
  unfolding maybe_send_audio_rtcp_sender_report_def Let_def
  by (auto intro!: keeps_client_ok split: option.splits)

lemma audio_packet_sent_ok: "client_ok s \<Longrightarrow> client_ok (snd (audio_packet_sent env encoded s))"
  unfolding audio_packet_sent_def Let_def by (auto intro!: keeps_client_ok split: option.splits)

lemma put_audio_packet_ok: "client_ok s \<Longrightarrow> client_ok (snd (put_audio_packet env encoded packet s))"
  using rtc_send_packet_ok [of s env packet] unfolding put_audio_packet_def
  by (auto intro!: bind_ok audio_packet_sent_ok audio_ok simp: advance_audio_def split: prod.splits sum.splits)

lemma send_audio_packet_ok: "client_ok s \<Longrightarrow> client_ok (snd (send_audio_packet env data encode s))"
  unfolding send_audio_packet_def Let_def case_prod_beta
  by (intro bind_ok) (auto intro!: bind_ok audio_ok encoded_audio_ok audio_report_ok get_voice_packet_ok put_audio_packet_ok)

lemma voice_play_ok: "client_ok s \<Longrightarrow> client_ok (snd (voice_play env rq s))"
  unfolding voice_play_def check_play_def source_changed_def start_player_def prepare_encoder_def schedule_video_def
    rtc_connected_def Let_def case_prod_beta
  by (intro bind_ok) (auto intro!: keeps_client_ok)

lemma rask_okD: "rask q s = (a, t) \<Longrightarrow> client_ok s \<Longrightarrow> client_ok t"
  using rask_ok [of s q] by simp

lemma finish_connect_ok: "client_ok s \<Longrightarrow> client_ok (snd (finish_connect env s))"
  unfolding finish_connect_def rtc_connected_def send_receiver_report_of_def Let_def
  by (auto intro!: keeps_client_ok split: prod.splits option.splits if_splits dest: rask_okD)

lemma disconnect_ok: "client_ok s \<Longrightarrow> client_ok (snd (prepare_disconnect env s))"
  "client_ok s \<Longrightarrow> client_ok (snd (cleanup_media_transport env s))"
  unfolding prepare_disconnect_def cleanup_media_transport_def rtc_stop_feedback_def
  by (auto intro!: keeps_client_ok)

text \<open>
  One step of a connected client: any operation of the session (a call of the application, a packet
  from the network, a change of the sending half), an audio packet, \<open>play\<close>, the steps of connecting
  and disconnecting, and a listener of someone else on the same socket.
\<close>

inductive rtc_step :: "('p, 'd) rtc_env \<Rightarrow> ('p, 'd) rtc \<Rightarrow> ('p, 'd) rtc \<Rightarrow> bool" for env where
  step_session: "rtc_step env s (snd (on_session (f :: ('p, 'd) session \<Rightarrow> unit res \<times> ('p, 'd) session) s))"
| step_audio: "rtc_step env s (snd (send_audio_packet env data encode s))"
| step_play: "rtc_step env s (snd (voice_play env rq s))"
| step_connected: "rtc_step env s (snd (finish_connect env s))"
| step_prepare: "rtc_step env s (snd (prepare_disconnect env s))"
| step_clean: "rtc_step env s (snd (cleanup_media_transport env s))"
| step_ping: "rtc_step env s (rtc_start_ping s)"
| step_add: "holds_listener (OtherCallback k) False (rt_conn s) \<Longrightarrow>
    rtc_step env s (s\<lparr>rt_conn := snd (add_socket_listener (OtherCallback k) (rt_conn s))\<rparr>)"
| step_remove: "holds_listener (OtherCallback k) True (rt_conn s) \<Longrightarrow>
    rtc_step env s (s\<lparr>rt_conn := snd (remove_socket_listener (OtherCallback k) (rt_conn s))\<rparr>)"

text \<open>A client starts with a new socket and nothing registered.\<close>

inductive rtc_reachable :: "('p, 'd) rtc_env \<Rightarrow> ('p, 'd) rtc \<Rightarrow> bool" for env where
  reach_new_rtc: "create_socket (Inr ()) qos new_connection = (Inr (), rt_conn s) \<Longrightarrow> \<not> lt_listener (rt_session s) \<Longrightarrow>
    \<not> sn_feedback (rtc_send s) \<Longrightarrow> rtc_reachable env s"
| reach_rtc_step: "rtc_reachable env s \<Longrightarrow> rtc_step env s t \<Longrightarrow> rtc_reachable env t"

lemma other_listener_ok:
  assumes "client_ok s"
  shows "holds_listener (OtherCallback k) False (rt_conn s) \<Longrightarrow>
      client_ok (s\<lparr>rt_conn := snd (add_socket_listener (OtherCallback k) (rt_conn s))\<rparr>)"
    and "holds_listener (OtherCallback k) True (rt_conn s) \<Longrightarrow>
      client_ok (s\<lparr>rt_conn := snd (remove_socket_listener (OtherCallback k) (rt_conn s))\<rparr>)"
  using assms registry.add_ok [of "rt_conn s" "OtherCallback k"] registry.add_other [of "rt_conn s" _ "OtherCallback k"]
    registry.remove_ok [of "rt_conn s" "OtherCallback k"] registry.remove_other [of "rt_conn s" "OtherCallback k"]
  by (force simp: client_ok_def)+

lemma rtc_step_ok: "rtc_step env s t \<Longrightarrow> client_ok s \<Longrightarrow> client_ok t"
  by (induction rule: rtc_step.induct)
    (simp_all add: on_session_ok send_audio_packet_ok voice_play_ok finish_connect_ok disconnect_ok ping_ok other_listener_ok)

lemma reachable_client_ok: "rtc_reachable env s \<Longrightarrow> client_ok s"
proof (induction rule: rtc_reachable.induct)
  case (reach_new_rtc qos s)
  then have "rt_conn s = snd (create_socket (Inr ()) qos new_connection)" by simp
  with reach_new_rtc(2,3) show ?case
    by (simp add: client_ok_def connection_ok_def holds_listener_def current_transport_def create_socket_def
        new_connection_def transport_ok_def new_udp_transport_def)
qed (rule rtc_step_ok)

lemma received_by_own:
  assumes "connection_ok c" "holds_listener cb b c" "listener_for cb = l"
  shows "filter (\<lambda>x. x = cb) (received_by rtcp c)
    = (if b \<and> (if rtcp then ul_rtcp (l 0) else ul_rtp (l 0)) then [cb] else [])"
proof -
  let ?ls = "ut_listeners (current_transport c)" and ?P = "\<lambda>l. if rtcp then ul_rtcp l else ul_rtp l"
  have eq: "filter (\<lambda>x. x = cb) (received_by rtcp c)
      = (if ut_reading (current_transport c) then map ul_callback (filter ?P (filter (\<lambda>l. ul_callback l = cb) ?ls)) else [])"
    using assms(1) by (auto simp: received_by_def connection_ok_def dispatch_udp_packets_def current_transport_def
        filter_map o_def conj_commute)
  have same: "ul_rtp (listener_for cb n) = ul_rtp (l 0)" "ul_rtcp (listener_for cb n) = ul_rtcp (l 0)" for n
    using assms(3) by (cases cb; auto)+
  have "?ls \<noteq> [] \<longrightarrow> ut_reading (current_transport c)" using assms(1) by (simp add: connection_ok_def transport_ok_def)
  then show ?thesis using assms(2) unfolding eq holds_listener_def by (auto simp: same simp del: filter_filter split: if_splits)
qed


definition sample_rtc_env :: "(unit, int list) rtc_env" where
  "sample_rtc_env =
     \<lparr>xe_listen = sample_listen_env,
      xe_net = \<lparr>ne_bind = (\<lambda>_. Inr ()), ne_connect = (\<lambda>_. Inr ()), ne_discover = (\<lambda>_. Inr (''203.0.113.7'', 50000)),
        ne_send = (\<lambda>_. Inr ()), ne_sendable = (\<lambda>_. 100), ne_ping_rtt = (\<lambda>_. None), ne_ping_timeouts = (\<lambda>_. 0)\<rparr>,
      xe_playing = (\<lambda>_. False), xe_negotiated = (\<lambda>_. True), xe_transport = (\<lambda>_. Inr (''aead_aes256_gcm_rtpsize'', [])),
      xe_new_crypto = (\<lambda>_. Inr ()), xe_encrypt = (\<lambda>_ _ header packet. Inr (header @ packet)),
      xe_checked_add = (\<lambda>x n limit. if x + n > limit then 0 else x + n), xe_level = (\<lambda>_. 30), xe_silence_level = 127,
      xe_encode = (\<lambda>_. Inr), xe_new_encoder = (\<lambda>_. Inr ()), xe_extension = (\<lambda>_ _. []), xe_extend_header = (\<lambda>h _. h)\<rparr>"

definition silent_audio :: "int \<Rightarrow> int \<Rightarrow> audio_send" where
  "silent_audio sequence timestamp =
     \<lparr>au_ssrc = Some 9, au_sequence = sequence, au_timestamp = timestamp, au_speaking = 0, au_packet_count = 0,
      au_octet_count = 0, au_last_report = Some 0, au_encoder = None, au_crypto = None, au_receive_crypto = None,
      au_encrypted = []\<rparr>"

definition sample_rtc :: "(unit, int list) rtc" where
  "sample_rtc =
     \<lparr>rt_session = sample_session, rt_conn = snd (create_socket (Inr ()) False new_connection),
      rt_audio = silent_audio 65534 0, rt_player = None, rt_scheduled = [], rt_decode_log = 0\<rparr>"



section \<open>The numbers on audio packets\<close>

text \<open>A sequence of audio packets, each with whether it has still to be encoded.\<close>

fun send_audio_packets ::
  "('p, 'd) rtc_env \<Rightarrow> (bytes \<times> bool) list \<Rightarrow> ('p, 'd) rtc \<Rightarrow> unit res \<times> ('p, 'd) rtc"
where
  "send_audio_packets env [] s = (Inr (), s)"
| "send_audio_packets env ((data, encode) # packets) s =
     bind_res (send_audio_packet env data encode s) (\<lambda>_ s. send_audio_packets env packets s)"

text \<open>Sequence number, timestamp and SSRC of an RTP header.\<close>

definition header_fields :: "bytes \<Rightarrow> int \<times> int \<times> int" where
  "header_fields h = (from_be (take 2 (drop 2 h)), from_be (take 4 (drop 4 h)), from_be (take 4 (drop 8 h)))"

text \<open>
  What is documented of the library: \<open>checked_add\<close> goes back to 0 past the limit, and extending a
  header keeps what comes after its first byte.
\<close>

definition audio_library :: "('p, 'd) rtc_env \<Rightarrow> bool" where
  "audio_library env \<longleftrightarrow>
     (\<forall>x n limit. xe_checked_add env x n limit = (if x + n > limit then 0 else x + n))
     \<and> (\<forall>h x. take 11 (drop 1 (xe_extend_header env h x)) = take 11 (drop 1 h))"

text \<open>The timestamp after the next 20 milliseconds.\<close>

definition next_timestamp :: "int \<Rightarrow> int" where
  "next_timestamp time = (if time + 960 < 2 ^ 32 then time + 960 else 0)"

definition numbers :: "audio_send \<Rightarrow> int \<times> int \<times> int option" where
  "numbers a = (au_sequence a, au_timestamp a, au_ssrc a)"

lemma header_fields_header:
  assumes "audio_header sequence timestamp (Some ssrc) = Inr h" "take 11 (drop 1 h') = take 11 (drop 1 h)"
  shows "header_fields h' = (sequence, timestamp, ssrc)"
proof -
  have sub: "take n (drop k h') = take n (drop k h)" if "1 \<le> k" "n + k \<le> 12" for n k
  proof -
    have "take n (drop k xs) = take n (drop (k - 1) (take 11 (drop 1 xs)))" for xs :: bytes
      using that by (simp add: drop_take min_def)
    then show ?thesis using assms(2) by metis
  qed
  have "in_u 16 sequence" "in_u 32 timestamp" "in_u 32 ssrc"
    "h = [0x80, 0x78] @ be_bytes 2 sequence @ be_bytes 4 timestamp @ be_bytes 4 ssrc"
    using assms(1) by (auto simp: audio_header_def split: if_splits)
  then show ?thesis by (simp add: header_fields_def sub in_u_def)
qed

lemma bind_numbers:
  assumes "bind_res m k = (Inr v, t)"
  obtains x u where "m = (Inr x, u)" "k x u = (Inr v, t)"
  using assms by (auto simp: bind_res_Inr)

lemma encoded_audio_frame: "encoded_audio env data encode s = (r, t) \<Longrightarrow> rt_audio t = rt_audio s"
  by (auto simp: encoded_audio_def rask_frame split: if_splits prod.splits)

lemma audio_report_frame:
  assumes "maybe_send_audio_rtcp_sender_report env ts s = (Inr x, t)"
  shows "numbers (rt_audio t) = numbers (rt_audio s)" "au_encrypted (rt_audio t) = au_encrypted (rt_audio s)"
  using assms
  by (auto simp: maybe_send_audio_rtcp_sender_report_def Let_def numbers_def bind_res_Inr
      dest!: on_send_frame(1) split: if_splits option.splits)

lemma get_crypto_frame:
  assumes "get_crypto env s = (Inr key, t)"
  shows "numbers (rt_audio t) = numbers (rt_audio s)" "au_encrypted (rt_audio t) = au_encrypted (rt_audio s)"
  using assms
  by (auto simp: get_crypto_def numbers_def bind_res_Inr dest!: rask_frame(1) split: if_splits)

lemma encrypt_audio_frame:
  assumes "encrypt_audio env header packet s = (Inr x, t)"
  shows "numbers (rt_audio t) = numbers (rt_audio s)"
    "au_encrypted (rt_audio t) = au_encrypted (rt_audio s) @ [(header, packet)]"
proof -
  obtain key u where u: "get_crypto env s = (Inr key, u)"
    and t: "rt_audio t = (rt_audio u)\<lparr>au_encrypted := au_encrypted (rt_audio u) @ [(header, packet)]\<rparr>"
    using assms by (auto simp: encrypt_audio_def bind_res_Inr dest!: rask_frame(1))
  show "numbers (rt_audio t) = numbers (rt_audio s)"
    "au_encrypted (rt_audio t) = au_encrypted (rt_audio s) @ [(header, packet)]"
    using get_crypto_frame [OF u] by (simp_all add: t numbers_def)
qed

lemma get_voice_packet_frame:
  assumes "get_voice_packet env data level s = (Inr packet, t)"
  shows "numbers (rt_audio t) = numbers (rt_audio s)
    \<and> (\<exists>h extension payload. audio_header (au_sequence (rt_audio s)) (au_timestamp (rt_audio s)) (au_ssrc (rt_audio s)) = Inr h
         \<and> au_encrypted (rt_audio t) = au_encrypted (rt_audio s)
             @ [(if extension = [] then h else xe_extend_header env h extension, payload)])"
proof -
  obtain dave s1 where s1: "rask (ve_dave (rtc_send_env env)) s = (dave, s1)" by fastforce
  note a1 = rask_frame(1) [OF s1]
  let ?ext = "xe_extension env (au_speaking (rt_audio s)) level"
  obtain p h where h: "audio_header (au_sequence (rt_audio s)) (au_timestamp (rt_audio s)) (au_ssrc (rt_audio s)) = Inr h"
    and rest: "(if ?ext \<noteq> [] then encrypt_audio env (xe_extend_header env h ?ext) (?ext @ p) s1
                else encrypt_audio env h p s1) = (Inr packet, t)"
    using assms unfolding get_voice_packet_def s1 Let_def prod.case bind_res_Inr a1 by (auto simp only: prod.inject)
  show ?thesis
  proof (cases "?ext = []")
    case True
    then have "encrypt_audio env h p s1 = (Inr packet, t)" using rest by simp
    then show ?thesis using h encrypt_audio_frame [of env h p s1 packet t] unfolding a1 by (auto intro!: exI [of _ "[]"])
  next
    case False
    then have "encrypt_audio env (xe_extend_header env h ?ext) (?ext @ p) s1 = (Inr packet, t)" using rest by simp
    from encrypt_audio_frame [OF this] show ?thesis using h False unfolding a1 by (auto intro!: exI [of _ ?ext])
  qed
qed

lemma rtc_send_packet_frame:
  assumes "rtc_send_packet env packet s = (r, t)"
  shows "rt_audio t = rt_audio s" "sn_nack (rtc_send t) = sn_nack (rtc_send s)"
  using assms by (auto simp: rtc_send_packet_def rask_frame split: prod.splits)

lemma audio_packet_sent_frame:
  assumes "audio_packet_sent env encoded s = (r, t)"
  shows "numbers (rt_audio t) = numbers (rt_audio s)" "au_encrypted (rt_audio t) = au_encrypted (rt_audio s)"
    "au_last_report (rt_audio t) = au_last_report (rt_audio s)" "sn_nack (rtc_send t) = sn_nack (rtc_send s)"
  using assms
  by (auto simp: audio_packet_sent_def Let_def numbers_def record_rtp_send_stats_def vask_def
      dest!: on_send_both split: option.splits)

lemma put_audio_packet_frame:
  assumes "put_audio_packet env encoded packet s = (Inr x, t)"
  shows "numbers (rt_audio t)
      = (au_sequence (rt_audio s), xe_checked_add env (au_timestamp (rt_audio s)) 960 4294967295, au_ssrc (rt_audio s))"
    "au_encrypted (rt_audio t) = au_encrypted (rt_audio s)"
    "au_last_report (rt_audio t) = au_last_report (rt_audio s)" "sn_nack (rtc_send t) = sn_nack (rtc_send s)"
proof -
  obtain r u where u: "rtc_send_packet env packet s = (r, u)" by fastforce
  obtain v where v: "numbers (rt_audio v) = numbers (rt_audio s)" "au_encrypted (rt_audio v) = au_encrypted (rt_audio s)"
    "au_last_report (rt_audio v) = au_last_report (rt_audio s)" "sn_nack (rtc_send v) = sn_nack (rtc_send s)"
    and t: "t = advance_audio env v"
  proof (cases r)
    case (Inl e)
    then show ?thesis using assms u rtc_send_packet_frame [OF u]
      by (intro that [of u]) (auto simp: put_audio_packet_def split: if_splits)
  next
    case (Inr y)
    then obtain w where "audio_packet_sent env encoded u = (Inr (), w)" "t = advance_audio env w"
      using assms u by (auto simp: put_audio_packet_def bind_res_Inr)
    then show ?thesis using audio_packet_sent_frame [of env encoded u] rtc_send_packet_frame [OF u]
      by (intro that [of w]) simp_all
  qed
  then show "numbers (rt_audio t)
      = (au_sequence (rt_audio s), xe_checked_add env (au_timestamp (rt_audio s)) 960 4294967295, au_ssrc (rt_audio s))"
    "au_encrypted (rt_audio t) = au_encrypted (rt_audio s)"
    "au_last_report (rt_audio t) = au_last_report (rt_audio s)" "sn_nack (rtc_send t) = sn_nack (rtc_send s)"
    by (simp_all add: advance_audio_def numbers_def)
qed

text \<open>The stages of a packet that is sent, or dropped by the socket.\<close>

lemma send_audio_packet_stages:
  assumes "send_audio_packet env data encode s = (Inr (), t)"
  obtains s0 encoded level s1 s2 packet s3 where
    "s0 = s\<lparr>rt_audio := (rt_audio s)\<lparr>au_sequence := xe_checked_add env (au_sequence (rt_audio s)) 1 65535\<rparr>\<rparr>"
    "encoded_audio env data encode s0 = (Inr (encoded, level), s1)"
    "maybe_send_audio_rtcp_sender_report env (au_timestamp (rt_audio s1)) s1 = (Inr (), s2)"
    "get_voice_packet env encoded level s2 = (Inr packet, s3)"
    "put_audio_packet env encoded packet s3 = (Inr (), t)"
  using assms unfolding send_audio_packet_def Let_def by (auto simp: bind_res_Inr)

lemma send_audio_packet_step:
  assumes "send_audio_packet env data encode s = (Inr (), t)" "audio_library env"
  shows "\<exists>h payload n. au_encrypted (rt_audio t) = au_encrypted (rt_audio s) @ [(h, payload)] \<and> au_ssrc (rt_audio s) = Some n
    \<and> header_fields h = (xe_checked_add env (au_sequence (rt_audio s)) 1 65535, au_timestamp (rt_audio s), n)
    \<and> numbers (rt_audio t) = (xe_checked_add env (au_sequence (rt_audio s)) 1 65535,
          xe_checked_add env (au_timestamp (rt_audio s)) 960 4294967295, au_ssrc (rt_audio s))"
  using assms(1)
proof (rule send_audio_packet_stages)
  fix s0 encoded level s1 s2 packet s3
  assume s0: "s0 = s\<lparr>rt_audio := (rt_audio s)\<lparr>au_sequence := xe_checked_add env (au_sequence (rt_audio s)) 1 65535\<rparr>\<rparr>"
    and s1: "encoded_audio env data encode s0 = (Inr (encoded, level), s1)"
    and s2: "maybe_send_audio_rtcp_sender_report env (au_timestamp (rt_audio s1)) s1 = (Inr (), s2)"
    and s3: "get_voice_packet env encoded level s2 = (Inr packet, s3)"
    and t: "put_audio_packet env encoded packet s3 = (Inr (), t)"
  have before: "numbers (rt_audio s2) = (xe_checked_add env (au_sequence (rt_audio s)) 1 65535, au_timestamp (rt_audio s), au_ssrc (rt_audio s))"
    "au_encrypted (rt_audio s2) = au_encrypted (rt_audio s)"
    using audio_report_frame [OF s2] encoded_audio_frame [OF s1] by (simp_all add: s0 numbers_def)
  obtain h extension payload where
    h: "audio_header (au_sequence (rt_audio s2)) (au_timestamp (rt_audio s2)) (au_ssrc (rt_audio s2)) = Inr h"
    and e: "au_encrypted (rt_audio s3) = au_encrypted (rt_audio s2)
          @ [(if extension = [] then h else xe_extend_header env h extension, payload)]"
    and n3: "numbers (rt_audio s3) = numbers (rt_audio s2)"
    using get_voice_packet_frame [OF s3] by blast
  obtain n where n: "au_ssrc (rt_audio s2) = Some n" using h by (cases "au_ssrc (rt_audio s2)") (auto simp: audio_header_def)
  let ?h = "if extension = [] then h else xe_extend_header env h extension"
  have "take 11 (drop 1 ?h) = take 11 (drop 1 h)" using assms(2) by (simp add: audio_library_def)
  from header_fields_header [OF h [unfolded n] this] have "header_fields ?h
    = (xe_checked_add env (au_sequence (rt_audio s)) 1 65535, au_timestamp (rt_audio s), n)"
    using before(1) by (simp add: numbers_def)
  then show ?thesis using e n3 before n put_audio_packet_frame [OF t]
    by (intro exI [of _ ?h] exI [of _ payload] exI [of _ n]) (simp add: numbers_def)
qed

text \<open>
  C23. Audio packets are numbered without gaps: the headers that are encrypted carry consecutive
  sequence numbers, 0 following 65535, timestamps that advance by 960 samples from the first, and one
  SSRC, whichever packets the socket refuses.
\<close>

theorem audio_packets_numbered:
  assumes "send_audio_packets env packets s = (Inr (), t)" "audio_library env"
    and "in_u 16 (au_sequence (rt_audio s))" "in_u 32 (au_timestamp (rt_audio s))"
  shows "\<exists>sent. au_encrypted (rt_audio t) = au_encrypted (rt_audio s) @ sent \<and> length sent = length packets
    \<and> (\<forall>i < length sent. header_fields (fst (sent ! i))
          = ((au_sequence (rt_audio s) + 1 + int i) mod 65536,
             (next_timestamp ^^ i) (au_timestamp (rt_audio s)),
             the (au_ssrc (rt_audio s))))"
  using assms
proof (induction packets arbitrary: s)
  case (Cons p packets)
  obtain data encode where p: "p = (data, encode)" by fastforce
  obtain u where u: "send_audio_packet env data encode s = (Inr (), u)" "send_audio_packets env packets u = (Inr (), t)"
    using Cons.prems(1) by (auto simp: p bind_res_Inr)
  have timen: "xe_checked_add env (au_timestamp (rt_audio s)) 960 4294967295 = next_timestamp (au_timestamp (rt_audio s))"
    and add: "xe_checked_add env (au_sequence (rt_audio s)) 1 65535
      = (if au_sequence (rt_audio s) = 65535 then 0 else au_sequence (rt_audio s) + 1)"
    using assms(2) Cons.prems(3) by (auto simp: audio_library_def in_u_def next_timestamp_def)
  then have seqn: "xe_checked_add env (au_sequence (rt_audio s)) 1 65535 = (au_sequence (rt_audio s) + 1) mod 65536"
    using Cons.prems(3) by (auto simp: in_u_def)
  obtain h payload n where h: "au_encrypted (rt_audio u) = au_encrypted (rt_audio s) @ [(h, payload)]"
      "au_ssrc (rt_audio s) = Some n"
      "header_fields h = ((au_sequence (rt_audio s) + 1) mod 65536, au_timestamp (rt_audio s), n)"
    and nu: "au_sequence (rt_audio u) = (au_sequence (rt_audio s) + 1) mod 65536"
      "au_timestamp (rt_audio u) = next_timestamp (au_timestamp (rt_audio s))" "au_ssrc (rt_audio u) = Some n"
    using send_audio_packet_step [OF u(1) assms(2)] unfolding seqn timen numbers_def by auto
  have "in_u 16 (au_sequence (rt_audio u))" "in_u 32 (au_timestamp (rt_audio u))"
    using Cons.prems(4) by (auto simp: nu in_u_def next_timestamp_def)
  from Cons.IH [OF u(2) assms(2) this] obtain sent where sent: "au_encrypted (rt_audio t) = au_encrypted (rt_audio u) @ sent"
    "length sent = length packets"
    "\<And>i. i < length sent \<Longrightarrow> header_fields (fst (sent ! i))
      = ((au_sequence (rt_audio u) + 1 + int i) mod 65536, (next_timestamp ^^ i) (au_timestamp (rt_audio u)), the (au_ssrc (rt_audio u)))"
    by blast
  have "header_fields (fst (((h, payload) # sent) ! i))
      = ((au_sequence (rt_audio s) + 1 + int i) mod 65536, (next_timestamp ^^ i) (au_timestamp (rt_audio s)), n)"
    if "i < length ((h, payload) # sent)" for i
  proof (cases i)
    case (Suc j)
    have "((au_sequence (rt_audio s) + 1) mod 65536 + 1 + int j) mod 65536 = (au_sequence (rt_audio s) + 1 + int (Suc j)) mod 65536"
      using mod_add_left_eq [of "au_sequence (rt_audio s) + 1" 65536 "1 + int j"] by (simp add: algebra_simps)
    then show ?thesis using that sent(3) [of j] unfolding Suc nu by (simp only: nth_Cons_Suc funpow_Suc_right o_apply option.sel) simp
  qed (use h(3) in simp)
  then show ?case using sent(1,2) h(1,2) by (intro exI [of _ "(h, payload) # sent"]) simp
qed simp

theorem audio_packets_numbered_witness:
  "\<exists>t sent. send_audio_packets sample_rtc_env [([1], False), ([2], True)] sample_rtc = (Inr (), t)
     \<and> au_encrypted (rt_audio t) = sent
     \<and> map (header_fields \<circ> fst) sent = [(65535, 0, 9), (0, 960, 9)]"
proof -
  let ?run = "send_audio_packets sample_rtc_env [([1], False), ([2], True)] sample_rtc"
  have "case ?run of (r, t) \<Rightarrow> is_ok r" by code_simp
  then obtain t where run: "?run = (Inr (), t)" by (auto split: prod.splits simp: is_ok_iff)
  have "audio_library sample_rtc_env" by (simp add: audio_library_def sample_rtc_env_def)
  from audio_packets_numbered [OF run this] obtain sent where sent: "au_encrypted (rt_audio t) = sent" "length sent = 2"
    "\<forall>i < 2. header_fields (fst (sent ! i)) = ((65535 + int i) mod 65536, (next_timestamp ^^ i) 0, 9)"
    by (auto simp: sample_rtc_def silent_audio_def in_u_def)
  have "map (header_fields \<circ> fst) sent = map (\<lambda>i. header_fields (fst (sent ! i))) [0, 1]"
    using sent(2) by (auto simp: numeral_2_eq_2 length_Suc_conv)
  also have "\<dots> = [(65535, 0, 9), (0, 960, 9)]"
    using sent(3) by (simp add: next_timestamp_def)
  finally show ?thesis using run sent(1) by simp
qed


section \<open>Sender reports of the audio stream\<close>

text \<open>What a call that sends no report leaves alone.\<close>

definition report_part :: "('p, 'd) rtc \<Rightarrow> int option \<times> nack_state" where
  "report_part s = (au_last_report (rt_audio s), sn_nack (rtc_send s))"

lemma rask_report: "rask q s = (a, t) \<Longrightarrow> report_part t = report_part s"
  by (simp add: report_part_def rask_frame)

lemma report_part_cong: "rt_session t = rt_session s \<Longrightarrow> au_last_report (rt_audio t) = au_last_report (rt_audio s) \<Longrightarrow>
    report_part t = report_part s"
  by (simp add: report_part_def)

lemma get_crypto_report:
  assumes "get_crypto env s = (Inr key, t)"
  shows "report_part t = report_part s"
  using assms rask_report
  by (auto simp: get_crypto_def bind_res_Inr report_part_def split: if_splits dest!: rask_report)

lemma encrypt_audio_report:
  assumes "encrypt_audio env header packet s = (Inr x, t)"
  shows "report_part t = report_part s"
  using assms
  by (auto simp: encrypt_audio_def bind_res_Inr report_part_def dest!: rask_report dest: get_crypto_report)

lemma get_voice_packet_report:
  assumes "get_voice_packet env data level s = (Inr packet, t)"
  shows "report_part t = report_part s"
  using assms unfolding get_voice_packet_def Let_def
  by (auto simp: bind_res_Inr split: prod.splits if_splits dest!: rask_report encrypt_audio_report)

text \<open>Once a report has been sent in the last second that a 32-bit timestamp can express, there are no others.\<close>

lemma last_second: "in_u 32 timestamp \<Longrightarrow> 89478000 \<le> previous \<Longrightarrow>
    audio_media_time timestamp div 1000 \<le> previous div 1000"
proof -
  assume "in_u 32 timestamp" "89478000 \<le> previous"
  then have "timestamp * 1000 div 48000 \<le> 4294967295 * 1000 div 48000"
    unfolding in_u_def by (intro zdiv_mono1) auto
  then have "audio_media_time timestamp \<le> 89478485" by (simp add: audio_media_time_def)
  then have "audio_media_time timestamp div 1000 \<le> 89478485 div 1000" by (intro zdiv_mono1) auto
  moreover have "89478000 div 1000 \<le> previous div 1000" using \<open>89478000 \<le> previous\<close> by (intro zdiv_mono1) auto
  ultimately show ?thesis by simp
qed

lemma send_audio_packet_no_report:
  assumes "send_audio_packet env data encode s = (Inr (), t)" "au_last_report (rt_audio s) = Some previous"
    and "89478000 \<le> previous" "in_u 32 (au_timestamp (rt_audio s))"
  shows "report_part t = report_part s"
  using assms(1)
proof (rule send_audio_packet_stages)
  fix s0 encoded level s1 s2 packet s3
  assume s0: "s0 = s\<lparr>rt_audio := (rt_audio s)\<lparr>au_sequence := xe_checked_add env (au_sequence (rt_audio s)) 1 65535\<rparr>\<rparr>"
    and s1: "encoded_audio env data encode s0 = (Inr (encoded, level), s1)"
    and s2: "maybe_send_audio_rtcp_sender_report env (au_timestamp (rt_audio s1)) s1 = (Inr (), s2)"
    and s3: "get_voice_packet env encoded level s2 = (Inr packet, s3)"
    and t: "put_audio_packet env encoded packet s3 = (Inr (), t)"
  have 0: "report_part s0 = report_part s" by (simp add: s0 report_part_def)
  have 1: "report_part s1 = report_part s0" "rt_audio s1 = rt_audio s0"
    using s1 encoded_audio_frame [OF s1] by (auto simp: encoded_audio_def split: if_splits prod.splits dest!: rask_report)
  have "s2 = s1"
    using s2 1 assms(2) last_second [OF assms(4,3)] by (simp add: maybe_send_audio_rtcp_sender_report_def s0)
  then show ?thesis
    using 0 1 get_voice_packet_report [OF s3] put_audio_packet_frame [OF t] by (simp add: report_part_def)
qed

text \<open>
  C35. The sender reports of the audio stream end with the first wrap of its timestamp: when a report
  has been sent in the last of the 89479 seconds that a 32-bit timestamp counts (after about 25
  hours), no packet that is sent afterwards is ever accompanied by a report again.
\<close>

theorem audio_reports_end_at_wrap:
  assumes "send_audio_packets env packets s = (Inr (), t)" "audio_library env"
    and "au_last_report (rt_audio s) = Some previous" "89478000 \<le> previous" "in_u 32 (au_timestamp (rt_audio s))"
  shows "nk_sent (sn_nack (rtc_send t)) = nk_sent (sn_nack (rtc_send s))"
  using assms
proof (induction packets arbitrary: s)
  case (Cons p packets)
  obtain data encode where p: "p = (data, encode)" by fastforce
  obtain u where u: "send_audio_packet env data encode s = (Inr (), u)" "send_audio_packets env packets u = (Inr (), t)"
    using Cons.prems(1) by (auto simp: p bind_res_Inr)
  have part: "report_part u = report_part s" by (rule send_audio_packet_no_report [OF u(1) Cons.prems(3,4,5)])
  have "in_u 32 (au_timestamp (rt_audio u))"
    using send_audio_packet_step [OF u(1) assms(2)] Cons.prems(5) assms(2)
    by (auto simp: numbers_def audio_library_def in_u_def)
  with Cons.IH [OF u(2) assms(2) _ assms(4)] part Cons.prems(3) show ?case by (simp add: report_part_def)
qed simp

theorem audio_reports_end_at_wrap_witness:
  "\<exists>t. send_audio_packets sample_rtc_env [([1], False), ([2], False)]
        (sample_rtc\<lparr>rt_audio := (silent_audio 7 4294966400)\<lparr>au_last_report := Some 89478466\<rparr>\<rparr>) = (Inr (), t)
     \<and> au_timestamp (rt_audio t) = 960 \<and> nk_sent (sn_nack (rtc_send t)) = nk_sent (sn_nack (rtc_send sample_rtc))"
proof -
  let ?s = "sample_rtc\<lparr>rt_audio := (silent_audio 7 4294966400)\<lparr>au_last_report := Some 89478466\<rparr>\<rparr>"
  let ?run = "send_audio_packets sample_rtc_env [([1], False), ([2], False)] ?s"
  have "case ?run of (r, t) \<Rightarrow> is_ok r \<and> au_timestamp (rt_audio t) = 960" by code_simp
  then obtain t where run: "?run = (Inr (), t)" "au_timestamp (rt_audio t) = 960"
    by (auto split: prod.splits simp: is_ok_iff)
  have "audio_library sample_rtc_env" by (simp add: audio_library_def sample_rtc_env_def)
  from audio_reports_end_at_wrap [OF run(1) this, of 89478466] show ?thesis
    using run by (simp add: silent_audio_def in_u_def)
qed


end
