(* ===== verification/StreamClient.thy ===== *)
theory StreamClient
  imports VoiceClient
begin

text \<open>
  The client of a Go Live stream (\<open>stream_client.py\<close>): a voice client of its own, with the preview
  that is uploaded while it streams and the handlers of the gateway's stream events, which take the
  transport down and up again.

  The preview loop is a task of the event loop. A task is suspended at one of the awaits of
  \<open>_run_stream_preview_loop\<close>; a step of the task runs it from there to the next await. Between two
  steps anything else may happen. The base classes of the library are operations on the client that
  are given the methods they call back.
\<close>

section \<open>The preview\<close>

text \<open>A function of the application, or \<open>read_preview\<close> of a media source.\<close>

datatype preview_provider = ProviderFunction nat | SourcePreview nat

datatype preview_argument = NoProvider | Provider nat | NotCallable

text \<open>While it reads or uploads, the task holds the \<open>delay\<close> it has set at the top of the loop.\<close>

datatype await_point =
    Sleeping pyfloat
  | ReadingPreview pyfloat preview_provider
  | UploadingPreview pyfloat bytes

text \<open>\<open>Suspended p True\<close> is a task that has been cancelled and does not know it yet.\<close>

datatype task_state = Suspended await_point bool | TaskDone

record preview_state =
  pv_enabled :: bool
  pv_provider :: "preview_provider option"
  pv_source :: "nat option" \<comment> \<open>\<open>_stream_preview_provider_source\<close>\<close>
  pv_task :: "nat option"
  pv_tasks :: "task_state list" \<comment> \<open>every task that was ever created\<close>
  pv_interval :: pyfloat
  pv_retry_interval :: pyfloat
  pv_start_delay :: pyfloat

definition new_preview :: preview_state where
  "new_preview =
     \<lparr>pv_enabled = False, pv_provider = None, pv_source = None, pv_task = None, pv_tasks = [], pv_interval = 300,
      pv_retry_interval = 60, pv_start_delay = 1 / 2\<rparr>"

fun cancelled :: "task_state \<Rightarrow> task_state" where
  "cancelled (Suspended p _) = Suspended p True"
| "cancelled TaskDone = TaskDone"

definition cancel_preview_task :: "preview_state \<Rightarrow> preview_state" where
  "cancel_preview_task p =
     (case pv_task p of
        None \<Rightarrow> p
      | Some i \<Rightarrow> p\<lparr>pv_task := None, pv_tasks := (pv_tasks p)[i := cancelled (pv_tasks p ! i)]\<rparr>)"

definition stop_preview_loop :: "preview_state \<Rightarrow> preview_state" where
  "stop_preview_loop p = cancel_preview_task (p\<lparr>pv_enabled := False\<rparr>)"

definition set_preview_provider :: "preview_argument \<Rightarrow> preview_state \<Rightarrow> unit res \<times> preview_state" where
  "set_preview_provider provider p =
     (case provider of
        NotCallable \<Rightarrow> (Inl TypeError, p)
      | NoProvider \<Rightarrow> (Inr (), (stop_preview_loop p)\<lparr>pv_provider := None, pv_source := None\<rparr>)
      | Provider k \<Rightarrow> (Inr (), p\<lparr>pv_provider := Some (ProviderFunction k), pv_source := None\<rparr>))"

definition set_provider_from_source :: "nat \<Rightarrow> preview_state \<Rightarrow> preview_state" where
  "set_provider_from_source source p = p\<lparr>pv_provider := Some (SourcePreview source), pv_source := Some source\<rparr>"

text \<open>The part of \<open>_ensure_stream_preview_task\<close> after its check.\<close>

definition create_preview_task :: "preview_state \<Rightarrow> preview_state" where
  "create_preview_task p =
     (if (case pv_task p of None \<Rightarrow> True | Some i \<Rightarrow> pv_tasks p ! i = TaskDone)
      then p\<lparr>pv_task := Some (length (pv_tasks p)),
             pv_tasks := pv_tasks p @ [Suspended (Sleeping (pv_start_delay p)) False]\<rparr>
      else p)"

definition media_player_finished :: "nat \<Rightarrow> preview_state \<Rightarrow> preview_state" where
  "media_player_finished source p =
     (if pv_source p \<noteq> Some source then p
      else (stop_preview_loop p)\<lparr>pv_provider := None, pv_source := None\<rparr>)"


section \<open>The client\<close>

text \<open>What the library's \<open>Stream\<close> knows of the stream.\<close>

record stream_info =
  si_owner :: bool
  si_paused :: bool
  si_unavailable :: bool
  si_rtc_channel_id :: "int option"
  si_rtc_server_id :: "int option"

text \<open>The states of the library's \<open>ConnectionFlowState\<close> that the code names, and the others.\<close>

datatype flow_state =
    FlowDisconnected | SetGuildVoiceState | GotVoiceServerUpdate | GotBothVoiceUpdates | WebsocketConnected
  | FlowConnected | OtherFlow nat

datatype stream_event =
    PreviewUploaded bytes
  | PreviewFailed exn
  | WebsocketClosed int
  | StreamDeleted
  | PlayerStarted nat
  | PlayerStopped nat
  | StreamCleanedUp

record ('p, 'd) stream_client =
  sc_rtc :: "('p, 'd) rtc"
  sc_preview :: preview_state
  sc_stream :: stream_info
  sc_flow :: flow_state
  sc_token :: "string option"
  sc_endpoint :: "string option"
  sc_channel_id :: int
  sc_server_id :: int
  sc_session_id :: string
  sc_expecting_disconnect :: bool
  sc_disconnected_event :: bool
  sc_skip_delete :: bool
  sc_timeout :: pyfloat
  sc_reconnect :: bool
  sc_reconnect_on_available :: bool
  sc_log :: "stream_event list"

text \<open>The result of a provider; a result that is awaited stands for what it returns.\<close>

datatype preview_result = ReturnsNothing | ReturnsImage bytes | ReturnsOther | ProviderRaises exn

record ('p, 'd) stream_env =
  te_rtc :: "('p, 'd) rtc_env"
  te_qos :: bool \<comment> \<open>\<open>udp_qos_enabled\<close>\<close>
  te_preview :: "nat \<Rightarrow> preview_provider \<Rightarrow> preview_result"
  te_upload :: "nat \<Rightarrow> bytes \<Rightarrow> unit res" \<comment> \<open>\<open>stream.create_preview\<close>\<close>
  te_ws_close :: "nat \<Rightarrow> unit res"
  te_delete :: "nat \<Rightarrow> unit res"
  te_update :: "nat \<Rightarrow> (string option \<times> string option) option" \<comment> \<open>\<open>_stream_server_updates.get(key)\<close>\<close>

text \<open>
  The base classes: \<open>connect\<close> is given \<open>_voice_connect\<close>, \<open>disconnect\<close> is given \<open>_voice_disconnect\<close> and
  \<open>cleanup\<close>.
\<close>

record 's base_ops =
  bo_connect :: "bool \<Rightarrow> pyfloat \<Rightarrow> ('s \<Rightarrow> unit res \<times> 's) \<Rightarrow> 's \<Rightarrow> unit res \<times> 's"
  bo_disconnect :: "bool \<Rightarrow> ('s \<Rightarrow> unit res \<times> 's) \<Rightarrow> ('s \<Rightarrow> unit res \<times> 's) \<Rightarrow> 's \<Rightarrow> unit res \<times> 's"
  bo_soft_disconnect :: "flow_state \<Rightarrow> 's \<Rightarrow> unit res \<times> 's"
  bo_cleanup :: "'s \<Rightarrow> unit res \<times> 's" \<comment> \<open>\<open>StreamProtocol.cleanup\<close>\<close>

definition log_stream :: "stream_event \<Rightarrow> ('p, 'd) stream_client \<Rightarrow> ('p, 'd) stream_client" where
  "log_stream e s = s\<lparr>sc_log := sc_log s @ [e]\<rparr>"

definition sask :: "(nat \<Rightarrow> 'a) \<Rightarrow> ('p, 'd) stream_client \<Rightarrow> 'a \<times> ('p, 'd) stream_client" where
  "sask question s = (let (a, rtc) = rask question (sc_rtc s) in (a, s\<lparr>sc_rtc := rtc\<rparr>))"

definition on_rtc ::
  "(('p, 'd) rtc \<Rightarrow> 'a res \<times> ('p, 'd) rtc) \<Rightarrow> ('p, 'd) stream_client \<Rightarrow> 'a res \<times> ('p, 'd) stream_client"
where
  "on_rtc f s = (let (r, rtc) = f (sc_rtc s) in (r, s\<lparr>sc_rtc := rtc\<rparr>))"

definition on_preview ::
  "(preview_state \<Rightarrow> preview_state) \<Rightarrow> ('p, 'd) stream_client \<Rightarrow> ('p, 'd) stream_client"
where
  "on_preview f s = s\<lparr>sc_preview := f (sc_preview s)\<rparr>"

definition is_connected :: "('p, 'd) stream_env \<Rightarrow> ('p, 'd) stream_client \<Rightarrow> bool \<times> ('p, 'd) stream_client" where
  "is_connected env s = sask (ve_connected (rtc_send_env (te_rtc env))) s"

definition ensure_preview_task ::
  "('p, 'd) stream_env \<Rightarrow> ('p, 'd) stream_client \<Rightarrow> ('p, 'd) stream_client"
where
  "ensure_preview_task env s =
     (if \<not> pv_enabled (sc_preview s) \<or> pv_provider (sc_preview s) = None then s
      else let (connected, s) = is_connected env s
           in if \<not> connected then s else on_preview create_preview_task s)"

text \<open>\<open>if provider:\<close> -- \<open>MISSING\<close> and \<open>None\<close> keep the provider that is set.\<close>

definition start_preview_loop ::
  "('p, 'd) stream_env \<Rightarrow> preview_argument \<Rightarrow> pyfloat \<Rightarrow> pyfloat \<Rightarrow> pyfloat \<Rightarrow> ('p, 'd) stream_client
     \<Rightarrow> unit res \<times> ('p, 'd) stream_client"
where
  "start_preview_loop env provider interval retry_interval start_delay s =
     (if \<not> si_owner (sc_stream s) then (Inl ClientException, s)
      else
        let (r, p) = (if provider = NoProvider then (Inr (), sc_preview s) else set_preview_provider provider (sc_preview s))
        in bind_res (r, s\<lparr>sc_preview := p\<rparr>) (\<lambda>_ s.
             if pv_provider (sc_preview s) = None then (Inl ClientException, s)
             else (Inr (), ensure_preview_task env (on_preview (\<lambda>p. p\<lparr>pv_interval := interval,
                     pv_retry_interval := retry_interval, pv_start_delay := start_delay, pv_enabled := True\<rparr>) s))))"

definition set_default_preview_provider ::
  "('p, 'd) stream_env \<Rightarrow> nat \<Rightarrow> ('p, 'd) stream_client \<Rightarrow> ('p, 'd) stream_client"
where
  "set_default_preview_provider env source s =
     (let s = (if pv_provider (sc_preview s) = None \<or> pv_source (sc_preview s) \<noteq> None
               then on_preview (set_provider_from_source source) s else s)
      in if pv_enabled (sc_preview s) then ensure_preview_task env s else s)"

definition stream_source_changed ::
  "('p, 'd) stream_env \<Rightarrow> play_request \<Rightarrow> ('p, 'd) stream_client \<Rightarrow> unit res \<times> ('p, 'd) stream_client"
where
  "stream_source_changed env rq s =
     bind_res (on_rtc (source_changed (te_rtc env) rq) s) (\<lambda>_ s.
       (Inr (), set_default_preview_provider env (pq_source rq) s))"

section \<open>Playing\<close>

text \<open>\<open>preview_provider\<close> of \<open>play\<close>: \<open>None\<close> is \<open>MISSING\<close>.\<close>

definition check_preview :: "preview_argument option \<Rightarrow> ('p, 'd) stream_client \<Rightarrow> unit res" where
  "check_preview provider s =
     (if \<not> si_owner (sc_stream s) then Inl ClientException
      else if provider = Some NotCallable then Inl TypeError else Inr ())"

definition start_stream_player ::
  "('p, 'd) stream_env \<Rightarrow> play_request \<Rightarrow> ('p, 'd) stream_client \<Rightarrow> unit res \<times> ('p, 'd) stream_client"
where
  "start_stream_player env rq s =
     bind_res (on_rtc (check_play (te_rtc env) rq) s) (\<lambda>_ s.
     bind_res (stream_source_changed env rq s) (\<lambda>_ s.
     bind_res (on_rtc (start_player (te_rtc env) rq) s) (\<lambda>_ s.
       (Inr (), log_stream (PlayerStarted (pq_source rq)) s))))"

definition stream_play ::
  "('p, 'd) stream_env \<Rightarrow> play_request \<Rightarrow> preview_argument option \<Rightarrow> ('p, 'd) stream_client
     \<Rightarrow> unit res \<times> ('p, 'd) stream_client"
where
  "stream_play env rq provider s =
     bind_res (check_preview provider s, s) (\<lambda>_ s.
     bind_res (start_stream_player env rq s) (\<lambda>_ s.
       if provider = Some NoProvider then (Inr (), s)
       else
         let s = (if provider = None \<and> pq_is_media rq then on_preview (set_provider_from_source (pq_source rq)) s else s);
             argument = (case provider of None \<Rightarrow> NoProvider | Some p \<Rightarrow> p)
         in start_preview_loop env argument 300 60 (1 / 2) s))"


section \<open>The preview task\<close>

text \<open>\<open>_read_stream_preview\<close>, once the provider has answered.\<close>

fun read_stream_preview :: "preview_result \<Rightarrow> bytes option res" where
  "read_stream_preview ReturnsNothing = Inr None"
| "read_stream_preview (ReturnsImage picture) = Inr (Some picture)"
| "read_stream_preview ReturnsOther = Inl TypeError"
| "read_stream_preview (ProviderRaises e) = Inl e"

definition suspend :: "nat \<Rightarrow> await_point \<Rightarrow> ('p, 'd) stream_client \<Rightarrow> ('p, 'd) stream_client" where
  "suspend i point s = on_preview (\<lambda>p. p\<lparr>pv_tasks := (pv_tasks p)[i := Suspended point False]\<rparr>) s"

text \<open>The \<open>finally\<close> clause.\<close>

definition finish_task :: "nat \<Rightarrow> ('p, 'd) stream_client \<Rightarrow> ('p, 'd) stream_client" where
  "finish_task i s =
     on_preview (\<lambda>p. p\<lparr>pv_tasks := (pv_tasks p)[i := TaskDone],
                       pv_task := (if pv_task p = Some i then None else pv_task p)\<rparr>) s"

text \<open>The top of the loop, up to its next await. Without a provider there is nothing to read.\<close>

definition preview_loop_top :: "('p, 'd) stream_env \<Rightarrow> nat \<Rightarrow> ('p, 'd) stream_client \<Rightarrow> ('p, 'd) stream_client" where
  "preview_loop_top env i s =
     (if \<not> pv_enabled (sc_preview s) then finish_task i s
      else let (connected, s) = is_connected env s; delay = pv_retry_interval (sc_preview s) in
      if \<not> connected then finish_task i s
      else if si_paused (sc_stream s) then suspend i (Sleeping delay) s
      else case pv_provider (sc_preview s) of
          None \<Rightarrow> suspend i (Sleeping delay) s
        | Some provider \<Rightarrow> suspend i (ReadingPreview delay provider) s)"

text \<open>A step of the task: what it awaited is there, or the task was cancelled meanwhile.\<close>

definition preview_read ::
  "('p, 'd) stream_env \<Rightarrow> nat \<Rightarrow> pyfloat \<Rightarrow> preview_provider \<Rightarrow> ('p, 'd) stream_client \<Rightarrow> ('p, 'd) stream_client"
where
  "preview_read env i delay provider s =
     (let (result, s) = sask (\<lambda>t. te_preview env t provider) s
      in case read_stream_preview result of
           Inl e \<Rightarrow> suspend i (Sleeping delay) (log_stream (PreviewFailed e) s)
         | Inr None \<Rightarrow> suspend i (Sleeping delay) s
         | Inr (Some picture) \<Rightarrow>
             if picture = [] then suspend i (Sleeping delay) s else suspend i (UploadingPreview delay picture) s)"

definition preview_uploaded ::
  "('p, 'd) stream_env \<Rightarrow> nat \<Rightarrow> pyfloat \<Rightarrow> bytes \<Rightarrow> ('p, 'd) stream_client \<Rightarrow> ('p, 'd) stream_client"
where
  "preview_uploaded env i delay picture s =
     (let (result, s) = sask (\<lambda>t. te_upload env t picture) s
      in case result of
           Inl e \<Rightarrow> suspend i (Sleeping delay) (log_stream (PreviewFailed e) s)
         | Inr _ \<Rightarrow> suspend i (Sleeping (pv_interval (sc_preview s))) (log_stream (PreviewUploaded picture) s))"

definition preview_task_step :: "('p, 'd) stream_env \<Rightarrow> nat \<Rightarrow> ('p, 'd) stream_client \<Rightarrow> ('p, 'd) stream_client" where
  "preview_task_step env i s =
     (case pv_tasks (sc_preview s) ! i of
        TaskDone \<Rightarrow> s
      | Suspended point is_cancelled \<Rightarrow>
          if is_cancelled then finish_task i s
          else case point of
              Sleeping _ \<Rightarrow> preview_loop_top env i s
            | ReadingPreview delay provider \<Rightarrow> preview_read env i delay provider s
            | UploadingPreview delay picture \<Rightarrow> preview_uploaded env i delay picture s)"


section \<open>Taking the transport down and up\<close>

definition stop_player :: "('p, 'd) stream_client \<Rightarrow> ('p, 'd) stream_client" where
  "stop_player s =
     (case rt_player (sc_rtc s) of
        None \<Rightarrow> s
      | Some i \<Rightarrow> log_stream (PlayerStopped i) (s\<lparr>sc_rtc := (sc_rtc s)\<lparr>rt_player := None\<rparr>\<rparr>))"

definition stream_recreate_socket ::
  "('p, 'd) stream_env \<Rightarrow> flow_state \<Rightarrow> ('p, 'd) stream_client \<Rightarrow> unit res \<times> ('p, 'd) stream_client"
where
  "stream_recreate_socket env flow s =
     (let (bound, s) = sask (ne_bind (xe_net (te_rtc env))) s;
          (r, c) = recreate_socket bound (te_qos env) (rt_conn (sc_rtc s))
      in bind_res (r, s\<lparr>sc_rtc := (sc_rtc s)\<lparr>rt_conn := c\<rparr>\<rparr>) (\<lambda>_ s. (Inr (), s\<lparr>sc_flow := flow\<rparr>)))"

text \<open>\<open>StreamConnectionState._voice_connect\<close>\<close>

definition stream_voice_connect :: "('p, 'd) stream_env \<Rightarrow> ('p, 'd) stream_client \<Rightarrow> unit res \<times> ('p, 'd) stream_client" where
  "stream_voice_connect env s =
     (if sc_token s = None \<or> sc_endpoint s = None then (Inr (), s\<lparr>sc_flow := SetGuildVoiceState\<rparr>)
      else stream_recreate_socket env GotBothVoiceUpdates s)"

definition stream_voice_disconnect :: "('p, 'd) stream_env \<Rightarrow> ('p, 'd) stream_client \<Rightarrow> unit res \<times> ('p, 'd) stream_client" where
  "stream_voice_disconnect env s =
     (let s = s\<lparr>sc_flow := FlowDisconnected, sc_expecting_disconnect := True, sc_disconnected_event := False\<rparr>
      in if sc_skip_delete s then (Inr (), s)
         else let (deleted, s) = sask (te_delete env) s
              in (Inr (), if is_ok deleted then log_stream StreamDeleted s else s))"

definition stream_soft_disconnect ::
  "('p, 'd) stream_env \<Rightarrow> ('p, 'd) stream_client base_ops \<Rightarrow> flow_state \<Rightarrow> ('p, 'd) stream_client
     \<Rightarrow> unit res \<times> ('p, 'd) stream_client"
where
  "stream_soft_disconnect env ops flow s = bo_soft_disconnect ops flow (s\<lparr>sc_rtc := rtc_stop_ping (te_rtc env) (sc_rtc s)\<rparr>)"

definition strip_wss :: "string \<Rightarrow> string" where
  "strip_wss endpoint = (if take 6 endpoint = ''wss://'' then drop 6 endpoint else endpoint)"

definition handle_server_update ::
  "('p, 'd) stream_env \<Rightarrow> ('p, 'd) stream_client base_ops \<Rightarrow> string option \<times> string option \<Rightarrow> ('p, 'd) stream_client
     \<Rightarrow> unit res \<times> ('p, 'd) stream_client"
where
  "handle_server_update env ops data s =
     (let previous = (sc_token s, sc_endpoint s); s = s\<lparr>sc_token := fst data\<rparr> in
      case data of
        (Some _, Some endpoint) \<Rightarrow>
          (let s = s\<lparr>sc_endpoint := Some (strip_wss endpoint)\<rparr> in
           if sc_flow s = FlowDisconnected \<or> sc_flow s = SetGuildVoiceState
           then stream_recreate_socket env GotBothVoiceUpdates s
           else if sc_flow s = FlowConnected
           then bind_res (sask (te_ws_close env) s) (\<lambda>_ s.
                  (Inr (), log_stream (WebsocketClosed 4014) (s\<lparr>sc_flow := GotVoiceServerUpdate\<rparr>)))
           else if previous = (sc_token s, sc_endpoint s) then (Inr (), s)
           else bind_res (stream_soft_disconnect env ops GotVoiceServerUpdate s) (\<lambda>_ s.
                  stream_recreate_socket env GotBothVoiceUpdates s))
      | _ \<Rightarrow> (Inr (), s))"

definition handle_unavailable ::
  "('p, 'd) stream_env \<Rightarrow> ('p, 'd) stream_client base_ops \<Rightarrow> ('p, 'd) stream_client \<Rightarrow> unit res \<times> ('p, 'd) stream_client"
where
  "handle_unavailable env ops s =
     stream_soft_disconnect env ops FlowDisconnected
       (s\<lparr>sc_token := None, sc_endpoint := None,
          sc_rtc := (sc_rtc s)\<lparr>rt_conn := (rt_conn (sc_rtc s))\<lparr>cn_endpoint_ip := None\<rparr>\<rparr>\<rparr>)"

definition stream_cleanup ::
  "('p, 'd) stream_env \<Rightarrow> ('p, 'd) stream_client base_ops \<Rightarrow> ('p, 'd) stream_client \<Rightarrow> unit res \<times> ('p, 'd) stream_client"
where
  "stream_cleanup env ops s =
     bind_res (on_rtc (cleanup_media_transport (te_rtc env)) (stop_player (on_preview stop_preview_loop s)))
       (\<lambda>_ s. bo_cleanup ops s)"

definition stream_connect ::
  "('p, 'd) stream_env \<Rightarrow> ('p, 'd) stream_client base_ops \<Rightarrow> pyfloat \<Rightarrow> bool \<Rightarrow> ('p, 'd) stream_client
     \<Rightarrow> unit res \<times> ('p, 'd) stream_client"
where
  "stream_connect env ops timeout reconnect s =
     bind_res (bo_connect ops reconnect timeout (stream_voice_connect env)
                 (s\<lparr>sc_timeout := timeout, sc_reconnect := reconnect\<rparr>)) (\<lambda>_ s.
     bind_res (on_rtc (finish_connect (te_rtc env)) s) (\<lambda>_ s. (Inr (), ensure_preview_task env s)))"

definition stream_disconnect ::
  "('p, 'd) stream_env \<Rightarrow> ('p, 'd) stream_client base_ops \<Rightarrow> bool \<Rightarrow> ('p, 'd) stream_client
     \<Rightarrow> unit res \<times> ('p, 'd) stream_client"
where
  "stream_disconnect env ops force s =
     bind_res (on_rtc (prepare_disconnect (te_rtc env)) (stop_player (on_preview stop_preview_loop s))) (\<lambda>_ s.
       let (was_connected, s) = is_connected env s in
       bind_res (bo_disconnect ops force (stream_voice_disconnect env) (stream_cleanup env ops) s) (\<lambda>_ s.
         if \<not> was_connected \<and> \<not> force then stream_cleanup env ops s else (Inr (), s)))"

definition disconnect_from_gateway ::
  "('p, 'd) stream_env \<Rightarrow> ('p, 'd) stream_client base_ops \<Rightarrow> ('p, 'd) stream_client \<Rightarrow> unit res \<times> ('p, 'd) stream_client"
where
  "disconnect_from_gateway env ops s =
     (let (connected, s) = is_connected env s in
      if \<not> connected then stream_cleanup env ops s
      else let (r, s) = stream_disconnect env ops True (s\<lparr>sc_skip_delete := True\<rparr>)
           in (r, s\<lparr>sc_skip_delete := False\<rparr>))"


section \<open>The events of the gateway\<close>

definition update_stream_state :: "stream_info \<Rightarrow> ('p, 'd) stream_client \<Rightarrow> ('p, 'd) stream_client" where
  "update_stream_state stream s =
     s\<lparr>sc_stream := stream,
       sc_channel_id := (case si_rtc_channel_id stream of None \<Rightarrow> sc_channel_id s | Some n \<Rightarrow> n),
       sc_server_id := (case si_rtc_server_id stream of None \<Rightarrow> sc_server_id s | Some n \<Rightarrow> n)\<rparr>"

definition on_stream_create :: "stream_info \<Rightarrow> ('p, 'd) stream_client \<Rightarrow> ('p, 'd) stream_client" where
  "on_stream_create stream s = update_stream_state stream s"

definition on_stream_update :: "stream_info \<Rightarrow> ('p, 'd) stream_client \<Rightarrow> ('p, 'd) stream_client" where
  "on_stream_update after s = update_stream_state after s"

definition on_stream_server_update ::
  "('p, 'd) stream_env \<Rightarrow> ('p, 'd) stream_client base_ops \<Rightarrow> string option \<times> string option \<Rightarrow> ('p, 'd) stream_client
     \<Rightarrow> unit res \<times> ('p, 'd) stream_client"
where
  "on_stream_server_update env ops data s =
     (if si_unavailable (sc_stream s) then (Inr (), s) else handle_server_update env ops data s)"

definition reconnect_if_wanted ::
  "('p, 'd) stream_env \<Rightarrow> ('p, 'd) stream_client base_ops \<Rightarrow> ('p, 'd) stream_client \<Rightarrow> unit res \<times> ('p, 'd) stream_client"
where
  "reconnect_if_wanted env ops s =
     (if \<not> sc_reconnect_on_available s then (Inr (), s)
      else let (connected, s) = is_connected env s in
      if connected then (Inr (), s)
      else if \<not> sc_reconnect s then stream_cleanup env ops (s\<lparr>sc_reconnect_on_available := False\<rparr>)
      else bind_res (stream_connect env ops (sc_timeout s) (sc_reconnect s) s) (\<lambda>_ s.
             (Inr (), s\<lparr>sc_reconnect_on_available := False\<rparr>)))"

definition on_stream_available ::
  "('p, 'd) stream_env \<Rightarrow> ('p, 'd) stream_client base_ops \<Rightarrow> stream_info \<Rightarrow> ('p, 'd) stream_client
     \<Rightarrow> unit res \<times> ('p, 'd) stream_client"
where
  "on_stream_available env ops stream s =
     (let (update, s) = sask (te_update env) (update_stream_state stream s) in
      bind_res (case update of None \<Rightarrow> (Inr (), s) | Some data \<Rightarrow> on_stream_server_update env ops data s) (\<lambda>_ s.
        reconnect_if_wanted env ops s))"

definition on_stream_unavailable ::
  "('p, 'd) stream_env \<Rightarrow> ('p, 'd) stream_client base_ops \<Rightarrow> stream_info \<Rightarrow> ('p, 'd) stream_client
     \<Rightarrow> unit res \<times> ('p, 'd) stream_client"
where
  "on_stream_unavailable env ops stream s =
     (let s = update_stream_state stream s in
      if \<not> sc_reconnect s then disconnect_from_gateway env ops s
      else
        bind_res (on_rtc rtc_stop_feedback (on_preview cancel_preview_task (stop_player s))) (\<lambda>_ s.
        bind_res (on_rtc (on_session (\<lambda>session. (Inr (), reset_receive_transport_state session))) s) (\<lambda>_ s.
          handle_unavailable env ops (s\<lparr>sc_reconnect_on_available := True\<rparr>))))"

definition on_stream_delete ::
  "('p, 'd) stream_env \<Rightarrow> ('p, 'd) stream_client base_ops \<Rightarrow> ('p, 'd) stream_client \<Rightarrow> unit res \<times> ('p, 'd) stream_client"
where
  "on_stream_delete env ops s = disconnect_from_gateway env ops s"

text \<open>\<open>_media_player_finished\<close>, which the player's thread schedules on the event loop.\<close>

definition stream_player_finished :: "nat \<Rightarrow> ('p, 'd) stream_client \<Rightarrow> ('p, 'd) stream_client" where
  "stream_player_finished source s = on_preview (media_player_finished source) s"

section \<open>At most one preview task\<close>

definition live :: "preview_state \<Rightarrow> nat \<Rightarrow> bool" where
  "live p i \<longleftrightarrow> i < length (pv_tasks p) \<and> (\<exists>point. pv_tasks p ! i = Suspended point False)"

definition preview_ok :: "preview_state \<Rightarrow> bool" where
  "preview_ok p \<longleftrightarrow> (\<forall>i. live p i \<longrightarrow> pv_task p = Some i \<and> pv_enabled p \<and> pv_provider p \<noteq> None)
     \<and> (\<forall>i. pv_task p = Some i \<longrightarrow> i < length (pv_tasks p))"

lemma preview_okD:
  assumes "preview_ok p"
  shows "live p i \<Longrightarrow> pv_task p = Some i" "live p i \<Longrightarrow> pv_enabled p" "live p i \<Longrightarrow> pv_provider p \<noteq> None"
    "pv_task p = Some i \<Longrightarrow> i < length (pv_tasks p)"
  using assms unfolding preview_ok_def by blast+

lemma preview_okI:
  assumes "\<And>i. live p i \<Longrightarrow> pv_task p = Some i" "\<And>i. live p i \<Longrightarrow> pv_enabled p" "\<And>i. live p i \<Longrightarrow> pv_provider p \<noteq> None"
    "\<And>i. pv_task p = Some i \<Longrightarrow> i < length (pv_tasks p)"
  shows "preview_ok p"
  using assms unfolding preview_ok_def by blast

lemma live_cong: "pv_tasks q = pv_tasks p \<Longrightarrow> live q = live p"
  by (simp add: live_def fun_eq_iff)

lemma preview_ok_cong:
  assumes "preview_ok p" "pv_tasks q = pv_tasks p" "pv_task q = pv_task p" "pv_enabled p \<Longrightarrow> pv_enabled q"
    "pv_provider p \<noteq> None \<Longrightarrow> pv_provider q \<noteq> None"
  shows "preview_ok q"
proof -
  have "live p i" if "live q i" for i using that by (simp add: live_cong [OF assms(2)])
  then show ?thesis using preview_okD [OF assms(1)] assms(2-5) by (intro preview_okI) (metis+)
qed

text \<open>One task changes.\<close>

lemma live_update: "live (p\<lparr>pv_tasks := (pv_tasks p)[i := t]\<rparr>) j \<longleftrightarrow>
    j < length (pv_tasks p) \<and> (if j = i then \<exists>point. t = Suspended point False else live p j)"
  by (cases "j = i") (auto simp: live_def)

lemma not_cancelled: "cancelled t \<noteq> Suspended point False"
  by (cases t) simp_all

lemma cancel_none_live:
  assumes "preview_ok p"
  shows "\<not> live (cancel_preview_task p) i"
proof (cases "pv_task p")
  case None
  then show ?thesis using preview_okD(1) [OF assms, of i] by (auto simp: cancel_preview_task_def)
next
  case (Some j)
  have "live (cancel_preview_task p) i = live (p\<lparr>pv_tasks := (pv_tasks p)[j := cancelled (pv_tasks p ! j)]\<rparr>) i"
    by (simp add: cancel_preview_task_def Some live_def)
  then show ?thesis using preview_okD(1) [OF assms, of i] Some
    by (cases "i = j") (auto simp: live_update not_cancelled)
qed

lemma cancel_none: "pv_task (cancel_preview_task p) = None"
  by (simp add: cancel_preview_task_def split: option.split)

lemma none_ok: "pv_task p = None \<Longrightarrow> (\<And>i. \<not> live p i) \<Longrightarrow> preview_ok p"
  by (rule preview_okI) simp_all

lemma stop_same: "live (stop_preview_loop p) = live (cancel_preview_task p)"
  by (simp add: stop_preview_loop_def live_def fun_eq_iff cancel_preview_task_def split: option.split)

lemma cancel_ok:
  assumes "preview_ok p"
  shows "preview_ok (cancel_preview_task p)" "preview_ok (stop_preview_loop p)"
    "preview_ok ((stop_preview_loop p)\<lparr>pv_provider := provider, pv_source := source\<rparr>)"
proof -
  show "preview_ok (cancel_preview_task p)" by (rule none_ok [OF cancel_none cancel_none_live [OF assms]])
  show stopped: "preview_ok (stop_preview_loop p)"
    using cancel_none_live [OF assms] by (intro none_ok) (simp_all add: stop_same, simp add: stop_preview_loop_def cancel_none)
  have "live ((stop_preview_loop p)\<lparr>pv_provider := provider, pv_source := source\<rparr>) = live (stop_preview_loop p)"
    by (rule live_cong) simp
  then show "preview_ok ((stop_preview_loop p)\<lparr>pv_provider := provider, pv_source := source\<rparr>)"
    using cancel_none_live [OF assms] by (intro none_ok) (simp_all add: stop_same, simp add: stop_preview_loop_def cancel_none)
qed

lemma set_preview_provider_ok:
  assumes "preview_ok p"
  shows "preview_ok (snd (set_preview_provider provider p))"
proof (cases provider)
  case (Provider k)
  then show ?thesis by (simp add: set_preview_provider_def preview_ok_cong [OF assms])
qed (simp_all add: set_preview_provider_def cancel_ok assms)

lemma provider_from_source_ok: "preview_ok p \<Longrightarrow> preview_ok (set_provider_from_source source p)"
  by (erule preview_ok_cong) (simp_all add: set_provider_from_source_def)

lemma create_ok:
  assumes "preview_ok p" "pv_enabled p" "pv_provider p \<noteq> None"
  shows "preview_ok (create_preview_task p)"
proof (cases "case pv_task p of None \<Rightarrow> True | Some i \<Rightarrow> pv_tasks p ! i = TaskDone")
  case True
  then have old: "\<not> live p i" for i
    using preview_okD(1) [OF assms(1), of i] by (cases "pv_task p") (auto simp: live_def)
  have "i = length (pv_tasks p)" if "live (create_preview_task p) i" for i
    using that old [of i] True by (auto simp: create_preview_task_def live_def nth_append split: if_splits)
  moreover have "pv_task (create_preview_task p) = Some (length (pv_tasks p))" "pv_enabled (create_preview_task p)"
    "pv_provider (create_preview_task p) \<noteq> None" "length (pv_tasks p) < length (pv_tasks (create_preview_task p))"
    using True assms(2,3) by (simp_all add: create_preview_task_def)
  ultimately show ?thesis by (intro preview_okI) auto
next
  case False
  then show ?thesis using assms(1) by (simp add: create_preview_task_def)
qed

lemma finished_ok: "preview_ok p \<Longrightarrow> preview_ok (media_player_finished source p)"
  by (simp add: media_player_finished_def cancel_ok)

text \<open>What does not touch the preview.\<close>

lemma preview_frame [simp]:
  "sc_preview (snd (sask q s)) = sc_preview s" "sc_preview (snd (on_rtc f s)) = sc_preview s"
  "sc_preview (log_stream e s) = sc_preview s" "sc_preview (snd (is_connected env s)) = sc_preview s"
  "sc_preview (stop_player s) = sc_preview s" "sc_preview (update_stream_state stream s) = sc_preview s"
  "sc_preview (on_preview g s) = g (sc_preview s)"
  by (simp_all add: sask_def on_rtc_def log_stream_def is_connected_def stop_player_def update_stream_state_def
      on_preview_def case_prod_beta split: option.split)

lemma ensure_ok: "preview_ok (sc_preview s) \<Longrightarrow> preview_ok (sc_preview (ensure_preview_task env s))"
  by (auto simp: ensure_preview_task_def case_prod_beta create_ok)

lemma settings_ok: "preview_ok p \<Longrightarrow> pv_provider p \<noteq> None \<Longrightarrow>
    preview_ok (p\<lparr>pv_interval := a, pv_retry_interval := b, pv_start_delay := c, pv_enabled := True\<rparr>)"
  by (erule preview_ok_cong) simp_all

lemma start_preview_loop_ok:
  assumes "preview_ok (sc_preview s)"
  shows "preview_ok (sc_preview (snd (start_preview_loop env provider a b c s)))"
proof -
  obtain r p where p: "(if provider = NoProvider then (Inr (), sc_preview s)
      else set_preview_provider provider (sc_preview s)) = (r, p)" by fastforce
  then have "preview_ok p"
    using assms set_preview_provider_ok [OF assms, of provider] by (auto split: if_splits)
  then show ?thesis using assms p
    by (cases r) (auto simp: start_preview_loop_def intro!: ensure_ok settings_ok)
qed

lemma source_changed_ok:
  "preview_ok (sc_preview s) \<Longrightarrow> preview_ok (sc_preview (snd (stream_source_changed env rq s)))"
  unfolding stream_source_changed_def
  by (rule bind_res_inv [where I = "\<lambda>s. preview_ok (sc_preview s)"])
    (auto simp: set_default_preview_provider_def Let_def intro!: ensure_ok provider_from_source_ok)

lemma stream_play_ok:
  assumes "preview_ok (sc_preview s)"
  shows "preview_ok (sc_preview (snd (stream_play env rq provider s)))"
  unfolding stream_play_def start_stream_player_def Let_def
  by (intro bind_res_inv [where I = "\<lambda>s. preview_ok (sc_preview s)"])
    (use assms in \<open>auto intro!: start_preview_loop_ok source_changed_ok provider_from_source_ok\<close>)

text \<open>A step of the preview task.\<close>

lemma suspend_ok:
  assumes "preview_ok (sc_preview s)" "live (sc_preview s) i"
  shows "preview_ok (sc_preview (suspend i point s))"
proof -
  let ?p = "(sc_preview s)\<lparr>pv_tasks := (pv_tasks (sc_preview s))[i := Suspended point False]\<rparr>"
  have live: "live (sc_preview s) j" if "live ?p j" for j using that assms(2) by (auto simp: live_update split: if_splits)
  have "preview_ok ?p"
  proof (rule preview_okI)
    fix j assume "live ?p j"
    note j = live [OF this]
    show "pv_task ?p = Some j" "pv_enabled ?p" "pv_provider ?p \<noteq> None" using preview_okD(1-3) [OF assms(1) j] by simp_all
  next
    fix j assume "pv_task ?p = Some j"
    then show "j < length (pv_tasks ?p)" using preview_okD(4) [OF assms(1), of j] by simp
  qed
  then show ?thesis by (simp add: suspend_def)
qed

lemma finish_ok:
  assumes "preview_ok (sc_preview s)"
  shows "preview_ok (sc_preview (finish_task i s))"
proof -
  let ?p = "(sc_preview s)\<lparr>pv_tasks := (pv_tasks (sc_preview s))[i := TaskDone]\<rparr>"
  let ?q = "?p\<lparr>pv_task := (if pv_task (sc_preview s) = Some i then None else pv_task (sc_preview s))\<rparr>"
  have live: "j \<noteq> i \<and> live (sc_preview s) j" if "live ?q j" for j
    using that live_cong [of ?q ?p] by (auto simp: live_update split: if_splits)
  have "preview_ok ?q"
  proof (rule preview_okI)
    fix j assume "live ?q j"
    with live have j: "j \<noteq> i" "live (sc_preview s) j" by blast+
    show "pv_task ?q = Some j" "pv_enabled ?q" "pv_provider ?q \<noteq> None" using j(1) preview_okD(1-3) [OF assms j(2)] by simp_all
  next
    fix j assume "pv_task ?q = Some j"
    then have "pv_task (sc_preview s) = Some j" by (simp split: if_splits)
    from preview_okD(4) [OF assms this] show "j < length (pv_tasks ?q)" by simp
  qed
  then show ?thesis by (simp add: finish_task_def)
qed

lemma preview_task_step_ok:
  assumes "preview_ok (sc_preview s)" "i < length (pv_tasks (sc_preview s))"
  shows "preview_ok (sc_preview (preview_task_step env i s))"
proof (cases "pv_tasks (sc_preview s) ! i")
  case (Suspended point is_cancelled)
  show ?thesis
  proof (cases is_cancelled)
    case False
    with Suspended assms(2) have "live (sc_preview s) i" by (simp add: live_def)
    with assms Suspended False show ?thesis
      by (cases point) (auto simp: preview_task_step_def preview_loop_top_def preview_read_def preview_uploaded_def Let_def
          case_prod_beta intro!: suspend_ok finish_ok split: option.split sum.split)
  qed (use assms Suspended in \<open>simp add: preview_task_step_def finish_ok\<close>)
qed (use assms in \<open>simp add: preview_task_step_def\<close>)

text \<open>
  What is documented of the base classes: they do not know the preview. \<open>connect\<close> and \<open>disconnect\<close>
  change it only through the methods they call back.
\<close>

definition quiet_base :: "('p, 'd) stream_client base_ops \<Rightarrow> bool" where
  "quiet_base ops \<longleftrightarrow>
     (\<forall>reconnect timeout connect s. (\<forall>s. sc_preview (snd (connect s)) = sc_preview s) \<longrightarrow>
        sc_preview (snd (bo_connect ops reconnect timeout connect s)) = sc_preview s)
     \<and> (\<forall>I force disconnect cleanup s. (\<forall>s. I (sc_preview s) \<longrightarrow> I (sc_preview (snd (disconnect s)))) \<longrightarrow>
          (\<forall>s. I (sc_preview s) \<longrightarrow> I (sc_preview (snd (cleanup s)))) \<longrightarrow> I (sc_preview s) \<longrightarrow>
          I (sc_preview (snd (bo_disconnect ops force disconnect cleanup s))))
     \<and> (\<forall>flow s. sc_preview (snd (bo_soft_disconnect ops flow s)) = sc_preview s)
     \<and> (\<forall>s. sc_preview (snd (bo_cleanup ops s)) = sc_preview s)"

lemma quiet_base_simps:
  assumes "quiet_base ops"
  shows "sc_preview (snd (bo_soft_disconnect ops flow s)) = sc_preview s" "sc_preview (snd (bo_cleanup ops s)) = sc_preview s"
    "(\<And>s. sc_preview (snd (connect s)) = sc_preview s) \<Longrightarrow>
       sc_preview (snd (bo_connect ops reconnect timeout connect s)) = sc_preview s"
  using assms by (simp_all add: quiet_base_def)

lemma quiet_disconnect:
  assumes "quiet_base ops" "\<And>s. preview_ok (sc_preview s) \<Longrightarrow> preview_ok (sc_preview (snd (disconnect s)))"
    "\<And>s. preview_ok (sc_preview s) \<Longrightarrow> preview_ok (sc_preview (snd (cleanup s)))" "preview_ok (sc_preview s)"
  shows "preview_ok (sc_preview (snd (bo_disconnect ops force disconnect cleanup s)))"
  using assms(1) [unfolded quiet_base_def, THEN conjunct2, THEN conjunct1, rule_format, where I = preview_ok] assms(2-4)
  by simp

lemma bind_preview:
  assumes "preview_ok (sc_preview (snd m))" "\<And>v t. preview_ok (sc_preview t) \<Longrightarrow> preview_ok (sc_preview (snd (k v t)))"
  shows "preview_ok (sc_preview (snd (bind_res m k)))"
  using assms by (auto intro: bind_res_inv [where I = "\<lambda>s. preview_ok (sc_preview s)"])

lemma transport_frame [simp]:
  "sc_preview (snd (stream_recreate_socket env flow s)) = sc_preview s"
  "sc_preview (snd (stream_voice_connect env s)) = sc_preview s"
  "sc_preview (snd (stream_voice_disconnect env s)) = sc_preview s"
proof -
  show recreate: "sc_preview (snd (stream_recreate_socket env flow s)) = sc_preview s" for flow s
    unfolding stream_recreate_socket_def Let_def case_prod_beta
    by (subst bind_res_keeps [where f = sc_preview]) simp_all
  show "sc_preview (snd (stream_voice_connect env s)) = sc_preview s"
    by (simp add: stream_voice_connect_def recreate)
  show "sc_preview (snd (stream_voice_disconnect env s)) = sc_preview s"
    by (simp add: stream_voice_disconnect_def Let_def case_prod_beta)
qed

lemma soft_disconnect_frame: "quiet_base ops \<Longrightarrow> sc_preview (snd (stream_soft_disconnect env ops flow s)) = sc_preview s"
  by (simp add: stream_soft_disconnect_def quiet_base_simps)

lemma unavailable_frame: "quiet_base ops \<Longrightarrow> sc_preview (snd (handle_unavailable env ops s)) = sc_preview s"
  by (simp add: handle_unavailable_def soft_disconnect_frame)

lemma server_update_frame:
  assumes "quiet_base ops"
  shows "sc_preview (snd (handle_server_update env ops data s)) = sc_preview s"
  using soft_disconnect_frame [OF assms]
  by (auto simp: handle_server_update_def Let_def bind_res_keeps [where f = sc_preview] split: prod.split option.split)

lemma cleanup_ok: "quiet_base ops \<Longrightarrow> preview_ok (sc_preview s) \<Longrightarrow> preview_ok (sc_preview (snd (stream_cleanup env ops s)))"
  unfolding stream_cleanup_def by (rule bind_preview) (simp_all add: quiet_base_simps cancel_ok)

lemma connect_ok: "quiet_base ops \<Longrightarrow> preview_ok (sc_preview s) \<Longrightarrow>
    preview_ok (sc_preview (snd (stream_connect env ops timeout reconnect s)))"
  unfolding stream_connect_def by (intro bind_preview) (simp_all add: quiet_base_simps ensure_ok)

lemma disconnect_preview_ok: "quiet_base ops \<Longrightarrow> preview_ok (sc_preview s) \<Longrightarrow>
    preview_ok (sc_preview (snd (stream_disconnect env ops force s)))"
  unfolding stream_disconnect_def Let_def case_prod_beta
  by (intro bind_preview quiet_disconnect) (simp_all add: cleanup_ok cancel_ok)

lemma from_gateway_ok: "quiet_base ops \<Longrightarrow> preview_ok (sc_preview s) \<Longrightarrow>
    preview_ok (sc_preview (snd (disconnect_from_gateway env ops s)))"
  by (simp add: disconnect_from_gateway_def Let_def case_prod_beta cleanup_ok disconnect_preview_ok)

lemma available_ok:
  assumes "quiet_base ops" "preview_ok (sc_preview s)"
  shows "preview_ok (sc_preview (snd (on_stream_available env ops stream s)))"
  unfolding on_stream_available_def on_stream_server_update_def Let_def case_prod_beta reconnect_if_wanted_def
  using assms by (intro bind_preview)
    (auto simp: server_update_frame cleanup_ok intro!: bind_preview connect_ok split: option.split)

lemma on_unavailable_ok:
  assumes "quiet_base ops" "preview_ok (sc_preview s)"
  shows "preview_ok (sc_preview (snd (on_stream_unavailable env ops stream s)))"
  unfolding on_stream_unavailable_def Let_def
  using assms by (auto simp: unavailable_frame cancel_ok from_gateway_ok intro!: bind_preview)

text \<open>One step: a call of the application or of the library, an event of the gateway, or a step of a task.\<close>

inductive stream_step ::
  "('p, 'd) stream_env \<Rightarrow> ('p, 'd) stream_client base_ops \<Rightarrow> ('p, 'd) stream_client \<Rightarrow> ('p, 'd) stream_client \<Rightarrow> bool"
for env ops where
  do_play: "stream_step env ops s (snd (stream_play env rq provider s))"
| do_start: "stream_step env ops s (snd (start_preview_loop env provider interval retry_interval start_delay s))"
| do_stop_preview: "stream_step env ops s (on_preview stop_preview_loop s)"
| do_set_provider: "stream_step env ops s (on_preview (\<lambda>p. snd (set_preview_provider provider p)) s)"
| do_source_changed: "stream_step env ops s (snd (stream_source_changed env rq s))"
| do_finished: "stream_step env ops s (stream_player_finished source s)"
| do_task: "i < length (pv_tasks (sc_preview s)) \<Longrightarrow> stream_step env ops s (preview_task_step env i s)"
| do_connect: "stream_step env ops s (snd (stream_connect env ops timeout reconnect s))"
| do_disconnect: "stream_step env ops s (snd (stream_disconnect env ops force s))"
| do_cleanup: "stream_step env ops s (snd (stream_cleanup env ops s))"
| do_available: "stream_step env ops s (snd (on_stream_available env ops stream s))"
| do_server_update: "stream_step env ops s (snd (on_stream_server_update env ops data s))"
| do_unavailable: "stream_step env ops s (snd (on_stream_unavailable env ops stream s))"
| do_update: "stream_step env ops s (on_stream_update stream s)"
| do_delete: "stream_step env ops s (snd (on_stream_delete env ops s))"
| do_transport: "stream_step env ops s (s\<lparr>sc_rtc := rtc\<rparr>)" \<comment> \<open>everything that is not the stream client's own\<close>

inductive stream_reachable ::
  "('p, 'd) stream_env \<Rightarrow> ('p, 'd) stream_client base_ops \<Rightarrow> ('p, 'd) stream_client \<Rightarrow> bool"
for env ops where
  reach_new_stream: "sc_preview s = new_preview \<Longrightarrow> stream_reachable env ops s"
| reach_stream_step: "stream_reachable env ops s \<Longrightarrow> stream_step env ops s t \<Longrightarrow> stream_reachable env ops t"

lemma stream_step_ok: "stream_step env ops s t \<Longrightarrow> quiet_base ops \<Longrightarrow> preview_ok (sc_preview s) \<Longrightarrow> preview_ok (sc_preview t)"
  by (induction rule: stream_step.induct)
    (simp_all add: stream_play_ok start_preview_loop_ok cancel_ok set_preview_provider_ok source_changed_ok
      stream_player_finished_def finished_ok preview_task_step_ok connect_ok disconnect_preview_ok cleanup_ok available_ok
      on_stream_server_update_def server_update_frame on_unavailable_ok on_stream_update_def on_stream_delete_def from_gateway_ok)

lemma new_preview_ok: "preview_ok new_preview"
  by (simp add: preview_ok_def live_def new_preview_def)

lemma reachable_preview_ok: "stream_reachable env ops s \<Longrightarrow> quiet_base ops \<Longrightarrow> preview_ok (sc_preview s)"
  by (induction rule: stream_reachable.induct) (simp_all add: new_preview_ok stream_step_ok)

lemma stopped_task_silent:
  assumes "preview_ok (sc_preview s)" "\<not> pv_enabled (sc_preview s)" "i < length (pv_tasks (sc_preview s))"
  shows "sc_log (preview_task_step env i s) = sc_log s"
proof (cases "pv_tasks (sc_preview s) ! i")
  case (Suspended point is_cancelled)
  then have is_cancelled using assms preview_okD(2) [OF assms(1), of i] by (cases is_cancelled) (simp_all add: live_def)
  then show ?thesis using Suspended by (simp add: preview_task_step_def finish_task_def on_preview_def)
qed (simp add: preview_task_step_def)


definition sample_stream_env :: "(unit, int list) stream_env" where
  "sample_stream_env =
     \<lparr>te_rtc = sample_rtc_env, te_qos = False, te_preview = (\<lambda>_ _. ReturnsImage [1, 2]), te_upload = (\<lambda>_ _. Inr ()),
      te_ws_close = (\<lambda>_. Inr ()), te_delete = (\<lambda>_. Inr ()), te_update = (\<lambda>_. None)\<rparr>"

definition sample_base :: "(unit, int list) stream_client base_ops" where
  "sample_base =
     \<lparr>bo_connect = (\<lambda>_ _ connect s. bind_res (connect s) (\<lambda>_ s. (Inr (), s\<lparr>sc_flow := FlowConnected\<rparr>))),
      bo_disconnect = (\<lambda>_ disconnect cleanup s. bind_res (disconnect s) (\<lambda>_ s. cleanup s)),
      bo_soft_disconnect = (\<lambda>flow s. (Inr (), s\<lparr>sc_flow := flow\<rparr>)), bo_cleanup = (\<lambda>s. (Inr (), s))\<rparr>"

definition sample_stream_info :: stream_info where
  "sample_stream_info =
     \<lparr>si_owner = True, si_paused = False, si_unavailable = False, si_rtc_channel_id = Some 7, si_rtc_server_id = Some 8\<rparr>"

definition sample_stream_client :: "(unit, int list) stream_client" where
  "sample_stream_client =
     \<lparr>sc_rtc = sample_rtc, sc_preview = new_preview, sc_stream = sample_stream_info, sc_flow = FlowConnected,
      sc_token = Some ''t'', sc_endpoint = Some ''e'', sc_channel_id = 7, sc_server_id = 8, sc_session_id = ''s'',
      sc_expecting_disconnect = False, sc_disconnected_event = False, sc_skip_delete = False, sc_timeout = 30,
      sc_reconnect = True, sc_reconnect_on_available = False, sc_log = []\<rparr>"

lemma sample_base_quiet: "quiet_base sample_base"
  unfolding quiet_base_def
proof (intro conjI allI impI)
  fix reconnect timeout and s :: "(unit, int list) stream_client"
    and connect :: "(unit, int list) stream_client \<Rightarrow> unit res \<times> (unit, int list) stream_client"
  assume "\<forall>s. sc_preview (snd (connect s)) = sc_preview s"
  then show "sc_preview (snd (bo_connect sample_base reconnect timeout connect s)) = sc_preview s"
    by (simp add: sample_base_def bind_res_keeps [where f = sc_preview])
next
  fix I force and s :: "(unit, int list) stream_client"
    and disconnect cleanup :: "(unit, int list) stream_client \<Rightarrow> unit res \<times> (unit, int list) stream_client"
  assume "\<forall>s. I (sc_preview s) \<longrightarrow> I (sc_preview (snd (disconnect s)))"
    "\<forall>s. I (sc_preview s) \<longrightarrow> I (sc_preview (snd (cleanup s)))" "I (sc_preview s)"
  then show "I (sc_preview (snd (bo_disconnect sample_base force disconnect cleanup s)))"
    by (simp add: sample_base_def bind_res_inv [where I = "\<lambda>s. I (sc_preview s)"])
qed (simp_all add: sample_base_def)

abbreviation (input) "restarted \<equiv>
  snd (start_preview_loop sample_stream_env NoProvider 300 60 (1 / 2)
    (on_preview stop_preview_loop (snd (start_preview_loop sample_stream_env (Provider 3) 300 60 (1 / 2) sample_stream_client))))"


section \<open>Receiving across a reconnect\<close>

text \<open>
  What is documented of the base classes: \<open>soft_disconnect\<close> puts the connection into the state it is
  given; \<open>connect\<close> reaches the transport only through \<open>_voice_connect\<close>. Neither knows the receive sinks.
\<close>

definition base_contract :: "('p, 'd) stream_client base_ops \<Rightarrow> bool" where
  "base_contract ops \<longleftrightarrow>
     (\<forall>flow s. fst (bo_soft_disconnect ops flow s) = Inr () \<and> sc_flow (snd (bo_soft_disconnect ops flow s)) = flow
        \<and> sc_reconnect (snd (bo_soft_disconnect ops flow s)) = sc_reconnect s
        \<and> lt_listener (rt_session (sc_rtc (snd (bo_soft_disconnect ops flow s)))) = lt_listener (rt_session (sc_rtc s)))
     \<and> (\<forall>I reconnect timeout connect s. (\<forall>s. I (sc_rtc s) \<longrightarrow> I (sc_rtc (snd (connect s)))) \<longrightarrow> I (sc_rtc s) \<longrightarrow>
          I (sc_rtc (snd (bo_connect ops reconnect timeout connect s))))"

lemma base_contractD:
  assumes "base_contract ops"
  shows "fst (bo_soft_disconnect ops flow s) = Inr ()" "sc_flow (snd (bo_soft_disconnect ops flow s)) = flow"
    "sc_reconnect (snd (bo_soft_disconnect ops flow s)) = sc_reconnect s"
    "lt_listener (rt_session (sc_rtc (snd (bo_soft_disconnect ops flow s)))) = lt_listener (rt_session (sc_rtc s))"
  using assms by (simp_all add: base_contract_def)

lemma base_connect_keeps:
  assumes "base_contract ops" "\<And>s. I (sc_rtc s) \<Longrightarrow> I (sc_rtc (snd (connect s)))" "I (sc_rtc s)"
  shows "I (sc_rtc (snd (bo_connect ops reconnect timeout connect s)))"
  using assms(1) [unfolded base_contract_def, THEN conjunct2, rule_format, where I = I] assms(2,3) by simp

text \<open>The client listens, and its transport has no listener for it.\<close>

definition deaf_transport :: "connection \<Rightarrow> bool" where
  "deaf_transport c \<longleftrightarrow> (\<exists>i. cn_socket c = Some i \<and> i < length (cn_transports c)
     \<and> (\<forall>l \<in> set (ut_listeners (cn_transports c ! i)). ul_callback l \<noteq> HandleSocketPackets))"

definition deaf :: "('p, 'd) rtc \<Rightarrow> bool" where
  "deaf s \<longleftrightarrow> lt_listener (rt_session s) \<and> deaf_transport (rt_conn s)"

lemma deaf_received: "deaf_transport c \<Longrightarrow> HandleSocketPackets \<notin> set (received_by rtcp c)"
  by (fastforce simp: deaf_transport_def received_by_def dispatch_udp_packets_def split: if_splits)

lemma create_socket_deaf: "deaf_transport (snd (create_socket (Inr ()) qos c))"
  by (simp add: create_socket_def deaf_transport_def new_udp_transport_def)

lemma feedback_deaf:
  assumes "deaf_transport c"
  shows "deaf_transport (snd (register_callback HandleRtcpPacket c))" "deaf_transport (snd (remove_socket_listener cb c))"
    "deaf_transport (start_udp_ping a b d c)"
  using assms by (auto simp: deaf_transport_def add_rtcp_listener_def add_listener_def with_socket_def transport_add_listener_def
      remove_socket_listener_def change_transport_def transport_remove_listener_def start_udp_ping_def transport_start_ping_def
      split: option.split)

lemma on_send_deaf: "deaf s \<Longrightarrow> deaf (snd (on_send f s))"
  by (simp add: deaf_def on_send_def on_session_def follow_listeners_def switch_callback_def switch_listener_def
      listening_on_def case_prod_beta Let_def feedback_deaf feedback_deaf(1) [simplified])

lemma rask_deaf: "deaf s \<Longrightarrow> deaf (snd (rask q s))"
  by (simp add: deaf_def)

lemma deaf_bind:
  assumes "deaf (snd m)" "\<And>v s. deaf s \<Longrightarrow> deaf (snd (k v s))"
  shows "deaf (snd (bind_res m k))"
  using assms by (auto intro: bind_res_inv [where I = deaf])

lemma finish_connect_deaf: "deaf s \<Longrightarrow> deaf (snd (finish_connect env s))"
  unfolding finish_connect_def Let_def case_prod_beta rtc_connected_def send_receiver_report_of_def
  by (auto intro!: deaf_bind on_send_deaf rask_deaf split: option.split)
    (simp_all add: deaf_def rtc_start_ping_def feedback_deaf)

lemma recreate_deaf:
  assumes "\<And>t. ne_bind (xe_net (te_rtc env)) t = Inr ()" "lt_listener (rt_session (sc_rtc s))"
  shows "deaf (sc_rtc (snd (stream_recreate_socket env flow s)))"
proof -
  have "lt_listener (rt_session (sc_rtc (snd (sask q s)))) = lt_listener (rt_session (sc_rtc s))" for q :: "nat \<Rightarrow> 'c"
    by (simp add: sask_def case_prod_beta)
  then show ?thesis using assms
    by (simp add: stream_recreate_socket_def recreate_socket_def case_prod_beta Let_def deaf_def create_socket_deaf
        bind_res_keeps [where f = sc_rtc] sask_def rask_def create_socket_def deaf_transport_def new_udp_transport_def
        lask_def cask_def vask_def)
qed

lemma stop_player_rtc: "rt_session (sc_rtc (stop_player s)) = rt_session (sc_rtc s)"
    "rt_conn (sc_rtc (stop_player s)) = rt_conn (sc_rtc s)"
    "sc_reconnect (stop_player s) = sc_reconnect s"
  by (simp_all add: stop_player_def log_stream_def split: option.split)

lemma on_rtc_session:
  assumes "client_ok (sc_rtc s)"
  shows "\<exists>t. on_rtc (on_session f) s = (fst (f (rt_session (sc_rtc s))), t) \<and> client_ok (sc_rtc t)
    \<and> rt_session (sc_rtc t) = snd (f (rt_session (sc_rtc s))) \<and> sc_reconnect t = sc_reconnect s"
  using on_session_result [OF assms, of f] on_session_ok [OF assms, of f]
  by (auto simp: on_rtc_def on_session_def case_prod_beta Let_def)

lemma unavailable_keeps_listening:
  assumes "client_ok (sc_rtc s)" "base_contract ops" "sc_reconnect s"
  shows "sc_flow (snd (on_stream_unavailable env ops stream s)) = FlowDisconnected"
    "sc_reconnect (snd (on_stream_unavailable env ops stream s))"
    "lt_listener (rt_session (sc_rtc (snd (on_stream_unavailable env ops stream s)))) = lt_listener (rt_session (sc_rtc s))"
proof -
  define u where "u = on_preview cancel_preview_task (stop_player (update_stream_state stream s))"
  have u: "client_ok (sc_rtc u)" "sc_reconnect u" "rt_session (sc_rtc u) = rt_session (sc_rtc s)"
    using assms(1,3) client_ok_cong [of "sc_rtc s" "sc_rtc u"]
    by (simp_all add: u_def on_preview_def stop_player_rtc update_stream_state_def)
  obtain v where v: "on_rtc rtc_stop_feedback u = (Inr (), v)" "client_ok (sc_rtc v)" "sc_reconnect v"
      "lt_listener (rt_session (sc_rtc v)) = lt_listener (rt_session (sc_rtc s))"
    using on_rtc_session [OF u(1), of "\<lambda>session. let (r, send) = (Inr (), stop_rtcp_feedback_listener (cl_send (lt_client session)))
        in (r, session\<lparr>lt_client := (lt_client session)\<lparr>cl_send := send\<rparr>\<rparr>)"] u(2,3)
    unfolding rtc_stop_feedback_def [abs_def] on_send_def [abs_def] by auto
  obtain w where w: "on_rtc (on_session (\<lambda>session. (Inr (), reset_receive_transport_state session))) v = (Inr (), w)"
      "sc_reconnect w" "lt_listener (rt_session (sc_rtc w)) = lt_listener (rt_session (sc_rtc s))"
    using on_rtc_session [OF v(2), of "\<lambda>session. (Inr (), reset_receive_transport_state session)"] v(3,4) by auto
  have eq: "on_stream_unavailable env ops stream s = handle_unavailable env ops (w\<lparr>sc_reconnect_on_available := True\<rparr>)"
    using assms(3) v(1) w(1) by (simp add: on_stream_unavailable_def Let_def update_stream_state_def u_def [symmetric, unfolded update_stream_state_def])
  show "sc_flow (snd (on_stream_unavailable env ops stream s)) = FlowDisconnected"
    "sc_reconnect (snd (on_stream_unavailable env ops stream s))"
    "lt_listener (rt_session (sc_rtc (snd (on_stream_unavailable env ops stream s)))) = lt_listener (rt_session (sc_rtc s))"
    using w(2,3) unfolding eq
    by (simp_all add: handle_unavailable_def stream_soft_disconnect_def base_contractD [OF assms(2)] rtc_stop_ping_def
        case_prod_beta Let_def)
qed

lemma sask_frame [simp]:
  "lt_listener (rt_session (sc_rtc (snd (sask q s)))) = lt_listener (rt_session (sc_rtc s))"
  "sc_flow (snd (sask q s)) = sc_flow s" "sc_reconnect (snd (sask q s)) = sc_reconnect s" "sc_stream (snd (sask q s)) = sc_stream s"
  "deaf (sc_rtc (snd (sask q s))) = deaf (sc_rtc s)"
  by (simp_all add: sask_def case_prod_beta deaf_def)

lemma stream_connect_deaf:
  assumes "\<And>t. ne_bind (xe_net (te_rtc env)) t = Inr ()" "base_contract ops" "deaf (sc_rtc s)"
  shows "deaf (sc_rtc (snd (stream_connect env ops timeout reconnect s)))"
proof -
  have voice: "deaf (sc_rtc (snd (stream_voice_connect env s)))" if "deaf (sc_rtc s)" for s
    using that recreate_deaf [OF assms(1)] by (simp add: stream_voice_connect_def deaf_def)
  have "deaf (sc_rtc (snd (bo_connect ops r t (stream_voice_connect env) (s\<lparr>sc_timeout := a, sc_reconnect := b\<rparr>))))" for r t a b
    by (rule base_connect_keeps [OF assms(2), where I = deaf]) (simp_all add: voice assms(3))
  then show ?thesis
    unfolding stream_connect_def
    by (intro bind_res_inv [where I = "\<lambda>s. deaf (sc_rtc s)"])
      (simp_all add: on_rtc_def case_prod_beta finish_connect_deaf ensure_preview_task_def is_connected_def on_preview_def Let_def)
qed

lemma server_update_deaf:
  assumes "\<And>t. ne_bind (xe_net (te_rtc env)) t = Inr ()" "sc_flow s = FlowDisconnected" "\<not> si_unavailable (sc_stream s)"
    "lt_listener (rt_session (sc_rtc s))"
  shows "deaf (sc_rtc (snd (on_stream_server_update env ops (Some token, Some endpoint) s)))"
  using recreate_deaf [OF assms(1)] assms(2-4) by (simp add: on_stream_server_update_def handle_server_update_def Let_def)

lemma server_update_reconnect:
  assumes "sc_flow s = FlowDisconnected"
  shows "sc_reconnect (snd (on_stream_server_update env ops (Some token, Some endpoint) s)) = sc_reconnect s"
proof -
  have "sc_reconnect (snd (stream_recreate_socket env flow s)) = sc_reconnect s" for flow s
    by (simp add: stream_recreate_socket_def case_prod_beta Let_def bind_res_keeps [where f = sc_reconnect])
  then show ?thesis using assms by (simp add: on_stream_server_update_def handle_server_update_def Let_def)
qed

lemma reconnect_deaf:
  assumes "\<And>t. ne_bind (xe_net (te_rtc env)) t = Inr ()" "base_contract ops" "deaf (sc_rtc s)" "sc_reconnect s"
  shows "deaf (sc_rtc (snd (reconnect_if_wanted env ops s)))"
proof -
  have "deaf (sc_rtc (snd (stream_connect env ops timeout reconnect (snd (sask q s)))))" for timeout reconnect and q :: "nat \<Rightarrow> bool"
    by (rule stream_connect_deaf) (simp_all add: assms)
  then show ?thesis using assms(3,4)
    by (simp add: reconnect_if_wanted_def is_connected_def case_prod_beta Let_def bind_res_keeps [where f = "\<lambda>s. deaf (sc_rtc s)"])
qed

text \<open>
  C26. A stream that becomes unavailable and comes back leaves the client deaf: it still takes itself to
  be listening, as it was before, when its socket handed it every RTP packet; but the socket of the new
  connection has no listener for it, so no packet reaches the sinks, whether the reconnect succeeds
  or not.
\<close>

theorem stream_reconnect_loses_listener:
  assumes "rtc_reachable (te_rtc env) (sc_rtc s)" "lt_listener (rt_session (sc_rtc s))" "sc_reconnect s"
    "base_contract ops" "\<And>t. ne_bind (xe_net (te_rtc env)) t = Inr ()"
    "\<And>t. te_update env t = Some (Some token, Some endpoint)" "\<not> si_unavailable stream'"
  shows "HandleSocketPackets \<in> set (received_by False (rt_conn (sc_rtc s)))
    \<and> (let after = snd (on_stream_available env ops stream' (snd (on_stream_unavailable env ops stream s)))
       in lt_listener (rt_session (sc_rtc after)) \<and> HandleSocketPackets \<notin> set (received_by False (rt_conn (sc_rtc after))))"
proof -
  note ok = reachable_client_ok [OF assms(1)]
  have "filter (\<lambda>cb. cb = HandleSocketPackets) (received_by False (rt_conn (sc_rtc s))) = [HandleSocketPackets]"
    using ok received_by_own assms(2) by (auto simp: client_ok_def)
  then have before: "HandleSocketPackets \<in> set (received_by False (rt_conn (sc_rtc s)))"
    using filter_set [of "\<lambda>cb. cb = HandleSocketPackets" "received_by False (rt_conn (sc_rtc s))"] by auto
  note lost = unavailable_keeps_listening [OF ok assms(4,3), of env stream]
  define u where "u = snd (sask (te_update env) (update_stream_state stream' (snd (on_stream_unavailable env ops stream s))))"
  have u: "sc_flow u = FlowDisconnected" "sc_reconnect u" "lt_listener (rt_session (sc_rtc u))" "\<not> si_unavailable (sc_stream u)"
    using lost assms(2,7) by (simp_all add: u_def update_stream_state_def)
  have update: "fst (sask (te_update env) s) = Some (Some token, Some endpoint)" for s
    using assms(6) by (simp add: sask_def rask_def lask_def cask_def vask_def case_prod_beta)
  define after where "after = snd (on_stream_available env ops stream' (snd (on_stream_unavailable env ops stream s)))"
  have eq: "after = snd (bind_res (on_stream_server_update env ops (Some token, Some endpoint) u)
      (\<lambda>_ s. reconnect_if_wanted env ops s))"
    by (simp add: after_def on_stream_available_def case_prod_beta Let_def update u_def)
  have "deaf (sc_rtc after)"
    unfolding eq using server_update_deaf [OF assms(5) u(1,4,3)] server_update_reconnect [OF u(1)] u(2)
    by (intro bind_res_inv [where I = "\<lambda>s. deaf (sc_rtc s)"]) (auto intro: reconnect_deaf [OF assms(5,4)])
  then show ?thesis using before deaf_received by (auto simp: deaf_def Let_def after_def)
qed

lemma sample_base_contract: "base_contract sample_base"
  unfolding base_contract_def
proof (intro conjI allI impI)
  fix I reconnect timeout and s :: "(unit, int list) stream_client"
    and connect :: "(unit, int list) stream_client \<Rightarrow> unit res \<times> (unit, int list) stream_client"
  assume "\<forall>s. I (sc_rtc s) \<longrightarrow> I (sc_rtc (snd (connect s)))" "I (sc_rtc s)"
  then show "I (sc_rtc (snd (bo_connect sample_base reconnect timeout connect s)))"
    by (simp add: sample_base_def bind_res_inv [where I = "\<lambda>s. I (sc_rtc s)"])
qed (simp_all add: sample_base_def)

abbreviation (input) "listening_client \<equiv>
  sample_stream_client\<lparr>sc_rtc := snd (on_session (listen sample_listen_env (TargetCallback 0) None True) sample_rtc)\<rparr>"

abbreviation (input) "updated_env \<equiv> sample_stream_env\<lparr>te_update := \<lambda>_. Some (Some ''u'', Some ''e'')\<rparr>"

theorem stream_reconnect_loses_listener_witness:
  "lt_listener (rt_session (sc_rtc listening_client))
   \<and> HandleSocketPackets \<notin> set (received_by False (rt_conn (sc_rtc (snd (on_stream_available updated_env sample_base
       sample_stream_info (snd (on_stream_unavailable updated_env sample_base sample_stream_info listening_client)))))))"
proof -
  have "rtc_reachable sample_rtc_env sample_rtc"
    by (rule reach_new_rtc [where qos = False])
      (simp_all add: sample_rtc_def create_socket_def sample_session_def new_session_def new_client_def sample_sender_def
        new_video_send_def)
  from reach_rtc_step [OF this step_session [of _ _ "listen sample_listen_env (TargetCallback 0) None True"]]
  have reachable: "rtc_reachable (te_rtc updated_env) (sc_rtc listening_client)" by (simp add: sample_stream_env_def)
  have "lt_listener (snd (listen sample_listen_env (TargetCallback 0) None True sample_session))"
    using sample_connected [of sample_session]
    by (auto simp: listen_def Let_def case_prod_beta is_listening_def sample_session_def new_session_def begin_listening_def
        note_event_def start_video_nack_retry_thread_def lask_def)
  then have listens: "lt_listener (rt_session (sc_rtc listening_client))"
    by (simp add: on_session_def case_prod_beta sample_rtc_def)
  have "let after = snd (on_stream_available updated_env sample_base sample_stream_info
          (snd (on_stream_unavailable updated_env sample_base sample_stream_info listening_client)))
    in lt_listener (rt_session (sc_rtc after)) \<and> HandleSocketPackets \<notin> set (received_by False (rt_conn (sc_rtc after)))"
    by (rule stream_reconnect_loses_listener [OF reachable listens _ sample_base_contract, where token = "''u''" and
          endpoint = "''e''", THEN conjunct2])
      (simp_all add: sample_stream_client_def sample_stream_env_def sample_rtc_env_def sample_stream_info_def)
  then show ?thesis using listens by (simp add: Let_def)
qed

end
