(* ===== verification/StreamConfig.thy ===== *)
theory StreamConfig
  imports Codecs StreamClient
begin

text \<open>
  The configuration of a stream client (the first part of \<open>stream_client.py\<close>): its class with the
  options it inherits from the parent voice client, what an instance takes over from the parent, the
  codecs it offers, and the state its connection starts with.
\<close>

section \<open>The class\<close>

record stream_class =
  st_class :: client_class
  st_inherit_codecs :: bool
  st_inherit_rtx :: bool
  st_inherit_qos :: bool
  st_inherit_debug :: bool

text \<open>\<open>VoiceStream.screen(quality=100)\<close> is an argument: its other fields are the library's defaults.\<close>

definition stream_client_class :: "VoiceCodec \<Rightarrow> VoiceStream \<Rightarrow> VoiceStream \<Rightarrow> stream_class" where
  "stream_client_class opus stream screen =
     \<lparr>st_class = (voice_client_class opus stream)
        \<lparr>cls_stream_type := ''screen'', cls_streams := [screen\<lparr>vs_quality := 100\<rparr>]\<rparr>,
      st_inherit_codecs = True, st_inherit_rtx = True, st_inherit_qos = True, st_inherit_debug = True\<rparr>"

text \<open>\<open>_configured_client_subclass\<close> for a stream class.\<close>

definition configured_stream_subclass :: "stream_class \<Rightarrow> stream_class \<Rightarrow> string list \<Rightarrow> stream_class" where
  "configured_stream_subclass cls attrs suffixes =
     (if attrs = cls then cls
      else attrs\<lparr>st_class := (st_class attrs)\<lparr>cls_suffixes := cls_suffixes (st_class cls) @ unique_order suffixes\<rparr>\<rparr>)"

definition stream_attrs ::
  "stream_class \<Rightarrow> bool option \<Rightarrow> bool option \<Rightarrow> VoiceCodec list option \<Rightarrow> VoiceStream list option
     \<Rightarrow> string option \<Rightarrow> bool option \<Rightarrow> VoiceCodec list \<Rightarrow> stream_class"
where
  "stream_attrs cls rtx qos codecs streams executable debug specs =
     (let c = st_class cls in
      cls\<lparr>st_class :=
             c\<lparr>cls_rtx := (case rtx of None \<Rightarrow> cls_rtx c | Some r \<Rightarrow> r),
               cls_qos := (case qos of None \<Rightarrow> cls_qos c | Some q \<Rightarrow> q),
               cls_specs := specs,
               cls_auto_capabilities := cls_auto_capabilities c \<and> codecs = None,
               cls_auto_priority := cls_auto_priority c \<and> codecs = None,
               cls_streams := (case streams of None \<Rightarrow> cls_streams c | Some ss \<Rightarrow> normalize_video_streams c ss),
               cls_ffmpeg := (case executable of None \<Rightarrow> cls_ffmpeg c | Some e \<Rightarrow> e),
               cls_debug := (case debug of None \<Rightarrow> cls_debug c | Some d \<Rightarrow> d)\<rparr>,
          st_inherit_rtx := st_inherit_rtx cls \<and> rtx = None,
          st_inherit_qos := st_inherit_qos cls \<and> qos = None,
          st_inherit_debug := st_inherit_debug cls \<and> debug = None,
          st_inherit_codecs := st_inherit_codecs cls \<and> codecs = None \<and> executable = None\<rparr>)"

definition stream_suffixes ::
  "stream_class \<Rightarrow> stream_class \<Rightarrow> bool option \<Rightarrow> bool option \<Rightarrow> VoiceCodec list option \<Rightarrow> bool option \<Rightarrow> string list"
where
  "stream_suffixes cls attrs rtx qos codecs debug =
     (case rtx of None \<Rightarrow> [] | Some r \<Rightarrow> [if r then ''WithRTX'' else ''WithoutRTX''])
     @ (case qos of None \<Rightarrow> [] | Some q \<Rightarrow> [if q then ''WithQoS'' else ''WithoutQoS''])
     @ (if codecs = None then [] else [''WithCodecs''])
     @ (if cls_streams (st_class attrs) \<noteq> cls_streams (st_class cls) then [''WithVideoStreams''] else [])
     @ (if cls_ffmpeg (st_class attrs) \<noteq> cls_ffmpeg (st_class cls) then [''WithFFmpeg''] else [])
     @ (case debug of None \<Rightarrow> [] | Some d \<Rightarrow> [if d then ''WithDebugStats'' else ''WithoutDebugStats''])"

definition stream_with_config ::
  "stream_class \<Rightarrow> bool option \<Rightarrow> bool option \<Rightarrow> VoiceCodec list option \<Rightarrow> VoiceStream list option
     \<Rightarrow> string option \<Rightarrow> bool option \<Rightarrow> stream_class res"
where
  "stream_with_config cls rtx qos codecs streams executable debug =
     (if rtx = None \<and> qos = None \<and> codecs = None \<and> streams = None \<and> executable = None \<and> debug = None then Inr cls
      else
        and_then (case codecs of None \<Rightarrow> Inr (cls_specs (st_class cls)) | Some cs \<Rightarrow> normalize_voice_codecs cs) (\<lambda>specs.
          let attrs = stream_attrs cls rtx qos codecs streams executable debug specs
          in Inr (configured_stream_subclass cls attrs (stream_suffixes cls attrs rtx qos codecs debug))))"


section \<open>The instance\<close>

text \<open>What the options of a client are once it exists: the class's, or an attribute of its own.\<close>

record client_settings =
  ps_class :: client_class
  ps_rtx :: bool
  ps_qos :: bool
  ps_debug :: bool

definition stream_settings :: "stream_class \<Rightarrow> client_settings \<Rightarrow> client_settings" where
  "stream_settings cls parent =
     \<lparr>ps_class = st_class cls,
      ps_rtx = (if st_inherit_rtx cls then ps_rtx parent else cls_rtx (st_class cls)),
      ps_qos = (if st_inherit_qos cls then ps_qos parent else cls_qos (st_class cls)),
      ps_debug = (if st_inherit_debug cls then ps_debug parent else cls_debug (st_class cls))\<rparr>"

text \<open>The codecs of the stream, and the key the tables made from them are kept with.\<close>

definition codec_client :: "stream_class \<Rightarrow> client_settings \<Rightarrow> client_settings \<Rightarrow> client_settings" where
  "codec_client cls parent own = (if st_inherit_codecs cls then parent else own)"

definition rtx_client :: "stream_class \<Rightarrow> client_settings \<Rightarrow> client_settings \<Rightarrow> client_settings" where
  "rtx_client cls parent own = (if st_inherit_rtx cls then parent else own)"

definition stream_codecs ::
  "ffmpeg_system \<Rightarrow> stream_class \<Rightarrow> client_settings \<Rightarrow> client_settings \<Rightarrow> codec_caches
     \<Rightarrow> VoiceCodec list res \<times> codec_caches"
where
  "stream_codecs sys cls parent own caches =
     get_voice_codecs sys (ps_class (codec_client cls parent own)) False (Some (ps_rtx (rtx_client cls parent own))) None caches"

definition stream_codec_cache_key ::
  "stream_class \<Rightarrow> client_settings \<Rightarrow> client_settings \<Rightarrow> client_class \<times> VoiceCodec list \<times> bool \<times> bool \<times> string \<times> bool"
where
  "stream_codec_cache_key cls parent own =
     (let codec_cls = ps_class (codec_client cls parent own)
      in (codec_cls, cls_specs codec_cls, cls_auto_capabilities codec_cls, cls_auto_priority codec_cls, cls_ffmpeg codec_cls,
          ps_rtx (rtx_client cls parent own)))"

text \<open>\<open>create_connection_state\<close>: channel, server and session of the new connection.\<close>

definition create_connection_state :: "string option \<Rightarrow> stream_info \<Rightarrow> (int \<times> int \<times> string) res" where
  "create_connection_state session_id stream =
     (case session_id of
        None \<Rightarrow> Inl ClientException
      | Some session \<Rightarrow>
          (case (si_rtc_channel_id stream, si_rtc_server_id stream) of
             (Some channel, Some server) \<Rightarrow> Inr (channel, server, session)
           | _ \<Rightarrow> Inl ClientException))"

definition dave_group_id :: "('p, 'd) stream_client \<Rightarrow> int" where
  "dave_group_id s = sc_server_id s - 1"

text \<open>
  \<open>StreamClient.__init__\<close>, for a parent that is a native voice client or is not; the media, audio and
  connection halves are those of a new voice client, the flow state is the library's.
\<close>

definition new_stream_client ::
  "bool \<Rightarrow> ('p, 'd) rtc \<Rightarrow> string option \<Rightarrow> stream_info \<Rightarrow> ('p, 'd) stream_client res"
where
  "new_stream_client native rtc session_id stream =
     (if \<not> native then Inl TypeError else
      and_then (create_connection_state session_id stream) (\<lambda>(channel, server, session).
       Inr \<lparr>sc_rtc = rtc, sc_preview = new_preview, sc_stream = stream, sc_flow = FlowDisconnected, sc_token = None,
            sc_endpoint = None, sc_channel_id = channel, sc_server_id = server, sc_session_id = session,
            sc_expecting_disconnect = False, sc_disconnected_event = False, sc_skip_delete = False, sc_timeout = 30,
            sc_reconnect = True, sc_reconnect_on_available = False, sc_log = []\<rparr>))"


section \<open>Options and the parent\<close>

lemma stream_attrs_again:
  "stream_attrs (configured_stream_subclass cls (stream_attrs cls rtx qos codecs streams executable debug specs) suffixes)
       rtx qos codecs streams executable debug specs
     = configured_stream_subclass cls (stream_attrs cls rtx qos codecs streams executable debug specs) suffixes"
  by (cases "stream_attrs cls rtx qos codecs streams executable debug specs = cls")
    (simp_all add: configured_stream_subclass_def stream_attrs_def Let_def normalize_video_streams_def split: option.split)

lemma configured_simps [simp]:
  "st_inherit_rtx (configured_stream_subclass cls attrs suffixes) = st_inherit_rtx attrs"
  "st_inherit_qos (configured_stream_subclass cls attrs suffixes) = st_inherit_qos attrs"
  "st_inherit_debug (configured_stream_subclass cls attrs suffixes) = st_inherit_debug attrs"
  "st_inherit_codecs (configured_stream_subclass cls attrs suffixes) = st_inherit_codecs attrs"
  "cls_rtx (st_class (configured_stream_subclass cls attrs suffixes)) = cls_rtx (st_class attrs)"
  "cls_qos (st_class (configured_stream_subclass cls attrs suffixes)) = cls_qos (st_class attrs)"
  "cls_debug (st_class (configured_stream_subclass cls attrs suffixes)) = cls_debug (st_class attrs)"
  "cls_specs (st_class (configured_stream_subclass cls attrs suffixes)) = cls_specs (st_class attrs)"
  by (simp_all add: configured_stream_subclass_def)

lemma stream_with_config_cases:
  assumes "stream_with_config cls rtx qos codecs streams executable debug = Inr c"
  obtains (same) "c = cls" "rtx = None" "qos = None" "codecs = None" "streams = None" "executable = None" "debug = None"
  | (new) specs suffixes where "c = configured_stream_subclass cls (stream_attrs cls rtx qos codecs streams executable debug specs) suffixes"
      "codecs = None \<Longrightarrow> specs = cls_specs (st_class cls)"
      "\<And>cs. codecs = Some cs \<Longrightarrow> normalize_voice_codecs cs = Inr specs"
      "\<not> (rtx = None \<and> qos = None \<and> codecs = None \<and> streams = None \<and> executable = None \<and> debug = None)"
  using assms unfolding stream_with_config_def Let_def
  by (cases codecs) (simp_all add: and_then_Inr split: if_splits; blast)+

lemma stream_config_again:
  assumes "stream_with_config cls rtx qos codecs streams executable debug = Inr c"
  shows "stream_with_config c rtx qos codecs streams executable debug = Inr c"
  using assms
proof (cases rule: stream_with_config_cases)
  case same
  then show ?thesis by (simp add: stream_with_config_def)
next
  case (new specs suffixes)
  have "cls_specs (st_class c) = specs" by (simp add: new(1) stream_attrs_def Let_def)
  then have "(case codecs of None \<Rightarrow> Inr (cls_specs (st_class c)) | Some cs \<Rightarrow> normalize_voice_codecs cs) = Inr specs"
    using new(3) by (cases codecs) simp_all
  moreover have "stream_attrs c rtx qos codecs streams executable debug specs = c" using stream_attrs_again by (simp add: new(1))
  ultimately show ?thesis using new(4) by (simp add: stream_with_config_def configured_stream_subclass_def [of c])
qed



end
